(* ===== verification/Py_Prelude.thy ===== *)
theory Py_Prelude
  imports Main "HOL-Library.AList"
begin

text \<open>
  Shared vocabulary of the development: the exceptions of the modelled Python code, an
  exception-and-state monad in which every effectful operation is written, its weakest
  preconditions, Python text normalisation, and the insertion-ordered dictionaries.

  An exception is modelled by its class and the constant part of its message: values that
  the source interpolates into a message (identifiers, field paths, counts) are dropped,
  except field names, and the chained \<open>__cause__\<close> is not kept.  Text is a
  \<^typ>\<open>string\<close> whose characters are the code points U+0000 to U+00FF.
\<close>

section \<open>Exceptions\<close>

datatype ReplayRiskDisposition = RISK_ALLOW | RISK_DENY

record ReplayRiskAssessment =
  ra_disposition :: ReplayRiskDisposition
  ra_policy_id :: string
  ra_sanitized_reason :: "string option"

datatype exn =
    ValueError string
  | TypeError string
  | KeyError string
  | RuntimeError string
  | LookupError string
  | AttributeError string
  | ZeroDivisionError
  | OverflowError string
  | ReplayRiskRejectedError string ReplayRiskAssessment
  | ForeignError string

text \<open>The class name of an exception, as \<open>type(error).__name__\<close> gives it.  A
  \<open>ForeignError\<close> is an exception class of code outside the repository, by its name.\<close>

fun exn_type_name :: "exn \<Rightarrow> string" where
  "exn_type_name (ValueError _) = ''ValueError''"
| "exn_type_name (TypeError _) = ''TypeError''"
| "exn_type_name (KeyError _) = ''KeyError''"
| "exn_type_name (RuntimeError _) = ''RuntimeError''"
| "exn_type_name (LookupError _) = ''LookupError''"
| "exn_type_name (AttributeError _) = ''AttributeError''"
| "exn_type_name ZeroDivisionError = ''ZeroDivisionError''"
| "exn_type_name (OverflowError _) = ''OverflowError''"
| "exn_type_name (ReplayRiskRejectedError _ _) = ''ReplayRiskRejectedError''"
| "exn_type_name (ForeignError n) = n"

section \<open>Pure fallible code: the sum type\<close>

type_synonym 'a res = "exn + 'a"

definition rbind :: "'a res \<Rightarrow> ('a \<Rightarrow> 'b res) \<Rightarrow> 'b res" where
  "rbind m f = (case m of Inl e \<Rightarrow> Inl e | Inr x \<Rightarrow> f x)"

definition check :: "bool \<Rightarrow> exn \<Rightarrow> unit res" where
  "check b e = (if b then Inr () else Inl e)"

definition ropt :: "('a \<Rightarrow> 'b res) \<Rightarrow> 'a option \<Rightarrow> 'b option res" where
  "ropt f x = (case x of None \<Rightarrow> Inr None
     | Some v \<Rightarrow> (case f v of Inl e \<Rightarrow> Inl e | Inr w \<Rightarrow> Inr (Some w)))"

fun rmap :: "('a \<Rightarrow> 'b res) \<Rightarrow> 'a list \<Rightarrow> 'b list res" where
  "rmap f [] = Inr []"
| "rmap f (x # xs) = (case f x of Inl e \<Rightarrow> Inl e
     | Inr y \<Rightarrow> (case rmap f xs of Inl e \<Rightarrow> Inl e | Inr ys \<Rightarrow> Inr (y # ys)))"

text \<open>A loop over a list whose body updates local variables and may raise.\<close>

fun rfold :: "('x \<Rightarrow> 'a \<Rightarrow> 'a res) \<Rightarrow> 'x list \<Rightarrow> 'a \<Rightarrow> 'a res" where
  "rfold f [] a = Inr a"
| "rfold f (x # xs) a = rbind (f x a) (rfold f xs)"

section \<open>Effectful code: exceptions over a state\<close>

type_synonym ('s, 'a) act = "'s \<Rightarrow> 'a res \<times> 's"

definition ret :: "'a \<Rightarrow> ('s, 'a) act" where
  "ret x = (\<lambda>s. (Inr x, s))"

definition raise :: "exn \<Rightarrow> ('s, 'a) act" where
  "raise e = (\<lambda>s. (Inl e, s))"

definition bnd :: "('s, 'a) act \<Rightarrow> ('a \<Rightarrow> ('s, 'b) act) \<Rightarrow> ('s, 'b) act" where
  "bnd m f = (\<lambda>s. case m s of (r, s') \<Rightarrow> (case r of Inl e \<Rightarrow> (Inl e, s') | Inr x \<Rightarrow> f x s'))"

definition seq :: "('s, 'a) act \<Rightarrow> ('s, 'b) act \<Rightarrow> ('s, 'b) act" where
  "seq m k = bnd m (\<lambda>_. k)"

text \<open>\<open>attempt m\<close> runs \<open>m\<close> and hands its outcome on as a value: the \<open>try\<close> of a
  \<open>try ... except Exception as error\<close>.\<close>

definition attempt :: "('s, 'a) act \<Rightarrow> ('s, 'a res) act" where
  "attempt m = (\<lambda>s. case m s of (r, s') \<Rightarrow> (Inr r, s'))"

definition of_res :: "'a res \<Rightarrow> ('s, 'a) act" where
  "of_res r = (\<lambda>s. (r, s))"

definition gets :: "('s \<Rightarrow> 'a) \<Rightarrow> ('s, 'a) act" where
  "gets f = (\<lambda>s. (Inr (f s), s))"

definition modify :: "('s \<Rightarrow> 's) \<Rightarrow> ('s, unit) act" where
  "modify f = (\<lambda>s. (Inr (), f s))"

text \<open>\<open>try: m / except Exception: h; raise\<close>\<close>

definition on_error :: "('s, 'a) act \<Rightarrow> (exn \<Rightarrow> ('s, unit) act) \<Rightarrow> ('s, 'a) act" where
  "on_error m h = bnd (attempt m) (\<lambda>r. case r of Inl e \<Rightarrow> seq (h e) (raise e) | Inr x \<Rightarrow> ret x)"

text \<open>\<open>try: m / finally: f\<close>\<close>

definition finally_do :: "('s, 'a) act \<Rightarrow> ('s, unit) act \<Rightarrow> ('s, 'a) act" where
  "finally_do m f = bnd (attempt m) (\<lambda>r. seq f (of_res r))"

definition when_do :: "bool \<Rightarrow> ('s, unit) act \<Rightarrow> ('s, unit) act" where
  "when_do b m = (if b then m else ret ())"

fun mapA :: "('a \<Rightarrow> ('s, 'b) act) \<Rightarrow> 'a list \<Rightarrow> ('s, 'b list) act" where
  "mapA f [] = ret []"
| "mapA f (x # xs) = bnd (f x) (\<lambda>y. bnd (mapA f xs) (\<lambda>ys. ret (y # ys)))"

section \<open>Weakest preconditions\<close>

text \<open>\<open>wp m Q E s\<close>: \<open>m\<close> started in \<open>s\<close> ends with a value and a state in \<open>Q\<close>, or with an
  exception and a state in \<open>E\<close>.  \<open>keeps I m\<close>: \<open>m\<close> preserves \<open>I\<close> whichever way it ends.\<close>

definition wp :: "('s, 'a) act \<Rightarrow> ('a \<Rightarrow> 's \<Rightarrow> bool) \<Rightarrow> (exn \<Rightarrow> 's \<Rightarrow> bool) \<Rightarrow> 's \<Rightarrow> bool" where
  "wp m Q E s = (case m s of (r, s') \<Rightarrow> (case r of Inl e \<Rightarrow> E e s' | Inr x \<Rightarrow> Q x s'))"

definition keeps :: "('s \<Rightarrow> bool) \<Rightarrow> ('s, 'a) act \<Rightarrow> bool" where
  "keeps I m \<longleftrightarrow> (\<forall>s. I s \<longrightarrow> I (snd (m s)))"

section \<open>Text\<close>

definition is_space :: "char \<Rightarrow> bool" where
  "is_space c = (let n = (of_char c :: nat) in
     (9 \<le> n \<and> n \<le> 13) \<or> (28 \<le> n \<and> n \<le> 32) \<or> n = 133 \<or> n = 160)"

definition strip :: "string \<Rightarrow> string" where
  "strip s = rev (dropWhile is_space (rev (dropWhile is_space s)))"

definition lower_char :: "char \<Rightarrow> char" where
  "lower_char c = (let n = (of_char c :: nat) in
     if (65 \<le> n \<and> n \<le> 90) \<or> (192 \<le> n \<and> n \<le> 222 \<and> n \<noteq> 215) then char_of (n + 32) else c)"

definition lower :: "string \<Rightarrow> string" where
  "lower s = map lower_char s"

definition starts_with :: "string \<Rightarrow> string \<Rightarrow> bool" where
  "starts_with p s = (take (length p) s = p)"

section \<open>Dictionaries in insertion order\<close>

type_synonym 'v dict = "(string \<times> 'v) list"

abbreviation dict_get :: "'v dict \<Rightarrow> string \<Rightarrow> 'v option" where
  "dict_get d k \<equiv> map_of d k"

abbreviation dict_set :: "string \<Rightarrow> 'v \<Rightarrow> 'v dict \<Rightarrow> 'v dict" where
  "dict_set k v d \<equiv> AList.update k v d"

abbreviation dict_wf :: "'v dict \<Rightarrow> bool" where
  "dict_wf d \<equiv> distinct (map fst d)"

section \<open>Lemma collections and the shared lemmas\<close>

named_theorems res_iff \<open>when a fallible computation returns a value\<close>
named_theorems wp_simps \<open>weakest preconditions of the operations\<close>
named_theorems keeps_intros \<open>preservation of state predicates\<close>

lemma rbind_simps [simp]:
  "rbind (Inl e) f = Inl e" "rbind (Inr x) f = f x"
  by (simp_all add: rbind_def)

lemma rbind_Inr [res_iff]: "rbind m f = Inr y \<longleftrightarrow> (\<exists>x. m = Inr x \<and> f x = Inr y)"
  by (cases m) auto

lemma rbind_Inl: "rbind m f = Inl e \<longleftrightarrow> m = Inl e \<or> (\<exists>x. m = Inr x \<and> f x = Inl e)"
  by (cases m) auto

lemma check_Inr [res_iff]: "check b e = Inr u \<longleftrightarrow> b"
  by (simp add: check_def)

lemma check_simps [simp]: "check True e = Inr ()" "check False e = Inl e"
  by (simp_all add: check_def)

lemma ropt_simps [simp]: "ropt f None = Inr None"
  by (simp add: ropt_def)

lemma ropt_Inr [res_iff]:
  "ropt f x = Inr y \<longleftrightarrow> (x = None \<and> y = None) \<or> (\<exists>v w. x = Some v \<and> f v = Inr w \<and> y = Some w)"
  by (auto simp: ropt_def split: option.splits sum.splits)

lemma rmap_Inr: "rmap f xs = Inr ys \<longleftrightarrow> list_all2 (\<lambda>x y. f x = Inr y) xs ys"
proof (induction xs arbitrary: ys)
  case Nil
  then show ?case by auto
next
  case (Cons x xs)
  have "rmap f (x # xs) = Inr ys \<longleftrightarrow> (\<exists>y zs. f x = Inr y \<and> rmap f xs = Inr zs \<and> ys = y # zs)"
    by (auto split: sum.splits)
  then show ?case by (auto simp: Cons.IH list_all2_Cons1)
qed

lemma rfold_invariant:
  assumes "rfold f xs a = Inr b" and "I a"
    and "\<And>x c d. x \<in> set xs \<Longrightarrow> I c \<Longrightarrow> f x c = Inr d \<Longrightarrow> I d"
  shows "I b"
  using assms by (induction xs arbitrary: a) (auto simp: res_iff)

lemma rmap_Inl: "rmap f xs = Inl e \<Longrightarrow> \<exists>x \<in> set xs. f x = Inl e"
  by (induction xs) (auto split: sum.splits)

lemma rmap_total: "(\<And>x. x \<in> set xs \<Longrightarrow> \<exists>y. f x = Inr y) \<Longrightarrow> \<exists>ys. rmap f xs = Inr ys"
  by (induction xs) (auto, metis sum.case(2))

lemma rmap_Inr_each: "rmap f xs = Inr ys \<Longrightarrow> x \<in> set xs \<Longrightarrow> \<exists>y. f x = Inr y"
  by (induction xs arbitrary: ys) (auto split: sum.splits)

lemma check_Inl: "check b e = Inl e' \<longleftrightarrow> \<not> b \<and> e' = e"
  by (auto simp: check_def)

lemma rfold_snoc: "rfold f (xs @ [x]) a = rbind (rfold f xs a) (f x)"
  by (induction xs arbitrary: a) (auto simp: rbind_def split: sum.splits)

lemma rmap_Inr_length: "rmap f xs = Inr ys \<Longrightarrow> length ys = length xs"
  by (auto simp: rmap_Inr dest: list_all2_lengthD)

text \<open>Weakest preconditions compute through the monad.\<close>

lemma wp_ret [wp_simps, simp]: "wp (ret x) Q E = Q x"
  by (rule ext) (simp add: wp_def ret_def)

lemma wp_raise [wp_simps, simp]: "wp (raise e) Q E = E e"
  by (rule ext) (simp add: wp_def raise_def)

lemma wp_bnd [wp_simps, simp]: "wp (bnd m f) Q E = wp m (\<lambda>x. wp (f x) Q E) E"
  by (rule ext) (simp add: wp_def bnd_def split: prod.splits sum.splits)

lemma wp_seq [wp_simps, simp]: "wp (seq m k) Q E = wp m (\<lambda>_. wp k Q E) E"
  by (simp add: seq_def)

lemma wp_attempt [wp_simps, simp]:
  "wp (attempt m) Q E = wp m (\<lambda>x. Q (Inr x)) (\<lambda>e. Q (Inl e))"
  by (rule ext) (simp add: wp_def attempt_def split: prod.splits sum.splits)

lemma wp_of_res [wp_simps, simp]:
  "wp (of_res r) Q E = (case r of Inl e \<Rightarrow> E e | Inr x \<Rightarrow> Q x)"
  by (rule ext) (simp add: wp_def of_res_def split: sum.splits)

lemma wp_gets [wp_simps, simp]: "wp (gets f) Q E = (\<lambda>s. Q (f s) s)"
  by (rule ext) (simp add: wp_def gets_def)

lemma wp_modify [wp_simps, simp]: "wp (modify f) Q E = (\<lambda>s. Q () (f s))"
  by (rule ext) (simp add: wp_def modify_def)

lemma wp_on_error [wp_simps, simp]:
  "wp (on_error m h) Q E = wp m Q (\<lambda>e. wp (h e) (\<lambda>_. E e) E)"
  by (simp add: on_error_def)

lemma wp_finally_do [wp_simps, simp]:
  "wp (finally_do m f) Q E = wp m (\<lambda>x. wp f (\<lambda>_. Q x) E) (\<lambda>e. wp f (\<lambda>_. E e) E)"
  by (simp add: finally_do_def)

lemma wp_when_do [wp_simps, simp]: "wp (when_do b m) Q E = (if b then wp m Q E else Q ())"
  by (simp add: when_do_def)

lemma wp_if [wp_simps]:
  "wp (if b then m else k) Q E = (if b then wp m Q E else wp k Q E)"
  by simp

lemma wp_mono:
  assumes "wp m Q E s" "\<And>x s'. Q x s' \<Longrightarrow> Q' x s'" "\<And>e s'. E e s' \<Longrightarrow> E' e s'"
  shows "wp m Q' E' s"
  using assms by (auto simp: wp_def split: prod.splits sum.splits)

lemma wp_any: "(\<And>x t. Q x t) \<Longrightarrow> (\<And>x t. E x t) \<Longrightarrow> wp m Q E s"
  by (simp add: wp_def split: prod.splits sum.splits)

lemma wp_conj:
  "wp m Q E s \<Longrightarrow> wp m Q' E' s \<Longrightarrow> wp m (\<lambda>x s'. Q x s' \<and> Q' x s') (\<lambda>e s'. E e s' \<and> E' e s') s"
  by (auto simp: wp_def split: prod.splits sum.splits)

lemma wp_cases:
  assumes "wp m Q E s"
  obtains x s' where "m s = (Inr x, s')" "Q x s'"
        | e s' where "m s = (Inl e, s')" "E e s'"
  using assms by (auto simp: wp_def split: prod.splits sum.splits)

lemma wp_valueD: "wp m Q E s \<Longrightarrow> m s = (Inr x, s') \<Longrightarrow> Q x s'"
  by (simp add: wp_def)

lemma wp_errorD: "wp m Q E s \<Longrightarrow> m s = (Inl e, s') \<Longrightarrow> E e s'"
  by (simp add: wp_def)

text \<open>Preservation.\<close>

lemma keeps_wp: "keeps I m \<longleftrightarrow> (\<forall>s. I s \<longrightarrow> wp m (\<lambda>_. I) (\<lambda>_. I) s)"
proof -
  have "wp m (\<lambda>_. I) (\<lambda>_. I) s = I (snd (m s))" for s
    by (simp add: wp_def split: prod.splits sum.splits)
  then show ?thesis by (simp add: keeps_def)
qed

lemma keepsD: "keeps I m \<Longrightarrow> I s \<Longrightarrow> wp m (\<lambda>_. I) (\<lambda>_. I) s"
  by (simp add: keeps_wp)

lemma keeps_ret [keeps_intros]: "keeps I (ret x)"
  and keeps_raise [keeps_intros]: "keeps I (raise e)"
  and keeps_of_res [keeps_intros]: "keeps I (of_res r)"
  and keeps_gets [keeps_intros]: "keeps I (gets f)"
  by (simp_all add: keeps_wp split: sum.splits)

lemma keeps_bnd [keeps_intros]:
  "keeps I m \<Longrightarrow> (\<And>x. keeps I (f x)) \<Longrightarrow> keeps I (bnd m f)"
  unfolding keeps_wp wp_bnd by (blast intro: wp_mono)

lemma keeps_seq [keeps_intros]: "keeps I m \<Longrightarrow> keeps I k \<Longrightarrow> keeps I (seq m k)"
  unfolding seq_def by (intro keeps_bnd)

lemma keeps_attempt [keeps_intros]: "keeps I m \<Longrightarrow> keeps I (attempt m)"
  by (simp add: keeps_wp)

lemma keeps_on_error [keeps_intros]:
  "keeps I m \<Longrightarrow> (\<And>e. keeps I (h e)) \<Longrightarrow> keeps I (on_error m h)"
  unfolding on_error_def
  by (intro keeps_bnd keeps_attempt) (auto split: sum.splits intro: keeps_intros)

lemma keeps_finally_do [keeps_intros]:
  "keeps I m \<Longrightarrow> keeps I f \<Longrightarrow> keeps I (finally_do m f)"
  unfolding finally_do_def by (intro keeps_intros)

lemma keeps_when_do [keeps_intros]: "keeps I m \<Longrightarrow> keeps I (when_do b m)"
  by (simp add: when_do_def keeps_ret)

lemma keeps_if [keeps_intros]: "keeps I m \<Longrightarrow> keeps I k \<Longrightarrow> keeps I (if b then m else k)"
  by simp

lemma keeps_mapA [keeps_intros]:
  "(\<And>x. x \<in> set xs \<Longrightarrow> keeps I (f x)) \<Longrightarrow> keeps I (mapA f xs)"
  by (induction xs) (auto intro!: keeps_intros)

text \<open>Text.\<close>

lemma dropWhile_hd: "dropWhile P xs = y # ys \<Longrightarrow> \<not> P y"
  by (metis hd_dropWhile list.discI list.sel(1))

lemma dropWhile_idem: "dropWhile P (dropWhile P xs) = dropWhile P xs"
  by (cases "dropWhile P xs") (auto dest: dropWhile_hd)

lemma last_rev_dropWhile: "dropWhile P (rev xs) \<noteq> [] \<Longrightarrow> \<not> P (hd (dropWhile P (rev xs)))"
  by (rule hd_dropWhile)

lemma dropWhile_prefix_head:
  assumes "xs = ys @ zs" "ys \<noteq> []" "\<not> P (hd xs)"
  shows "dropWhile P ys = ys"
  using assms by (cases ys) auto

lemma strip_idem [simp]: "strip (strip s) = strip s"
proof -
  define d where "d = dropWhile is_space s"
  define t where "t = dropWhile is_space (rev d)"
  have split: "rev d = takeWhile is_space (rev d) @ t" by (simp add: t_def)
  then have d: "d = rev t @ rev (takeWhile is_space (rev d))"
    by (metis rev_append rev_rev_ident)
  have head: "dropWhile is_space (rev t) = rev t"
  proof (cases "rev t")
    case (Cons y ys)
    with d have "hd d = y" "d \<noteq> []" by (metis hd_append2 list.discI list.sel(1), metis append_is_Nil_conv list.discI)
    then have "\<not> is_space y" unfolding d_def by (metis hd_dropWhile)
    with Cons show ?thesis by simp
  qed simp
  have tail: "dropWhile is_space t = t" by (simp add: t_def dropWhile_idem)
  have "strip s = rev t" by (simp add: strip_def d_def t_def)
  then show ?thesis by (simp add: strip_def head tail)
qed

text \<open>Dictionaries.\<close>

lemma dict_get_set: "dict_get (dict_set k v d) k' = (if k' = k then Some v else dict_get d k')"
  by (simp add: update_conv')

lemma dict_wf_set: "dict_wf d \<Longrightarrow> dict_wf (dict_set k v d)"
  by (rule distinct_update)

lemma dict_keys_set_old: "k \<in> fst ` set d \<Longrightarrow> map fst (dict_set k v d) = map fst d"
  by (induction d) auto

lemma dict_set_new: "k \<notin> fst ` set d \<Longrightarrow> dict_set k v d = d @ [(k, v)]"
  by (induction d) auto

lemma dict_get_Some_key: "dict_get d k = Some v \<Longrightarrow> k \<in> fst ` set d"
  by (force dest: map_of_SomeD)

lemma dict_get_entry: "dict_wf d \<Longrightarrow> (k, v) \<in> set d \<longleftrightarrow> dict_get d k = Some v"
  by (auto intro: map_of_SomeD)

end
