(* ===== verification/Py_Float.thy ===== *)
theory Py_Float
  imports Py_Prelude Complex_Main "HOL-Library.Log_Nat"
begin

text \<open>
  Python floats: IEEE 754 binary64 with round-to-nearest, ties to even.  A finite float is
  the rational number it denotes; the sign of zero is not represented, since no modelled
  code observes it.  Every arithmetic operation is the exact rational result rounded by
  \<open>rnd\<close>.  \<open>round_decimals\<close> is Python's two-argument \<open>round\<close>.
  The lemmas give the rounding properties the planner and the metrics rely on: \<open>rnd\<close> is
  monotone, keeps signs, and is the identity on small integers.
\<close>

section \<open>Rounding\<close>

datatype pyfloat = Fin rat | PInf | NInf | NaN

text \<open>The binary exponent of a positive rational: the \<open>e\<close> with \<open>2^e \<le> q < 2^(e+1)\<close>.\<close>

definition binexp :: "rat \<Rightarrow> int" where
  "binexp q = (let (a, b) = quotient_of q; e = bitlen a - bitlen b
     in if 2 powi e \<le> q then e else e - 1)"

definition round_half_even :: "rat \<Rightarrow> int" where
  "round_half_even q = (let f = \<lfloor>q\<rfloor>; r = q - of_int f in
     if r < 1 / 2 then f else if 1 / 2 < r then f + 1 else if even f then f else f + 1)"

text \<open>The spacing of binary64 numbers around a positive rational.\<close>

definition ulp64 :: "rat \<Rightarrow> rat" where
  "ulp64 q = 2 powi (max (binexp q) (-1022) - 52)"

definition round_mag :: "rat \<Rightarrow> rat" where
  "round_mag q = (if q \<le> 0 then 0 else of_int (round_half_even (q / ulp64 q)) * ulp64 q)"

text \<open>Magnitudes from \<open>2^1024\<close> on overflow to an infinity.\<close>

definition f64_limit :: rat where
  "f64_limit = 2 ^ 1024"

definition rnd :: "rat \<Rightarrow> pyfloat" where
  "rnd q = (if 0 \<le> q
     then (let v = round_mag q in if v < f64_limit then Fin v else PInf)
     else (let v = round_mag (- q) in if v < f64_limit then Fin (- v) else NInf))"

section \<open>Operations\<close>

fun fneg :: "pyfloat \<Rightarrow> pyfloat" where
  "fneg (Fin a) = Fin (- a)"
| "fneg PInf = NInf"
| "fneg NInf = PInf"
| "fneg NaN = NaN"

fun fadd :: "pyfloat \<Rightarrow> pyfloat \<Rightarrow> pyfloat" where
  "fadd (Fin a) (Fin b) = rnd (a + b)"
| "fadd NaN y = NaN"
| "fadd x NaN = NaN"
| "fadd PInf NInf = NaN"
| "fadd NInf PInf = NaN"
| "fadd PInf y = PInf"
| "fadd NInf y = NInf"
| "fadd x PInf = PInf"
| "fadd x NInf = NInf"

definition fsub :: "pyfloat \<Rightarrow> pyfloat \<Rightarrow> pyfloat" where
  "fsub x y = fadd x (fneg y)"

fun fsign :: "pyfloat \<Rightarrow> int" where
  "fsign (Fin a) = (if 0 < a then 1 else if a < 0 then -1 else 0)"
| "fsign PInf = 1"
| "fsign NInf = -1"
| "fsign NaN = 0"

definition finf :: "int \<Rightarrow> pyfloat" where
  "finf sg = (if 0 < sg then PInf else if sg < 0 then NInf else NaN)"

fun fmul :: "pyfloat \<Rightarrow> pyfloat \<Rightarrow> pyfloat" where
  "fmul (Fin a) (Fin b) = rnd (a * b)"
| "fmul NaN y = NaN"
| "fmul x NaN = NaN"
| "fmul x y = finf (fsign x * fsign y)"

text \<open>Division raises on a zero divisor, as Python does.\<close>

fun fdiv :: "pyfloat \<Rightarrow> pyfloat \<Rightarrow> pyfloat res" where
  "fdiv x (Fin b) = (if b = 0 then Inl ZeroDivisionError
     else case x of Fin a \<Rightarrow> Inr (rnd (a / b)) | NaN \<Rightarrow> Inr NaN
       | _ \<Rightarrow> Inr (finf (fsign x * fsign (Fin b))))"
| "fdiv x NaN = Inr NaN"
| "fdiv (Fin a) y = Inr (Fin 0)"
| "fdiv x y = Inr NaN"

text \<open>\<open>x / 60.0\<close>\<close>

definition over60 :: "pyfloat \<Rightarrow> pyfloat" where
  "over60 x = (case x of Fin a \<Rightarrow> rnd (a / 60) | _ \<Rightarrow> x)"

text \<open>\<open>i / j\<close> on integers: the correctly rounded quotient.\<close>

definition int_div :: "int \<Rightarrow> int \<Rightarrow> pyfloat res" where
  "int_div i j = (if j = 0 then Inl ZeroDivisionError else Inr (rnd (of_int i / of_int j)))"

definition of_pyint :: "int \<Rightarrow> pyfloat" where
  "of_pyint i = rnd (of_int i)"

fun fless :: "pyfloat \<Rightarrow> pyfloat \<Rightarrow> bool" where
  "fless (Fin a) (Fin b) = (a < b)"
| "fless NaN y = False"
| "fless x NaN = False"
| "fless PInf y = False"
| "fless x NInf = False"
| "fless x y = True"

fun feq :: "pyfloat \<Rightarrow> pyfloat \<Rightarrow> bool" where
  "feq (Fin a) (Fin b) = (a = b)"
| "feq PInf PInf = True"
| "feq NInf NInf = True"
| "feq x y = False"

definition fle :: "pyfloat \<Rightarrow> pyfloat \<Rightarrow> bool" where
  "fle x y = (fless x y \<or> feq x y)"

fun isfinite :: "pyfloat \<Rightarrow> bool" where
  "isfinite (Fin a) = True"
| "isfinite x = False"

text \<open>\<open>max(0.0, x)\<close>: the first argument unless the second is greater.\<close>

definition fmax0 :: "pyfloat \<Rightarrow> pyfloat" where
  "fmax0 x = (if fless (Fin 0) x then x else Fin 0)"

text \<open>\<open>round(x, n)\<close> on a float: the exact value rounded to \<open>n\<close> decimals, ties to even, then
  converted back to the nearest float.\<close>

fun round_decimals :: "pyfloat \<Rightarrow> nat \<Rightarrow> pyfloat" where
  "round_decimals (Fin a) n = rnd (of_int (round_half_even (a * 10 ^ n)) / 10 ^ n)"
| "round_decimals x n = x"

section \<open>Rounding properties\<close>

lemma round_half_even_of_int [simp]: "round_half_even (of_int n) = n"
  by (simp add: round_half_even_def)

lemma round_half_even_mono: "p \<le> q \<Longrightarrow> round_half_even p \<le> round_half_even q"
proof -
  assume pq: "p \<le> q"
  then have fl: "\<lfloor>p\<rfloor> \<le> \<lfloor>q\<rfloor>" by (rule floor_mono)
  have rng: "\<lfloor>x\<rfloor> \<le> round_half_even x \<and> round_half_even x \<le> \<lfloor>x\<rfloor> + 1" for x
    by (auto simp: round_half_even_def Let_def)
  show ?thesis
  proof (cases "\<lfloor>p\<rfloor> = \<lfloor>q\<rfloor>")
    case True
    with pq show ?thesis by (auto simp: round_half_even_def Let_def)
  next
    case False
    with fl have "\<lfloor>p\<rfloor> + 1 \<le> \<lfloor>q\<rfloor>" by simp
    with rng[of p] rng[of q] show ?thesis by linarith
  qed
qed

lemma round_half_even_nonneg: "0 \<le> q \<Longrightarrow> 0 \<le> round_half_even q"
  using round_half_even_mono[of 0 q] round_half_even_of_int[of 0] by simp

lemma bitlen_rat:
  assumes "0 < a"
  shows "(2::rat) powi (bitlen a - 1) \<le> of_int a" "of_int a < (2::rat) powi bitlen a"
proof -
  have b: "2 ^ nat (bitlen a - 1) \<le> a" "a < 2 ^ nat (bitlen a)"
    using bitlen_bounds[OF assms] by auto
  have "0 < bitlen a" using b(2) assms by (cases "0 < bitlen a") auto
  then have pw: "(2::rat) powi (bitlen a - 1) = of_int (2 ^ nat (bitlen a - 1))"
    "(2::rat) powi bitlen a = of_int (2 ^ nat (bitlen a))"
    by (simp_all add: power_int_def)
  show "(2::rat) powi (bitlen a - 1) \<le> of_int a" "of_int a < (2::rat) powi bitlen a"
    unfolding pw of_int_le_iff of_int_less_iff using b by auto
qed

lemma binexp_bounds:
  assumes "0 < q"
  shows "2 powi binexp q \<le> q" "q < 2 powi (binexp q + 1)"
proof -
  obtain a b where ab: "quotient_of q = (a, b)" by (cases "quotient_of q")
  then have b: "0 < b" and q: "q = of_int a / of_int b"
    by (auto dest: quotient_of_denom_pos quotient_of_div)
  with assms have a: "0 < a" by (simp add: zero_less_divide_iff)
  define e where "e = bitlen a - bitlen b"
  have A: "(2::rat) powi (bitlen a - 1) \<le> of_int a" "of_int a < (2::rat) powi bitlen a"
    using bitlen_rat[OF a] by simp_all
  have B: "(2::rat) powi (bitlen b - 1) \<le> of_int b" "of_int b < (2::rat) powi bitlen b"
    using bitlen_rat[OF b] by simp_all
  have bq: "of_int a = q * of_int b" using q b by simp
  have up: "q < 2 powi (e + 1)"
  proof -
    have "q * 2 powi (bitlen b - 1) \<le> q * of_int b" using B assms by simp
    also have "\<dots> < 2 powi bitlen a" using A bq by simp
    also have "\<dots> = 2 powi (e + 1) * 2 powi (bitlen b - 1)"
      by (simp add: e_def flip: power_int_add)
    finally show ?thesis by simp
  qed
  have lo: "2 powi (e - 1) \<le> q"
  proof -
    have "2 powi (e - 1) * 2 powi bitlen b = (2::rat) powi (bitlen a - 1)"
      by (simp add: e_def algebra_simps flip: power_int_add)
    also have "\<dots> \<le> q * of_int b" using A bq by simp
    also have "\<dots> \<le> q * 2 powi bitlen b" using B assms by simp
    finally show ?thesis by simp
  qed
  show "2 powi binexp q \<le> q" "q < 2 powi (binexp q + 1)"
    using up lo by (auto simp: binexp_def ab e_def Let_def)
qed

lemma binexp_mono:
  assumes "0 < p" "p \<le> q"
  shows "binexp p \<le> binexp q"
proof (rule ccontr)
  assume "\<not> ?thesis"
  then have "binexp q + 1 \<le> binexp p" by simp
  then have "(2::rat) powi (binexp q + 1) \<le> 2 powi binexp p" by (intro power_int_increasing) auto
  with binexp_bounds[of p] binexp_bounds[of q] assms show False by linarith
qed

lemma ulp64_pos [simp]: "0 < ulp64 q" "ulp64 q \<noteq> 0"
  by (simp_all add: ulp64_def)

lemma round_mag_nonneg [simp]: "0 \<le> round_mag q"
  using less_imp_le[OF ulp64_pos(1), of q]
  by (auto simp: round_mag_def intro!: mult_nonneg_nonneg round_half_even_nonneg divide_nonneg_nonneg)

text \<open>Rounding never crosses a power of two that is a multiple of the spacing.\<close>

lemma round_mag_grid:
  assumes "0 < q" and "of_int n * ulp64 q = t"
  shows "q \<le> t \<Longrightarrow> round_mag q \<le> t" and "t \<le> q \<Longrightarrow> t \<le> round_mag q"
proof -
  have t: "t / ulp64 q = of_int n" by (simp flip: assms(2))
  { assume "q \<le> t"
    then have "q / ulp64 q \<le> of_int n" unfolding t[symmetric] by (simp add: divide_right_mono less_imp_le)
    then have "round_half_even (q / ulp64 q) \<le> n" using round_half_even_mono round_half_even_of_int by metis
    then show "round_mag q \<le> t" using assms by (auto simp: round_mag_def less_imp_le) }
  { assume "t \<le> q"
    then have "of_int n \<le> q / ulp64 q" unfolding t[symmetric] by (simp add: divide_right_mono less_imp_le)
    then have "n \<le> round_half_even (q / ulp64 q)" using round_half_even_mono round_half_even_of_int by metis
    then show "t \<le> round_mag q" using assms by (auto simp: round_mag_def less_imp_le) }
qed

lemma round_mag_same_ulp:
  assumes "0 < p" "p \<le> q" "ulp64 p = ulp64 q"
  shows "round_mag p \<le> round_mag q"
proof -
  have "round_half_even (p / ulp64 q) \<le> round_half_even (q / ulp64 q)"
    using assms by (intro round_half_even_mono divide_right_mono) (auto intro: less_imp_le)
  with assms show ?thesis by (auto simp: round_mag_def intro!: mult_right_mono less_imp_le[OF ulp64_pos(1)])
qed

lemma powi_is_multiple:
  assumes "k \<le> e"
  shows "\<exists>n. of_int n * (2::rat) powi k = 2 powi e"
proof -
  have "(2::rat) powi e = 2 powi (e - k) * 2 powi k" by (simp flip: power_int_add)
  moreover have "(2::rat) powi (e - k) = of_int (2 ^ nat (e - k))"
    using assms by (simp add: power_int_def)
  ultimately show ?thesis by metis
qed

lemma round_mag_mono: "p \<le> q \<Longrightarrow> round_mag p \<le> round_mag q"
proof (cases "0 < p")
  case False
  then show ?thesis by (simp add: round_mag_def[of p])
next
  case True
  assume pq: "p \<le> q"
  define ep eq where "ep = max (binexp p) (-1022)" and "eq = max (binexp q) (-1022)"
  have le: "ep \<le> eq" using binexp_mono[OF True pq] by (simp add: ep_def eq_def)
  show ?thesis
  proof (cases "ep = eq")
    case same: True
    with True pq show ?thesis
      by (intro round_mag_same_ulp) (simp_all add: ulp64_def ep_def eq_def)
  next
    case False
    with le have lt: "ep + 1 \<le> eq" by simp
    then have qe: "eq = binexp q" by (auto simp: ep_def eq_def)
    obtain m where m: "of_int m * ulp64 p = 2 powi (ep + 1)"
      using powi_is_multiple[of "ep - 52" "ep + 1"] by (auto simp: ulp64_def ep_def)
    obtain n where n: "of_int n * ulp64 q = 2 powi eq"
      using powi_is_multiple[of "eq - 52" eq] by (auto simp: ulp64_def eq_def)
    have "p \<le> 2 powi (ep + 1)"
    proof -
      have "p < 2 powi (binexp p + 1)" using binexp_bounds True by blast
      also have "\<dots> \<le> 2 powi (ep + 1)" by (intro power_int_increasing) (auto simp: ep_def)
      finally show ?thesis by simp
    qed
    then have "round_mag p \<le> 2 powi (ep + 1)" using round_mag_grid(1)[OF True m] by blast
    also have "\<dots> \<le> 2 powi eq" using lt by (intro power_int_increasing) auto
    also have "\<dots> \<le> round_mag q"
      using round_mag_grid(2)[OF _ n] binexp_bounds(1)[of q] qe True pq by simp
    finally show ?thesis .
  qed
qed

lemma fle_refl_Fin [simp]: "fle (Fin a) (Fin b) = (a \<le> b)"
  by (auto simp: fle_def)

lemma rnd_mono: "p \<le> q \<Longrightarrow> fle (rnd p) (rnd q)"
proof -
  assume "p \<le> q"
  then have "round_mag p \<le> round_mag q" "round_mag (- q) \<le> round_mag (- p)"
    by (auto intro: round_mag_mono)
  then show ?thesis
    using \<open>p \<le> q\<close> round_mag_nonneg[of q] round_mag_nonneg[of "- p"]
    by (cases "0 \<le> p"; cases "0 \<le> q") (auto simp: rnd_def Let_def fle_def not_less simp del: round_mag_nonneg)
qed

lemma rnd_zero [simp]: "rnd 0 = Fin 0"
  by (simp add: rnd_def round_mag_def f64_limit_def)

lemma rnd_code [code]:
  "rnd q = (if q = 0 then Fin 0 else if 0 \<le> q
     then (let v = round_mag q in if v < f64_limit then Fin v else PInf)
     else (let v = round_mag (- q) in if v < f64_limit then Fin (- v) else NInf))"
  by (simp add: rnd_def round_mag_def f64_limit_def)

lemma rnd_nonneg: "0 \<le> q \<Longrightarrow> fle (Fin 0) (rnd q)"
  using rnd_mono[of 0 q] by simp

lemma rnd_not_NaN [simp]: "rnd q \<noteq> NaN" "NaN \<noteq> rnd q"
  by (auto simp: rnd_def Let_def)

text \<open>Integers up to \<open>2^53\<close> in magnitude are floats.\<close>

lemma round_mag_exact:
  assumes "0 < q" "of_int n * ulp64 q = q"
  shows "round_mag q = q"
  using round_mag_grid[OF assms] by simp

lemma round_mag_of_int:
  assumes "0 < n" "n < 2 ^ 53"
  shows "round_mag (of_int n) = of_int n"
proof -
  have "binexp (of_int n) < 53"
  proof (rule ccontr)
    assume "\<not> ?thesis"
    then have "(2::rat) powi 53 \<le> 2 powi binexp (of_int n)" by (intro power_int_increasing) auto
    also have "\<dots> \<le> of_int n" using binexp_bounds(1)[of "of_int n"] assms by simp
    finally have "2 ^ 53 \<le> n"
      by (metis of_int_le_iff of_int_numeral of_int_power power_int_numeral)
    with assms show False by simp
  qed
  then have "max (binexp (of_int n)) (-1022) - 52 \<le> 0" by simp
  then obtain m where "of_int m * ulp64 (of_int n) = 2 powi 0"
    unfolding ulp64_def using powi_is_multiple by blast
  then have "of_int (n * m) * ulp64 (of_int n) = of_int n" by (simp add: mult.assoc)
  moreover have "0 < (of_int n :: rat)" using assms by simp
  ultimately show ?thesis by (intro round_mag_exact)
qed

lemma rnd_of_int:
  assumes "\<bar>n\<bar> < 2 ^ 53"
  shows "rnd (of_int n) = Fin (of_int n)"
proof -
  have big: "(2::rat) ^ 53 < f64_limit"
    unfolding f64_limit_def by (rule power_strict_increasing) auto
  have lim: "0 < k \<Longrightarrow> k < 2 ^ 53 \<Longrightarrow> of_int k < f64_limit" for k :: int
  proof -
    assume "k < 2 ^ 53"
    then have "of_int k < (of_int (2 ^ 53) :: rat)" by (simp only: of_int_less_iff)
    with big show ?thesis by simp
  qed
  consider "n = 0" | "0 < n" | "n < 0" by linarith
  then show ?thesis
  proof cases
    case 2
    with assms lim show ?thesis by (simp add: rnd_def round_mag_of_int)
  next
    case 3
    then have "round_mag (of_int (- n)) = of_int (- n)" "of_int (- n) < f64_limit"
      using assms lim[of "- n"] by (intro round_mag_of_int, simp_all)
    with 3 show ?thesis by (simp add: rnd_def)
  qed simp
qed

lemma rnd_numeral [simp]:
  "(numeral k :: int) < 2 ^ 53 \<Longrightarrow> rnd (numeral k) = Fin (numeral k)" "rnd 1 = Fin 1"
  using rnd_of_int[of "numeral k"] rnd_of_int[of 1] by simp_all

lemma fmax0_nonneg: "fle (Fin 0) (fmax0 x)"
  by (auto simp: fmax0_def fle_def)

lemma fmax0_zero [simp]: "fmax0 (Fin 0) = Fin 0"
  by (simp add: fmax0_def)

lemma over60_zero [simp]: "over60 (Fin 0) = Fin 0"
  by (simp add: over60_def)

lemma fsub_self_Fin [simp]: "fsub (Fin a) (Fin a) = Fin 0"
  by (simp add: fsub_def)

lemma over60_mono_nonneg: "fle (Fin 0) x \<Longrightarrow> fle (Fin 0) (over60 x)"
  by (cases x) (simp_all add: over60_def rnd_nonneg)

lemma fadd_nonneg: "fle (Fin 0) x \<Longrightarrow> fle (Fin 0) y \<Longrightarrow> fle (Fin 0) (fadd x y)"
  by (cases x; cases y) (simp_all add: rnd_nonneg, simp_all add: fle_def)

lemma fmax0_not_NaN [simp]: "fmax0 x \<noteq> NaN"
  by (cases x) (auto simp: fmax0_def)

text \<open>Rounding is idempotent: its results are floats.\<close>

lemma round_mag_idem: "round_mag (round_mag q) = round_mag q"
proof (cases "0 < round_mag q")
  case False
  then have "round_mag q = 0" using round_mag_nonneg[of q] by linarith
  then show ?thesis by (simp add: round_mag_def[of 0])
next
  case True
  then have q: "0 < q" by (auto simp: round_mag_def split: if_splits)
  define v where "v = round_mag q"
  have v: "0 < v" using True by (simp add: v_def)
  define E where "E = max (binexp q) (-1022)"
  define n where "n = round_half_even (q / ulp64 q)"
  have vn: "v = of_int n * 2 powi (E - 52)" using q by (simp add: v_def round_mag_def ulp64_def E_def n_def)
  define k where "k = max (binexp v) (-1022) - 52"
  have lev: "v \<le> 2 powi (E + 1)"
  proof -
    obtain m where m: "of_int m * ulp64 q = 2 powi (E + 1)"
      using powi_is_multiple[of "E - 52" "E + 1"] by (auto simp: ulp64_def E_def)
    have "q < 2 powi (binexp q + 1)" using binexp_bounds(2)[OF q] .
    also have "\<dots> \<le> 2 powi (E + 1)" by (intro power_int_increasing) (auto simp: E_def)
    finally show ?thesis using round_mag_grid(1)[OF q m] by (simp add: v_def)
  qed
  have bv: "(2::rat) powi binexp v \<le> v" using binexp_bounds(1)[OF v] .
  have "\<exists>m. of_int m * 2 powi k = v"
  proof (cases "v = 2 powi (E + 1)")
    case True
    have "binexp v \<le> E + 1"
    proof (rule ccontr)
      assume "\<not> binexp v \<le> E + 1"
      then have "(2::rat) powi (E + 1) < 2 powi binexp v" by (intro power_int_strict_increasing) auto
      with bv True show False by simp
    qed
    then have "k \<le> E + 1" by (auto simp: k_def E_def)
    from powi_is_multiple[OF this] show ?thesis using True by simp
  next
    case False
    with lev have "v < 2 powi (E + 1)" by simp
    have "binexp v \<le> E"
    proof (rule ccontr)
      assume "\<not> binexp v \<le> E"
      then have "(2::rat) powi (E + 1) \<le> 2 powi binexp v" by (intro power_int_increasing) auto
      with bv \<open>v < 2 powi (E + 1)\<close> show False by simp
    qed
    then have "k \<le> E - 52" by (auto simp: k_def E_def)
    then obtain m where "of_int m * (2::rat) powi k = 2 powi (E - 52)" using powi_is_multiple by blast
    then have "of_int (n * m) * 2 powi k = v" by (simp add: vn mult.assoc)
    then show ?thesis by blast
  qed
  then obtain m where "of_int m * ulp64 v = v" by (auto simp: ulp64_def k_def)
  from round_mag_exact[OF v this] show ?thesis by (simp add: v_def)
qed

definition is_float :: "pyfloat \<Rightarrow> bool" where
  "is_float x \<longleftrightarrow> (\<forall>a. x = Fin a \<longrightarrow> rnd a = Fin a)"

lemma rnd_round_mag: "round_mag q < f64_limit \<Longrightarrow> rnd (round_mag q) = Fin (round_mag q)"
  by (simp add: rnd_def round_mag_idem)

lemma rnd_minus_round_mag:
  assumes "round_mag q < f64_limit"
  shows "rnd (- round_mag q) = Fin (- round_mag q)"
proof (cases "round_mag q = 0")
  case False
  then have "0 < round_mag q" using round_mag_nonneg[of q] by linarith
  with assms show ?thesis by (simp add: rnd_def round_mag_idem)
qed simp

lemma is_float_rnd [simp]: "is_float (rnd q)"
  unfolding is_float_def rnd_def[of q] Let_def
  by (simp add: rnd_round_mag rnd_minus_round_mag split: if_split)

lemma fle_special [simp]:
  "fle x PInf \<longleftrightarrow> x \<noteq> NaN" "fle PInf x \<longleftrightarrow> x = PInf" "fle NaN x \<longleftrightarrow> False" "fle x NaN \<longleftrightarrow> False"
  "fle NInf x \<longleftrightarrow> x \<noteq> NaN" "fle x NInf \<longleftrightarrow> x = NInf"
  by (cases x; simp add: fle_def)+

lemma is_float_fadd: "is_float x \<Longrightarrow> is_float y \<Longrightarrow> is_float (fadd x y)"
  by (cases x; cases y) (simp_all, simp_all add: is_float_def)

text \<open>Adding a non-negative number never makes a float smaller.\<close>

lemma fadd_ge_left:
  assumes "is_float x" "fle (Fin 0) x" "fle (Fin 0) y"
  shows "fle x (fadd x y)"
proof (cases x; cases y)
  fix a b assume xy: "x = Fin a" "y = Fin b"
  then have "fle (rnd a) (rnd (a + b))" using assms(3) by (intro rnd_mono) simp
  then show ?thesis using assms(1) xy by (simp add: is_float_def)
qed (use assms in simp_all)

lemma fadd_mono_left:
  assumes "fle x y" "fle (Fin 0) x" "fle (Fin 0) z"
  shows "fle (fadd x z) (fadd y z)"
  using assms by (cases x; cases y; cases z) (simp_all add: rnd_mono)

lemma fle_trans: "fle x y \<Longrightarrow> fle y z \<Longrightarrow> fle x z"
  by (cases x; cases y; cases z) simp_all

lemma round_decimals_mono:
  assumes "fle x y"
  shows "fle (round_decimals x n) (round_decimals y n)"
proof (cases x; cases y)
  fix a b assume xy: "x = Fin a" "y = Fin b"
  then have "a * 10 ^ n \<le> b * 10 ^ n" using assms by simp
  from round_half_even_mono[OF this] show ?thesis
    unfolding xy round_decimals.simps by (intro rnd_mono divide_right_mono) simp_all
qed (use assms in simp_all)

end
