(* ===== verification/Trace_Runtime.thy ===== *)
theory Trace_Runtime
  imports Py_Float
begin

text \<open>
  \<open>src/loopx/capabilities/explore/trace_runtime.py\<close>: public-safe payloads, agent and trace
  cursors, trace events and the append-only \<open>TraceLog\<close>.

  A dataclass is a record and its \<open>__post_init__\<close> a function from the record as given to
  the constructor to the normalised record, or the exception it raises.  \<open>int(x)\<close> on an
  integer field and \<open>Enum(x)\<close> on an enum field are identities.  A mapping is its list of
  items in order; the read-only wrapper \<open>MappingProxyType\<close> is not distinguished from the
  mapping it wraps, and the locks of \<open>TraceLog\<close> are not represented: each operation is one
  atomic step, as the lock makes it.
\<close>

section \<open>Public payload values\<close>

datatype pykey = KStr string | KOther

datatype pyval =
    PNone
  | PBool bool
  | PInt int
  | PFloat pyfloat
  | PStr string
  | PBinary
  | PPath
  | PMap "(pykey \<times> pyval) list"
  | PList "pyval list"
  | PTuple "pyval list"
  | POther

definition FORBIDDEN_PUBLIC_KEYS :: "string list" where
  "FORBIDDEN_PUBLIC_KEYS =
    [''adapter_state'', ''credential'', ''credentials'', ''environment_state'', ''file_path'',
     ''handle'', ''live_handle'', ''password'', ''path'', ''raw_screenshot'',
     ''screenshot_bytes'', ''secret'', ''software_state'', ''token'']"

definition is_ascii_letter :: "char \<Rightarrow> bool" where
  "is_ascii_letter c = (let n = (of_char c :: nat) in (65 \<le> n \<and> n \<le> 90) \<or> (97 \<le> n \<and> n \<le> 122))"

text \<open>The backslash is the character with code 92.\<close>

definition backslash :: char where
  "backslash = char_of (92 :: nat)"

definition windows_absolute_path :: "string \<Rightarrow> bool" where
  "windows_absolute_path s = (case s of
     a # b # c # _ \<Rightarrow> is_ascii_letter a \<and> b = CHR '':'' \<and> (c = backslash \<or> c = CHR ''/'')
   | _ \<Rightarrow> False)"

definition absolute_path :: "string \<Rightarrow> bool" where
  "absolute_path s = (starts_with ''/'' s \<or> starts_with [backslash, backslash] s
     \<or> windows_absolute_path s)"

fun freeze_public_value :: "pyval \<Rightarrow> pyval res"
  and freeze_public_items :: "(pykey \<times> pyval) list \<Rightarrow> (pykey \<times> pyval) list res"
  and freeze_public_seq :: "pyval list \<Rightarrow> pyval list res" where
  "freeze_public_value PNone = Inr PNone"
| "freeze_public_value (PBool b) = Inr (PBool b)"
| "freeze_public_value (PInt i) = Inr (PInt i)"
| "freeze_public_value (PFloat x) = Inr (PFloat x)"
| "freeze_public_value (PStr s) =
     (if absolute_path s
      then Inl (ValueError ''public trace payload must not contain absolute paths'')
      else Inr (PStr s))"
| "freeze_public_value PBinary =
     Inl (TypeError ''public trace payload must not contain binary or path values'')"
| "freeze_public_value PPath =
     Inl (TypeError ''public trace payload must not contain binary or path values'')"
| "freeze_public_value (PMap m) = rbind (freeze_public_items m) (\<lambda>m'. Inr (PMap m'))"
| "freeze_public_value (PList xs) = rbind (freeze_public_seq xs) (\<lambda>ys. Inr (PTuple ys))"
| "freeze_public_value (PTuple xs) = rbind (freeze_public_seq xs) (\<lambda>ys. Inr (PTuple ys))"
| "freeze_public_value POther =
     Inl (TypeError ''public trace payload values must be JSON-like scalars, mappings, or sequences'')"
| "freeze_public_items [] = Inr []"
| "freeze_public_items ((KOther, v) # r) =
     Inl (TypeError ''public trace payload keys must be non-empty strings'')"
| "freeze_public_items ((KStr k, v) # r) =
     (if k = [] then Inl (TypeError ''public trace payload keys must be non-empty strings'')
      else if lower (strip k) \<in> set FORBIDDEN_PUBLIC_KEYS
      then Inl (ValueError ''adapter-owned or sensitive state must not enter public trace payloads'')
      else rbind (freeze_public_value v) (\<lambda>v'.
           rbind (freeze_public_items r) (\<lambda>r'. Inr ((KStr k, v') # r'))))"
| "freeze_public_seq [] = Inr []"
| "freeze_public_seq (v # r) =
     rbind (freeze_public_value v) (\<lambda>v'. rbind (freeze_public_seq r) (\<lambda>r'. Inr (v' # r')))"

fun thaw_public_value :: "pyval \<Rightarrow> pyval" where
  "thaw_public_value (PMap m) = PMap (map (\<lambda>(k, v). (k, thaw_public_value v)) m)"
| "thaw_public_value (PTuple xs) = PList (map thaw_public_value xs)"
| "thaw_public_value v = v"

definition freeze_public_mapping :: "pyval \<Rightarrow> string \<Rightarrow> pyval res" where
  "freeze_public_mapping v field_path = (case v of
     PMap m \<Rightarrow> freeze_public_value (PMap m)
   | _ \<Rightarrow> Inl (TypeError (field_path @ '' must be a mapping'')))"

definition require_nonempty_text :: "string \<Rightarrow> string \<Rightarrow> string res" where
  "require_nonempty_text v field_name =
     (let normalized = strip v in
      if normalized = [] then Inl (ValueError (field_name @ '' must be non-empty''))
      else Inr normalized)"

text \<open>An optional text field is normalised when it is present.\<close>

definition optional_text :: "string option \<Rightarrow> string \<Rightarrow> string option res" where
  "optional_text v field_name = ropt (\<lambda>t. require_nonempty_text t field_name) v"

text \<open>An optional public summary or reason: \<open>freeze_public_mapping({key: text})[key]\<close>.\<close>

definition optional_public_text :: "string \<Rightarrow> string \<Rightarrow> string option \<Rightarrow> string option res" where
  "optional_public_text key field_path v = ropt (\<lambda>t.
     rbind (freeze_public_mapping (PMap [(KStr key, PStr t)]) field_path) (\<lambda>m.
       case m of PMap [(_, PStr t')] \<Rightarrow> Inr t' | _ \<Rightarrow> Inl (KeyError key))) v"

section \<open>Cursors and events\<close>

datatype TraceEventKind =
    AGENT_CONTEXT | ACTION_INTENT | ACTION_OUTCOME | ENVIRONMENT_OBSERVATION
  | VALIDATION | LIFECYCLE

fun TraceEventKind_value :: "TraceEventKind \<Rightarrow> string" where
  "TraceEventKind_value AGENT_CONTEXT = ''agent_context''"
| "TraceEventKind_value ACTION_INTENT = ''action_intent''"
| "TraceEventKind_value ACTION_OUTCOME = ''action_outcome''"
| "TraceEventKind_value ENVIRONMENT_OBSERVATION = ''environment_observation''"
| "TraceEventKind_value VALIDATION = ''validation''"
| "TraceEventKind_value LIFECYCLE = ''lifecycle''"

record AgentCursor =
  ac_history_index :: int
  ac_history_digest :: string
  ac_context_digest :: string

definition AgentCursor_post_init :: "AgentCursor \<Rightarrow> AgentCursor res" where
  "AgentCursor_post_init c =
     rbind (check (0 \<le> ac_history_index c) (ValueError ''history_index must be non-negative'')) (\<lambda>_.
     rbind (require_nonempty_text (ac_history_digest c) ''history_digest'') (\<lambda>h.
     rbind (require_nonempty_text (ac_context_digest c) ''context_digest'') (\<lambda>x.
     Inr (c\<lparr>ac_history_digest := h, ac_context_digest := x\<rparr>))))"

record TraceCursor =
  tc_trace_id :: string
  tc_branch_id :: string
  tc_after_event_id :: "string option"
  tc_next_sequence :: int
  tc_agent_cursor :: AgentCursor

definition TraceCursor_post_init :: "TraceCursor \<Rightarrow> TraceCursor res" where
  "TraceCursor_post_init c =
     rbind (require_nonempty_text (tc_trace_id c) ''trace_id'') (\<lambda>t.
     rbind (require_nonempty_text (tc_branch_id c) ''branch_id'') (\<lambda>b.
     rbind (optional_text (tc_after_event_id c) ''after_event_id'') (\<lambda>a.
     rbind (check (0 \<le> tc_next_sequence c) (ValueError ''next_sequence must be non-negative'')) (\<lambda>_.
     Inr (c\<lparr>tc_trace_id := t, tc_branch_id := b, tc_after_event_id := a\<rparr>)))))"

record TraceEvent =
  te_event_id :: string
  te_trace_id :: string
  te_branch_id :: string
  te_sequence :: int
  te_parent_event_id :: "string option"
  te_kind :: TraceEventKind
  te_public_payload :: pyval
  te_action_id :: "string option"
  te_causation_id :: "string option"
  te_replay_point_id :: "string option"

definition TraceEvent_post_init :: "TraceEvent \<Rightarrow> TraceEvent res" where
  "TraceEvent_post_init e =
     rbind (require_nonempty_text (te_event_id e) ''event_id'') (\<lambda>i.
     rbind (require_nonempty_text (te_trace_id e) ''trace_id'') (\<lambda>t.
     rbind (require_nonempty_text (te_branch_id e) ''branch_id'') (\<lambda>b.
     rbind (check (0 \<le> te_sequence e) (ValueError ''sequence must be non-negative'')) (\<lambda>_.
     rbind (optional_text (te_parent_event_id e) ''parent_event_id'') (\<lambda>p.
     rbind (optional_text (te_action_id e) ''action_id'') (\<lambda>a.
     rbind (optional_text (te_causation_id e) ''causation_id'') (\<lambda>c.
     rbind (optional_text (te_replay_point_id e) ''replay_point_id'') (\<lambda>r.
     rbind (freeze_public_mapping (te_public_payload e) ''public_payload'') (\<lambda>m.
     Inr (e\<lparr>te_event_id := i, te_trace_id := t, te_branch_id := b, te_parent_event_id := p,
            te_public_payload := m, te_action_id := a, te_causation_id := c,
            te_replay_point_id := r\<rparr>))))))))))"

fun py_opt_str :: "string option \<Rightarrow> pyval" where
  "py_opt_str None = PNone"
| "py_opt_str (Some s) = PStr s"

definition TraceEvent_to_record :: "TraceEvent \<Rightarrow> pyval dict" where
  "TraceEvent_to_record e =
    [(''event_id'', PStr (te_event_id e)),
     (''trace_id'', PStr (te_trace_id e)),
     (''branch_id'', PStr (te_branch_id e)),
     (''sequence'', PInt (te_sequence e)),
     (''parent_event_id'', py_opt_str (te_parent_event_id e)),
     (''kind'', PStr (TraceEventKind_value (te_kind e))),
     (''action_id'', py_opt_str (te_action_id e)),
     (''causation_id'', py_opt_str (te_causation_id e)),
     (''replay_point_id'', py_opt_str (te_replay_point_id e)),
     (''public_payload'', thaw_public_value (te_public_payload e))]"

section \<open>The trace log\<close>

record TraceLog =
  tl_trace_id :: string
  tl_branch_id :: string
  tl_events :: "TraceEvent list"
  tl_event_ids :: "string set"

definition TraceLog_init :: "string \<Rightarrow> string \<Rightarrow> TraceLog res" where
  "TraceLog_init trace_id branch_id =
     rbind (require_nonempty_text trace_id ''trace_id'') (\<lambda>t.
     rbind (require_nonempty_text branch_id ''branch_id'') (\<lambda>b.
     Inr \<lparr>tl_trace_id = t, tl_branch_id = b, tl_events = [], tl_event_ids = {}\<rparr>))"

definition TraceLog_event :: "TraceLog \<Rightarrow> string \<Rightarrow> TraceEvent res" where
  "TraceLog_event l event_id =
     rbind (require_nonempty_text event_id ''event_id'') (\<lambda>i.
     case find (\<lambda>e. te_event_id e = i) (tl_events l) of
       Some e \<Rightarrow> Inr e
     | None \<Rightarrow> Inl (KeyError ''unknown trace event_id''))"

definition head_event_id :: "TraceLog \<Rightarrow> string option" where
  "head_event_id l = (if tl_events l = [] then None else Some (te_event_id (last (tl_events l))))"

definition validate_append_unlocked :: "TraceEvent \<Rightarrow> TraceLog \<Rightarrow> unit res" where
  "validate_append_unlocked e l =
     rbind (check (te_trace_id e = tl_trace_id l \<and> te_branch_id e = tl_branch_id l)
              (ValueError ''trace event does not belong to this trace branch'')) (\<lambda>_.
     rbind (check (te_event_id e \<notin> tl_event_ids l)
              (ValueError ''trace event_id is duplicated'')) (\<lambda>_.
     rbind (check (te_sequence e = int (length (tl_events l)))
              (ValueError ''trace sequence must be contiguous'')) (\<lambda>_.
     check (te_parent_event_id e = head_event_id l)
              (ValueError ''trace parent_event_id must name the current branch head''))))"

definition append_unlocked :: "TraceEvent \<Rightarrow> TraceLog \<Rightarrow> TraceLog res" where
  "append_unlocked e l =
     rbind (validate_append_unlocked e l) (\<lambda>_.
     Inr (l\<lparr>tl_events := tl_events l @ [e], tl_event_ids := insert (te_event_id e) (tl_event_ids l)\<rparr>))"

definition locked_cursor :: "TraceLog \<Rightarrow> AgentCursor \<Rightarrow> TraceCursor res" where
  "locked_cursor l agent_cursor = TraceCursor_post_init
     \<lparr>tc_trace_id = tl_trace_id l, tc_branch_id = tl_branch_id l,
      tc_after_event_id = head_event_id l, tc_next_sequence = int (length (tl_events l)),
      tc_agent_cursor = agent_cursor\<rparr>"

section \<open>Specifications\<close>

text \<open>Which payloads are acceptable, and the normal form of an accepted payload.\<close>

fun public_ok :: "pyval \<Rightarrow> bool" where
  "public_ok (PStr s) = (\<not> absolute_path s)"
| "public_ok PBinary = False"
| "public_ok PPath = False"
| "public_ok POther = False"
| "public_ok (PMap m) = (\<forall>(k, v) \<in> set m.
     (case k of KOther \<Rightarrow> False | KStr t \<Rightarrow> t \<noteq> [] \<and> lower (strip t) \<notin> set FORBIDDEN_PUBLIC_KEYS)
     \<and> public_ok v)"
| "public_ok (PList xs) = (\<forall>v \<in> set xs. public_ok v)"
| "public_ok (PTuple xs) = (\<forall>v \<in> set xs. public_ok v)"
| "public_ok v = True"

fun tuples_for_lists :: "pyval \<Rightarrow> pyval" where
  "tuples_for_lists (PMap m) = PMap (map (\<lambda>(k, v). (k, tuples_for_lists v)) m)"
| "tuples_for_lists (PTuple xs) = PTuple (map tuples_for_lists xs)"
| "tuples_for_lists (PList xs) = PTuple (map tuples_for_lists xs)"
| "tuples_for_lists v = v"

fun lists_for_tuples :: "pyval \<Rightarrow> pyval" where
  "lists_for_tuples (PMap m) = PMap (map (\<lambda>(k, v). (k, lists_for_tuples v)) m)"
| "lists_for_tuples (PTuple xs) = PList (map lists_for_tuples xs)"
| "lists_for_tuples (PList xs) = PList (map lists_for_tuples xs)"
| "lists_for_tuples v = v"

text \<open>A well-formed log: distinct event ids, contiguous sequence numbers, each event naming
  its predecessor as parent and the log's own trace and branch.\<close>

definition trace_wf :: "TraceLog \<Rightarrow> bool" where
  "trace_wf l \<longleftrightarrow>
     tl_event_ids l = te_event_id ` set (tl_events l) \<and>
     distinct (map te_event_id (tl_events l)) \<and>
     (\<forall>i < length (tl_events l). let e = tl_events l ! i in
        te_trace_id e = tl_trace_id l \<and> te_branch_id e = tl_branch_id l \<and>
        te_sequence e = int i \<and>
        te_parent_event_id e = (if i = 0 then None else Some (te_event_id (tl_events l ! (i - 1)))))"

text \<open>Appending several events one after the other.\<close>

fun append_all :: "('e \<Rightarrow> 'l \<Rightarrow> 'l res) \<Rightarrow> 'e list \<Rightarrow> 'l \<Rightarrow> 'l res" where
  "append_all app [] l = Inr l"
| "append_all app (e # es) l = rbind (app e l) (append_all app es)"

section \<open>An append-only log, as its clients see it\<close>

locale append_log =
  fixes append_event :: "'e \<Rightarrow> 'l \<Rightarrow> 'l res"
    and events_of :: "'l \<Rightarrow> 'e list"
    and log_inv :: "'l \<Rightarrow> bool"
    and owner_of :: "'l \<Rightarrow> 'o"
  assumes append_extends: "append_event e l = Inr l' \<Longrightarrow> events_of l' = events_of l @ [e]"
    and append_inv: "log_inv l \<Longrightarrow> append_event e l = Inr l' \<Longrightarrow> log_inv l'"
    and append_owner: "append_event e l = Inr l' \<Longrightarrow> owner_of l' = owner_of l"
begin

lemma append_all_extends:
  "append_all append_event es l = Inr l' \<Longrightarrow> events_of l' = events_of l @ es"
  by (induction es arbitrary: l) (auto simp: res_iff dest: append_extends)

lemma append_all_inv:
  "log_inv l \<Longrightarrow> append_all append_event es l = Inr l' \<Longrightarrow> log_inv l'"
  by (induction es arbitrary: l) (auto simp: res_iff dest: append_inv)

lemma append_all_owner:
  "append_all append_event es l = Inr l' \<Longrightarrow> owner_of l' = owner_of l"
  by (induction es arbitrary: l) (auto simp: res_iff dest: append_owner)

end

lemma require_nonempty_text_Inr [res_iff]:
  "require_nonempty_text v f = Inr w \<longleftrightarrow> w = strip v \<and> strip v \<noteq> []"
  by (auto simp: require_nonempty_text_def Let_def)

lemma require_nonempty_text_fixed [simp]:
  "strip v = v \<Longrightarrow> v \<noteq> [] \<Longrightarrow> require_nonempty_text v f = Inr v"
  by (simp add: require_nonempty_text_def)

lemma optional_text_Inr [res_iff]:
  "optional_text v f = Inr w \<longleftrightarrow>
     (v = None \<and> w = None) \<or> (\<exists>t. v = Some t \<and> strip t \<noteq> [] \<and> w = Some (strip t))"
  by (auto simp: optional_text_def res_iff)

lemma append_unlocked_Inr:
  "append_unlocked e l = Inr l' \<longleftrightarrow>
     te_trace_id e = tl_trace_id l \<and> te_branch_id e = tl_branch_id l \<and>
     te_event_id e \<notin> tl_event_ids l \<and> te_sequence e = int (length (tl_events l)) \<and>
     te_parent_event_id e = head_event_id l \<and>
     l' = l\<lparr>tl_events := tl_events l @ [e], tl_event_ids := insert (te_event_id e) (tl_event_ids l)\<rparr>"
  by (auto simp: append_unlocked_def validate_append_unlocked_def res_iff)

lemma append_unlocked_wf:
  assumes wf: "trace_wf l" and app: "append_unlocked e l = Inr l'"
  shows "trace_wf l'"
  using assms
  unfolding append_unlocked_Inr trace_wf_def
  by (auto simp: Let_def nth_append head_event_id_def last_conv_nth less_Suc_eq)

interpretation trace: append_log append_unlocked tl_events trace_wf
  "\<lambda>l. (tl_trace_id l, tl_branch_id l)"
  by unfold_locales (auto simp: append_unlocked_Inr intro: append_unlocked_wf)

lemma TraceLog_init_wf: "TraceLog_init t b = Inr l \<Longrightarrow> trace_wf l \<and> tl_events l = []"
  by (auto simp: TraceLog_init_def res_iff trace_wf_def)

section \<open>Payload lemmas\<close>

lemma freeze_accepts:
  "(\<exists>w. freeze_public_value v = Inr w) \<longleftrightarrow> public_ok v"
  "(\<exists>w. freeze_public_items m = Inr w) \<longleftrightarrow> public_ok (PMap m)"
  "(\<exists>w. freeze_public_seq xs = Inr w) \<longleftrightarrow> public_ok (PList xs)"
  by (induction v and m and xs rule: freeze_public_value_freeze_public_items_freeze_public_seq.induct)
    (auto simp: res_iff)

lemma freeze_result:
  "freeze_public_value v = Inr w \<Longrightarrow> w = tuples_for_lists v"
  "freeze_public_items m = Inr n \<Longrightarrow> PMap n = tuples_for_lists (PMap m)"
  "freeze_public_seq xs = Inr ys \<Longrightarrow> PTuple ys = tuples_for_lists (PTuple xs)"
  by (induction v and m and xs arbitrary: w and n and ys
      rule: freeze_public_value_freeze_public_items_freeze_public_seq.induct)
    (auto simp: res_iff split: if_splits)

lemma freeze_eq: "freeze_public_value v = Inr w \<longleftrightarrow> public_ok v \<and> w = tuples_for_lists v"
  using freeze_accepts(1) freeze_result(1) by metis

lemma tuples_for_lists_ok [simp]: "public_ok (tuples_for_lists v) = public_ok v"
  by (induction v rule: tuples_for_lists.induct) (auto split: pykey.splits)

lemma tuples_for_lists_idem [simp]: "tuples_for_lists (tuples_for_lists v) = tuples_for_lists v"
  by (induction v rule: tuples_for_lists.induct) auto

lemma thaw_tuples_for_lists: "thaw_public_value (tuples_for_lists v) = lists_for_tuples v"
  by (induction v rule: tuples_for_lists.induct) auto

lemma lists_for_tuples_ok [simp]: "public_ok (lists_for_tuples v) = public_ok v"
  by (induction v rule: lists_for_tuples.induct) (auto split: pykey.splits)

lemma tuples_lists [simp]: "tuples_for_lists (lists_for_tuples v) = tuples_for_lists v"
  by (induction v rule: lists_for_tuples.induct) auto

lemma optional_public_text_Inr [res_iff]:
  assumes "key \<in> {''sanitized_reason'', ''public_summary''}"
  shows "optional_public_text key f v = Inr w \<longleftrightarrow> w = v \<and> (\<forall>t. v = Some t \<longrightarrow> \<not> absolute_path t)"
proof -
  have "lower (strip ''sanitized_reason'') \<notin> set FORBIDDEN_PUBLIC_KEYS"
    "lower (strip ''public_summary'') \<notin> set FORBIDDEN_PUBLIC_KEYS" by code_simp+
  with assms have "lower (strip key) \<notin> set FORBIDDEN_PUBLIC_KEYS" "key \<noteq> []" by auto
  then show ?thesis
    by (cases v) (auto simp: optional_public_text_def freeze_public_mapping_def ropt_def split: sum.splits)
qed

section \<open>Properties\<close>

text \<open>C10: \<open>freeze_public_mapping\<close> accepts exactly the mappings that hold no absolute path, no
  binary or path object, no foreign object, no empty or non-string key and no forbidden key at
  any depth; the frozen value is the input with every list turned into a tuple, and is itself
  acceptable.\<close>

theorem freeze_public_mapping_spec:
  "freeze_public_mapping v f = Inr w \<longleftrightarrow>
     (\<exists>m. v = PMap m) \<and> public_ok v \<and> w = tuples_for_lists v \<and> public_ok w"
proof -
  have "freeze_public_mapping v f = Inr w \<longleftrightarrow> (\<exists>m. v = PMap m) \<and> freeze_public_value v = Inr w"
    by (cases v) (auto simp: freeze_public_mapping_def)
  then show ?thesis by (auto simp only: freeze_eq tuples_for_lists_ok)
qed

text \<open>Freezing and thawing round trip: thawing a frozen payload gives the payload with
  lists for tuples, freezing that again gives the same frozen value, and freezing is
  idempotent.\<close>

theorem freeze_thaw_roundtrip:
  assumes "freeze_public_value v = Inr w"
  shows "thaw_public_value w = lists_for_tuples v \<and>
     freeze_public_value (thaw_public_value w) = Inr w \<and> freeze_public_value w = Inr w"
  using assms by (auto simp: freeze_eq thaw_tuples_for_lists)

theorem freeze_thaw_roundtrip_witness:
  "thaw_public_value (PMap [(KStr ''a'', PTuple [PInt 1, PStr ''x''])])
     = PMap [(KStr ''a'', PList [PInt 1, PStr ''x''])]"
proof -
  have "freeze_public_value (PMap [(KStr ''a'', PList [PInt 1, PStr ''x''])])
      = Inr (PMap [(KStr ''a'', PTuple [PInt 1, PStr ''x''])])" by code_simp
  from freeze_thaw_roundtrip[OF this] show ?thesis by simp
qed

text \<open>A trace log built from an empty one by any sequence of successful appends holds
  exactly the appended events in order and is well formed: distinct event ids, contiguous
  sequence numbers from 0, each event's parent is its predecessor, and every event carries the
  log's trace and branch.\<close>

theorem trace_appends_wf:
  assumes "TraceLog_init t b = Inr l" and "append_all append_unlocked es l = Inr l'"
  shows "trace_wf l' \<and> tl_events l' = es \<and> tl_trace_id l' = strip t \<and> tl_branch_id l' = strip b"
proof -
  note l = TraceLog_init_wf[OF assms(1), THEN conjunct1] TraceLog_init_wf[OF assms(1), THEN conjunct2]
  have "tl_trace_id l = strip t" "tl_branch_id l = strip b"
    using assms(1) by (auto simp: TraceLog_init_def res_iff)
  with l trace.append_all_inv[OF l(1) assms(2)] trace.append_all_extends[OF assms(2)]
    trace.append_all_owner[OF assms(2)]
  show ?thesis by simp
qed

definition sample_event :: "string \<Rightarrow> int \<Rightarrow> string option \<Rightarrow> TraceEvent" where
  "sample_event i n p = \<lparr>te_event_id = i, te_trace_id = ''t'', te_branch_id = ''b'', te_sequence = n,
     te_parent_event_id = p, te_kind = ACTION_INTENT, te_public_payload = PMap [],
     te_action_id = None, te_causation_id = None, te_replay_point_id = None\<rparr>"

definition sample_log :: TraceLog where
  "sample_log = \<lparr>tl_trace_id = ''t'', tl_branch_id = ''b'',
     tl_events = [sample_event ''e0'' 0 None, sample_event ''e1'' 1 (Some ''e0'')],
     tl_event_ids = {''e1'', ''e0''}\<rparr>"

lemma sample_log_built:
  "TraceLog_init ''t'' ''b'' = Inr (sample_log\<lparr>tl_events := [], tl_event_ids := {}\<rparr>)"
  "append_all append_unlocked [sample_event ''e0'' 0 None, sample_event ''e1'' 1 (Some ''e0'')]
     (sample_log\<lparr>tl_events := [], tl_event_ids := {}\<rparr>) = Inr sample_log"
   by (simp_all add: TraceLog_init_def require_nonempty_text_def strip_def is_space_def
      append_unlocked_def validate_append_unlocked_def sample_event_def sample_log_def
      head_event_id_def)

lemma trace_sample_wf: "trace_wf sample_log"
  using trace.append_all_inv[OF _ sample_log_built(2)] TraceLog_init_wf[OF sample_log_built(1)] by blast

theorem trace_appends_wf_witness:
  "trace_wf sample_log \<and> map te_event_id (tl_events sample_log) = [''e0'', ''e1'']"
  using trace_appends_wf[OF sample_log_built] by (auto simp: sample_event_def)

text \<open>An appended event is found by its id, and the lookup of every event already in the
  log is unaffected by the append.\<close>

theorem trace_event_after_append:
  assumes "trace_wf l" and "append_unlocked e l = Inr l'" and "strip (te_event_id e) = te_event_id e"
    and "te_event_id e \<noteq> []"
  shows "TraceLog_event l' (te_event_id e) = Inr e \<and>
     (\<forall>i f. TraceLog_event l i = Inr f \<longrightarrow> TraceLog_event l' i = Inr f)"
proof -
  have new: "te_event_id x \<noteq> te_event_id e" if "x \<in> set (tl_events l)" for x
    using assms(1,2) that unfolding append_unlocked_Inr trace_wf_def by (metis image_eqI)
  then have none: "find (\<lambda>x. te_event_id x = te_event_id e) (tl_events l) = None"
    by (simp add: find_None_iff)
  have fapp: "find P (xs @ [y]) = (case find P xs of Some x \<Rightarrow> Some x | None \<Rightarrow> if P y then Some y else None)"
    for P :: "TraceEvent \<Rightarrow> bool" and xs y by (induction xs) auto
  have "TraceLog_event l' (te_event_id e) = Inr e"
    using assms none by (auto simp: TraceLog_event_def append_unlocked_Inr fapp)
  moreover have "TraceLog_event l i = Inr f \<Longrightarrow> TraceLog_event l' i = Inr f" for i f
    using assms(2) by (auto simp: TraceLog_event_def append_unlocked_Inr fapp res_iff split: option.splits)
  ultimately show ?thesis by blast
qed

theorem trace_event_after_append_witness:
  "TraceLog_event (sample_log\<lparr>tl_events := tl_events sample_log @ [sample_event ''e2'' 2 (Some ''e1'')],
      tl_event_ids := {''e2'', ''e1'', ''e0''}\<rparr>) ''e2'' = Inr (sample_event ''e2'' 2 (Some ''e1''))"
proof -
  have "append_unlocked (sample_event ''e2'' 2 (Some ''e1'')) sample_log =
      Inr (sample_log\<lparr>tl_events := tl_events sample_log @ [sample_event ''e2'' 2 (Some ''e1'')],
        tl_event_ids := {''e2'', ''e1'', ''e0''}\<rparr>)"
    by (simp add: append_unlocked_def validate_append_unlocked_def sample_event_def sample_log_def
      head_event_id_def)
  from trace_event_after_append[OF _ this] show ?thesis
    using trace_sample_wf by (simp add: sample_event_def strip_def is_space_def)
qed

end
