(* ===== verification/Replay_Metrics.thy ===== *)
theory Replay_Metrics
  imports Trace_Runtime "HOL-Library.List_Lexorder" "HOL-Library.Char_ord"
begin

text \<open>
  \<open>ReplayMetricLedger\<close> of \<open>src/loopx/capabilities/explore/replay_metrics.py\<close>: the counters
  and durations every replay operation reports to.  A \<open>Counter\<close> reads 0 at a missing key, so
  the counters are total functions; the fidelity counter keeps its keys in insertion order
  because \<open>snapshot\<close> lists them.  (\<open>summarize_counterfactual_results\<close> of the same file is in
  \<open>Replay_Summary\<close>, after the results it reads.)
\<close>

definition COUNT_FIELDS :: "string list" where
  "COUNT_FIELDS =
    [''capture_attempt_count'',
     ''capture_success_count'',
     ''capture_failure_count'',
     ''capture_compensation_count'',
     ''capture_compensation_failure_count'',
     ''orphaned_adapter_binding_count'',
     ''orphaned_agent_state_count'',
     ''replacement_capture_attempt_count'',
     ''replacement_capture_success_count'',
     ''replacement_capture_failure_count'',
     ''replacement_projection_mismatch_count'',
     ''replay_point_selection_count'',
     ''replay_point_fidelity_fallback_count'',
     ''replay_point_fidelity_filtered_selection_count'',
     ''child_group_attempt_count'',
     ''child_group_success_count'',
     ''child_group_failure_count'',
     ''child_group_settled_count'',
     ''child_candidate_success_count'',
     ''child_candidate_failure_count'',
     ''child_parallel_group_count'',
     ''child_process_isolated_parallel_group_count'',
     ''child_parallel_downgrade_group_count'',
     ''child_serial_fallback_group_count'',
     ''child_session_fork_attempt_count'',
     ''child_session_fork_success_count'',
     ''child_session_fork_failure_count'',
     ''child_session_release_attempt_count'',
     ''child_session_release_success_count'',
     ''child_session_release_failure_count'',
     ''child_intent_assessment_count'',
     ''child_intent_allowed_count'',
     ''child_intent_denied_count'',
     ''child_outcome_assessment_count'',
     ''child_outcome_allowed_count'',
     ''child_outcome_denied_count'',
     ''replay_attempt_count'',
     ''replay_success_count'',
     ''replay_failure_count'',
     ''restore_attempt_count'',
     ''restore_success_count'',
     ''restore_failure_count'',
     ''prefix_reuse_verified_count'',
     ''prefix_reconstruction_count'',
     ''prefix_reuse_unknown_count'',
     ''equivalence_attempt_count'',
     ''equivalence_verified_count'',
     ''equivalence_unverified_count'',
     ''equivalence_failure_count'',
     ''suffix_attempt_count'',
     ''suffix_success_count'',
     ''suffix_failure_count'',
     ''suffix_finalization_attempt_count'',
     ''suffix_finalization_success_count'',
     ''suffix_finalization_failure_count'',
     ''replay_point_quarantine_count'',
     ''release_attempt_count'',
     ''release_success_count'',
     ''release_failure_count'']"

definition MINUTE_FIELDS :: "string list" where
  "MINUTE_FIELDS =
    [''capture_minutes'',
     ''restore_minutes'',
     ''equivalence_minutes'',
     ''suffix_minutes'',
     ''replay_wall_minutes'',
     ''release_minutes'']"

record ReplayMetricLedger =
  ml_counts :: "string \<Rightarrow> int"
  ml_minutes :: "string \<Rightarrow> pyfloat"
  ml_fidelity :: "int dict"

definition ledger_init :: ReplayMetricLedger where
  "ledger_init = \<lparr>ml_counts = (\<lambda>_. 0), ml_minutes = (\<lambda>_. Fin 0), ml_fidelity = []\<rparr>"

definition increment :: "string \<Rightarrow> int \<Rightarrow> ReplayMetricLedger \<Rightarrow> ReplayMetricLedger res" where
  "increment field amount l =
     (if field \<notin> set COUNT_FIELDS then Inl (ValueError ''unknown replay count metric'')
      else Inr (l\<lparr>ml_counts := (ml_counts l)(field := ml_counts l field + amount)\<rparr>))"

definition add_seconds :: "string \<Rightarrow> pyfloat \<Rightarrow> ReplayMetricLedger \<Rightarrow> ReplayMetricLedger res" where
  "add_seconds field seconds l =
     (if field \<notin> set MINUTE_FIELDS then Inl (ValueError ''unknown replay duration metric'')
      else Inr (l\<lparr>ml_minutes := (ml_minutes l)
             (field := fadd (ml_minutes l field) (over60 (fmax0 seconds)))\<rparr>))"

definition counter_get :: "int dict \<Rightarrow> string \<Rightarrow> int" where
  "counter_get d k = (case dict_get d k of None \<Rightarrow> 0 | Some n \<Rightarrow> n)"

definition counter_add :: "string \<Rightarrow> int \<Rightarrow> int dict \<Rightarrow> int dict" where
  "counter_add k n d = dict_set k (counter_get d k + n) d"

definition observe_fidelity :: "string \<Rightarrow> ReplayMetricLedger \<Rightarrow> ReplayMetricLedger res" where
  "observe_fidelity fidelity l =
     (let normalized = strip fidelity in
      if normalized = [] then Inl (ValueError ''fidelity metric key must be non-empty'')
      else Inr (l\<lparr>ml_fidelity := counter_add normalized 1 (ml_fidelity l)\<rparr>))"

text \<open>\<open>dict(sorted(counter.items()))\<close>\<close>

definition sorted_counter :: "int dict \<Rightarrow> pyval" where
  "sorted_counter d = PMap (map (\<lambda>(k, n). (KStr k, PInt n)) (sort_key fst d))"

definition ledger_snapshot :: "ReplayMetricLedger \<Rightarrow> pyval dict" where
  "ledger_snapshot l =
     map (\<lambda>f. (f, PInt (ml_counts l f))) COUNT_FIELDS @
     map (\<lambda>f. (f, PFloat (round_decimals (ml_minutes l f) 6))) MINUTE_FIELDS @
     [(''restored_fidelity_counts'', sorted_counter (ml_fidelity l))]"

section \<open>A ledger of counters, as its clients see it\<close>

fun bump_all :: "('f \<Rightarrow> int \<Rightarrow> 'l \<Rightarrow> 'l res) \<Rightarrow> ('f \<times> int) list \<Rightarrow> 'l \<Rightarrow> 'l res" where
  "bump_all bump [] l = Inr l"
| "bump_all bump ((f, n) # r) l = rbind (bump f n l) (bump_all bump r)"

locale counter_ledger =
  fixes bump :: "'f \<Rightarrow> int \<Rightarrow> 'l \<Rightarrow> 'l res"
    and count :: "'l \<Rightarrow> 'f \<Rightarrow> int"
    and known :: "'f \<Rightarrow> bool"
  assumes bump_known: "known f \<Longrightarrow> \<exists>l'. bump f n l = Inr l'"
    and bump_unknown: "\<not> known f \<Longrightarrow> \<exists>e. bump f n l = Inl e"
    and bump_count: "bump f n l = Inr l' \<Longrightarrow> count l' = (count l)(f := count l f + n)"
begin

lemma bump_all_total:
  "(\<exists>l'. bump_all bump r l = Inr l') \<longleftrightarrow> (\<forall>(f, n) \<in> set r. known f)"
proof (induction r arbitrary: l)
  case (Cons p r)
  obtain f n where p: "p = (f, n)" by (cases p)
  show ?case
  proof (cases "known f")
    case True
    then obtain l' where "bump f n l = Inr l'" using bump_known by blast
    with p Cons.IH True show ?thesis by simp
  next
    case False
    then obtain e where "bump f n l = Inl e" using bump_unknown by blast
    with p False show ?thesis by auto
  qed
qed simp

lemma bump_all_count:
  "bump_all bump r l = Inr l' \<Longrightarrow> count l' f = count l f + sum_list (map snd (filter (\<lambda>p. fst p = f) r))"
proof (induction r arbitrary: l)
  case (Cons p r)
  obtain g n where p: "p = (g, n)" by (cases p)
  with Cons.prems obtain k where k: "bump g n l = Inr k" "bump_all bump r k = Inr l'"
    by (auto simp: res_iff)
  from Cons.IH[OF k(2)] bump_count[OF k(1)] p show ?case by auto
qed simp

end

interpretation replay_counts: counter_ledger increment ml_counts "\<lambda>f. f \<in> set COUNT_FIELDS"
  by unfold_locales (auto simp: increment_def split: if_splits)

lemma count_field_known [simp]:
  "''capture_attempt_count'' \<in> set COUNT_FIELDS"
  "''capture_success_count'' \<in> set COUNT_FIELDS"
  "''capture_failure_count'' \<in> set COUNT_FIELDS"
  "''capture_compensation_count'' \<in> set COUNT_FIELDS"
  "''capture_compensation_failure_count'' \<in> set COUNT_FIELDS"
  "''orphaned_adapter_binding_count'' \<in> set COUNT_FIELDS"
  "''orphaned_agent_state_count'' \<in> set COUNT_FIELDS"
  "''replacement_capture_attempt_count'' \<in> set COUNT_FIELDS"
  "''replacement_capture_success_count'' \<in> set COUNT_FIELDS"
  "''replacement_capture_failure_count'' \<in> set COUNT_FIELDS"
  "''replacement_projection_mismatch_count'' \<in> set COUNT_FIELDS"
  "''replay_point_selection_count'' \<in> set COUNT_FIELDS"
  "''replay_point_fidelity_fallback_count'' \<in> set COUNT_FIELDS"
  "''replay_point_fidelity_filtered_selection_count'' \<in> set COUNT_FIELDS"
  "''child_group_attempt_count'' \<in> set COUNT_FIELDS"
  "''child_group_success_count'' \<in> set COUNT_FIELDS"
  "''child_group_failure_count'' \<in> set COUNT_FIELDS"
  "''child_group_settled_count'' \<in> set COUNT_FIELDS"
  "''child_candidate_success_count'' \<in> set COUNT_FIELDS"
  "''child_candidate_failure_count'' \<in> set COUNT_FIELDS"
  "''child_parallel_group_count'' \<in> set COUNT_FIELDS"
  "''child_process_isolated_parallel_group_count'' \<in> set COUNT_FIELDS"
  "''child_parallel_downgrade_group_count'' \<in> set COUNT_FIELDS"
  "''child_serial_fallback_group_count'' \<in> set COUNT_FIELDS"
  "''child_session_fork_attempt_count'' \<in> set COUNT_FIELDS"
  "''child_session_fork_success_count'' \<in> set COUNT_FIELDS"
  "''child_session_fork_failure_count'' \<in> set COUNT_FIELDS"
  "''child_session_release_attempt_count'' \<in> set COUNT_FIELDS"
  "''child_session_release_success_count'' \<in> set COUNT_FIELDS"
  "''child_session_release_failure_count'' \<in> set COUNT_FIELDS"
  "''child_intent_assessment_count'' \<in> set COUNT_FIELDS"
  "''child_intent_allowed_count'' \<in> set COUNT_FIELDS"
  "''child_intent_denied_count'' \<in> set COUNT_FIELDS"
  "''child_outcome_assessment_count'' \<in> set COUNT_FIELDS"
  "''child_outcome_allowed_count'' \<in> set COUNT_FIELDS"
  "''child_outcome_denied_count'' \<in> set COUNT_FIELDS"
  "''replay_attempt_count'' \<in> set COUNT_FIELDS"
  "''replay_success_count'' \<in> set COUNT_FIELDS"
  "''replay_failure_count'' \<in> set COUNT_FIELDS"
  "''restore_attempt_count'' \<in> set COUNT_FIELDS"
  "''restore_success_count'' \<in> set COUNT_FIELDS"
  "''restore_failure_count'' \<in> set COUNT_FIELDS"
  "''prefix_reuse_verified_count'' \<in> set COUNT_FIELDS"
  "''prefix_reconstruction_count'' \<in> set COUNT_FIELDS"
  "''prefix_reuse_unknown_count'' \<in> set COUNT_FIELDS"
  "''equivalence_attempt_count'' \<in> set COUNT_FIELDS"
  "''equivalence_verified_count'' \<in> set COUNT_FIELDS"
  "''equivalence_unverified_count'' \<in> set COUNT_FIELDS"
  "''equivalence_failure_count'' \<in> set COUNT_FIELDS"
  "''suffix_attempt_count'' \<in> set COUNT_FIELDS"
  "''suffix_success_count'' \<in> set COUNT_FIELDS"
  "''suffix_failure_count'' \<in> set COUNT_FIELDS"
  "''suffix_finalization_attempt_count'' \<in> set COUNT_FIELDS"
  "''suffix_finalization_success_count'' \<in> set COUNT_FIELDS"
  "''suffix_finalization_failure_count'' \<in> set COUNT_FIELDS"
  "''replay_point_quarantine_count'' \<in> set COUNT_FIELDS"
  "''release_attempt_count'' \<in> set COUNT_FIELDS"
  "''release_success_count'' \<in> set COUNT_FIELDS"
  "''release_failure_count'' \<in> set COUNT_FIELDS"
  by (simp_all add: COUNT_FIELDS_def)

lemma minute_field_known [simp]:
  "''capture_minutes'' \<in> set MINUTE_FIELDS"
  "''restore_minutes'' \<in> set MINUTE_FIELDS"
  "''equivalence_minutes'' \<in> set MINUTE_FIELDS"
  "''suffix_minutes'' \<in> set MINUTE_FIELDS"
  "''replay_wall_minutes'' \<in> set MINUTE_FIELDS"
  "''release_minutes'' \<in> set MINUTE_FIELDS"
  by (simp_all add: MINUTE_FIELDS_def)

lemma increment_Inr [simp]:
  "f \<in> set COUNT_FIELDS \<Longrightarrow>
     increment f n l = Inr (l\<lparr>ml_counts := (ml_counts l)(f := ml_counts l f + n)\<rparr>)"
  by (simp add: increment_def)

lemma counter_get_add: "counter_get (counter_add k n d) k' = counter_get d k' + (if k' = k then n else 0)"
  by (auto simp: counter_get_def counter_add_def dict_get_set)

end
