(* ===== verification/Replay_Contract.thy ===== *)
theory Replay_Contract
  imports Replay_Metrics
begin

text \<open>
  The contracts of \<open>src/loopx/capabilities/explore/replay_runtime.py\<close>: fidelity, protocol
  detection, the requests, leases, receipts, assessments and reports exchanged with an
  adapter, the replay point and the equivalence contract.

  Opaque runtime keys are natural numbers (their identity); an absent one is \<open>None\<close>.
  Adapters and agent-state stores are code outside the repository: each of their methods is a
  parameter, a function from its arguments and the outside world \<open>'w\<close> to an exception or a
  value and the next world.  A method that returns a dataclass instance returns the record as
  given to the constructor (\<open>Proper\<close>), whose \<open>__post_init__\<close> then runs, or \<open>None\<close>, or an
  object of another class with no attribute the code reads (\<open>OtherObject\<close>).
\<close>

section \<open>Enumerations\<close>

datatype ReplayFidelity = EXACT | SEMANTIC_EQUIVALENT | BEST_EFFORT | NON_REPLAYABLE

fun ReplayFidelity_value :: "ReplayFidelity \<Rightarrow> string" where
  "ReplayFidelity_value EXACT = ''exact''"
| "ReplayFidelity_value SEMANTIC_EQUIVALENT = ''semantic_equivalent''"
| "ReplayFidelity_value BEST_EFFORT = ''best_effort''"
| "ReplayFidelity_value NON_REPLAYABLE = ''non_replayable''"

datatype ReplayChildConcurrency = SERIAL_ONLY | THREAD_SAFE | PROCESS_ISOLATED

datatype ReplayChildFailureStage = STAGE_INTENT | STAGE_SUFFIX

fun FIDELITY_RANK :: "ReplayFidelity \<Rightarrow> nat" where
  "FIDELITY_RANK NON_REPLAYABLE = 0"
| "FIDELITY_RANK BEST_EFFORT = 1"
| "FIDELITY_RANK SEMANTIC_EQUIVALENT = 2"
| "FIDELITY_RANK EXACT = 3"

definition fidelity_meets :: "ReplayFidelity \<Rightarrow> ReplayFidelity \<Rightarrow> bool" where
  "fidelity_meets actual required = (FIDELITY_RANK required \<le> FIDELITY_RANK actual)"

datatype ReplayPointLifecycle = READY | RELEASING | RELEASED | FAILED

fun ReplayPointLifecycle_value :: "ReplayPointLifecycle \<Rightarrow> string" where
  "ReplayPointLifecycle_value READY = ''ready''"
| "ReplayPointLifecycle_value RELEASING = ''releasing''"
| "ReplayPointLifecycle_value RELEASED = ''released''"
| "ReplayPointLifecycle_value FAILED = ''failed''"

section \<open>Optional protocols\<close>

text \<open>An attribute of a foreign object: absent, present but not callable, or a method.\<close>

datatype 'f attr = Absent | NotCallable | Callable 'f

fun has_attr :: "'f attr \<Rightarrow> bool" where
  "has_attr Absent = False"
| "has_attr _ = True"

fun is_callable :: "'f attr \<Rightarrow> bool" where
  "is_callable (Callable f) = True"
| "is_callable _ = False"

datatype 'a foreign = Proper 'a | NoneObject | OtherObject

type_synonym key = nat

text \<open>The shared shape of the three protocol detections: all methods absent gives \<open>None\<close>, all
  callable gives the mode, anything in between is an error.\<close>

definition protocol_mode :: "string \<Rightarrow> string \<Rightarrow> (bool \<times> bool) list \<Rightarrow> string option res" where
  "protocol_mode mode message methods =
     (if list_ex fst methods \<and> \<not> list_all snd methods then Inl (ValueError message)
      else Inr (if list_all snd methods then Some mode else None))"

abbreviation method_facts :: "'f attr \<Rightarrow> bool \<times> bool" where
  "method_facts a \<equiv> (has_attr a, is_callable a)"

section \<open>Requests, leases and receipts\<close>

record CaptureReplayStateRequest =
  cr_replay_point_id :: string
  cr_cursor :: TraceCursor

record RestoreReplayStateRequest =
  rr_replay_point_id :: string
  rr_target_branch_id :: string
  rr_minimum_fidelity :: ReplayFidelity

record ForkReplayChildRequest =
  fr_replay_point_id :: string
  fr_child_id :: string
  fr_target_branch_id :: string
  fr_minimum_fidelity :: ReplayFidelity

definition ForkReplayChildRequest_post_init :: "ForkReplayChildRequest \<Rightarrow> ForkReplayChildRequest res" where
  "ForkReplayChildRequest_post_init r =
     rbind (require_nonempty_text (fr_replay_point_id r) ''replay_point_id'') (\<lambda>p.
     rbind (require_nonempty_text (fr_child_id r) ''child_id'') (\<lambda>c.
     rbind (require_nonempty_text (fr_target_branch_id r) ''target_branch_id'') (\<lambda>b.
     rbind (check (fr_minimum_fidelity r \<noteq> NON_REPLAYABLE)
              (ValueError ''isolated replay children require replayable fidelity'')) (\<lambda>_.
     Inr (r\<lparr>fr_replay_point_id := p, fr_child_id := c, fr_target_branch_id := b\<rparr>)))))"

record AdapterStateLease =
  al_binding_key :: "key option"
  al_fidelity :: ReplayFidelity
  al_projection_digest :: "string option"

definition AdapterStateLease_post_init :: "AdapterStateLease \<Rightarrow> AdapterStateLease res" where
  "AdapterStateLease_post_init l =
     rbind (if al_fidelity l = NON_REPLAYABLE
            then check (al_binding_key l = None)
                   (ValueError ''non_replayable leases must not expose a binding_key'')
            else check (al_binding_key l \<noteq> None)
                   (ValueError ''replayable leases require an opaque binding_key'')) (\<lambda>_.
     rbind (optional_text (al_projection_digest l) ''projection_digest'') (\<lambda>d.
     Inr (l\<lparr>al_projection_digest := d\<rparr>)))"

record RestoreReceipt =
  rc_achieved_fidelity :: ReplayFidelity
  rc_restored_projection_digest :: "string option"
  rc_prefix_reused :: "bool option"

definition RestoreReceipt_post_init :: "RestoreReceipt \<Rightarrow> RestoreReceipt res" where
  "RestoreReceipt_post_init r =
     rbind (optional_text (rc_restored_projection_digest r) ''restored_projection_digest'') (\<lambda>d.
     Inr (r\<lparr>rc_restored_projection_digest := d\<rparr>))"

record ReplayChildLease =
  cl_child_key :: "key option"
  cl_receipt :: RestoreReceipt
  cl_concurrency :: ReplayChildConcurrency
  cl_worker_identity :: "key option"

text \<open>The receipt is itself a constructed dataclass, so its own \<open>__post_init__\<close> has run.\<close>

definition ReplayChildLease_post_init :: "ReplayChildLease \<Rightarrow> ReplayChildLease res" where
  "ReplayChildLease_post_init l =
     rbind (RestoreReceipt_post_init (cl_receipt l)) (\<lambda>rc.
     rbind (check (cl_child_key l \<noteq> None)
              (TypeError ''ReplayChildLease requires an opaque child_key'')) (\<lambda>_.
     rbind (check (\<not> (cl_concurrency l = PROCESS_ISOLATED \<and> cl_worker_identity l = None))
              (TypeError ''process-isolated ReplayChildLease requires an opaque worker_identity'')) (\<lambda>_.
     Inr (l\<lparr>cl_receipt := rc\<rparr>))))"

section \<open>Assessments and reports\<close>

definition ReplayRiskAssessment_post_init :: "ReplayRiskAssessment \<Rightarrow> ReplayRiskAssessment res" where
  "ReplayRiskAssessment_post_init a =
     rbind (require_nonempty_text (ra_policy_id a) ''policy_id'') (\<lambda>p.
     rbind (optional_public_text ''sanitized_reason'' ''replay_risk_assessment''
              (ra_sanitized_reason a)) (\<lambda>r.
     Inr (a\<lparr>ra_policy_id := p, ra_sanitized_reason := r\<rparr>)))"

fun ReplayRiskDisposition_value :: "ReplayRiskDisposition \<Rightarrow> string" where
  "ReplayRiskDisposition_value RISK_ALLOW = ''allow''"
| "ReplayRiskDisposition_value RISK_DENY = ''deny''"

definition ReplayRiskAssessment_to_record :: "ReplayRiskAssessment \<Rightarrow> pyval" where
  "ReplayRiskAssessment_to_record a = PMap
    [(KStr ''disposition'', PStr (ReplayRiskDisposition_value (ra_disposition a))),
     (KStr ''policy_id'', PStr (ra_policy_id a)),
     (KStr ''sanitized_reason'', py_opt_str (ra_sanitized_reason a))]"

record EquivalenceCheck =
  ec_check_id :: string
  ec_passed :: bool
  ec_public_summary :: "string option"

definition EquivalenceCheck_post_init :: "EquivalenceCheck \<Rightarrow> EquivalenceCheck res" where
  "EquivalenceCheck_post_init c =
     rbind (require_nonempty_text (ec_check_id c) ''check_id'') (\<lambda>i.
     rbind (optional_public_text ''public_summary'' ''equivalence_check'' (ec_public_summary c)) (\<lambda>p.
     Inr (c\<lparr>ec_check_id := i, ec_public_summary := p\<rparr>)))"

record EquivalenceReport =
  er_achieved_fidelity :: ReplayFidelity
  er_equivalent :: bool
  er_expected_digest :: "string option"
  er_observed_digest :: "string option"
  er_checks :: "EquivalenceCheck list"
  er_sanitized_reason :: "string option"

text \<open>The checks are constructed before the report that holds them.\<close>

definition EquivalenceReport_post_init :: "EquivalenceReport \<Rightarrow> EquivalenceReport res" where
  "EquivalenceReport_post_init r =
     rbind (rmap EquivalenceCheck_post_init (er_checks r)) (\<lambda>cs.
     rbind (optional_text (er_expected_digest r) ''expected_digest'') (\<lambda>e.
     rbind (optional_text (er_observed_digest r) ''observed_digest'') (\<lambda>ob.
     rbind (optional_public_text ''sanitized_reason'' ''equivalence_report''
              (er_sanitized_reason r)) (\<lambda>s.
     Inr (r\<lparr>er_expected_digest := e, er_observed_digest := ob, er_checks := cs,
            er_sanitized_reason := s\<rparr>)))))"

section \<open>Results\<close>

record ReplayRestoreResult =
  rs_replay_point_id :: string
  rs_target_branch_id :: string
  rs_achieved_fidelity :: ReplayFidelity
  rs_equivalent :: bool
  rs_promotion_eligible :: bool
  rs_prefix_reused :: "bool option"
  rs_report :: EquivalenceReport
  rs_restore_minutes :: pyfloat
  rs_equivalence_minutes :: pyfloat
  rs_suffix_minutes :: pyfloat
  rs_replay_wall_minutes :: pyfloat

fun py_opt_bool :: "bool option \<Rightarrow> pyval" where
  "py_opt_bool None = PNone"
| "py_opt_bool (Some b) = PBool b"

definition ReplayRestoreResult_to_record :: "ReplayRestoreResult \<Rightarrow> pyval" where
  "ReplayRestoreResult_to_record r = PMap
    [(KStr ''replay_point_id'', PStr (rs_replay_point_id r)),
     (KStr ''target_branch_id'', PStr (rs_target_branch_id r)),
     (KStr ''achieved_fidelity'', PStr (ReplayFidelity_value (rs_achieved_fidelity r))),
     (KStr ''equivalent'', PBool (rs_equivalent r)),
     (KStr ''promotion_eligible'', PBool (rs_promotion_eligible r)),
     (KStr ''prefix_reused'', py_opt_bool (rs_prefix_reused r)),
     (KStr ''expected_digest'', py_opt_str (er_expected_digest (rs_report r))),
     (KStr ''observed_digest'', py_opt_str (er_observed_digest (rs_report r))),
     (KStr ''checks'', PList (map (\<lambda>c. PMap
        [(KStr ''check_id'', PStr (ec_check_id c)),
         (KStr ''passed'', PBool (ec_passed c)),
         (KStr ''public_summary'', py_opt_str (ec_public_summary c))]) (er_checks (rs_report r)))),
     (KStr ''sanitized_reason'', py_opt_str (er_sanitized_reason (rs_report r))),
     (KStr ''restore_minutes'', PFloat (rs_restore_minutes r)),
     (KStr ''equivalence_minutes'', PFloat (rs_equivalence_minutes r)),
     (KStr ''suffix_minutes'', PFloat (rs_suffix_minutes r)),
     (KStr ''replay_wall_minutes'', PFloat (rs_replay_wall_minutes r))]"

record ReplayChildExecutionContext =
  cx_child_id :: string
  cx_restore :: ReplayRestoreResult
  cx_isolated :: bool
  cx_adapter_child_key :: "key option"

record ('s, 'o) ReplayChildTask =
  ct_child_id :: string
  ct_target_branch_id :: string
  ct_minimum_fidelity :: ReplayFidelity
  ct_execute :: "ReplayChildExecutionContext \<Rightarrow> ('s, 'o) act"
  ct_intent :: pyval

definition ReplayChildTask_post_init :: "('s, 'o) ReplayChildTask \<Rightarrow> ('s, 'o) ReplayChildTask res" where
  "ReplayChildTask_post_init t =
     rbind (require_nonempty_text (ct_child_id t) ''child_id'') (\<lambda>c.
     rbind (require_nonempty_text (ct_target_branch_id t) ''target_branch_id'') (\<lambda>b.
     rbind (check (ct_minimum_fidelity t \<noteq> NON_REPLAYABLE)
              (ValueError ''ReplayChildTask requires replayable fidelity'')) (\<lambda>_.
     rbind (freeze_public_mapping (ct_intent t) ''replay_child_intent'') (\<lambda>m.
     Inr (t\<lparr>ct_child_id := c, ct_target_branch_id := b, ct_intent := m\<rparr>)))))"

record 'o ReplayChildExecutionResult =
  xr_child_id :: string
  xr_restore :: ReplayRestoreResult
  xr_outcome :: 'o
  xr_isolated :: bool
  xr_parallel :: bool
  xr_intent_assessment :: "ReplayRiskAssessment option"
  xr_outcome_assessment :: "ReplayRiskAssessment option"

fun py_opt_assessment :: "ReplayRiskAssessment option \<Rightarrow> pyval" where
  "py_opt_assessment None = PNone"
| "py_opt_assessment (Some a) = ReplayRiskAssessment_to_record a"

definition ReplayChildExecutionResult_to_record :: "'o ReplayChildExecutionResult \<Rightarrow> pyval" where
  "ReplayChildExecutionResult_to_record r = PMap
    [(KStr ''child_id'', PStr (xr_child_id r)),
     (KStr ''restore'', ReplayRestoreResult_to_record (xr_restore r)),
     (KStr ''isolated'', PBool (xr_isolated r)),
     (KStr ''parallel'', PBool (xr_parallel r)),
     (KStr ''intent_assessment'', py_opt_assessment (xr_intent_assessment r)),
     (KStr ''outcome_assessment'', py_opt_assessment (xr_outcome_assessment r))]"

record ReplayChildExecutionFailure =
  xf_child_id :: string
  xf_restore :: ReplayRestoreResult
  xf_stage :: ReplayChildFailureStage
  xf_error_type :: string
  xf_isolated :: bool
  xf_parallel :: bool
  xf_risk_assessment :: "ReplayRiskAssessment option"

definition ReplayChildExecutionFailure_post_init ::
  "ReplayChildExecutionFailure \<Rightarrow> ReplayChildExecutionFailure res" where
  "ReplayChildExecutionFailure_post_init f =
     rbind (require_nonempty_text (xf_child_id f) ''child_id'') (\<lambda>c.
     rbind (require_nonempty_text (xf_error_type f) ''error_type'') (\<lambda>e.
     Inr (f\<lparr>xf_child_id := c, xf_error_type := e\<rparr>)))"

fun ReplayChildFailureStage_value :: "ReplayChildFailureStage \<Rightarrow> string" where
  "ReplayChildFailureStage_value STAGE_INTENT = ''intent''"
| "ReplayChildFailureStage_value STAGE_SUFFIX = ''suffix''"

definition ReplayChildExecutionFailure_to_record :: "ReplayChildExecutionFailure \<Rightarrow> pyval" where
  "ReplayChildExecutionFailure_to_record f = PMap
    [(KStr ''child_id'', PStr (xf_child_id f)),
     (KStr ''restore'', ReplayRestoreResult_to_record (xf_restore f)),
     (KStr ''stage'', PStr (ReplayChildFailureStage_value (xf_stage f))),
     (KStr ''error_type'', PStr (xf_error_type f)),
     (KStr ''isolated'', PBool (xf_isolated f)),
     (KStr ''parallel'', PBool (xf_parallel f)),
     (KStr ''risk_assessment'', py_opt_assessment (xf_risk_assessment f))]"

section \<open>Replay points and the equivalence contract\<close>

record ReplayPoint =
  rp_replay_point_id :: string
  rp_cursor :: TraceCursor
  rp_fidelity :: ReplayFidelity
  rp_captured_projection_digest :: "string option"
  rp_lifecycle :: ReplayPointLifecycle
  rp_created_event_id :: string
  rp_replaces_replay_point_id :: "string option"

definition ReplayPoint_to_record :: "ReplayPoint \<Rightarrow> pyval dict" where
  "ReplayPoint_to_record p =
    [(''replay_point_id'', PStr (rp_replay_point_id p)),
     (''trace_id'', PStr (tc_trace_id (rp_cursor p))),
     (''branch_id'', PStr (tc_branch_id (rp_cursor p))),
     (''after_event_id'', py_opt_str (tc_after_event_id (rp_cursor p))),
     (''next_sequence'', PInt (tc_next_sequence (rp_cursor p))),
     (''agent_history_index'', PInt (ac_history_index (tc_agent_cursor (rp_cursor p)))),
     (''agent_history_digest'', PStr (ac_history_digest (tc_agent_cursor (rp_cursor p)))),
     (''agent_context_digest'', PStr (ac_context_digest (tc_agent_cursor (rp_cursor p)))),
     (''fidelity'', PStr (ReplayFidelity_value (rp_fidelity p))),
     (''captured_projection_digest'', py_opt_str (rp_captured_projection_digest p)),
     (''lifecycle'', PStr (ReplayPointLifecycle_value (rp_lifecycle p))),
     (''created_event_id'', PStr (rp_created_event_id p)),
     (''replaces_replay_point_id'', py_opt_str (rp_replaces_replay_point_id p))]"

definition validate_equivalence_contract ::
  "ReplayPoint \<Rightarrow> RestoreReceipt \<Rightarrow> EquivalenceReport \<Rightarrow> ReplayFidelity \<Rightarrow> bool res" where
  "validate_equivalence_contract point receipt report minimum =
     rbind (check (er_achieved_fidelity report = rc_achieved_fidelity receipt)
       (ValueError ''restore receipt and equivalence report fidelity disagree'')) (\<lambda>_.
     rbind (check (\<not> (rc_restored_projection_digest receipt \<noteq> None \<and> er_observed_digest report \<noteq> None \<and>
                     rc_restored_projection_digest receipt \<noteq> er_observed_digest report))
       (ValueError ''restore receipt and equivalence report observed digests disagree'')) (\<lambda>_.
     rbind (check (\<not> (rp_captured_projection_digest point \<noteq> None \<and>
                     er_expected_digest report \<noteq> rp_captured_projection_digest point))
       (ValueError ''equivalence report expected digest does not match the captured ReplayPoint'')) (\<lambda>_.
     rbind (check (\<not> (er_equivalent report \<and> list_ex (\<lambda>c. \<not> ec_passed c) (er_checks report)))
       (ValueError ''equivalence report cannot pass while a declared check fails'')) (\<lambda>_.
     rbind (check (\<not> (er_achieved_fidelity report = EXACT \<and>
                     (er_expected_digest report = None \<or> er_observed_digest report = None \<or>
                      er_expected_digest report \<noteq> er_observed_digest report)))
       (ValueError ''exact replay requires equal non-empty state digests'')) (\<lambda>_.
     let trusted_fidelity = fidelity_meets (er_achieved_fidelity report) SEMANTIC_EQUIVALENT in
     rbind (check (\<not> (er_achieved_fidelity report = SEMANTIC_EQUIVALENT \<and> er_checks report = []))
       (ValueError ''semantic replay requires at least one explicit equivalence check'')) (\<lambda>_.
     let promotion_eligible = (er_equivalent report \<and> trusted_fidelity \<and>
           fidelity_meets (er_achieved_fidelity report) minimum) in
     rbind (check (\<not> (trusted_fidelity \<and> \<not> er_equivalent report))
       (ValueError ''exact or semantic replay requires verified state equivalence'')) (\<lambda>_.
     Inr promotion_eligible)))))))"

end
