(* ===== verification/Replay_Registry.thy ===== *)
theory Replay_Registry
  imports Replay_Contract
begin

text \<open>
  \<open>ReplayPointRegistry\<close> of \<open>src/loopx/capabilities/explore/replay_runtime.py\<close>: capture with
  compensation, selection, restore-and-run, and release.

  The state is the registry's entries in insertion order, its metric ledger, the trace logs
  by address (several logs take part when a point is replaced on a new branch) and the
  outside world.  Entries are never removed, so a reference to an entry is its identifier.
  Each operation runs on its own, which is what the registry lock and the entry's replay lock
  ensure for the sections they guard.  The clock and the identifier factories are part of the
  world.
\<close>

section \<open>State\<close>

record 'w agent_state_store =
  as_capture_agent_state :: "TraceCursor \<Rightarrow> 'w \<Rightarrow> key option res \<times> 'w"
  as_restore_agent_state :: "key \<Rightarrow> 'w \<Rightarrow> unit res \<times> 'w"
  as_release_agent_state :: "key \<Rightarrow> 'w \<Rightarrow> unit res \<times> 'w"
  as_fork_agent_state :: "(key \<Rightarrow> string \<Rightarrow> 'w \<Rightarrow> key option res \<times> 'w) attr"

record ('w, 'o) replay_adapter =
  ad_capture_replay_state ::
    "(CaptureReplayStateRequest \<Rightarrow> 'w \<Rightarrow> AdapterStateLease foreign res \<times> 'w) attr"
  ad_restore_replay_state ::
    "(key \<Rightarrow> RestoreReplayStateRequest \<Rightarrow> 'w \<Rightarrow> RestoreReceipt foreign res \<times> 'w) attr"
  ad_validate_replay_equivalence ::
    "(key \<Rightarrow> RestoreReceipt \<Rightarrow> 'w \<Rightarrow> EquivalenceReport foreign res \<times> 'w) attr"
  ad_release_replay_state :: "(key \<Rightarrow> 'w \<Rightarrow> unit res \<times> 'w) attr"
  ad_finalize_replay_suffix ::
    "(key \<Rightarrow> RestoreReplayStateRequest \<Rightarrow> bool \<Rightarrow> 'w \<Rightarrow> unit res \<times> 'w) attr"
  ad_fork_replay_child ::
    "(key \<Rightarrow> ForkReplayChildRequest \<Rightarrow> 'w \<Rightarrow> ReplayChildLease foreign res \<times> 'w) attr"
  ad_validate_replay_child_equivalence ::
    "(key option \<Rightarrow> RestoreReceipt \<Rightarrow> 'w \<Rightarrow> EquivalenceReport foreign res \<times> 'w) attr"
  ad_release_replay_child :: "(key option \<Rightarrow> 'w \<Rightarrow> unit res \<times> 'w) attr"
  ad_assess_replay_child_intent ::
    "(key option \<Rightarrow> pyval \<Rightarrow> 'w \<Rightarrow> ReplayRiskAssessment foreign res \<times> 'w) attr"
  ad_assess_replay_child_outcome ::
    "(key option \<Rightarrow> pyval \<Rightarrow> 'o \<Rightarrow> 'w \<Rightarrow> ReplayRiskAssessment foreign res \<times> 'w) attr"

record ('w, 'o) RuntimeReplayBinding =
  rb_point :: ReplayPoint
  rb_agent_state_key :: key
  rb_adapter_binding_key :: "key option"
  rb_agent_state_store :: "'w agent_state_store"
  rb_adapter :: "('w, 'o) replay_adapter"
  rb_agent_released :: bool
  rb_adapter_released :: bool

record ('w, 'o) sys =
  sy_traces :: "nat \<Rightarrow> TraceLog"
  sy_entries :: "('w, 'o) RuntimeReplayBinding dict"
  sy_ledger :: ReplayMetricLedger
  sy_world :: 'w

record 'w registry_host =
  rg_id_factory :: "'w \<Rightarrow> string res \<times> 'w"
  rg_event_id_factory :: "'w \<Rightarrow> string res \<times> 'w"
  rg_perf_counter :: "'w \<Rightarrow> pyfloat \<times> 'w"

section \<open>Protocol detection\<close>

definition replayable_episode_v2_mode :: "('w, 'o) replay_adapter \<Rightarrow> string option res" where
  "replayable_episode_v2_mode a = protocol_mode ''replayable-v2''
     ''replayable Episode V2 adapters must implement all protocol methods''
     [method_facts (ad_capture_replay_state a), method_facts (ad_restore_replay_state a),
      method_facts (ad_validate_replay_equivalence a), method_facts (ad_release_replay_state a)]"

definition isolated_replay_child_mode ::
  "('w, 'o) replay_adapter \<Rightarrow> 'w agent_state_store \<Rightarrow> string option res" where
  "isolated_replay_child_mode a st =
     rbind (protocol_mode ''isolated-child-v0''
       ''isolated replay child adapters must implement all protocol methods''
       [method_facts (ad_fork_replay_child a), method_facts (ad_validate_replay_child_equivalence a),
        method_facts (ad_release_replay_child a)]) (\<lambda>m.
     Inr (if m = None then None
          else if \<not> is_callable (as_fork_agent_state st) then None else m))"

definition replay_child_risk_mode :: "('w, 'o) replay_adapter \<Rightarrow> string option res" where
  "replay_child_risk_mode a = protocol_mode ''child-risk-v0''
     ''replay child risk adapters must implement both protocol methods''
     [method_facts (ad_assess_replay_child_intent a), method_facts (ad_assess_replay_child_outcome a)]"

section \<open>Steps on the state\<close>

definition world_call :: "('w \<Rightarrow> 'a res \<times> 'w) \<Rightarrow> (('w, 'o) sys, 'a) act" where
  "world_call f = (\<lambda>s. case f (sy_world s) of (r, w) \<Rightarrow> (r, s\<lparr>sy_world := w\<rparr>))"

text \<open>Calling an attribute that is missing or not callable raises, as Python does.\<close>

definition call_method :: "'f attr \<Rightarrow> ('f \<Rightarrow> 'w \<Rightarrow> 'a res \<times> 'w) \<Rightarrow> (('w, 'o) sys, 'a) act" where
  "call_method a f = (case a of
     Callable g \<Rightarrow> world_call (f g)
   | NotCallable \<Rightarrow> raise (TypeError ''object is not callable'')
   | Absent \<Rightarrow> raise (AttributeError ''object has no attribute''))"

text \<open>A call whose result should be an instance of a dataclass: the constructor of a returned
  instance ran inside the call.\<close>

definition call_class ::
  "('a \<Rightarrow> 'a res) \<Rightarrow> 'f attr \<Rightarrow> ('f \<Rightarrow> 'w \<Rightarrow> 'a foreign res \<times> 'w) \<Rightarrow>
   (('w, 'o) sys, 'a foreign) act" where
  "call_class post_init a f = bnd (call_method a f) (\<lambda>r. case r of
     Proper x \<Rightarrow> bnd (of_res (post_init x)) (\<lambda>y. ret (Proper y))
   | _ \<Rightarrow> ret r)"

definition require_instance :: "string \<Rightarrow> 'a foreign \<Rightarrow> ('s, 'a) act" where
  "require_instance message r = (case r of Proper x \<Rightarrow> ret x | _ \<Rightarrow> raise (TypeError message))"

definition perf_counter :: "'w registry_host \<Rightarrow> (('w, 'o) sys, pyfloat) act" where
  "perf_counter R = world_call (\<lambda>w. case rg_perf_counter R w of (t, w') \<Rightarrow> (Inr t, w'))"

definition on_ledger :: "(ReplayMetricLedger \<Rightarrow> ReplayMetricLedger res) \<Rightarrow> (('w, 'o) sys, unit) act" where
  "on_ledger f = (\<lambda>s. case f (sy_ledger s) of
     Inl e \<Rightarrow> (Inl e, s) | Inr l \<Rightarrow> (Inr (), s\<lparr>sy_ledger := l\<rparr>))"

abbreviation metric :: "string \<Rightarrow> (('w, 'o) sys, unit) act" where
  "metric field \<equiv> on_ledger (increment field 1)"

text \<open>\<open>self._metrics.add_seconds(field, time.perf_counter() - started)\<close>\<close>

definition add_elapsed :: "'w registry_host \<Rightarrow> string \<Rightarrow> pyfloat \<Rightarrow> (('w, 'o) sys, unit) act" where
  "add_elapsed R field started =
     bnd (perf_counter R) (\<lambda>t. on_ledger (add_seconds field (fsub t started)))"

text \<open>\<open>(time.perf_counter() - started) / 60.0\<close>\<close>

definition elapsed_minutes :: "'w registry_host \<Rightarrow> pyfloat \<Rightarrow> (('w, 'o) sys, pyfloat) act" where
  "elapsed_minutes R started = bnd (perf_counter R) (\<lambda>t. ret (over60 (fsub t started)))"

definition get_entry :: "string \<Rightarrow> (('w, 'o) sys, ('w, 'o) RuntimeReplayBinding) act" where
  "get_entry i = bnd (gets (\<lambda>s. dict_get (sy_entries s) i)) (\<lambda>r. case r of
     None \<Rightarrow> raise (KeyError ''unknown replay_point_id'') | Some e \<Rightarrow> ret e)"

definition update_entry ::
  "string \<Rightarrow> (('w, 'o) RuntimeReplayBinding \<Rightarrow> ('w, 'o) RuntimeReplayBinding) \<Rightarrow> (('w, 'o) sys, unit) act" where
  "update_entry i f = bnd (get_entry i) (\<lambda>e.
     modify (\<lambda>s. s\<lparr>sy_entries := dict_set i (f e) (sy_entries s)\<rparr>))"

definition set_lifecycle :: "ReplayPointLifecycle \<Rightarrow> ('w, 'o) RuntimeReplayBinding \<Rightarrow> ('w, 'o) RuntimeReplayBinding" where
  "set_lifecycle lc e = e\<lparr>rb_point := (rb_point e)\<lparr>rp_lifecycle := lc\<rparr>\<rparr>"

section \<open>Capture\<close>

text \<open>The checks on a replaced point.\<close>

definition check_replaced :: "string option \<Rightarrow> TraceCursor \<Rightarrow> (('w, 'o) sys, ReplayPoint option) act" where
  "check_replaced replaces cursor = (case replaces of
     None \<Rightarrow> ret None
   | Some i \<Rightarrow> bnd (gets (\<lambda>s. dict_get (sy_entries s) i)) (\<lambda>r. case r of
       None \<Rightarrow> raise (KeyError ''unknown replaces_replay_point_id'')
     | Some e \<Rightarrow> let p = rb_point e in
         if rp_lifecycle p \<noteq> RELEASED then
           raise (ValueError ''a replacement ReplayPoint requires the replaced point to be released'')
         else if tc_trace_id (rp_cursor p) \<noteq> tc_trace_id cursor then
           raise (ValueError ''a replacement ReplayPoint must remain in the same trace'')
         else if tc_branch_id (rp_cursor p) = tc_branch_id cursor then
           raise (ValueError ''a replacement ReplayPoint must be captured on a new branch'')
         else ret (Some p)))"

definition capture_agent_key :: "'w agent_state_store \<Rightarrow> TraceCursor \<Rightarrow> (('w, 'o) sys, key) act" where
  "capture_agent_key st cursor =
     bnd (world_call (as_capture_agent_state st cursor)) (\<lambda>r. case r of
       None \<Rightarrow> raise (TypeError ''capture_agent_state must return an opaque state key'')
     | Some k \<Rightarrow> ret k)"

text \<open>The event, the point and the entry of a captured point, and their commit under the
  registry lock.\<close>

definition capture_event ::
  "TraceLog \<Rightarrow> TraceCursor \<Rightarrow> string \<Rightarrow> string \<Rightarrow> AdapterStateLease \<Rightarrow> string option \<Rightarrow> TraceEvent res" where
  "capture_event trace cursor event_id point_id lease replaces = TraceEvent_post_init
     \<lparr>te_event_id = event_id, te_trace_id = tl_trace_id trace, te_branch_id = tl_branch_id trace,
      te_sequence = tc_next_sequence cursor, te_parent_event_id = tc_after_event_id cursor,
      te_kind = LIFECYCLE,
      te_public_payload = PMap
        [(KStr ''operation'', PStr ''replay_point_captured''),
         (KStr ''fidelity'', PStr (ReplayFidelity_value (al_fidelity lease))),
         (KStr ''cursor_sequence'', PInt (tc_next_sequence cursor)),
         (KStr ''replaces_replay_point_id'', py_opt_str replaces)],
      te_action_id = None, te_causation_id = None, te_replay_point_id = Some point_id\<rparr>"

definition capture_point ::
  "TraceCursor \<Rightarrow> string \<Rightarrow> string \<Rightarrow> AdapterStateLease \<Rightarrow> string option \<Rightarrow> ReplayPoint" where
  "capture_point cursor event_id point_id lease replaces =
     \<lparr>rp_replay_point_id = point_id, rp_cursor = cursor, rp_fidelity = al_fidelity lease,
      rp_captured_projection_digest = al_projection_digest lease, rp_lifecycle = READY,
      rp_created_event_id = event_id, rp_replaces_replay_point_id = replaces\<rparr>"

definition capture_commit ::
  "nat \<Rightarrow> TraceCursor \<Rightarrow> string \<Rightarrow> string \<Rightarrow> string option \<Rightarrow> ReplayPoint option \<Rightarrow>
   'w agent_state_store \<Rightarrow> ('w, 'o) replay_adapter \<Rightarrow> key \<Rightarrow> AdapterStateLease \<Rightarrow>
   (('w, 'o) sys, ReplayPoint) act" where
  "capture_commit addr cursor event_id point_id replaces replaced st adapter agent_key lease =
     seq (case replaced of
            None \<Rightarrow> ret ()
          | Some p \<Rightarrow> when_do (rp_captured_projection_digest p \<noteq> None \<and> al_projection_digest lease \<noteq> None
                          \<and> rp_captured_projection_digest p \<noteq> al_projection_digest lease)
              (seq (metric ''replacement_projection_mismatch_count'')
                (raise (ValueError ''replacement ReplayPoint projection does not match the released point''))))
     (bnd (gets (\<lambda>s. sy_traces s addr)) (\<lambda>trace.
      bnd (of_res (capture_event trace cursor event_id point_id lease replaces)) (\<lambda>event.
      let point = capture_point cursor (te_event_id event) point_id lease replaces;
          entry = \<lparr>rb_point = point, rb_agent_state_key = agent_key,
                   rb_adapter_binding_key = al_binding_key lease, rb_agent_state_store = st,
                   rb_adapter = adapter, rb_agent_released = False,
                   rb_adapter_released = (al_binding_key lease = None)\<rparr> in
      bnd (gets (\<lambda>s. dict_get (sy_entries s) point_id)) (\<lambda>old.
      if old \<noteq> None then raise (ValueError ''replay_point_id is duplicated'') else
      bnd (of_res (validate_append_unlocked event trace)) (\<lambda>_.
      bnd (of_res (append_unlocked event trace)) (\<lambda>trace'.
      seq (modify (\<lambda>s. s\<lparr>sy_traces := (sy_traces s)(addr := trace')\<rparr>))
      (seq (modify (\<lambda>s. s\<lparr>sy_entries := dict_set point_id entry (sy_entries s)\<rparr>))
      (seq (metric ''capture_success_count'')
      (seq (when_do (replaces \<noteq> None) (metric ''replacement_capture_success_count''))
      (ret point))))))))))"

text \<open>The \<open>except\<close> block: what was captured is released again.  Reading \<open>binding_key\<close> of an
  object that is no lease raises out of the block.\<close>

definition capture_compensate ::
  "('w, 'o) replay_adapter \<Rightarrow> 'w agent_state_store \<Rightarrow> string option \<Rightarrow>
   AdapterStateLease foreign \<Rightarrow> key option \<Rightarrow> exn \<Rightarrow> (('w, 'o) sys, 'a) act" where
  "capture_compensate adapter st replaces lease agent_key error =
     seq (metric ''capture_failure_count'')
     (seq (when_do (replaces \<noteq> None) (metric ''replacement_capture_failure_count''))
     (bnd (case lease of
             Proper l \<Rightarrow> ret (al_binding_key l)
           | NoneObject \<Rightarrow> ret None
           | OtherObject \<Rightarrow> raise (AttributeError ''object has no attribute binding_key'')) (\<lambda>binding.
      seq (when_do (binding \<noteq> None \<or> agent_key \<noteq> None) (metric ''capture_compensation_count''))
     (bnd (case binding of
             None \<Rightarrow> ret False
           | Some k \<Rightarrow> bnd (attempt (call_method (ad_release_replay_state adapter) (\<lambda>f. f k))) (\<lambda>r.
               case r of Inr _ \<Rightarrow> ret False
               | Inl _ \<Rightarrow> seq (metric ''orphaned_adapter_binding_count'') (ret True))) (\<lambda>failed1.
      bnd (case agent_key of
             None \<Rightarrow> ret False
           | Some k \<Rightarrow> bnd (attempt (world_call (as_release_agent_state st k))) (\<lambda>r.
               case r of Inr _ \<Rightarrow> ret False
               | Inl _ \<Rightarrow> seq (metric ''orphaned_agent_state_count'') (ret True))) (\<lambda>failed2.
      seq (when_do (failed1 \<or> failed2) (metric ''capture_compensation_failure_count''))
      (raise error)))))))"

definition capture_protected ::
  "nat \<Rightarrow> TraceCursor \<Rightarrow> string \<Rightarrow> string \<Rightarrow> string option \<Rightarrow> 'w agent_state_store \<Rightarrow>
   ('w, 'o) replay_adapter \<Rightarrow> (('w, 'o) sys, ReplayPoint) act" where
  "capture_protected addr cursor event_id point_id replaces st adapter =
     bnd (attempt (check_replaced replaces cursor)) (\<lambda>r1. case r1 of
       Inl e \<Rightarrow> capture_compensate adapter st replaces NoneObject None e
     | Inr replaced \<Rightarrow>
     bnd (attempt (capture_agent_key st cursor)) (\<lambda>r2. case r2 of
       Inl e \<Rightarrow> capture_compensate adapter st replaces NoneObject None e
     | Inr agent_key \<Rightarrow>
     bnd (attempt (call_class AdapterStateLease_post_init (ad_capture_replay_state adapter)
            (\<lambda>f. f \<lparr>cr_replay_point_id = point_id, cr_cursor = cursor\<rparr>))) (\<lambda>r3. case r3 of
       Inl e \<Rightarrow> capture_compensate adapter st replaces NoneObject (Some agent_key) e
     | Inr obj \<Rightarrow>
     bnd (attempt (bnd (require_instance ''capture_replay_state must return an AdapterStateLease'' obj) (\<lambda>lease.
            capture_commit addr cursor event_id point_id replaces replaced st adapter agent_key lease)))
       (\<lambda>r4. case r4 of
       Inl e \<Rightarrow> capture_compensate adapter st replaces obj (Some agent_key) e
     | Inr point \<Rightarrow> ret point))))"

definition capture_at_head ::
  "'w registry_host \<Rightarrow> nat \<Rightarrow> AgentCursor \<Rightarrow> 'w agent_state_store \<Rightarrow> ('w, 'o) replay_adapter \<Rightarrow>
   string option \<Rightarrow> (('w, 'o) sys, ReplayPoint) act" where
  "capture_at_head R addr agent_cursor st adapter replaces_arg =
     bnd (of_res (replayable_episode_v2_mode adapter)) (\<lambda>mode.
     if mode = None then raise (TypeError ''adapter does not implement the Replayable Episode V2 protocol'') else
     bnd (perf_counter R) (\<lambda>capture_started.
     seq (metric ''capture_attempt_count'')
     (bnd (world_call (rg_id_factory R)) (\<lambda>raw_id.
      bnd (of_res (require_nonempty_text raw_id ''replay_point_id'')) (\<lambda>point_id.
      bnd (world_call (rg_event_id_factory R)) (\<lambda>raw_event.
      bnd (of_res (require_nonempty_text raw_event ''event_id'')) (\<lambda>event_id.
      bnd (of_res (optional_text replaces_arg ''replaces_replay_point_id'')) (\<lambda>replaces.
      seq (when_do (replaces \<noteq> None) (metric ''replacement_capture_attempt_count''))
     (bnd (gets (\<lambda>s. sy_traces s addr)) (\<lambda>trace.
      bnd (of_res (locked_cursor trace agent_cursor)) (\<lambda>cursor.
      bnd (gets (\<lambda>s. dict_get (sy_entries s) point_id)) (\<lambda>old.
      if old \<noteq> None then raise (ValueError ''replay_point_id is duplicated'') else
      finally_do (capture_protected addr cursor event_id point_id replaces st adapter)
        (add_elapsed R ''capture_minutes'' capture_started)))))))))))))"

section \<open>Reading and selecting\<close>

definition registry_get :: "string \<Rightarrow> (('w, 'o) sys, ReplayPoint) act" where
  "registry_get i = bnd (get_entry i) (\<lambda>e. ret (rb_point e))"

definition registry_records :: "('w, 'o) sys \<Rightarrow> pyval dict list" where
  "registry_records s = map (\<lambda>(i, e). ReplayPoint_to_record (rb_point e)) (sy_entries s)"

definition count_where :: "('a \<Rightarrow> bool) \<Rightarrow> 'a list \<Rightarrow> int" where
  "count_where P xs = int (length (filter P xs))"

definition registry_metrics :: "('w, 'o) sys \<Rightarrow> pyval dict" where
  "registry_metrics s = (let es = map snd (sy_entries s) in ledger_snapshot (sy_ledger s) @
    [(''active_replay_point_count'', PInt (count_where (\<lambda>e. rp_lifecycle (rb_point e) \<noteq> RELEASED) es)),
     (''active_adapter_binding_count'', PInt (count_where (\<lambda>e. \<not> rb_adapter_released e) es)),
     (''failed_replay_point_count'', PInt (count_where (\<lambda>e. rp_lifecycle (rb_point e) = FAILED) es))])"

text \<open>\<open>max(pool, key=...)\<close> returns the first element with the greatest key.\<close>

fun max_by :: "('a \<Rightarrow> int) \<Rightarrow> 'a \<Rightarrow> 'a list \<Rightarrow> 'a" where
  "max_by k x [] = x"
| "max_by k x (y # ys) = max_by k (if k x < k y then y else x) ys"

definition point_sequence :: "ReplayPoint \<Rightarrow> int" where
  "point_sequence p = tc_next_sequence (rp_cursor p)"

definition select_candidates ::
  "string \<Rightarrow> string \<Rightarrow> int \<Rightarrow> ('w, 'o) RuntimeReplayBinding dict \<Rightarrow> ReplayPoint list" where
  "select_candidates trace_id branch_id affected es =
     filter (\<lambda>p. rp_lifecycle p = READY \<and> tc_trace_id (rp_cursor p) = trace_id
               \<and> tc_branch_id (rp_cursor p) = branch_id \<and> point_sequence p \<le> affected
               \<and> rp_fidelity p \<noteq> NON_REPLAYABLE)
       (map (\<lambda>(i, e). rb_point e) es)"

definition select_before ::
  "string \<Rightarrow> string \<Rightarrow> int \<Rightarrow> ReplayFidelity \<Rightarrow> (('w, 'o) sys, ReplayPoint) act" where
  "select_before trace_arg branch_arg affected minimum =
     bnd (of_res (require_nonempty_text trace_arg ''trace_id'')) (\<lambda>trace_id.
     bnd (of_res (require_nonempty_text branch_arg ''branch_id'')) (\<lambda>branch_id.
     bnd (gets (\<lambda>s. select_candidates trace_id branch_id affected (sy_entries s))) (\<lambda>candidates.
     let trusted = filter (\<lambda>p. fidelity_meets (rp_fidelity p) minimum) candidates;
         pool = (if trusted \<noteq> [] then trusted else candidates) in
     case pool of
       [] \<Rightarrow> raise (LookupError ''no replayable ReplayPoint exists before the affected event'')
     | p # ps \<Rightarrow>
       let selected = max_by point_sequence p ps in
       seq (metric ''replay_point_selection_count'')
       (seq (if trusted = [] then metric ''replay_point_fidelity_fallback_count''
             else when_do (list_ex (\<lambda>q. point_sequence selected < point_sequence q
                              \<and> \<not> fidelity_meets (rp_fidelity q) minimum) candidates)
               (metric ''replay_point_fidelity_filtered_selection_count''))
       (ret selected)))))"

section \<open>Restore and run\<close>

definition quarantine :: "string \<Rightarrow> (('w, 'o) sys, unit) act" where
  "quarantine i = seq (update_entry i (set_lifecycle FAILED)) (metric ''replay_point_quarantine_count'')"

definition lookup_restorable :: "string \<Rightarrow> (('w, 'o) sys, ('w, 'o) RuntimeReplayBinding \<times> key) act" where
  "lookup_restorable i = bnd (get_entry i) (\<lambda>e.
     if rp_lifecycle (rb_point e) \<noteq> READY then
       raise (RuntimeError ''ReplayPoint must be ready before restore'')
     else if rp_fidelity (rb_point e) = NON_REPLAYABLE then
       raise (RuntimeError ''non_replayable ReplayPoints cannot be restored'')
     else case rb_adapter_binding_key e of
       None \<Rightarrow> raise (RuntimeError ''replayable ReplayPoint has no Adapter binding'')
     | Some k \<Rightarrow> ret (e, k))"

definition recheck_ready :: "string \<Rightarrow> string \<Rightarrow> (('w, 'o) sys, unit) act" where
  "recheck_ready message i = bnd (get_entry i) (\<lambda>e.
     if rp_lifecycle (rb_point e) \<noteq> READY then raise (RuntimeError message) else ret ())"

definition prefix_metric :: "bool option \<Rightarrow> string" where
  "prefix_metric r = (case r of
     Some True \<Rightarrow> ''prefix_reuse_verified_count''
   | Some False \<Rightarrow> ''prefix_reconstruction_count''
   | None \<Rightarrow> ''prefix_reuse_unknown_count'')"

definition restore_receipt ::
  "('w, 'o) RuntimeReplayBinding \<Rightarrow> key \<Rightarrow> RestoreReplayStateRequest \<Rightarrow> (('w, 'o) sys, RestoreReceipt) act" where
  "restore_receipt e k request =
     bnd (call_class RestoreReceipt_post_init (ad_restore_replay_state (rb_adapter e)) (\<lambda>f. f k request)) (\<lambda>obj.
     bnd (require_instance ''restore_replay_state must return a RestoreReceipt'' obj) (\<lambda>receipt.
     if rc_achieved_fidelity receipt = NON_REPLAYABLE then
       raise (RuntimeError ''Adapter reported non_replayable while restoring a ReplayPoint'')
     else if \<not> fidelity_meets (rp_fidelity (rb_point e)) (rc_achieved_fidelity receipt) then
       raise (ValueError ''restore achieved a fidelity stronger than the captured ReplayPoint'')
     else ret receipt))"

definition restore_phase ::
  "'w registry_host \<Rightarrow> ('w, 'o) RuntimeReplayBinding \<Rightarrow> key \<Rightarrow> RestoreReplayStateRequest \<Rightarrow>
   (('w, 'o) sys, RestoreReceipt \<times> pyfloat) act" where
  "restore_phase R e k request =
     bnd (perf_counter R) (\<lambda>started.
     seq (metric ''restore_attempt_count'')
     (bnd (attempt (restore_receipt e k request)) (\<lambda>r.
      seq (case r of
             Inl _ \<Rightarrow> metric ''restore_failure_count''
           | Inr receipt \<Rightarrow> seq (metric ''restore_success_count'')
                              (metric (prefix_metric (rc_prefix_reused receipt))))
     (bnd (elapsed_minutes R started) (\<lambda>minutes.
      seq (add_elapsed R ''restore_minutes'' started)
     (bnd (of_res r) (\<lambda>receipt. ret (receipt, minutes))))))))"

definition equivalence_report ::
  "('w, 'o) RuntimeReplayBinding \<Rightarrow> key \<Rightarrow> RestoreReceipt \<Rightarrow> ReplayFidelity \<Rightarrow>
   (('w, 'o) sys, EquivalenceReport \<times> bool) act" where
  "equivalence_report e k receipt minimum =
     bnd (call_class EquivalenceReport_post_init (ad_validate_replay_equivalence (rb_adapter e))
            (\<lambda>f. f k receipt)) (\<lambda>obj.
     bnd (require_instance ''validate_replay_equivalence must return an EquivalenceReport'' obj) (\<lambda>report.
     bnd (of_res (validate_equivalence_contract (rb_point e) receipt report minimum)) (\<lambda>eligible.
     ret (report, eligible))))"

definition equivalence_phase ::
  "'w registry_host \<Rightarrow> ('w, 'o) RuntimeReplayBinding \<Rightarrow> key \<Rightarrow> RestoreReceipt \<Rightarrow> ReplayFidelity \<Rightarrow>
   (('w, 'o) sys, (EquivalenceReport \<times> bool) \<times> pyfloat) act" where
  "equivalence_phase R e k receipt minimum =
     bnd (perf_counter R) (\<lambda>started.
     seq (metric ''equivalence_attempt_count'')
     (bnd (attempt (equivalence_report e k receipt minimum)) (\<lambda>r.
      seq (case r of
             Inl _ \<Rightarrow> metric ''equivalence_failure_count''
           | Inr (report, _) \<Rightarrow>
               if er_equivalent report \<and> fidelity_meets (er_achieved_fidelity report) SEMANTIC_EQUIVALENT
               then metric ''equivalence_verified_count''
               else metric ''equivalence_unverified_count'')
     (bnd (elapsed_minutes R started) (\<lambda>minutes.
      seq (add_elapsed R ''equivalence_minutes'' started)
     (bnd (of_res r) (\<lambda>x. ret (x, minutes))))))))"

text \<open>The optional suffix finalizer; the result is its exception, if it raised.\<close>

definition finalize_suffix ::
  "('w, 'o) RuntimeReplayBinding \<Rightarrow> key \<Rightarrow> RestoreReplayStateRequest \<Rightarrow> bool \<Rightarrow>
   (('w, 'o) sys, exn option) act" where
  "finalize_suffix e k request succeeded = (case ad_finalize_replay_suffix (rb_adapter e) of
     Callable f \<Rightarrow>
       seq (metric ''suffix_finalization_attempt_count'')
       (bnd (attempt (world_call (f k request succeeded))) (\<lambda>r. case r of
          Inl error \<Rightarrow> seq (metric ''suffix_finalization_failure_count'') (ret (Some error))
        | Inr _ \<Rightarrow> seq (metric ''suffix_finalization_success_count'') (ret None)))
   | _ \<Rightarrow> ret None)"

definition suffix_phase ::
  "'w registry_host \<Rightarrow> ('w, 'o) RuntimeReplayBinding \<Rightarrow> key \<Rightarrow> RestoreReplayStateRequest \<Rightarrow>
   ReplayRestoreResult \<Rightarrow> (ReplayRestoreResult \<Rightarrow> (('w, 'o) sys, 'o) act) \<Rightarrow>
   (('w, 'o) sys, 'o \<times> pyfloat) act" where
  "suffix_phase R e k request restore execute =
     bnd (perf_counter R) (\<lambda>started.
     seq (metric ''suffix_attempt_count'')
     (bnd (attempt (execute restore)) (\<lambda>r.
      bnd (finalize_suffix e k request (case r of Inl _ \<Rightarrow> False | Inr _ \<Rightarrow> True)) (\<lambda>fin_error.
      bnd (elapsed_minutes R started) (\<lambda>minutes.
      seq (add_elapsed R ''suffix_minutes'' started)
     (case r of
        Inl error \<Rightarrow> seq (metric ''suffix_failure_count'')
          (seq (when_do (fin_error \<noteq> None) (quarantine (rr_replay_point_id request))) (raise error))
      | Inr outcome \<Rightarrow> (case fin_error of
          Some error \<Rightarrow> seq (metric ''suffix_failure_count'')
            (seq (quarantine (rr_replay_point_id request)) (raise error))
        | None \<Rightarrow> seq (metric ''suffix_success_count'') (ret (outcome, minutes)))))))))"

definition run_locked ::
  "'w registry_host \<Rightarrow> pyfloat \<Rightarrow> RestoreReplayStateRequest \<Rightarrow>
   (ReplayRestoreResult \<Rightarrow> (('w, 'o) sys, 'o) act) \<Rightarrow> (('w, 'o) sys, ReplayRestoreResult \<times> 'o) act" where
  "run_locked R replay_started request execute =
     bnd (lookup_restorable (rr_replay_point_id request)) (\<lambda>(e, k).
     seq (recheck_ready ''ReplayPoint stopped being ready before restore'' (rr_replay_point_id request))
     (bnd (restore_phase R e k request) (\<lambda>(receipt, restore_minutes).
      bnd (equivalence_phase R e k receipt (rr_minimum_fidelity request)) (\<lambda>((report, eligible), equivalence_minutes).
      seq (on_ledger (observe_fidelity (ReplayFidelity_value (er_achieved_fidelity report))))
     (seq (world_call (as_restore_agent_state (rb_agent_state_store e) (rb_agent_state_key e)))
     (let restore = \<lparr>rs_replay_point_id = rr_replay_point_id request,
                rs_target_branch_id = rr_target_branch_id request,
                rs_achieved_fidelity = er_achieved_fidelity report,
                rs_equivalent = er_equivalent report, rs_promotion_eligible = eligible,
                rs_prefix_reused = rc_prefix_reused receipt, rs_report = report,
                rs_restore_minutes = restore_minutes, rs_equivalence_minutes = equivalence_minutes,
                rs_suffix_minutes = Fin 0, rs_replay_wall_minutes = Fin 0\<rparr> in
      bnd (suffix_phase R e k request restore execute) (\<lambda>(outcome, suffix_minutes).
      bnd (elapsed_minutes R replay_started) (\<lambda>wall.
      seq (metric ''replay_success_count'')
      (ret (restore\<lparr>rs_suffix_minutes := suffix_minutes, rs_replay_wall_minutes := wall\<rparr>, outcome))))))))))"

definition run_from ::
  "'w registry_host \<Rightarrow> string \<Rightarrow> string \<Rightarrow> ReplayFidelity \<Rightarrow>
   (ReplayRestoreResult \<Rightarrow> (('w, 'o) sys, 'o) act) \<Rightarrow> (('w, 'o) sys, ReplayRestoreResult \<times> 'o) act" where
  "run_from R point_id target_arg minimum execute =
     bnd (of_res (require_nonempty_text target_arg ''target_branch_id'')) (\<lambda>target.
     bnd (perf_counter R) (\<lambda>replay_started.
     seq (metric ''replay_attempt_count'')
     (finally_do
       (on_error
         (run_locked R replay_started \<lparr>rr_replay_point_id = point_id, rr_target_branch_id = target,
                        rr_minimum_fidelity = minimum\<rparr> execute)
         (\<lambda>_. metric ''replay_failure_count''))
       (add_elapsed R ''replay_wall_minutes'' replay_started))))"

section \<open>Release\<close>

text \<open>Releasing one side: the exception, if the provider raised; the flag is set otherwise.\<close>

definition release_adapter_side :: "string \<Rightarrow> (('w, 'o) sys, exn option) act" where
  "release_adapter_side i = bnd (get_entry i) (\<lambda>e.
     case rb_adapter_binding_key e of
       None \<Rightarrow> ret None
     | Some k \<Rightarrow>
       if rb_adapter_released e then ret None else
       bnd (attempt (call_method (ad_release_replay_state (rb_adapter e)) (\<lambda>f. f k))) (\<lambda>r. case r of
         Inl error \<Rightarrow> ret (Some error)
       | Inr _ \<Rightarrow> seq (update_entry i (\<lambda>e. e\<lparr>rb_adapter_released := True\<rparr>)) (ret None)))"

definition release_agent_side :: "string \<Rightarrow> (('w, 'o) sys, exn option) act" where
  "release_agent_side i = bnd (get_entry i) (\<lambda>e.
     if rb_agent_released e then ret None else
     bnd (attempt (world_call (as_release_agent_state (rb_agent_state_store e) (rb_agent_state_key e)))) (\<lambda>r.
       case r of
         Inl error \<Rightarrow> ret (Some error)
       | Inr _ \<Rightarrow> seq (update_entry i (\<lambda>e. e\<lparr>rb_agent_released := True\<rparr>)) (ret None)))"

definition settle_lifecycle :: "('w, 'o) RuntimeReplayBinding \<Rightarrow> ('w, 'o) RuntimeReplayBinding" where
  "settle_lifecycle e = set_lifecycle
     (if rb_adapter_released e \<and> rb_agent_released e then RELEASED else FAILED) e"

definition release_body :: "string \<Rightarrow> (('w, 'o) sys, ReplayPoint) act" where
  "release_body i = bnd (get_entry i) (\<lambda>e.
     if rp_lifecycle (rb_point e) = RELEASED then
       seq (metric ''release_success_count'') (ret (rb_point e))
     else
       seq (update_entry i (set_lifecycle RELEASING))
       (bnd (release_adapter_side i) (\<lambda>adapter_error.
        bnd (release_agent_side i) (\<lambda>agent_error.
        seq (update_entry i settle_lifecycle)
       (bnd (get_entry i) (\<lambda>e'. case adapter_error of
          Some error \<Rightarrow> raise error
        | None \<Rightarrow> (case agent_error of
            Some error \<Rightarrow> raise error
          | None \<Rightarrow> seq (metric ''release_success_count'') (ret (rb_point e')))))))))"

definition release :: "'w registry_host \<Rightarrow> string \<Rightarrow> (('w, 'o) sys, ReplayPoint) act" where
  "release R i =
     bnd (perf_counter R) (\<lambda>started.
     seq (metric ''release_attempt_count'')
     (finally_do
       (on_error (release_body i) (\<lambda>_. metric ''release_failure_count''))
       (add_elapsed R ''release_minutes'' started)))"

end
