(* ===== verification/Registry_Lemmas.thy ===== *)
theory Registry_Lemmas
  imports Replay_Registry
begin

text \<open>
  Proof infrastructure for the registry: weakest preconditions of the primitive steps, the
  registry invariant, and that every phase of capture, restore-and-run and release keeps it.
\<close>

section \<open>Weakest preconditions of the primitive steps\<close>

abbreviation cnt :: "('w, 'o) sys \<Rightarrow> string \<Rightarrow> int" where
  "cnt s f \<equiv> ml_counts (sy_ledger s) f"

definition bump :: "string \<Rightarrow> ('w, 'o) sys \<Rightarrow> ('w, 'o) sys" where
  "bump f s = s\<lparr>sy_ledger := (sy_ledger s)\<lparr>ml_counts := (ml_counts (sy_ledger s))(f := cnt s f + 1)\<rparr>\<rparr>"

lemma wp_metric [wp_simps, simp]:
  "f \<in> set COUNT_FIELDS \<Longrightarrow> wp (metric f) Q E = (\<lambda>s. Q () (bump f s))"
  by (rule ext) (simp add: wp_def on_ledger_def bump_def)

lemma bump_frame [simp]:
  "sy_traces (bump f s) = sy_traces s" "sy_entries (bump f s) = sy_entries s"
  "sy_world (bump f s) = sy_world s"
  "ml_minutes (sy_ledger (bump f s)) = ml_minutes (sy_ledger s)"
  "ml_fidelity (sy_ledger (bump f s)) = ml_fidelity (sy_ledger s)"
  by (simp_all add: bump_def)

lemma cnt_bump [simp]: "cnt (bump f s) g = cnt s g + (if g = f then 1 else 0)"
  by (simp add: bump_def)

text \<open>Two states that agree on everything but the world, the durations and the fidelity
  counts: what a foreign call or a clock reading leaves alone.\<close>

definition quiet :: "('w, 'o) sys \<Rightarrow> ('w, 'o) sys \<Rightarrow> bool" where
  "quiet s t \<longleftrightarrow> sy_traces t = sy_traces s \<and> sy_entries t = sy_entries s
     \<and> ml_counts (sy_ledger t) = ml_counts (sy_ledger s)"

lemma quiet_refl [simp]: "quiet s s"
  by (simp add: quiet_def)

lemma quiet_trans: "quiet s t \<Longrightarrow> quiet t u \<Longrightarrow> quiet s u"
  by (simp add: quiet_def)

lemma quietD:
  assumes "quiet s t"
  shows "sy_traces t = sy_traces s" "sy_entries t = sy_entries s" "cnt t f = cnt s f"
  using assms by (simp_all add: quiet_def)

lemma quiet_world [simp]: "quiet s (s\<lparr>sy_world := w\<rparr>)"
  by (simp add: quiet_def)

lemma wp_world_call_eq:
  "f (sy_world s) = (r, w) \<Longrightarrow> wp (world_call f) Q E s =
     (case r of Inl x \<Rightarrow> E x (s\<lparr>sy_world := w\<rparr>) | Inr x \<Rightarrow> Q x (s\<lparr>sy_world := w\<rparr>))"
  by (simp add: wp_def world_call_def split: sum.splits)

lemma wp_world_call:
  assumes "\<And>x t. quiet s t \<Longrightarrow> Q x t" "\<And>e t. quiet s t \<Longrightarrow> E e t"
  shows "wp (world_call f) Q E s"
  using assms by (auto simp: wp_def world_call_def split: prod.splits sum.splits)

lemma wp_call_method:
  assumes "\<And>x t. quiet s t \<Longrightarrow> Q x t" "\<And>e t. quiet s t \<Longrightarrow> E e t"
  shows "wp (call_method a f) Q E s"
  using assms by (auto simp: call_method_def wp_raise intro: wp_world_call split: attr.splits)

lemma wp_call_class:
  assumes "\<And>x y t. quiet s t \<Longrightarrow> ctor x = Inr y \<Longrightarrow> Q (Proper y) t"
    and "\<And>t. quiet s t \<Longrightarrow> Q NoneObject t" "\<And>t. quiet s t \<Longrightarrow> Q OtherObject t"
    and "\<And>e t. quiet s t \<Longrightarrow> E e t"
  shows "wp (call_class ctor a f) Q E s"
  unfolding call_class_def wp_bnd
  by (rule wp_call_method) (auto split: foreign.splits sum.splits intro: assms)

lemma wp_perf_counter:
  assumes "\<And>x t. quiet s t \<Longrightarrow> Q x t"
  shows "wp (perf_counter R) Q E s"
  using assms by (auto simp: wp_def perf_counter_def world_call_def split: prod.splits)

lemma wp_elapsed_minutes:
  assumes "\<And>x t. quiet s t \<Longrightarrow> Q x t"
  shows "wp (elapsed_minutes R t0) Q E s"
  unfolding elapsed_minutes_def wp_bnd wp_ret by (rule wp_perf_counter) (rule assms)

lemma wp_add_elapsed:
  assumes "f \<in> set MINUTE_FIELDS" "\<And>t. quiet s t \<Longrightarrow> Q () t"
  shows "wp (add_elapsed R f t0) Q E s"
  unfolding add_elapsed_def wp_bnd
  by (rule wp_perf_counter) (auto simp: wp_def on_ledger_def add_seconds_def assms(1) quiet_def intro!: assms(2))

lemma ReplayFidelity_value_text: "strip (ReplayFidelity_value v) = ReplayFidelity_value v"
  "ReplayFidelity_value v \<noteq> []"
  by (cases v; simp add: strip_def is_space_def)+

lemma wp_observe_fidelity:
  assumes "\<And>t. quiet s t \<Longrightarrow> Q () t"
  shows "wp (on_ledger (observe_fidelity (ReplayFidelity_value v))) Q E s"
  by (auto simp: wp_def on_ledger_def observe_fidelity_def ReplayFidelity_value_text quiet_def intro!: assms)

lemma wp_get_entry [wp_simps]:
  "wp (get_entry i) Q E s = (case dict_get (sy_entries s) i of
     None \<Rightarrow> E (KeyError ''unknown replay_point_id'') s | Some e \<Rightarrow> Q e s)"
  by (simp add: get_entry_def split: option.splits)

lemma wp_update_entry [wp_simps]:
  "wp (update_entry i f) Q E s = (case dict_get (sy_entries s) i of
     None \<Rightarrow> E (KeyError ''unknown replay_point_id'') s
   | Some e \<Rightarrow> Q () (s\<lparr>sy_entries := dict_set i (f e) (sy_entries s)\<rparr>))"
  by (simp add: update_entry_def wp_get_entry split: option.splits)

lemma wp_require_instance [wp_simps]:
  "wp (require_instance m r) Q E s = (case r of Proper x \<Rightarrow> Q x s | _ \<Rightarrow> E (TypeError m) s)"
  by (simp add: require_instance_def split: foreign.splits)

lemmas wp_foreign = wp_world_call wp_call_method wp_call_class wp_perf_counter
  wp_elapsed_minutes wp_add_elapsed wp_observe_fidelity

text \<open>What a constructed lease guarantees.\<close>

definition lease_ok :: "AdapterStateLease \<Rightarrow> bool" where
  "lease_ok l \<longleftrightarrow> (al_binding_key l = None \<longleftrightarrow> al_fidelity l = NON_REPLAYABLE)"

lemma AdapterStateLease_post_init_ok: "AdapterStateLease_post_init l = Inr l' \<Longrightarrow> lease_ok l'"
  by (auto simp: AdapterStateLease_post_init_def lease_ok_def res_iff split: if_splits)

text \<open>The logs and the entries are untouched.\<close>

definition same_store :: "('w, 'o) sys \<Rightarrow> ('w, 'o) sys \<Rightarrow> bool" where
  "same_store s t \<longleftrightarrow> sy_traces t = sy_traces s \<and> sy_entries t = sy_entries s"

lemma same_store_refl [simp]: "same_store s s"
  by (simp add: same_store_def)

lemma same_store_trans: "same_store s t \<Longrightarrow> same_store t u \<Longrightarrow> same_store s u"
  by (simp add: same_store_def)

lemma quiet_same_store: "quiet s t \<Longrightarrow> same_store s t"
  by (simp add: quiet_def same_store_def)

section \<open>Predicates that ignore the world\<close>

text \<open>A state predicate that does not depend on the world, the durations and the fidelity counts
  is kept by every foreign call and clock reading.\<close>

locale quiet_invariant =
  fixes I :: "('w, 'o) sys \<Rightarrow> bool"
  assumes quiet_keeps: "I s \<Longrightarrow> quiet s t \<Longrightarrow> I t"
begin

lemma keeps_world_call: "keeps I (world_call f)"
  unfolding keeps_wp by (auto intro!: wp_world_call intro: quiet_keeps)

lemma keeps_call_method: "keeps I (call_method a f)"
  unfolding keeps_wp by (auto intro!: wp_call_method intro: quiet_keeps)

lemma keeps_call_class: "keeps I (call_class ctor a f)"
  unfolding keeps_wp by (auto intro!: wp_call_class intro: quiet_keeps)

lemma keeps_perf_counter: "keeps I (perf_counter R)"
  unfolding keeps_wp by (auto intro!: wp_perf_counter intro: quiet_keeps)

lemma keeps_elapsed_minutes: "keeps I (elapsed_minutes R t0)"
  unfolding keeps_wp by (auto intro!: wp_elapsed_minutes intro: quiet_keeps)

lemma keeps_add_seconds: "keeps I (on_ledger (add_seconds f x))"
proof -
  have "quiet s (snd (on_ledger (add_seconds f x) s))" for s :: "('w, 'o) sys"
    by (simp add: on_ledger_def add_seconds_def quiet_def split: sum.splits)
  then show ?thesis unfolding keeps_def using quiet_keeps by blast
qed

lemma keeps_add_elapsed: "keeps I (add_elapsed R f t0)"
  unfolding add_elapsed_def by (intro keeps_intros keeps_perf_counter keeps_add_seconds)

lemma keeps_observe_fidelity: "keeps I (on_ledger (observe_fidelity x))"
proof -
  have "quiet s (snd (on_ledger (observe_fidelity x) s))" for s :: "('w, 'o) sys"
    by (simp add: on_ledger_def observe_fidelity_def quiet_def Let_def split: sum.splits)
  then show ?thesis unfolding keeps_def using quiet_keeps by blast
qed

lemma keeps_get_entry: "keeps I (get_entry i)"
  unfolding get_entry_def by (intro keeps_intros) (auto split: option.splits intro: keeps_intros)

lemma keeps_require_instance: "keeps I (require_instance m r)"
  unfolding require_instance_def by (auto split: foreign.splits intro: keeps_intros)

lemmas keeps_quiet = keeps_world_call keeps_call_method keeps_call_class keeps_perf_counter
  keeps_elapsed_minutes keeps_add_elapsed keeps_observe_fidelity keeps_get_entry keeps_require_instance

lemma keeps_lookup_restorable: "keeps I (lookup_restorable i)"
  unfolding lookup_restorable_def
  by (intro keeps_intros keeps_quiet) (auto split: option.splits intro: keeps_intros)

lemma keeps_recheck_ready: "keeps I (recheck_ready m i)"
  unfolding recheck_ready_def by (intro keeps_intros keeps_quiet)

lemma keeps_restore_receipt: "keeps I (restore_receipt e k q)"
  unfolding restore_receipt_def by (intro keeps_intros keeps_quiet)

lemma keeps_equivalence_report: "keeps I (equivalence_report e k rc m)"
  unfolding equivalence_report_def by (intro keeps_intros keeps_quiet)

lemma keeps_check_replaced: "keeps I (check_replaced rep c)"
  unfolding check_replaced_def
  by (auto simp: Let_def split: option.splits intro!: keeps_intros)

lemma keeps_capture_agent_key: "keeps I (capture_agent_key st c)"
  unfolding capture_agent_key_def
  by (intro keeps_intros keeps_quiet) (auto split: option.splits intro!: keeps_intros)

end

text \<open>A predicate that depends only on the entries and the trace logs is also kept by every
  count.\<close>

locale structural_invariant =
  fixes I :: "('w, 'o) sys \<Rightarrow> bool"
  assumes structural:
    "I s \<Longrightarrow> sy_traces t = sy_traces s \<Longrightarrow> sy_entries t = sy_entries s \<Longrightarrow> I t"

sublocale structural_invariant \<subseteq> quiet_invariant I
  by unfold_locales (auto simp: quiet_def intro: structural)

context structural_invariant begin

lemma keeps_on_ledger: "keeps I (on_ledger f)"
  using structural by (auto simp: keeps_def on_ledger_def split: sum.splits)

lemmas keeps_structural = keeps_on_ledger keeps_quiet

lemma keeps_restore_phase: "keeps I (restore_phase R e k q)"
  unfolding restore_phase_def
  by (intro keeps_intros keeps_structural keeps_restore_receipt)
    (auto split: sum.splits intro!: keeps_intros keeps_structural)

lemma keeps_equivalence_phase: "keeps I (equivalence_phase R e k rc m)"
  unfolding equivalence_phase_def
  by (intro keeps_intros keeps_structural keeps_equivalence_report)
    (auto split: sum.splits intro!: keeps_intros keeps_structural)

lemma keeps_finalize_suffix: "keeps I (finalize_suffix e k q b)"
  unfolding finalize_suffix_def
  by (cases "ad_finalize_replay_suffix (rb_adapter e)")
    (auto split: sum.splits intro!: keeps_intros keeps_structural)

lemma keeps_capture_compensate: "keeps I (capture_compensate ad st rep l k err)"
  unfolding capture_compensate_def
  by (intro keeps_intros keeps_structural)
    (auto split: foreign.splits option.splits sum.splits intro!: keeps_intros keeps_structural)

lemma keeps_select_before: "keeps I (select_before t b n m)"
  unfolding select_before_def Let_def
  by (intro keeps_intros) (auto split: list.splits intro!: keeps_intros keeps_structural)

end

interpretation unchanged: structural_invariant "same_store s"
  by unfold_locales (simp add: same_store_def)

text \<open>A capture is its commit, run on the entries and logs the capture found: whatever the
  commit ensures of its result holds of the capture, and a failure at any other point leaves
  entries and logs alone.\<close>

lemma capture_compensate_raises:
  "wp (capture_compensate ad st rep l k err) (\<lambda>_ _. False) (\<lambda>_ _. True) s"
  unfolding capture_compensate_def
  by (auto split: foreign.splits option.splits sum.splits intro!: wp_call_method wp_world_call)

context structural_invariant begin

lemma wp_capture_protected:
  assumes s: "I s" "same_store s0 s"
    and commit: "\<And>t l rd k. same_store s0 t \<Longrightarrow> lease_ok l \<Longrightarrow>
      wp (capture_commit a c ev p rep rd st ad k l) Q (\<lambda>_. I) t"
  shows "wp (capture_protected a c ev p rep st ad) Q (\<lambda>_. I) s"
proof -
  have I: "I t" if "same_store s0 t" for t
    using that s by (auto simp: same_store_def intro: structural[OF s(1)])
  have compI: "wp (capture_compensate ad st rep l k err) Q (\<lambda>_. I) t" if "I t" for l k err t
    by (rule wp_mono[OF wp_conj[OF capture_compensate_raises keepsD[OF keeps_capture_compensate that]]]) auto
  have comp: "wp (capture_compensate ad st rep l k err) Q (\<lambda>_. I) t" if "same_store s0 t" for l k err t
    by (rule compI[OF I[OF that]])
  note ku = unchanged.keeps_check_replaced[of s0] unchanged.keeps_capture_agent_key[of s0]
  have commit': "wp (require_instance m obj)
      (\<lambda>l. wp (capture_commit a c ev p rep rd st ad k l) Q (\<lambda>e. wp (capture_compensate ad st rep obj (Some k) e) Q (\<lambda>_. I)))
      (\<lambda>e. wp (capture_compensate ad st rep obj (Some k) e) Q (\<lambda>_. I)) t"
    if t: "same_store s0 t" "\<forall>l. obj = Proper l \<longrightarrow> lease_ok l" for m obj rd k t
    using t commit[of t]
    by (auto simp: wp_require_instance comp split: foreign.splits intro!: wp_mono[OF _ _ compI])
  have lease: "wp (call_class AdapterStateLease_post_init (ad_capture_replay_state ad) f)
      (\<lambda>obj. wp (require_instance m obj)
        (\<lambda>l. wp (capture_commit a c ev p rep rd st ad k l) Q (\<lambda>e. wp (capture_compensate ad st rep obj (Some k) e) Q (\<lambda>_. I)))
        (\<lambda>e. wp (capture_compensate ad st rep obj (Some k) e) Q (\<lambda>_. I)))
      (\<lambda>e. wp (capture_compensate ad st rep NoneObject (Some k) e) Q (\<lambda>_. I)) t"
    if "same_store s0 t" for m f rd k t
    by (rule wp_call_class; rule commit' comp)
      (auto intro: same_store_trans[OF that] quiet_same_store dest: AdapterStateLease_post_init_ok)
  show ?thesis unfolding capture_protected_def
    apply simp
    apply (rule wp_mono[OF keepsD[OF ku(1) s(2)]])
     apply (rule wp_mono[OF keepsD[OF ku(2)]], assumption)
      apply (rule lease, assumption)
     apply (rule comp, assumption)
    apply (rule comp, assumption)
    done
qed

lemma wp_capture_at_head:
  assumes s: "I s"
    and commit: "\<And>t c ev p rep l rd k. same_store s t \<Longrightarrow> locked_cursor (sy_traces s a) ac = Inr c \<Longrightarrow>
      strip p = p \<Longrightarrow> p \<noteq> [] \<Longrightarrow> lease_ok l \<Longrightarrow>
      wp (capture_commit a c ev p rep rd st ad k l) Q (\<lambda>_. I) t"
    and Q: "\<And>x t u. Q x t \<Longrightarrow> quiet t u \<Longrightarrow> Q x u"
  shows "wp (capture_at_head R a ac st ad rep) Q (\<lambda>_. I) s"
proof -
  have I: "I t" if "same_store s t" for t
    using that s by (auto simp: same_store_def intro: structural[OF s])
  have fin: "wp (finally_do (capture_protected a c ev p r st ad) (add_elapsed R ''capture_minutes'' t0)) Q (\<lambda>_. I) t"
    if "same_store s t" "locked_cursor (sy_traces s a) ac = Inr c" "strip p = p" "p \<noteq> []" for c ev p r t0 t
    unfolding wp_finally_do
    by (rule wp_mono[OF wp_capture_protected[where Q = Q, OF I[OF that(1)] that(1)]])
      (auto intro!: commit wp_add_elapsed intro: that(2,3) Q quiet_keeps simp: that(4))
  show ?thesis
    unfolding capture_at_head_def
    by (auto simp: res_iff quiet_def simp del: wp_finally_do split: sum.splits
        intro!: wp_foreign fin I simp: same_store_def)
qed

end

text \<open>An invariant of the registry operations: structural, and kept by each of the ways in
  which an operation writes the entries or the logs.\<close>

locale registry_invariant = structural_invariant I for I :: "('w, 'o) sys \<Rightarrow> bool" +
  assumes quarantined: "keeps I (update_entry i (set_lifecycle FAILED))"
    and released: "keeps I (release_body i)"
    and committed: "I s \<Longrightarrow> locked_cursor (sy_traces s a) ac = Inr c \<Longrightarrow> lease_ok l \<Longrightarrow>
      strip p = p \<Longrightarrow> p \<noteq> [] \<Longrightarrow>
      wp (capture_commit a c ev p rep rd st ad k l) (\<lambda>_. I) (\<lambda>_. I) s"
begin

lemma keeps_quarantine: "keeps I (quarantine i)"
  unfolding quarantine_def by (intro keeps_intros keeps_structural quarantined)

lemma keeps_release: "keeps I (release R i)"
  unfolding release_def by (intro keeps_intros keeps_structural released)

lemma keeps_suffix_phase:
  "keeps I (execute rs) \<Longrightarrow> keeps I (suffix_phase R e k q rs execute)"
  unfolding suffix_phase_def
  by (intro keeps_intros keeps_structural keeps_finalize_suffix)
    (auto split: sum.splits option.splits intro!: keeps_intros keeps_structural keeps_quarantine)

lemma keeps_run_from:
  assumes "\<And>rs. keeps I (execute rs)"
  shows "keeps I (run_from R i b m execute)"
  unfolding run_from_def run_locked_def Let_def
  by (intro keeps_intros keeps_structural keeps_lookup_restorable keeps_recheck_ready
      keeps_restore_phase keeps_equivalence_phase keeps_suffix_phase assms
      | (simp add: case_prod_beta, intro keeps_intros keeps_structural keeps_recheck_ready
      keeps_restore_phase keeps_equivalence_phase keeps_suffix_phase assms))+

lemma keeps_capture_at_head: "keeps I (capture_at_head R a ac st ad rep)"
  unfolding keeps_wp
  by (auto intro!: wp_capture_at_head committed intro: quiet_keeps structural simp: same_store_def)

end

end
