(* ===== verification/Registry_Properties.thy ===== *)
theory Registry_Properties
  imports Registry_Lemmas
begin

text \<open>
  The registry invariant and the properties of capture, selection, restore-and-run and
  release.  An entry is consistent with its lease and its lifecycle, a point is anchored at
  the lifecycle event that recorded its capture, and every log stays well formed; the
  operations keep this in whatever way the adapter, the agent-state store, the clock and the
  identifier factories behave.
\<close>

section \<open>The invariant\<close>

definition entry_ok :: "string \<Rightarrow> ('w, 'o) RuntimeReplayBinding \<Rightarrow> bool" where
  "entry_ok i e \<longleftrightarrow>
     rp_replay_point_id (rb_point e) = i \<and> strip i = i \<and> i \<noteq> [] \<and>
     (rb_adapter_binding_key e = None \<longleftrightarrow> rp_fidelity (rb_point e) = NON_REPLAYABLE) \<and>
     (rb_adapter_binding_key e = None \<longrightarrow> rb_adapter_released e) \<and>
     (rp_lifecycle (rb_point e) = READY \<longrightarrow>
        \<not> rb_agent_released e \<and> (rb_adapter_released e \<longleftrightarrow> rb_adapter_binding_key e = None)) \<and>
     (rp_lifecycle (rb_point e) = RELEASED \<longrightarrow> rb_agent_released e \<and> rb_adapter_released e) \<and>
     rp_lifecycle (rb_point e) \<noteq> RELEASING"

text \<open>The event that recorded a capture stands in a log at the sequence number of the point's
  cursor.\<close>

definition anchored_in :: "TraceLog \<Rightarrow> ReplayPoint \<Rightarrow> bool" where
  "anchored_in l p \<longleftrightarrow>
     tl_trace_id l = tc_trace_id (rp_cursor p) \<and> tl_branch_id l = tc_branch_id (rp_cursor p) \<and>
     0 \<le> point_sequence p \<and> nat (point_sequence p) < length (tl_events l) \<and>
     (let e = tl_events l ! nat (point_sequence p) in
        te_event_id e = rp_created_event_id p \<and> te_kind e = LIFECYCLE \<and>
        te_replay_point_id e = Some (rp_replay_point_id p) \<and>
        te_parent_event_id e = tc_after_event_id (rp_cursor p))"

definition reg_inv :: "('w, 'o) sys \<Rightarrow> bool" where
  "reg_inv s \<longleftrightarrow> dict_wf (sy_entries s) \<and> (\<forall>a. trace_wf (sy_traces s a)) \<and>
     (\<forall>i e. dict_get (sy_entries s) i = Some e \<longrightarrow>
        entry_ok i e \<and> (\<exists>a. anchored_in (sy_traces s a) (rb_point e)))"

lemma reg_invD:
  assumes "reg_inv s" "dict_get (sy_entries s) i = Some e"
  shows "entry_ok i e" "\<exists>a. anchored_in (sy_traces s a) (rb_point e)"
  using assms by (auto simp: reg_inv_def)

text \<open>Rewriting one entry keeps the invariant when the new entry is consistent and its point
  differs in the lifecycle only.\<close>

lemma anchored_lifecycle [simp]: "anchored_in l (p\<lparr>rp_lifecycle := lc\<rparr>) = anchored_in l p"
  by (simp add: anchored_in_def point_sequence_def)

lemma reg_inv_set:
  assumes "reg_inv s" "dict_get (sy_entries s) i = Some e0" "entry_ok i e"
    and "rb_point e = (rb_point e0)\<lparr>rp_lifecycle := lc\<rparr>"
  shows "reg_inv (s\<lparr>sy_entries := dict_set i e (sy_entries s)\<rparr>)"
  using assms(1,3) reg_invD(2)[OF assms(1,2)] unfolding reg_inv_def
  by (auto simp: dict_get_set dict_wf_set assms(4))

text \<open>An append leaves every anchored point anchored.\<close>

lemma anchored_append:
  assumes "append_unlocked ev l = Inr l'" "anchored_in l p"
  shows "anchored_in l' p"
  using assms by (auto simp: append_unlocked_Inr anchored_in_def nth_append Let_def)

lemma reg_inv_append:
  assumes inv: "reg_inv s" and app: "append_unlocked ev (sy_traces s a) = Inr l'"
  shows "reg_inv (s\<lparr>sy_traces := (sy_traces s)(a := l')\<rparr>)"
proof -
  have "\<exists>b. anchored_in (((sy_traces s)(a := l')) b) p" if "anchored_in (sy_traces s b) p" for b p
    using anchored_append[OF app] that by (cases "b = a") (auto intro: exI[of _ b])
  moreover have "trace_wf (((sy_traces s)(a := l')) b)" for b
    using inv append_unlocked_wf[OF _ app] by (simp add: reg_inv_def)
  ultimately show ?thesis using inv unfolding reg_inv_def by (simp del: fun_upd_apply map_of_eq_Some_iff) blast
qed

lemma reg_inv_new:
  assumes "reg_inv s" "entry_ok i e" "anchored_in (sy_traces s a) (rb_point e)"
  shows "reg_inv (s\<lparr>sy_entries := dict_set i e (sy_entries s)\<rparr>)"
  using assms unfolding reg_inv_def by (auto simp: dict_get_set dict_wf_set)

section \<open>Release, step by step\<close>

lemma dict_set_same: "dict_get d k = Some v \<Longrightarrow> dict_set k v d = d"
  by (induction d) auto

lemma dict_set_twice [simp]: "dict_set k v (dict_set k w d) = dict_set k v d"
  by (induction d) auto

lemma dict_get_set_same [simp]: "dict_get (dict_set k v d) k = Some v"
  by (simp add: dict_get_set)

text \<open>What a step may leave behind: the same logs and counters, and entry \<open>i\<close> rewritten.\<close>

definition rewrote :: "string \<Rightarrow> ('w, 'o) sys \<Rightarrow> ('w, 'o) RuntimeReplayBinding \<Rightarrow> ('w, 'o) sys \<Rightarrow> bool" where
  "rewrote i s e t \<longleftrightarrow> sy_traces t = sy_traces s \<and> sy_entries t = dict_set i e (sy_entries s) \<and>
     ml_counts (sy_ledger t) = ml_counts (sy_ledger s)"

lemma wp_release_adapter_side:
  assumes e: "dict_get (sy_entries s) i = Some e"
    and Q: "\<And>t x ra. rewrote i s (e\<lparr>rb_adapter_released := ra\<rparr>) t \<Longrightarrow>
      (x = None \<longleftrightarrow> ra \<or> rb_adapter_binding_key e = None) \<Longrightarrow> (rb_adapter_released e \<longrightarrow> ra) \<Longrightarrow> Q x t"
  shows "wp (release_adapter_side i) Q E s"
proof -
  have same: "Q None s" if "rb_adapter_binding_key e = None \<or> rb_adapter_released e"
    by (rule Q[of "rb_adapter_released e"]) (use that e in \<open>auto simp: rewrote_def dict_set_same\<close>)
  have err: "Q (Some x) t" if "quiet s t" "rb_adapter_binding_key e \<noteq> None" "\<not> rb_adapter_released e" for x t
    by (rule Q[of False]) (use that e in \<open>auto simp: rewrote_def quiet_def dict_set_same\<close>)
  have ok: "Q None (t\<lparr>sy_entries := dict_set i (e\<lparr>rb_adapter_released := True\<rparr>) (sy_entries s)\<rparr>)"
    if "quiet s t" for t
    by (rule Q[of True]) (use that in \<open>auto simp: rewrote_def quiet_def\<close>)
  show ?thesis unfolding release_adapter_side_def
    by (auto simp: wp_get_entry wp_update_entry e same quietD split: option.splits intro!: wp_call_method err ok)
qed

lemma wp_release_agent_side:
  assumes e: "dict_get (sy_entries s) i = Some e"
    and Q: "\<And>t x rg. rewrote i s (e\<lparr>rb_agent_released := rg\<rparr>) t \<Longrightarrow>
      (x = None \<longleftrightarrow> rg) \<Longrightarrow> (rb_agent_released e \<longrightarrow> rg) \<Longrightarrow> Q x t"
  shows "wp (release_agent_side i) Q E s"
proof -
  have same: "Q None s" if "rb_agent_released e"
    by (rule Q[of True]) (use that e in \<open>auto simp: rewrote_def dict_set_same\<close>)
  have err: "Q (Some x) t" if "quiet s t" "\<not> rb_agent_released e" for x t
    by (rule Q[of False]) (use that e in \<open>auto simp: rewrote_def quiet_def dict_set_same\<close>)
  have ok: "Q None (t\<lparr>sy_entries := dict_set i (e\<lparr>rb_agent_released := True\<rparr>) (sy_entries s)\<rparr>)"
    if "quiet s t" for t
    by (rule Q[of True]) (use that in \<open>auto simp: rewrote_def quiet_def\<close>)
  show ?thesis unfolding release_agent_side_def
    by (auto simp: wp_get_entry wp_update_entry e same quietD intro!: wp_world_call err ok)
qed

text \<open>An entry after a release attempt, and whether the attempt succeeded.\<close>

definition released_as :: "('w, 'o) RuntimeReplayBinding \<Rightarrow> bool \<Rightarrow> ('w, 'o) RuntimeReplayBinding \<Rightarrow> bool" where
  "released_as e success e' \<longleftrightarrow> (\<exists>ra rg.
     e' = settle_lifecycle (e\<lparr>rb_adapter_released := ra, rb_agent_released := rg\<rparr>) \<and>
     (rb_adapter_released e \<longrightarrow> ra) \<and> (rb_agent_released e \<longrightarrow> rg) \<and>
     (success \<longleftrightarrow> (ra \<or> rb_adapter_binding_key e = None) \<and> rg))"

lemma wp_release_body:
  assumes e: "dict_get (sy_entries s) i = Some e" and live: "rp_lifecycle (rb_point e) \<noteq> RELEASED"
    and ok: "\<And>t e'. rewrote i s e' t \<Longrightarrow> released_as e True e' \<Longrightarrow>
      Q (rb_point e') (bump ''release_success_count'' t)"
    and err: "\<And>t e' x. rewrote i s e' t \<Longrightarrow> released_as e False e' \<Longrightarrow> E x t"
  shows "wp (release_body i) Q E s"
proof -
  define e1 where "e1 = set_lifecycle RELEASING e"
  have settle: "settle_lifecycle (e1\<lparr>rb_adapter_released := ra, rb_agent_released := rg\<rparr>)
      = settle_lifecycle (e\<lparr>rb_adapter_released := ra, rb_agent_released := rg\<rparr>)" for ra rg
    by (simp add: e1_def settle_lifecycle_def set_lifecycle_def)
  have fin: "wp (seq (update_entry i settle_lifecycle) (bnd (get_entry i) (\<lambda>e'. case x of
          Some error \<Rightarrow> raise error
        | None \<Rightarrow> (case y of
            Some error \<Rightarrow> raise error
          | None \<Rightarrow> seq (metric ''release_success_count'') (ret (rb_point e')))))) Q E t"
    if t: "rewrote i s (e1\<lparr>rb_adapter_released := ra, rb_agent_released := rg\<rparr>) t"
      and x: "x = None \<longleftrightarrow> ra \<or> rb_adapter_binding_key e = None" "rb_adapter_released e \<longrightarrow> ra"
      and y: "y = None \<longleftrightarrow> rg" "rb_agent_released e \<longrightarrow> rg" for t x y ra rg
  proof -
    let ?e = "settle_lifecycle (e\<lparr>rb_adapter_released := ra, rb_agent_released := rg\<rparr>)"
    let ?t = "t\<lparr>sy_entries := dict_set i ?e (sy_entries s)\<rparr>"
    have rw: "rewrote i s ?e ?t" using t by (simp add: rewrote_def)
    have as: "released_as e (x = None \<and> y = None) ?e" unfolding released_as_def
      by (rule exI[of _ ra], rule exI[of _ rg]) (use x y in simp)
    have get: "dict_get (sy_entries t) i = Some (e1\<lparr>rb_adapter_released := ra, rb_agent_released := rg\<rparr>)"
      "dict_set i v (sy_entries t) = dict_set i v (sy_entries s)" for v
      using t by (simp_all add: rewrote_def)
    have "E z ?t" if "\<not> (x = None \<and> y = None)" for z using err[OF rw] as that by auto
    moreover have "Q (rb_point ?e) (bump ''release_success_count'' ?t)" if "x = None" "y = None"
      using ok[OF rw] as that by auto
    ultimately show ?thesis
      by (simp add: wp_get_entry wp_update_entry get settle split: option.splits)
  qed
  show ?thesis
    unfolding release_body_def
    apply (simp add: wp_get_entry wp_update_entry e live e1_def[symmetric])
    apply (rule wp_release_adapter_side, simp)
    apply (rule wp_release_agent_side, simp add: rewrote_def)
    apply (rule fin[simplified])
    apply (auto simp: rewrote_def e1_def set_lifecycle_def)
    done
qed


lemma release_body_unknown:
  "dict_get (sy_entries s) i = None \<Longrightarrow> wp (release_body i) Q E s = E (KeyError ''unknown replay_point_id'') s"
  by (simp add: release_body_def wp_get_entry)

lemma release_body_again:
  "dict_get (sy_entries s) i = Some e \<Longrightarrow> rp_lifecycle (rb_point e) = RELEASED \<Longrightarrow>
     wp (release_body i) Q E s = Q (rb_point e) (bump ''release_success_count'' s)"
  by (simp add: release_body_def wp_get_entry)

lemma released_as_ok:
  assumes "entry_ok i e" "released_as e b e'"
  shows "entry_ok i e'" "\<exists>lc. rb_point e' = (rb_point e)\<lparr>rp_lifecycle := lc\<rparr>"
proof -
  obtain ra rg where e': "e' = settle_lifecycle (e\<lparr>rb_adapter_released := ra, rb_agent_released := rg\<rparr>)"
      "rb_adapter_released e \<longrightarrow> ra"
    using assms(2) unfolding released_as_def by blast
  then show "\<exists>lc. rb_point e' = (rb_point e)\<lparr>rp_lifecycle := lc\<rparr>"
    by (auto simp: settle_lifecycle_def set_lifecycle_def)
  show "entry_ok i e'"
    using assms(1) e'(2) by (simp add: e'(1) entry_ok_def settle_lifecycle_def set_lifecycle_def)
qed

lemma reg_inv_rewrote:
  assumes "reg_inv s" "dict_get (sy_entries s) i = Some e0" "rewrote i s e t" "entry_ok i e"
    and "rb_point e = (rb_point e0)\<lparr>rp_lifecycle := lc\<rparr>"
  shows "reg_inv t"
  using reg_inv_set[OF assms(1,2,4,5)] assms(3) by (simp add: reg_inv_def rewrote_def)

lemma reg_inv_bump [simp]: "reg_inv (bump f s) = reg_inv s"
  by (simp add: reg_inv_def)

lemma keeps_release_body: "keeps reg_inv (release_body i)"
  unfolding keeps_wp
proof (intro allI impI)
  fix s :: "('w, 'o) sys"
  assume inv: "reg_inv s"
  show "wp (release_body i) (\<lambda>_. reg_inv) (\<lambda>_. reg_inv) s"
  proof (cases "dict_get (sy_entries s) i")
    case None
    then show ?thesis by (simp add: release_body_unknown inv)
  next
    case (Some e)
    note ok = reg_invD(1)[OF inv Some]
    have "reg_inv t" if "rewrote i s e' t" "released_as e b e'" for t e' b
      using released_as_ok[OF ok that(2)] reg_inv_rewrote[OF inv Some that(1)] by blast
    then show ?thesis
      by (cases "rp_lifecycle (rb_point e) = RELEASED")
        (auto simp: release_body_again[OF Some] inv intro!: wp_release_body[OF Some])
  qed
qed

lemma keeps_set_failed: "keeps reg_inv (update_entry i (set_lifecycle FAILED))"
proof -
  have "entry_ok i (set_lifecycle FAILED e)" if "entry_ok i e" for e :: "('w, 'o) RuntimeReplayBinding"
    using that by (simp add: entry_ok_def set_lifecycle_def)
  then show ?thesis unfolding keeps_wp
    by (auto simp: wp_update_entry set_lifecycle_def split: option.splits intro!: reg_inv_set dest: reg_invD(1))
qed

section \<open>Commit of a capture\<close>

lemma locked_cursor_Inr:
  "locked_cursor l ac = Inr c \<longleftrightarrow>
     strip (tl_trace_id l) \<noteq> [] \<and> strip (tl_branch_id l) \<noteq> [] \<and>
     (\<forall>h. head_event_id l = Some h \<longrightarrow> strip h \<noteq> []) \<and>
     c = \<lparr>tc_trace_id = strip (tl_trace_id l), tc_branch_id = strip (tl_branch_id l),
          tc_after_event_id = map_option strip (head_event_id l),
          tc_next_sequence = int (length (tl_events l)), tc_agent_cursor = ac\<rparr>"
  by (auto simp: locked_cursor_def TraceCursor_post_init_def res_iff)

text \<open>The states in which a commit may end: a projection mismatch is counted, a rejected event
  or identifier changes nothing, and a success adds one entry and one event.\<close>

definition new_entry :: "AdapterStateLease \<Rightarrow> key \<Rightarrow> 'w agent_state_store \<Rightarrow> ('w, 'o) replay_adapter \<Rightarrow>
    ReplayPoint \<Rightarrow> ('w, 'o) RuntimeReplayBinding" where
  "new_entry l k st ad p = \<lparr>rb_point = p, rb_agent_state_key = k, rb_adapter_binding_key = al_binding_key l,
     rb_agent_state_store = st, rb_adapter = ad, rb_agent_released = False,
     rb_adapter_released = (al_binding_key l = None)\<rparr>"

lemma wp_capture_commit:
  assumes err: "\<And>t x. sy_traces t = sy_traces s \<Longrightarrow> sy_entries t = sy_entries s \<Longrightarrow>
        sy_world t = sy_world s \<Longrightarrow> E x t"
    and ok: "\<And>t ev' l' p. capture_event (sy_traces s a) c ev pid l rep = Inr ev' \<Longrightarrow>
        dict_get (sy_entries s) pid = None \<Longrightarrow> append_unlocked ev' (sy_traces s a) = Inr l' \<Longrightarrow>
        p = capture_point c (te_event_id ev') pid l rep \<Longrightarrow>
        sy_traces t = (sy_traces s)(a := l') \<Longrightarrow> sy_world t = sy_world s \<Longrightarrow>
        sy_entries t = dict_set pid (new_entry l k st ad p) (sy_entries s) \<Longrightarrow> Q p t"
  shows "wp (capture_commit a c ev pid rep rd st ad k l) Q E s"
  unfolding capture_commit_def Let_def
  by (auto split: option.splits sum.splits simp: new_entry_def intro!: ok err)


lemma capture_event_Inr:
  "capture_event l c ev pid le rep = Inr e \<Longrightarrow>
     te_event_id e = strip ev \<and> te_trace_id e = strip (tl_trace_id l) \<and> te_branch_id e = strip (tl_branch_id l) \<and>
     te_sequence e = tc_next_sequence c \<and> te_parent_event_id e = map_option strip (tc_after_event_id c) \<and>
     te_kind e = LIFECYCLE \<and> te_replay_point_id e = Some (strip pid)"
  by (auto simp: capture_event_def TraceEvent_post_init_def res_iff)

lemma captured_anchored:
  assumes c: "locked_cursor l ac = Inr c" and ev: "capture_event l c ev pid le rep = Inr e"
    and app: "append_unlocked e l = Inr l'" and pid: "strip pid = pid"
  shows "anchored_in l' (capture_point c (te_event_id e) pid le rep)"
proof -
  note e = capture_event_Inr[OF ev]
  have l: "strip (tl_trace_id l) = tl_trace_id l" "strip (tl_branch_id l) = tl_branch_id l"
    using e app by (auto simp: append_unlocked_Inr)
  have "map_option strip (map_option strip h) = map_option strip h" for h by (cases h) auto
  with e app c pid l show ?thesis
    by (auto simp: append_unlocked_Inr anchored_in_def locked_cursor_Inr capture_point_def
        point_sequence_def nth_append)
qed

lemma wp_capture_commit_inv:
  fixes s :: "('w, 'o) sys"
  assumes inv: "reg_inv s" and c: "locked_cursor (sy_traces s a) ac = Inr c" and l: "lease_ok l"
    and pid: "strip pid = pid" "pid \<noteq> []"
  shows "wp (capture_commit a c ev pid rep rd st ad k l) (\<lambda>_. reg_inv) (\<lambda>_. reg_inv) s"
proof (rule wp_capture_commit)
  fix t :: "('w, 'o) sys" and x :: exn
  assume "sy_traces t = sy_traces s" "sy_entries t = sy_entries s"
  then show "reg_inv t" using inv by (simp add: reg_inv_def)
next
  fix t :: "('w, 'o) sys" and ev' l' p
  assume *: "capture_event (sy_traces s a) c ev pid l rep = Inr ev'"
    "append_unlocked ev' (sy_traces s a) = Inr l'"
    "p = capture_point c (te_event_id ev') pid l rep" "sy_traces t = (sy_traces s)(a := l')"
    "sy_entries t = dict_set pid (new_entry l k st ad p) (sy_entries s)"
  let ?u = "s\<lparr>sy_traces := (sy_traces s)(a := l')\<rparr>"
  have "entry_ok pid (new_entry l k st ad p)"
    using l pid by (simp add: entry_ok_def new_entry_def *(3) capture_point_def lease_ok_def)
  moreover have "anchored_in (sy_traces ?u a) (rb_point (new_entry l k st ad p))"
    using captured_anchored[OF c *(1,2) pid(1)] by (simp add: new_entry_def *(3))
  ultimately have "reg_inv (?u\<lparr>sy_entries := dict_set pid (new_entry l k st ad p) (sy_entries ?u)\<rparr>)"
    using reg_inv_new[OF reg_inv_append[OF inv *(2)]] by blast
  then show "reg_inv t" using *(4,5) by (simp add: reg_inv_def)
qed

interpretation registry: registry_invariant reg_inv
proof
  show "reg_inv t" if "reg_inv s" "sy_traces t = sy_traces s" "sy_entries t = sy_entries s"
    for s t :: "('w, 'o) sys" using that by (simp add: reg_inv_def)
qed (auto intro: keeps_set_failed keeps_release_body wp_capture_commit_inv)

section \<open>Capture\<close>

text \<open>What a successful capture leaves behind.\<close>

definition captured :: "nat \<Rightarrow> AgentCursor \<Rightarrow> ('w, 'o) sys \<Rightarrow> ReplayPoint \<Rightarrow> ('w, 'o) sys \<Rightarrow> bool" where
  "captured a ac s p t \<longleftrightarrow> (\<exists>e ev.
     dict_get (sy_entries s) (rp_replay_point_id p) = None \<and>
     sy_entries t = sy_entries s @ [(rp_replay_point_id p, e)] \<and> rb_point e = p \<and>
     rp_lifecycle p = READY \<and> locked_cursor (sy_traces s a) ac = Inr (rp_cursor p) \<and>
     append_unlocked ev (sy_traces s a) = Inr (sy_traces t a) \<and>
     (\<forall>b. b \<noteq> a \<longrightarrow> sy_traces t b = sy_traces s b) \<and>
     te_event_id ev = rp_created_event_id p \<and> te_kind ev = LIFECYCLE \<and>
     te_replay_point_id ev = Some (rp_replay_point_id p))"

lemma wp_capture_commit_captured:
  fixes s t :: "('w, 'o) sys"
  assumes same: "same_store s t" and c: "locked_cursor (sy_traces s a) ac = Inr c" and pid: "strip pid = pid"
  shows "wp (capture_commit a c ev pid rep rd st ad k l) (captured a ac s) (\<lambda>_. same_store s) t"
proof (rule wp_capture_commit)
  fix u :: "('w, 'o) sys" and ev' l' p
  assume *: "capture_event (sy_traces t a) c ev pid l rep = Inr ev'" "dict_get (sy_entries t) pid = None"
    "append_unlocked ev' (sy_traces t a) = Inr l'" "p = capture_point c (te_event_id ev') pid l rep"
    "sy_traces u = (sy_traces t)(a := l')"
    "sy_entries u = dict_set pid (new_entry l k st ad p) (sy_entries t)"
  have "pid \<notin> fst ` set (sy_entries t)" using *(2) by (simp add: map_of_eq_None_iff)
  then have "sy_entries u = sy_entries s @ [(pid, new_entry l k st ad p)]"
    using *(6) same by (simp add: dict_set_new same_store_def)
  then show "captured a ac s p u" unfolding captured_def
    using * same c pid capture_event_Inr[OF *(1)]
    by (auto simp: capture_point_def same_store_def new_entry_def intro!: exI[of _ ev'])
next
  fix u :: "('w, 'o) sys" and x :: exn
  assume "sy_traces u = sy_traces t" "sy_entries u = sy_entries t"
  then show "same_store s u" using same by (simp add: same_store_def)
qed


text \<open>C1: a capture is atomic.  Whatever the adapter, the agent-state store, the clock and the
  identifier factories do, a capture that raises leaves every registry entry and every trace
  log as it was; a capture that returns has added exactly one entry, under a fresh identifier
  and ready, and exactly one event, the lifecycle event at the head of the given log that
  names the point, whose cursor is the head the capture started from.\<close>

theorem capture_atomic:
  "case capture_at_head R a ac st ad rep s of
     (Inl _, t) \<Rightarrow> sy_traces t = sy_traces s \<and> sy_entries t = sy_entries s
   | (Inr p, t) \<Rightarrow> captured a ac s p t"
proof -
  have "captured a ac s p u" if "captured a ac s p t" "quiet t u" for p t u
    using that unfolding captured_def quiet_def by metis
  then have "wp (capture_at_head R a ac st ad rep) (captured a ac s) (\<lambda>_. same_store s) s"
    by (intro unchanged.wp_capture_at_head wp_capture_commit_captured) auto
  then show ?thesis by (auto simp: wp_def same_store_def split: prod.splits sum.splits)
qed


section \<open>Selection\<close>

lemma max_by_max: "max_by k x ys \<in> set (x # ys)" "y \<in> set (x # ys) \<Longrightarrow> k y \<le> k (max_by k x ys)"
proof (induction ys arbitrary: x y)
  case (Cons z zs)
  {
    case 1
    show ?case using Cons.IH(1)[of "if k x < k z then z else x"] by auto
  next
    case 2
    show ?case
      using Cons.IH(2)[of "if k x < k z then z else x" "if k x < k z then z else x"]
        Cons.IH(2)[of y "if k x < k z then z else x"] 2 by (auto split: if_splits)
  }
qed auto

text \<open>The pool from which a point is chosen.\<close>

definition select_pool ::
  "string \<Rightarrow> string \<Rightarrow> int \<Rightarrow> ReplayFidelity \<Rightarrow> ('w, 'o) sys \<Rightarrow> ReplayPoint set" where
  "select_pool t b n m s =
     (let cs = set (select_candidates (strip t) (strip b) n (sy_entries s));
          trusted = {p \<in> cs. fidelity_meets (rp_fidelity p) m}
      in if trusted = {} then cs else trusted)"

lemma wp_select_before:
  "wp (select_before t b n m)
     (\<lambda>p s'. same_store s s' \<and> strip t \<noteq> [] \<and> strip b \<noteq> [] \<and> p \<in> select_pool t b n m s \<and>
        (\<forall>q \<in> select_pool t b n m s. point_sequence q \<le> point_sequence p))
     (\<lambda>_ s'. same_store s s' \<and> (strip t = [] \<or> strip b = [] \<or> select_pool t b n m s = {})) s"
proof -
  let ?cs = "select_candidates (strip t) (strip b) n (sy_entries s)"
  let ?tr = "filter (\<lambda>p. fidelity_meets (rp_fidelity p) m) ?cs"
  define pool where "pool = (if ?tr \<noteq> [] then ?tr else ?cs)"
  have pool: "select_pool t b n m s = set pool"
    by (auto simp: select_pool_def pool_def Let_def filter_empty_conv)
  show ?thesis
    unfolding select_before_def pool
    using max_by_max(1)[of point_sequence] max_by_max(2)[where k = point_sequence]
    by (simp add: require_nonempty_text_def Let_def pool_def[symmetric] same_store_def wp_if
        split: list.split)
qed


section \<open>A sample registry\<close>

text \<open>Concrete providers, for the instances below: the world is the pair of the agent-state keys
  and the adapter bindings held; the store and the adapter hand out fresh keys.\<close>

type_synonym sample_world = "key list \<times> key list"

definition fresh_key :: "key list \<Rightarrow> key" where
  "fresh_key ks = Suc (fold max ks 0)"

definition sample_store :: "sample_world agent_state_store" where
  "sample_store = \<lparr>
     as_capture_agent_state = (\<lambda>c (g, b). (Inr (Some (fresh_key g)), (fresh_key g # g, b))),
     as_restore_agent_state = (\<lambda>k w. (Inr (), w)),
     as_release_agent_state = (\<lambda>k (g, b). (Inr (), (removeAll k g, b))),
     as_fork_agent_state = Callable (\<lambda>k c (g, b). (Inr (Some (fresh_key g)), (fresh_key g # g, b)))\<rparr>"

definition sample_report :: EquivalenceReport where
  "sample_report = \<lparr>er_achieved_fidelity = EXACT, er_equivalent = True, er_expected_digest = Some ''d'',
     er_observed_digest = Some ''d'', er_checks = [], er_sanitized_reason = None\<rparr>"

definition sample_receipt :: RestoreReceipt where
  "sample_receipt = \<lparr>rc_achieved_fidelity = EXACT, rc_restored_projection_digest = Some ''d'',
     rc_prefix_reused = Some True\<rparr>"

definition sample_assessment :: ReplayRiskAssessment where
  "sample_assessment = \<lparr>ra_disposition = RISK_ALLOW, ra_policy_id = ''policy'', ra_sanitized_reason = None\<rparr>"

definition sample_adapter :: "(sample_world, 'o) replay_adapter" where
  "sample_adapter = \<lparr>
     ad_capture_replay_state = Callable (\<lambda>q (g, b).
       (Inr (Proper \<lparr>al_binding_key = Some (fresh_key b), al_fidelity = EXACT, al_projection_digest = Some ''d''\<rparr>),
        (g, fresh_key b # b))),
     ad_restore_replay_state = Callable (\<lambda>k q w. (Inr (Proper sample_receipt), w)),
     ad_validate_replay_equivalence = Callable (\<lambda>k rc w. (Inr (Proper sample_report), w)),
     ad_release_replay_state = Callable (\<lambda>k (g, b). (Inr (), (g, removeAll k b))),
     ad_finalize_replay_suffix = Absent,
     ad_fork_replay_child = Callable (\<lambda>k q (g, b).
       (Inr (Proper \<lparr>cl_child_key = Some (fresh_key b), cl_receipt = sample_receipt,
          cl_concurrency = THREAD_SAFE, cl_worker_identity = None\<rparr>), (g, fresh_key b # b))),
     ad_validate_replay_child_equivalence = Callable (\<lambda>k rc w. (Inr (Proper sample_report), w)),
     ad_release_replay_child = Callable (\<lambda>k (g, b). (Inr (), (g, case k of None \<Rightarrow> b | Some c \<Rightarrow> removeAll c b))),
     ad_assess_replay_child_intent = Callable (\<lambda>k i w. (Inr (Proper sample_assessment), w)),
     ad_assess_replay_child_outcome = Callable (\<lambda>k i r w. (Inr (Proper sample_assessment), w))\<rparr>"

definition sample_host :: "sample_world registry_host" where
  "sample_host = \<lparr>rg_id_factory = (\<lambda>w. (Inr ''p'', w)), rg_event_id_factory = (\<lambda>w. (Inr ''e2'', w)),
     rg_perf_counter = (\<lambda>w. (Fin 0, w))\<rparr>"

definition sample_cursor :: AgentCursor where
  "sample_cursor = \<lparr>ac_history_index = 0, ac_history_digest = ''h'', ac_context_digest = ''c''\<rparr>"

definition sample_sys :: "(sample_world, nat) sys" where
  "sample_sys = \<lparr>sy_traces = (\<lambda>_. sample_log), sy_entries = [], sy_ledger = ledger_init, sy_world = ([], [])\<rparr>"

definition sample_point :: ReplayPoint where
  "sample_point = \<lparr>rp_replay_point_id = ''p'',
     rp_cursor = \<lparr>tc_trace_id = ''t'', tc_branch_id = ''b'', tc_after_event_id = Some ''e1'',
       tc_next_sequence = 2, tc_agent_cursor = sample_cursor\<rparr>,
     rp_fidelity = EXACT, rp_captured_projection_digest = Some ''d'', rp_lifecycle = READY,
     rp_created_event_id = ''e2'', rp_replaces_replay_point_id = None\<rparr>"

definition sample_entry :: "(sample_world, nat) RuntimeReplayBinding" where
  "sample_entry = \<lparr>rb_point = sample_point, rb_agent_state_key = 1, rb_adapter_binding_key = Some 1,
     rb_agent_state_store = sample_store, rb_adapter = sample_adapter, rb_agent_released = False,
     rb_adapter_released = False\<rparr>"

definition sample_captured :: "(sample_world, nat) sys" where
  "sample_captured = snd (capture_at_head sample_host 0 sample_cursor sample_store sample_adapter None sample_sys)"

lemma sample_capture:
  "fst (capture_at_head sample_host 0 sample_cursor sample_store sample_adapter None sample_sys) = Inr sample_point"
  by code_simp

lemma sample_captured_world: "sy_world sample_captured = ([1], [1])"
  by code_simp


lemma sample_captured_points:
  "map (\<lambda>(i, e). rb_point e) (sy_entries sample_captured) = [sample_point]"
  by code_simp


section \<open>Release\<close>

lemma wp_release:
  assumes e: "dict_get (sy_entries s) i = Some e" and live: "rp_lifecycle (rb_point e) \<noteq> RELEASED"
    and ok: "\<And>t e'. sy_traces t = sy_traces s \<Longrightarrow> sy_entries t = dict_set i e' (sy_entries s) \<Longrightarrow>
      released_as e True e' \<Longrightarrow> Q (rb_point e') t"
    and err: "\<And>t e' x. sy_traces t = sy_traces s \<Longrightarrow> sy_entries t = dict_set i e' (sy_entries s) \<Longrightarrow>
      released_as e False e' \<Longrightarrow> E x t"
  shows "wp (release R i) Q E s"
proof -
  have clock: "wp (release_body i)
      (\<lambda>x. wp (add_elapsed R ''release_minutes'' t0) (\<lambda>_. Q x) E)
      (\<lambda>x t. wp (add_elapsed R ''release_minutes'' t0) (\<lambda>_. E x) E (bump ''release_failure_count'' t)) u"
    if u: "same_store s u" for t0 u
  proof (rule wp_release_body)
    show "dict_get (sy_entries u) i = Some e" using e u by (simp add: same_store_def)
  qed (use u live in \<open>auto simp: rewrote_def same_store_def quiet_def intro!: wp_add_elapsed ok err\<close>)
  show ?thesis unfolding release_def
    by (auto intro!: wp_perf_counter clock simp: same_store_def quiet_def)
qed

lemma release_outcome_lemma:
  assumes "reg_inv s" and "dict_get (sy_entries s) i = Some e" and "rp_lifecycle (rb_point e) \<noteq> RELEASED"
  shows "case release R i s of (r, t) \<Rightarrow> \<exists>e'.
     sy_traces t = sy_traces s \<and> sy_entries t = dict_set i e' (sy_entries s) \<and>
     (rb_adapter_released e \<longrightarrow> rb_adapter_released e') \<and> (rb_agent_released e \<longrightarrow> rb_agent_released e') \<and>
     (case r of
        Inl _ \<Rightarrow> rp_lifecycle (rb_point e') = FAILED \<and> \<not> (rb_adapter_released e' \<and> rb_agent_released e')
      | Inr p \<Rightarrow> p = rb_point e' \<and> rp_lifecycle p = RELEASED \<and> rb_adapter_released e' \<and> rb_agent_released e')"
proof -
  have *: "(rb_adapter_released e \<longrightarrow> rb_adapter_released e') \<and> (rb_agent_released e \<longrightarrow> rb_agent_released e') \<and>
      rp_lifecycle (rb_point e') = (if b then RELEASED else FAILED) \<and> (rb_adapter_released e' \<and> rb_agent_released e') = b"
    if as: "released_as e b e'" for b e'
  proof -
    obtain ra rg where "e' = settle_lifecycle (e\<lparr>rb_adapter_released := ra, rb_agent_released := rg\<rparr>)"
      "rb_adapter_released e \<longrightarrow> ra" "rb_agent_released e \<longrightarrow> rg"
      "b \<longleftrightarrow> (ra \<or> rb_adapter_binding_key e = None) \<and> rg" using as unfolding released_as_def by blast
    moreover have "rb_adapter_binding_key e = None \<longrightarrow> rb_adapter_released e"
      using reg_invD(1)[OF assms(1,2)] by (simp add: entry_ok_def)
    ultimately show ?thesis by (auto simp: settle_lifecycle_def set_lifecycle_def)
  qed
  have "wp (release R i)
     (\<lambda>p t. \<exists>e'. sy_traces t = sy_traces s \<and> sy_entries t = dict_set i e' (sy_entries s) \<and>
        released_as e True e' \<and> p = rb_point e')
     (\<lambda>x t. \<exists>e'. sy_traces t = sy_traces s \<and> sy_entries t = dict_set i e' (sy_entries s) \<and>
        released_as e False e') s"
    by (rule wp_release[OF assms(2,3)]) auto
  then show ?thesis
  proof (rule wp_cases)
    fix p t
    assume r: "release R i s = (Inr p, t)" and "\<exists>e'. sy_traces t = sy_traces s \<and>
      sy_entries t = dict_set i e' (sy_entries s) \<and> released_as e True e' \<and> p = rb_point e'"
    then obtain e' where "sy_traces t = sy_traces s" "sy_entries t = dict_set i e' (sy_entries s)"
      "released_as e True e'" "p = rb_point e'" by blast
    with *[of True e'] show ?thesis unfolding r by (simp; intro exI[of _ e'], simp)
  next
    fix x t
    assume r: "release R i s = (Inl x, t)" and "\<exists>e'. sy_traces t = sy_traces s \<and>
      sy_entries t = dict_set i e' (sy_entries s) \<and> released_as e False e'"
    then obtain e' where "sy_traces t = sy_traces s" "sy_entries t = dict_set i e' (sy_entries s)"
      "released_as e False e'" by blast
    with *[of False e'] show ?thesis unfolding r by (simp; intro exI[of _ e'], simp)
  qed
qed



lemma sample_sys_inv: "reg_inv sample_sys"
  using trace_sample_wf by (simp add: reg_inv_def sample_sys_def)

lemma sample_captured_inv: "reg_inv sample_captured"
  using registry.keeps_capture_at_head sample_sys_inv unfolding keeps_def sample_captured_def by blast

text \<open>The captured sample written out, with a fresh ledger.\<close>

definition sample_capture_event :: TraceEvent where
  "sample_capture_event = \<lparr>te_event_id = ''e2'', te_trace_id = ''t'', te_branch_id = ''b'', te_sequence = 2,
     te_parent_event_id = Some ''e1'', te_kind = LIFECYCLE,
     te_public_payload = PMap
       [(KStr ''operation'', PStr ''replay_point_captured''), (KStr ''fidelity'', PStr ''exact''),
        (KStr ''cursor_sequence'', PInt 2), (KStr ''replaces_replay_point_id'', PNone)],
     te_action_id = None, te_causation_id = None, te_replay_point_id = Some ''p''\<rparr>"

definition sample_ready :: "(sample_world, nat) sys" where
  "sample_ready = \<lparr>sy_traces = (\<lambda>_. sample_log\<lparr>tl_events := tl_events sample_log @ [sample_capture_event],
       tl_event_ids := insert ''e2'' (tl_event_ids sample_log)\<rparr>),
     sy_entries = [(''p'', sample_entry)], sy_ledger = ledger_init, sy_world = ([1], [1])\<rparr>"

lemma sample_ready_log: "append_unlocked sample_capture_event sample_log = Inr (sy_traces sample_ready a)"
  by (simp add: append_unlocked_Inr sample_ready_def sample_log_def sample_capture_event_def sample_event_def
      head_event_id_def)

lemma sample_ready_entry: "dict_get (sy_entries sample_ready) ''p'' = Some sample_entry"
  by (simp add: sample_ready_def)

lemma sample_ready_inv: "reg_inv sample_ready"
proof -
  have ok: "entry_ok ''p'' sample_entry" "anchored_in (sy_traces sample_ready 0) sample_point" by code_simp+
  have "trace_wf (sy_traces sample_ready a)" for a
    by (rule append_unlocked_wf[OF trace_sample_wf sample_ready_log])
  moreover have "\<exists>a. anchored_in (sy_traces sample_ready a) (rb_point sample_entry)"
    using ok(2) by (auto simp: sample_entry_def)
  moreover have "sy_entries sample_ready = [(''p'', sample_entry)]" by (simp add: sample_ready_def)
  ultimately show ?thesis using ok(1) by (simp add: reg_inv_def)
qed

lemma returned: "\<not> isl (fst x) \<Longrightarrow> \<exists>p t. x = (Inr p, t)"
  by (cases x; cases "fst x") auto


text \<open>A provider method that always returns.\<close>

definition always_returns :: "('k \<Rightarrow> 'w \<Rightarrow> unit res \<times> 'w) \<Rightarrow> bool" where
  "always_returns f \<longleftrightarrow> (\<forall>k w. fst (f k w) = Inr ())"

lemma wp_world_call_returns:
  assumes "always_returns f"
  shows "wp (world_call (f k)) Q E s = Q () (s\<lparr>sy_world := snd (f k (sy_world s))\<rparr>)"
proof -
  obtain w where "f k (sy_world s) = (Inr (), w)"
    using assms by (metis always_returns_def prod.collapse)
  then show ?thesis by (simp add: wp_def world_call_def)
qed

lemma release_body_returns:
  assumes "dict_get (sy_entries s) i = Some e"
    and "ad_release_replay_state (rb_adapter e) = Callable f" "always_returns f"
    and "always_returns (as_release_agent_state (rb_agent_state_store e))"
  shows "wp (release_body i) (\<lambda>_ _. True) (\<lambda>_ _. False) s"
  unfolding release_body_def release_adapter_side_def release_agent_side_def
  by (auto simp: wp_get_entry wp_update_entry assms call_method_def set_lifecycle_def
      wp_world_call_returns split: option.splits)

text \<open>Releasing terminates in a released point whenever both providers' release methods
  return, from any state the invariant allows (also after an earlier release failed), and
  releasing again returns the same point and changes no entry and no log.\<close>

theorem release_total_and_idempotent:
  fixes s :: "('w, 'o) sys"
  assumes inv: "reg_inv s" and e: "dict_get (sy_entries s) i = Some e"
    and f: "ad_release_replay_state (rb_adapter e) = Callable f" "always_returns f"
    and g: "always_returns (as_release_agent_state (rb_agent_state_store e))"
  shows "\<exists>p t u. release R i s = (Inr p, t) \<and> rp_lifecycle p = RELEASED \<and>
     release R i t = (Inr p, u) \<and> same_store t u"
proof -
  have again: "wp (release R i) (\<lambda>p u. p = rb_point e' \<and> same_store t u) (\<lambda>_ _. False) t"
    if "dict_get (sy_entries t) i = Some e'" "rp_lifecycle (rb_point e') = RELEASED" for e' and t :: "('w, 'o) sys"
    unfolding release_def wp_bnd wp_seq wp_finally_do wp_on_error
    apply (rule wp_perf_counter, simp)
    apply (subst release_body_again[where e = e'])
      apply (simp_all add: quiet_def that)
    apply (rule wp_add_elapsed)
     apply (simp_all add: quiet_def same_store_def)
    done
  have total: "wp (release R i) (\<lambda>_ _. True) (\<lambda>_ _. False) s"
    unfolding release_def wp_bnd wp_seq wp_finally_do wp_on_error
    apply (rule wp_perf_counter, simp)
    apply (rule wp_mono[OF release_body_returns[OF _ f g]])
      apply (simp add: quietD e)
     apply (rule wp_add_elapsed; simp)
    apply simp
    done
  then obtain p t where pt: "release R i s = (Inr p, t)" by (auto elim: wp_cases)
  have "\<exists>e'. dict_get (sy_entries t) i = Some e' \<and> rp_lifecycle (rb_point e') = RELEASED \<and> p = rb_point e'"
  proof (cases "rp_lifecycle (rb_point e) = RELEASED")
    case True
    with again[OF e True] pt e show ?thesis by (auto simp: wp_def same_store_def)
  next
    case False
    from release_outcome_lemma[OF inv e False, of R] pt show ?thesis by auto
  qed
  then obtain e' where e': "dict_get (sy_entries t) i = Some e'" "rp_lifecycle (rb_point e') = RELEASED" "p = rb_point e'"
    by blast
  with again[OF e'(1,2)] pt show ?thesis by (auto elim!: wp_cases)
qed


theorem release_total_and_idempotent_witness:
  "\<exists>p t u. release sample_host ''p'' sample_ready = (Inr p, t) \<and> rp_lifecycle p = RELEASED \<and>
     release sample_host ''p'' t = (Inr p, u) \<and> same_store t u"
proof (rule release_total_and_idempotent[OF sample_ready_inv sample_ready_entry])
  show "ad_release_replay_state (rb_adapter sample_entry) = Callable (\<lambda>k (g, b). (Inr (), (g, removeAll k b)))"
    by (simp add: sample_entry_def sample_adapter_def)
  show "always_returns (\<lambda>k (g, b). (Inr (), (g, removeAll k b)))" by (simp add: always_returns_def split: prod.splits)
  show "always_returns (as_release_agent_state (rb_agent_state_store sample_entry))"
    by (simp add: always_returns_def sample_entry_def sample_store_def split: prod.splits)
qed

end
