(* ===== verification/Capture_Compensation.thy ===== *)
theory Capture_Compensation
  imports Registry_Properties
begin

text \<open>
  Compensation of a failed capture: with providers that keep their side of the contract, a
  capture that raises holds no agent state and no adapter binding that was not held before,
  and one that returns holds exactly the two keys of the new entry.  Without the contract the
  compensation can be cut short: an adapter that returns an object of another class.
\<close>

section \<open>The provider contract\<close>

text \<open>What the registry relies on from its providers: \<open>G w\<close> are the agent states and \<open>B w\<close> the
  adapter bindings held in the world \<open>w\<close>.  A capture that returns a key holds it afterwards, any
  other outcome holds nothing new, a release returns and lets go of its key, and nothing else
  changes what is held.\<close>

definition honest_store :: "('w \<Rightarrow> key set) \<Rightarrow> ('w \<Rightarrow> key set) \<Rightarrow> 'w agent_state_store \<Rightarrow> bool" where
  "honest_store G B st \<longleftrightarrow>
     (\<forall>c w. case as_capture_agent_state st c w of (r, w') \<Rightarrow> B w' = B w \<and>
        (case r of Inr (Some k) \<Rightarrow> k \<notin> G w \<and> G w' = insert k (G w) | _ \<Rightarrow> G w' = G w)) \<and>
     (\<forall>k w. case as_release_agent_state st k w of (r, w') \<Rightarrow>
        r = Inr () \<and> B w' = B w \<and> G w' = G w - {k})"

definition honest_adapter :: "('w \<Rightarrow> key set) \<Rightarrow> ('w \<Rightarrow> key set) \<Rightarrow> ('w, 'o) replay_adapter \<Rightarrow> bool" where
  "honest_adapter G B ad \<longleftrightarrow>
     (case ad_capture_replay_state ad of Callable f \<Rightarrow> \<forall>q w. (case f q w of (r, w') \<Rightarrow> G w' = G w \<and>
        (case r of
           Inr (Proper l) \<Rightarrow> (case AdapterStateLease_post_init l of
              Inr l' \<Rightarrow> (case al_binding_key l' of
                 None \<Rightarrow> B w' = B w | Some b \<Rightarrow> b \<notin> B w \<and> B w' = insert b (B w))
            | Inl _ \<Rightarrow> B w' = B w)
         | Inr OtherObject \<Rightarrow> False
         | _ \<Rightarrow> B w' = B w))
      | _ \<Rightarrow> True) \<and>
     (case ad_release_replay_state ad of Callable f \<Rightarrow>
        \<forall>k w. (case f k w of (r, w') \<Rightarrow> r = Inr () \<and> G w' = G w \<and> B w' = B w - {k})
      | _ \<Rightarrow> True)"

definition honest_host :: "('w \<Rightarrow> key set) \<Rightarrow> ('w \<Rightarrow> key set) \<Rightarrow> 'w registry_host \<Rightarrow> bool" where
  "honest_host G B R \<longleftrightarrow> (\<forall>w.
     G (snd (rg_id_factory R w)) = G w \<and> B (snd (rg_id_factory R w)) = B w \<and>
     G (snd (rg_event_id_factory R w)) = G w \<and> B (snd (rg_event_id_factory R w)) = B w \<and>
     G (snd (rg_perf_counter R w)) = G w \<and> B (snd (rg_perf_counter R w)) = B w)"


section \<open>What the steps of a capture hold\<close>

definition holds :: "('w \<Rightarrow> key set) \<Rightarrow> ('w \<Rightarrow> key set) \<Rightarrow> key set \<Rightarrow> key set \<Rightarrow> ('w, 'o) sys \<Rightarrow> bool" where
  "holds G B g b s \<longleftrightarrow> G (sy_world s) = g \<and> B (sy_world s) = b"

lemma holds_bump [simp]: "holds G B g b (bump f s) = holds G B g b s"
  by (simp add: holds_def)

lemma holds_world [simp]: "holds G B g b (s\<lparr>sy_world := w\<rparr>) \<longleftrightarrow> G w = g \<and> B w = b"
  by (simp add: holds_def)

lemma same_store_world [simp]: "same_store s (s\<lparr>sy_world := w\<rparr>)"
  by (simp add: same_store_def)

lemma wp_world_call_cases:
  assumes "case f (sy_world s) of (r, w) \<Rightarrow> P r w"
    and "\<And>x w. P (Inr x) w \<Longrightarrow> Q x (s\<lparr>sy_world := w\<rparr>)" "\<And>x w. P (Inl x) w \<Longrightarrow> E x (s\<lparr>sy_world := w\<rparr>)"
  shows "wp (world_call f) Q E s"
  using assms by (cases "f (sy_world s)") (auto simp: wp_world_call_eq split: sum.splits)

lemma wp_world_keeps:
  assumes "holds G B g b s" "\<And>w. G (snd (f w)) = G w \<and> B (snd (f w)) = B w"
    and "\<And>x t. holds G B g b t \<Longrightarrow> same_store s t \<Longrightarrow> Q x t" "\<And>x t. holds G B g b t \<Longrightarrow> same_store s t \<Longrightarrow> E x t"
  shows "wp (world_call f) Q E s"
proof (rule wp_world_call_cases[where P = "\<lambda>_ w. G w = g \<and> B w = b"])
  show "case f (sy_world s) of (r, w) \<Rightarrow> G w = g \<and> B w = b"
    using assms(1) assms(2)[of "sy_world s"] by (simp add: holds_def case_prod_beta)
qed (simp_all add: assms(3,4))

lemma wp_perf_counter_holds:
  assumes "honest_host G B R" "holds G B g b s" "\<And>x t. holds G B g b t \<Longrightarrow> same_store s t \<Longrightarrow> Q x t"
  shows "wp (perf_counter R) Q E s"
proof -
  have "G (snd (rg_perf_counter R (sy_world s))) = g" "B (snd (rg_perf_counter R (sy_world s))) = b"
    using assms(1,2) by (auto simp: honest_host_def holds_def)
  then show ?thesis
    by (auto simp: wp_def perf_counter_def world_call_def holds_def same_store_def split: prod.splits intro!: assms(3))
qed

lemma wp_add_elapsed_holds:
  assumes "honest_host G B R" "holds G B g b s" "f \<in> set MINUTE_FIELDS"
    and "\<And>t. holds G B g b t \<Longrightarrow> same_store s t \<Longrightarrow> Q () t"
  shows "wp (add_elapsed R f t0) Q E s"
  unfolding add_elapsed_def wp_bnd
  by (rule wp_perf_counter_holds[OF assms(1,2)])
    (auto simp: wp_def on_ledger_def add_seconds_def assms(3) holds_def same_store_def intro!: assms(4))

lemma wp_capture_agent_key_holds:
  assumes st: "honest_store G B st" and s: "holds G B g b s"
    and "\<And>k t. k \<notin> g \<Longrightarrow> holds G B (insert k g) b t \<Longrightarrow> same_store s t \<Longrightarrow> Q k t"
    and "\<And>x t. holds G B g b t \<Longrightarrow> same_store s t \<Longrightarrow> E x t"
  shows "wp (capture_agent_key st c) Q E s"
proof -
  let ?P = "\<lambda>r w'. B w' = b \<and> (case r of Inr (Some k) \<Rightarrow> k \<notin> g \<and> G w' = insert k g | _ \<Rightarrow> G w' = g)"
  have P: "case as_capture_agent_state st c (sy_world s) of (r, w') \<Rightarrow> ?P r w'"
    using st[unfolded honest_store_def, THEN conjunct1, THEN spec[of _ c], THEN spec[of _ "sy_world s"]]
      s[unfolded holds_def] by (simp only:)
  show ?thesis unfolding capture_agent_key_def wp_bnd
  proof (rule wp_world_call_cases[where f = "as_capture_agent_state st c" and s = s and P = ?P, OF P])
    fix x w assume "?P (Inr x) w"
    then show "wp (case x of None \<Rightarrow> raise (TypeError ''capture_agent_state must return an opaque state key'')
        | Some k \<Rightarrow> ret k) Q E (s\<lparr>sy_world := w\<rparr>)"
      by (cases x) (simp_all add: assms(3,4))
  qed (simp add: assms(4))
qed

text \<open>The bindings held after the adapter returned the object \<open>obj\<close>.\<close>

definition lease_keys :: "AdapterStateLease foreign \<Rightarrow> key set" where
  "lease_keys obj = (case obj of Proper l \<Rightarrow> set_option (al_binding_key l) | _ \<Rightarrow> {})"

lemma wp_capture_lease_holds:
  assumes ad: "honest_adapter G B ad" and s: "holds G B g b s"
    and "\<And>obj t. obj \<noteq> OtherObject \<Longrightarrow> lease_keys obj \<inter> b = {} \<Longrightarrow> holds G B g (lease_keys obj \<union> b) t \<Longrightarrow>
      same_store s t \<Longrightarrow> Q obj t"
    and "\<And>x t. holds G B g b t \<Longrightarrow> same_store s t \<Longrightarrow> E x t"
  shows "wp (call_class AdapterStateLease_post_init (ad_capture_replay_state ad) (\<lambda>f. f q)) Q E s"
proof (cases "ad_capture_replay_state ad")
  case (Callable f)
  obtain r w where rw: "f q (sy_world s) = (r, w)" by (cases "f q (sy_world s)")
  have hw: "G w = g \<and> (case r of
      Inr (Proper l) \<Rightarrow> (case AdapterStateLease_post_init l of
         Inr l' \<Rightarrow> (case al_binding_key l' of None \<Rightarrow> B w = b | Some k \<Rightarrow> k \<notin> b \<and> B w = insert k b)
       | Inl _ \<Rightarrow> B w = b)
    | Inr OtherObject \<Rightarrow> False
    | _ \<Rightarrow> B w = b)"
    using ad[unfolded honest_adapter_def Callable attr.case, THEN conjunct1, THEN spec[of _ q], THEN spec[of _ "sy_world s"]]
      s[unfolded holds_def] rw by (simp only: prod.case)
  have err: "E x (s\<lparr>sy_world := w\<rparr>)" if "B w = b" for x
    using hw that by (intro assms(4)) (simp_all add: holds_def same_store_def)
  have ok: "Q obj (s\<lparr>sy_world := w\<rparr>)" if "obj \<noteq> OtherObject" "lease_keys obj \<inter> b = {}" "B w = lease_keys obj \<union> b" for obj
    using hw that by (intro assms(3)) (simp_all add: holds_def same_store_def)
  show ?thesis
  proof (cases r)
    case (Inl x)
    with hw show ?thesis
      by (simp add: call_class_def call_method_def Callable wp_world_call_eq[where f = "f q", OF rw] err)
  next
    case (Inr obj)
    note run = call_class_def call_method_def Callable wp_world_call_eq[where f = "f q", OF rw] Inr
    show ?thesis
    proof (cases obj)
      case (Proper l)
      show ?thesis
      proof (cases "AdapterStateLease_post_init l")
        case (Inl x)
        with hw Inr Proper show ?thesis by (simp add: run err)
      next
        case (Inr l')
        have "Q (Proper l') (s\<lparr>sy_world := w\<rparr>)"
          using hw \<open>r = Inr obj\<close> Proper Inr
          by (intro ok) (auto simp: lease_keys_def split: option.splits)
        with Proper Inr show ?thesis by (simp add: run)
      qed
    next
      case NoneObject
      with hw Inr show ?thesis by (simp add: run ok lease_keys_def)
    next
      case OtherObject
      with hw Inr show ?thesis by simp
    qed
  qed
qed (use s in \<open>auto simp: call_class_def call_method_def intro!: assms(4)\<close>)


text \<open>Compensation gives back what was captured, and raises.\<close>

lemma wp_release_key_holds:
  assumes st: "honest_store G B st" and s: "holds G B g b s"
    and "\<And>t. holds G B (g - {k}) b t \<Longrightarrow> same_store s t \<Longrightarrow> Q () t"
  shows "wp (world_call (as_release_agent_state st k)) Q E s"
proof -
  have "case as_release_agent_state st k (sy_world s) of (r, w') \<Rightarrow> r = Inr () \<and> B w' = b \<and> G w' = g - {k}"
    using st[unfolded honest_store_def, THEN conjunct2, THEN spec[of _ k], THEN spec[of _ "sy_world s"]]
      s[unfolded holds_def] by (simp only:)
  then show ?thesis
    by (rule wp_world_call_cases) (simp_all add: assms(3))
qed

lemma wp_release_binding_holds:
  assumes ad: "honest_adapter G B ad" "replayable_episode_v2_mode ad = Inr (Some md)" and s: "holds G B g b s"
    and "\<And>t. holds G B g (b - {k}) t \<Longrightarrow> same_store s t \<Longrightarrow> Q () t"
  shows "wp (call_method (ad_release_replay_state ad) (\<lambda>f. f k)) Q E s"
proof -
  have "is_callable (ad_release_replay_state ad)"
    using ad(2) by (auto simp: replayable_episode_v2_mode_def protocol_mode_def split: if_splits)
  then obtain f where Callable: "ad_release_replay_state ad = Callable f" by (cases "ad_release_replay_state ad") auto
  have "case f k (sy_world s) of (r, w') \<Rightarrow> r = Inr () \<and> G w' = g \<and> B w' = b - {k}"
    using ad(1)[unfolded honest_adapter_def Callable attr.case, THEN conjunct2, THEN spec[of _ k], THEN spec[of _ "sy_world s"]]
      s[unfolded holds_def] by (simp only:)
  then show ?thesis unfolding call_method_def Callable attr.case
    by (rule wp_world_call_cases) (simp_all add: assms(4))
qed

lemma wp_compensate_holds:
  assumes h: "honest_store G B st" "honest_adapter G B ad" "replayable_episode_v2_mode ad = Inr (Some md)"
    and obj: "obj \<noteq> OtherObject" "lease_keys obj \<inter> b = {}" "set_option k \<inter> g = {}"
    and s: "holds G B (set_option k \<union> g) (lease_keys obj \<union> b) s"
    and err: "\<And>t. holds G B g b t \<Longrightarrow> same_store s t \<Longrightarrow> E x t"
  shows "wp (capture_compensate ad st rep obj k x) Q E s"
proof -
  define bk where "bk = (case obj of Proper l \<Rightarrow> al_binding_key l | _ \<Rightarrow> None)"
  have bk: "lease_keys obj = set_option bk" by (simp add: lease_keys_def bk_def split: foreign.splits)
  have read: "(case obj of Proper l \<Rightarrow> ret (al_binding_key l) | NoneObject \<Rightarrow> ret None
      | OtherObject \<Rightarrow> raise e) = ret bk" for e using obj(1) by (simp add: bk_def split: foreign.splits)
  have agent: "wp (case k of None \<Rightarrow> ret False
      | Some k' \<Rightarrow> bnd (attempt (world_call (as_release_agent_state st k'))) (\<lambda>r.
          case r of Inr _ \<Rightarrow> ret False
          | Inl _ \<Rightarrow> seq (metric ''orphaned_agent_state_count'') (ret True)))
      (\<lambda>f2. wp (when_do (f1 \<or> f2) (metric ''capture_compensation_failure_count'')) (\<lambda>_. E x) E) E t"
    if t: "holds G B (set_option k \<union> g) b t" "same_store s t" for t f1
  proof (cases k)
    case None
    with t show ?thesis by (auto simp: same_store_def intro!: err)
  next
    case (Some k')
    with obj(3) have del: "set_option k \<union> g - {k'} = g" by auto
    show ?thesis unfolding Some option.case wp_bnd wp_attempt sum.case wp_ret
    proof (rule wp_release_key_holds[where k = k', OF h(1) t(1), unfolded del])
      fix u assume "holds G B g b u" "same_store t u"
      with same_store_trans[OF t(2)] show "wp (when_do (f1 \<or> False) (metric ''capture_compensation_failure_count''))
        (\<lambda>_. E x) E u"
        by (auto simp: same_store_def intro!: err)
    qed
  qed
  have adapter: "wp (case bk of None \<Rightarrow> ret False
      | Some k' \<Rightarrow> bnd (attempt (call_method (ad_release_replay_state ad) (\<lambda>f. f k'))) (\<lambda>r.
          case r of Inr _ \<Rightarrow> ret False
          | Inl _ \<Rightarrow> seq (metric ''orphaned_adapter_binding_count'') (ret True)))
      (\<lambda>f1. wp (case k of None \<Rightarrow> ret False
        | Some k' \<Rightarrow> bnd (attempt (world_call (as_release_agent_state st k'))) (\<lambda>r.
          case r of Inr _ \<Rightarrow> ret False
          | Inl _ \<Rightarrow> seq (metric ''orphaned_agent_state_count'') (ret True)))
        (\<lambda>f2. wp (when_do (f1 \<or> f2) (metric ''capture_compensation_failure_count'')) (\<lambda>_. E x) E) E) E t"
    if t: "holds G B (set_option k \<union> g) (lease_keys obj \<union> b) t" "same_store s t" for t
  proof (cases bk)
    case None
    with t bk have "holds G B (set_option k \<union> g) b t" by simp
    with t(2) show ?thesis unfolding None option.case wp_ret by (intro agent)
  next
    case (Some k')
    with obj(2) bk have del: "lease_keys obj \<union> b - {k'} = b" by auto
    show ?thesis unfolding Some option.case wp_bnd wp_attempt sum.case wp_ret
      by (rule wp_release_binding_holds[where k = k', OF h(2,3) t(1), unfolded del]) (rule agent, auto intro: same_store_trans[OF t(2)])
  qed
  have "wp (when_do c (metric ''capture_compensation_count'')) (\<lambda>_. P) E t"
    if "\<And>t. holds G B (set_option k \<union> g) (lease_keys obj \<union> b) t \<Longrightarrow> same_store s t \<Longrightarrow> P t"
      "holds G B (set_option k \<union> g) (lease_keys obj \<union> b) t" "same_store s t" for c P t
    using that by (auto simp: same_store_def)
  note enter = this[OF adapter]
  show ?thesis unfolding capture_compensate_def read wp_bnd wp_seq wp_ret wp_raise
      wp_metric[OF count_field_known(3)] wp_when_do[of "rep \<noteq> None"] wp_metric[OF count_field_known(10)]
    by (cases "rep \<noteq> None") (use s in \<open>auto simp: same_store_def simp del: wp_when_do intro!: enter\<close>)
qed


section \<open>The whole capture\<close>

text \<open>What a capture that returned \<open>p\<close> holds in addition: the two keys of its entry.\<close>

definition holds_entry :: "('w \<Rightarrow> key set) \<Rightarrow> ('w \<Rightarrow> key set) \<Rightarrow> key set \<Rightarrow> key set \<Rightarrow> ReplayPoint \<Rightarrow> ('w, 'o) sys \<Rightarrow> bool" where
  "holds_entry G B g b p t \<longleftrightarrow> (\<exists>e. dict_get (sy_entries t) (rp_replay_point_id p) = Some e \<and>
     rb_agent_state_key e \<notin> g \<and> set_option (rb_adapter_binding_key e) \<inter> b = {} \<and>
     holds G B (insert (rb_agent_state_key e) g) (set_option (rb_adapter_binding_key e) \<union> b) t)"

lemma wp_capture_protected_holds:
  fixes s :: "('w, 'o) sys"
  assumes h: "honest_store G B st" "honest_adapter G B ad" "replayable_episode_v2_mode ad = Inr (Some md)"
    and s: "holds G B g b s"
  shows "wp (capture_protected a c ev p rep st ad) (holds_entry G B g b) (\<lambda>_. holds G B g b) s"
proof -
  let ?E = "\<lambda>_. holds G B g b"
  note comp = wp_compensate_holds[OF h, where E = ?E and g = g and b = b]
  have commit: "wp (capture_commit a c ev p rep rd st ad k l) (holds_entry G B g b)
      (\<lambda>e. wp (capture_compensate ad st rep (Proper l) (Some k) e) (holds_entry G B g b) ?E) t"
    if "holds G B (insert k g) (lease_keys (Proper l) \<union> b) t" "lease_keys (Proper l) \<inter> b = {}" "k \<notin> g" for rd k l t
  proof (rule wp_capture_commit)
    fix u :: "('w, 'o) sys" and x assume "sy_world u = sy_world t"
    then show "wp (capture_compensate ad st rep (Proper l) (Some k) x) (holds_entry G B g b) ?E u"
      using that by (intro comp) (simp_all add: holds_def)
  next
    fix u :: "('w, 'o) sys" and ev' l' q
    assume "q = capture_point c (te_event_id ev') p l rep" "sy_world u = sy_world t"
      "sy_entries u = dict_set p (new_entry l k st ad q) (sy_entries t)"
    then show "holds_entry G B g b q u"
      using that by (simp add: holds_entry_def holds_def capture_point_def new_entry_def lease_keys_def)
  qed
  have inst: "wp (require_instance m obj)
      (\<lambda>l. wp (capture_commit a c ev p rep rd st ad k l) (holds_entry G B g b)
        (\<lambda>e. wp (capture_compensate ad st rep obj (Some k) e) (holds_entry G B g b) ?E))
      (\<lambda>e. wp (capture_compensate ad st rep obj (Some k) e) (holds_entry G B g b) ?E) t"
    if "obj \<noteq> OtherObject" "lease_keys obj \<inter> b = {}" "holds G B (insert k g) (lease_keys obj \<union> b) t" "k \<notin> g"
    for m obj rd k t
    using that by (cases obj) (auto simp: wp_require_instance intro!: comp commit)
  have lease: "wp (call_class AdapterStateLease_post_init (ad_capture_replay_state ad) (\<lambda>f. f q))
      (\<lambda>obj. wp (require_instance m obj)
        (\<lambda>l. wp (capture_commit a c ev p rep rd st ad k l) (holds_entry G B g b)
          (\<lambda>e. wp (capture_compensate ad st rep obj (Some k) e) (holds_entry G B g b) ?E))
        (\<lambda>e. wp (capture_compensate ad st rep obj (Some k) e) (holds_entry G B g b) ?E))
      (\<lambda>e. wp (capture_compensate ad st rep NoneObject (Some k) e) (holds_entry G B g b) ?E) t"
    if "holds G B (insert k g) b t" "k \<notin> g" for q m rd k t
    using that by (intro wp_capture_lease_holds[OF h(2) that(1)] inst comp) (auto simp: lease_keys_def)
  have none: "wp (capture_compensate ad st rep NoneObject None e) (holds_entry G B g b) ?E t"
    if "holds G B g b t" for e t using that by (intro comp) (simp_all add: lease_keys_def)
  have check: "wp (check_replaced rep c) Q E s" if "\<And>x. Q x s" "\<And>x. E x s" for Q E
    using that by (auto simp: check_replaced_def Let_def split: option.splits)
  show ?thesis unfolding capture_protected_def
    apply simp
    apply (rule check)
     apply (rule wp_capture_agent_key_holds[OF h(1) s])
      apply (rule lease; assumption)
     apply (rule none, assumption)
    apply (rule none[OF s])
    done
qed


lemma wp_capture_finally_holds:
  assumes host: "honest_host G B R" and prov: "honest_store G B st" "honest_adapter G B ad"
    and md: "replayable_episode_v2_mode ad = Inr (Some md)" and t: "holds G B g b t"
  shows "wp (finally_do (capture_protected a c ev p r st ad) (add_elapsed R ''capture_minutes'' t0))
    (holds_entry G B g b) (\<lambda>_. holds G B g b) t"
proof -
  have keep: "wp (add_elapsed R ''capture_minutes'' t0) (\<lambda>_. holds_entry G B g b x) (\<lambda>_. holds G B g b) u"
    if u: "holds_entry G B g b x u" for x u
  proof -
    from u obtain e where "dict_get (sy_entries u) (rp_replay_point_id x) = Some e"
      "rb_agent_state_key e \<notin> g" "set_option (rb_adapter_binding_key e) \<inter> b = {}"
      "holds G B (insert (rb_agent_state_key e) g) (set_option (rb_adapter_binding_key e) \<union> b) u"
      unfolding holds_entry_def by blast
    then show ?thesis
      by (intro wp_add_elapsed_holds[OF host]) (auto simp: holds_entry_def same_store_def)
  qed
  show ?thesis unfolding wp_finally_do
  proof (rule wp_mono[OF wp_capture_protected_holds[OF prov md t]])
    fix x u assume "holds G B g b u"
    then show "wp (add_elapsed R ''capture_minutes'' t0) (\<lambda>_. holds G B g b) (\<lambda>_. holds G B g b) u"
      by (rule wp_add_elapsed_holds[OF host]) simp_all
  qed (rule keep)
qed

text \<open>C2: no failed capture leaks.  With honest providers, a capture that raises, at whatever
  point it does, leaves the held agent states and adapter bindings as they were, and a capture
  that returns holds in addition exactly the agent-state key and the adapter binding recorded
  in the new entry.\<close>

theorem capture_no_leak:
  assumes "honest_host G B R" and "honest_store G B st" and "honest_adapter G B ad"
  shows "case capture_at_head R a ac st ad rep s of
     (Inl _, t) \<Rightarrow> G (sy_world t) = G (sy_world s) \<and> B (sy_world t) = B (sy_world s)
   | (Inr p, t) \<Rightarrow> holds_entry G B (G (sy_world s)) (B (sy_world s)) p t"
proof -
  let ?g = "G (sy_world s)" and ?b = "B (sy_world s)"
  note R = assms(1)[unfolded honest_host_def, rule_format]
  have "wp (capture_at_head R a ac st ad rep) (holds_entry G B ?g ?b) (\<lambda>_. holds G B ?g ?b) s"
  proof (cases "replayable_episode_v2_mode ad")
    case (Inl x)
    then show ?thesis by (simp add: capture_at_head_def holds_def)
  next
    case (Inr mode)
    show ?thesis
    proof (cases mode)
      case None
      with Inr show ?thesis by (simp add: capture_at_head_def holds_def)
    next
      case (Some md)
      note ids = wp_world_keeps[where f = "rg_id_factory R"] wp_world_keeps[where f = "rg_event_id_factory R"]
      show ?thesis unfolding capture_at_head_def Inr Some
        apply (simp del: wp_finally_do)
        apply (rule wp_perf_counter_holds[OF assms(1), where g = ?g and b = ?b], simp add: holds_def)
        apply (rule ids(1)[where g = ?g and b = ?b]; (simp add: R)?)
        apply (simp split: sum.split del: wp_finally_do, intro allI impI)
        apply (rule ids(2)[where g = ?g and b = ?b]; (simp add: R)?)
        apply (simp split: sum.split del: wp_finally_do, intro allI impI conjI)
        apply (auto simp del: wp_finally_do intro!: wp_capture_finally_holds[OF assms Inr[unfolded Some]] split: sum.splits)
        done
    qed
  qed
  then show ?thesis by (auto simp: wp_def holds_def split: prod.splits sum.splits)
qed


definition sample_agents :: "sample_world \<Rightarrow> key set" where
  "sample_agents w = set (fst w)"

definition sample_bindings :: "sample_world \<Rightarrow> key set" where
  "sample_bindings w = set (snd w)"

lemma fresh_key_fresh: "fresh_key ks \<notin> set ks"
proof -
  have "fold max xs m \<ge> m \<and> (\<forall>k \<in> set xs. k \<le> fold max xs m)" for xs and m :: nat
  proof (induction xs arbitrary: m)
    case (Cons x xs)
    from Cons.IH[of "max x m"] show ?case by auto
  qed simp
  from this[where xs = ks and m = 0] show ?thesis unfolding fresh_key_def by (metis Suc_n_not_le_n)
qed

lemma sample_honest:
  "honest_host sample_agents sample_bindings sample_host"
  "honest_store sample_agents sample_bindings sample_store"
  "honest_adapter sample_agents sample_bindings sample_adapter"
  by (auto simp: honest_host_def honest_store_def honest_adapter_def sample_host_def sample_store_def
      sample_adapter_def sample_agents_def sample_bindings_def fresh_key_fresh
      AdapterStateLease_post_init_def optional_text_def ropt_def require_nonempty_text_def strip_def is_space_def split: sum.splits option.splits)

theorem capture_no_leak_witness:
  "holds_entry sample_agents sample_bindings {} {} sample_point sample_captured"
proof -
  have "capture_at_head sample_host 0 sample_cursor sample_store sample_adapter None sample_sys = (Inr sample_point, sample_captured)"
    using sample_capture by (simp add: sample_captured_def prod_eq_iff)
  with capture_no_leak[OF sample_honest, where a = 0 and ac = sample_cursor and rep = None and s = sample_sys] show ?thesis
    by (simp add: sample_sys_def sample_agents_def sample_bindings_def)
qed

section \<open>An adapter that returns an object of another class\<close>

text \<open>C11: when the adapter returns an object that is no lease, the check for the class raises
  \<open>TypeError\<close>, but the handler reads \<open>binding_key\<close> of that object before it releases anything:
  the capture ends in \<open>AttributeError\<close>, no compensation is counted, and the captured agent state
  is never released (the world is the one the adapter returned).\<close>

theorem foreign_lease_skips_compensation:
  assumes "as_capture_agent_state st c (sy_world s) = (Inr (Some k), w1)"
    and "ad_capture_replay_state ad = Callable f"
    and "f \<lparr>cr_replay_point_id = p, cr_cursor = c\<rparr> w1 = (Inr OtherObject, w2)"
  shows "\<exists>t. capture_protected a c ev p None st ad s =
      (Inl (AttributeError ''object has no attribute binding_key''), t) \<and>
     sy_world t = w2 \<and> cnt t ''capture_compensation_count'' = cnt s ''capture_compensation_count'' \<and>
     cnt t ''capture_failure_count'' = cnt s ''capture_failure_count'' + 1"
proof -
  let ?Q = "\<lambda>e t. e = AttributeError ''object has no attribute binding_key'' \<and> sy_world t = w2 \<and>
    cnt t ''capture_compensation_count'' = cnt s ''capture_compensation_count'' \<and>
     cnt t ''capture_failure_count'' = cnt s ''capture_failure_count'' + 1"
  have agent: "wp (world_call (as_capture_agent_state st c)) Q E s = Q (Some k) (s\<lparr>sy_world := w1\<rparr>)" for Q E
    by (simp add: wp_world_call_eq[where f = "as_capture_agent_state st c", OF assms(1)])
  have lease: "wp (world_call (f \<lparr>cr_replay_point_id = p, cr_cursor = c\<rparr>)) Q E (s\<lparr>sy_world := w1\<rparr>)
      = Q OtherObject (s\<lparr>sy_world := w2\<rparr>)" for Q E
    using assms(3) by (subst wp_world_call_eq[where r = "Inr OtherObject" and w = w2]) simp_all
  have "wp (capture_protected a c ev p None st ad) (\<lambda>_ _. False) ?Q s"
    unfolding capture_protected_def check_replaced_def capture_agent_key_def
    by (simp add: agent lease call_class_def call_method_def assms(2) wp_require_instance capture_compensate_def)
  then show ?thesis by (auto elim: wp_cases)
qed

definition other_object_adapter :: "(sample_world, nat) replay_adapter" where
  "other_object_adapter = sample_adapter\<lparr>ad_capture_replay_state := Callable (\<lambda>q w. (Inr OtherObject, w))\<rparr>"

theorem foreign_lease_skips_compensation_witness:
  "\<exists>t. capture_protected 0 (rp_cursor sample_point) ''e2'' ''p'' None sample_store other_object_adapter sample_sys =
      (Inl (AttributeError ''object has no attribute binding_key''), t) \<and> sy_world t = ([1], [])"
proof -
  have "as_capture_agent_state sample_store (rp_cursor sample_point) (sy_world sample_sys) = (Inr (Some 1), ([1], []))"
    by (simp add: sample_store_def sample_sys_def fresh_key_def)
  from foreign_lease_skips_compensation[OF this, where ad = other_object_adapter and f = "\<lambda>q w. (Inr OtherObject, w)"
      and p = "''p''" and ?w2.0 = "([1], [])" and a = 0 and ev = "''e2''"]
  show ?thesis by (auto simp: other_object_adapter_def)
qed

end
