(* ===== verification/Registry_Runs.thy ===== *)
theory Registry_Runs
  imports Registry_Properties
begin

text \<open>
  Restore-and-run: what a result of \<open>run_from\<close> says about the point it started from, which
  points are refused, when a point is quarantined, and that every attempt a registry operation
  counts is also counted as ended.
\<close>

section \<open>Conservation of the counters\<close>

text \<open>A family is a counter of attempts with the counters of their outcomes.  A callback may
  itself run registry operations, so conservation is that no operation changes the number of
  attempts without an outcome, in any family.\<close>

definition families :: "(string \<times> string list) list" where
  "families =
    [(''replay_attempt_count'', [''replay_success_count'', ''replay_failure_count'']),
     (''restore_attempt_count'', [''restore_success_count'', ''restore_failure_count'']),
     (''restore_success_count'', [''prefix_reuse_verified_count'', ''prefix_reconstruction_count'',
        ''prefix_reuse_unknown_count'']),
     (''equivalence_attempt_count'', [''equivalence_verified_count'', ''equivalence_unverified_count'',
        ''equivalence_failure_count'']),
     (''suffix_attempt_count'', [''suffix_success_count'', ''suffix_failure_count'']),
     (''suffix_finalization_attempt_count'', [''suffix_finalization_success_count'',
        ''suffix_finalization_failure_count'']),
     (''release_attempt_count'', [''release_success_count'', ''release_failure_count'']),
     (''child_group_attempt_count'', [''child_group_success_count'', ''child_group_settled_count'',
        ''child_group_failure_count'']),
     (''child_session_fork_attempt_count'', [''child_session_fork_success_count'',
        ''child_session_fork_failure_count'']),
     (''child_session_release_attempt_count'', [''child_session_release_success_count'',
        ''child_session_release_failure_count''])]"

definition open_attempts :: "(string \<Rightarrow> int) \<Rightarrow> string \<times> string list \<Rightarrow> int" where
  "open_attempts c fam = c (fst fam) - sum_list (map c (snd fam))"

definition conserves :: "(('w, 'o) sys, 'a) act \<Rightarrow> bool" where
  "conserves m \<longleftrightarrow> (\<forall>s fam. fam \<in> set families \<longrightarrow>
     open_attempts (ml_counts (sy_ledger (snd (m s)))) fam = open_attempts (ml_counts (sy_ledger s)) fam)"

text \<open>What one count adds to a family.\<close>

definition tick :: "string \<Rightarrow> string \<times> string list \<Rightarrow> int" where
  "tick f fam = (if fst fam = f then 1 else 0) - int (count_list (snd fam) f)"

lemma open_attempts_bump [simp]:
  "open_attempts (ml_counts (sy_ledger (bump f s))) fam = open_attempts (ml_counts (sy_ledger s)) fam + tick f fam"
proof -
  have "sum_list (map (ml_counts (sy_ledger (bump f s))) os) = sum_list (map (ml_counts (sy_ledger s)) os) + int (count_list os f)" for os
    by (induction os) auto
  then show ?thesis by (simp add: open_attempts_def tick_def)
qed

text \<open>\<open>off v s\<close>: in every family \<open>s\<close> has \<open>v\<close> attempts without an outcome.\<close>

definition off :: "(string \<times> string list \<Rightarrow> int) \<Rightarrow> ('w, 'o) sys \<Rightarrow> bool" where
  "off v s \<longleftrightarrow> (\<forall>fam \<in> set families. open_attempts (ml_counts (sy_ledger s)) fam = v fam)"

lemma conserves_off: "conserves m \<longleftrightarrow> (\<forall>v. keeps (off v) m)"
proof
  assume *: "\<forall>v. keeps (off v) m"
  have "off (open_attempts (ml_counts (sy_ledger s))) (snd (m s))" for s
    using *[rule_format, of "open_attempts (ml_counts (sy_ledger s))"] by (simp add: keeps_def off_def)
  then show "conserves m" by (simp add: conserves_def off_def)
qed (auto simp: conserves_def keeps_def off_def)

lemma off_counts: "off v s \<Longrightarrow> ml_counts (sy_ledger t) = ml_counts (sy_ledger s) \<Longrightarrow> off v t"
  by (simp add: off_def)

interpretation balance: quiet_invariant "off v"
  by unfold_locales (auto simp: quiet_def intro: off_counts)

definition plus_tick :: "(string \<times> string list \<Rightarrow> int) \<Rightarrow> string \<Rightarrow> string \<times> string list \<Rightarrow> int" where
  "plus_tick v f = (\<lambda>fam. v fam + tick f fam)"

lemma off_bump: "off v s \<Longrightarrow> off (plus_tick v f) (bump f s)"
  by (simp add: off_def plus_tick_def)

lemma off_cong: "off v s \<Longrightarrow> (\<And>fam. fam \<in> set families \<Longrightarrow> v fam = v' fam) \<Longrightarrow> off v' s"
  by (simp add: off_def)

text \<open>The ticks of the outcomes of one attempt cancel its own.\<close>

definition outcomes_of :: "string \<Rightarrow> string list \<Rightarrow> bool" where
  "outcomes_of a os \<longleftrightarrow> (\<forall>f \<in> set os. \<forall>fam \<in> set families. tick a fam + tick f fam = 0)"

lemma outcomes:
  "outcomes_of ''replay_attempt_count'' [''replay_success_count'', ''replay_failure_count'']"
  "outcomes_of ''restore_attempt_count'' [''restore_failure_count'']"
  "outcomes_of ''equivalence_attempt_count'' [''equivalence_verified_count'', ''equivalence_unverified_count'', ''equivalence_failure_count'']"
  "outcomes_of ''suffix_attempt_count'' [''suffix_success_count'', ''suffix_failure_count'']"
  "outcomes_of ''suffix_finalization_attempt_count'' [''suffix_finalization_success_count'', ''suffix_finalization_failure_count'']"
  "outcomes_of ''release_attempt_count'' [''release_success_count'', ''release_failure_count'']"
  "outcomes_of ''child_group_attempt_count'' [''child_group_success_count'', ''child_group_settled_count'', ''child_group_failure_count'']"
  "outcomes_of ''child_session_fork_attempt_count'' [''child_session_fork_success_count'', ''child_session_fork_failure_count'']"
  "outcomes_of ''child_session_release_attempt_count'' [''child_session_release_success_count'', ''child_session_release_failure_count'']"
  by code_simp+

lemma outcomes_prefix:
  "\<forall>fam \<in> set families. tick ''restore_attempt_count'' fam + (tick ''restore_success_count'' fam + tick (prefix_metric r) fam) = 0"
  by (cases r; simp add: prefix_metric_def split: bool.splits; code_simp)

lemma off_ended: "outcomes_of a os \<Longrightarrow> f \<in> set os \<Longrightarrow> off (plus_tick v a) s \<Longrightarrow> off v (bump f s)"
  by (rule off_cong[OF off_bump]) (auto simp: plus_tick_def outcomes_of_def add.assoc)

text \<open>Counters outside every family.\<close>

definition uncounted :: "string list" where
  "uncounted = filter (\<lambda>f. list_all (\<lambda>fam. tick f fam = 0) families) COUNT_FIELDS"

lemma off_uncounted: "f \<in> set uncounted \<Longrightarrow> off v s \<Longrightarrow> off v (bump f s)"
  by (simp add: off_def uncounted_def list_all_iff)

lemma uncounted_known [simp]: "f \<in> set uncounted \<Longrightarrow> f \<in> set COUNT_FIELDS"
  by (simp add: uncounted_def)

lemma keeps_uncounted: "f \<in> set uncounted \<Longrightarrow> keeps (off v) (metric f)"
  by (simp add: keeps_wp off_uncounted)


lemma uncounted_eq: "uncounted =
    [''capture_attempt_count'',
     ''capture_success_count'',
     ''capture_failure_count'',
     ''capture_compensation_count'',
     ''capture_compensation_failure_count'',
     ''orphaned_adapter_binding_count'',
     ''orphaned_agent_state_count'',
     ''replacement_capture_attempt_count'',
     ''replacement_capture_success_count'',
     ''replacement_capture_failure_count'',
     ''replacement_projection_mismatch_count'',
     ''replay_point_selection_count'',
     ''replay_point_fidelity_fallback_count'',
     ''replay_point_fidelity_filtered_selection_count'',
     ''child_candidate_success_count'',
     ''child_candidate_failure_count'',
     ''child_parallel_group_count'',
     ''child_process_isolated_parallel_group_count'',
     ''child_parallel_downgrade_group_count'',
     ''child_serial_fallback_group_count'',
     ''child_intent_assessment_count'',
     ''child_intent_allowed_count'',
     ''child_intent_denied_count'',
     ''child_outcome_assessment_count'',
     ''child_outcome_allowed_count'',
     ''child_outcome_denied_count'',
     ''replay_point_quarantine_count'']"
  by code_simp

lemma uncounted_fields [simp]:
  "''capture_attempt_count'' \<in> set uncounted" "''capture_success_count'' \<in> set uncounted"
  "''capture_failure_count'' \<in> set uncounted" "''capture_compensation_count'' \<in> set uncounted"
  "''capture_compensation_failure_count'' \<in> set uncounted"
  "''orphaned_adapter_binding_count'' \<in> set uncounted" "''orphaned_agent_state_count'' \<in> set uncounted"
  "''replacement_capture_attempt_count'' \<in> set uncounted"
  "''replacement_capture_success_count'' \<in> set uncounted"
  "''replacement_capture_failure_count'' \<in> set uncounted"
  "''replacement_projection_mismatch_count'' \<in> set uncounted"
  "''replay_point_selection_count'' \<in> set uncounted"
  "''replay_point_fidelity_fallback_count'' \<in> set uncounted"
  "''replay_point_fidelity_filtered_selection_count'' \<in> set uncounted"
  "''child_candidate_success_count'' \<in> set uncounted" "''child_candidate_failure_count'' \<in> set uncounted"
  "''child_parallel_group_count'' \<in> set uncounted"
  "''child_process_isolated_parallel_group_count'' \<in> set uncounted"
  "''child_parallel_downgrade_group_count'' \<in> set uncounted"
  "''child_serial_fallback_group_count'' \<in> set uncounted"
  "''child_intent_assessment_count'' \<in> set uncounted" "''child_intent_allowed_count'' \<in> set uncounted"
  "''child_intent_denied_count'' \<in> set uncounted" "''child_outcome_assessment_count'' \<in> set uncounted"
  "''child_outcome_allowed_count'' \<in> set uncounted" "''child_outcome_denied_count'' \<in> set uncounted"
  "''replay_point_quarantine_count'' \<in> set uncounted"
  by (simp_all add: uncounted_eq)

section \<open>The phases conserve the counters\<close>

lemma keeps_off_update_entry: "keeps (off v) (update_entry i f)"
  unfolding keeps_wp by (auto simp: wp_update_entry split: option.splits intro: off_counts)

lemma keeps_off_quarantine: "keeps (off v) (quarantine i)"
  unfolding quarantine_def by (intro keeps_intros keeps_off_update_entry keeps_uncounted) simp

text \<open>The shape of every phase: an attempt is counted, the body runs, and its outcome is counted
  before whatever follows.\<close>

lemma keeps_off_attempt:
  fixes body :: "(('w, 'o) sys, 'b) act"
  assumes body: "\<And>w. keeps (off w) body"
    and fail: "\<And>x s. off (plus_tick v a) s \<Longrightarrow> wp (k (Inl x)) (\<lambda>_. off v) (\<lambda>_. off v) s"
    and good: "\<And>x s. off (plus_tick v a) s \<Longrightarrow> wp (k (Inr x)) (\<lambda>_. off v) (\<lambda>_. off v) s"
    and a: "a \<in> set COUNT_FIELDS"
  shows "keeps (off v) (seq (metric a) (bnd (attempt body) k))"
  unfolding keeps_wp
proof (intro allI impI)
  fix s :: "('w, 'o) sys" assume "off v s"
  with a keepsD[OF body off_bump[of v s a, OF this]]
  show "wp (seq (metric a) (bnd (attempt body) k)) (\<lambda>_. off v) (\<lambda>_. off v) s"
    by (auto elim!: wp_mono intro: fail good)
qed

lemma prefix_metric_known [simp]: "prefix_metric r \<in> set COUNT_FIELDS"
  by (simp add: prefix_metric_def split: option.splits bool.splits)

lemma off_restored:
  "off (plus_tick v ''restore_attempt_count'') s \<Longrightarrow>
     off v (bump (prefix_metric r) (bump ''restore_success_count'' s))"
  by (rule off_cong[OF off_bump[OF off_bump]])
    (auto simp: plus_tick_def add.assoc bspec[OF outcomes_prefix])

lemma keeps_off_restore_phase: "keeps (off v) (restore_phase R e k q)"
proof -
  have fin: "wp (bnd (elapsed_minutes R t0) (\<lambda>minutes. seq (add_elapsed R f t0)
      (bnd (of_res r) (\<lambda>receipt. ret (receipt, minutes))))) (\<lambda>_. off v) (\<lambda>_. off v) s" if "off v s" for t0 f s and r :: "'x res"
    by (rule keepsD[where I = "off v"]) (intro keeps_intros balance.keeps_quiet, rule that)
  show ?thesis unfolding restore_phase_def
    by (intro keeps_bnd balance.keeps_perf_counter keeps_off_attempt balance.keeps_restore_receipt)
      (auto simp del: wp_bnd simp: wp_bnd[of "metric _"] intro!: fin off_restored off_ended[OF outcomes(2)])
qed


lemma keeps_off_equivalence_phase: "keeps (off v) (equivalence_phase R e k rc m)"
proof -
  have fin: "wp (bnd (elapsed_minutes R t0) (\<lambda>minutes. seq (add_elapsed R f t0)
      (bnd (of_res r) (\<lambda>x. ret (x, minutes))))) (\<lambda>_. off v) (\<lambda>_. off v) s" if "off v s" for t0 f s and r :: "'x res"
    by (rule keepsD[where I = "off v"]) (intro keeps_intros balance.keeps_quiet, rule that)
  show ?thesis unfolding equivalence_phase_def
    by (intro keeps_bnd balance.keeps_perf_counter keeps_off_attempt balance.keeps_equivalence_report)
      (auto simp del: wp_bnd simp: wp_bnd[of "metric _"] split: prod.splits
        intro!: fin off_ended[OF outcomes(3)])
qed

lemma keeps_off_finalize_suffix: "keeps (off v) (finalize_suffix e k q b)"
  unfolding finalize_suffix_def
  by (cases "ad_finalize_replay_suffix (rb_adapter e)")
    (auto intro!: keeps_off_attempt balance.keeps_world_call keeps_ret off_ended[OF outcomes(5)])

lemma finalize_suffix_returns: "wp (finalize_suffix e k q b) (\<lambda>_ _. True) (\<lambda>_ _. False) s"
  unfolding finalize_suffix_def
  by (cases "ad_finalize_replay_suffix (rb_adapter e)") (auto intro!: wp_world_call)

lemma wp_finalize_suffix_off:
  assumes "off v s" "\<And>x t. off v t \<Longrightarrow> Q x t"
  shows "wp (finalize_suffix e k q b) Q E s"
  by (rule wp_mono[OF wp_conj[OF finalize_suffix_returns keepsD[OF keeps_off_finalize_suffix assms(1)]]])
    (auto intro: assms(2))

lemma keeps_off_suffix_phase:
  assumes "\<And>w. keeps (off w) (execute rs)"
  shows "keeps (off v) (suffix_phase R e k q rs execute)"
proof -
  have fin: "wp (bnd (elapsed_minutes R t0) (\<lambda>minutes. seq (add_elapsed R ''suffix_minutes'' t0) (rest minutes)))
      (\<lambda>_. off v) (\<lambda>_. off v) s"
    if "off (plus_tick v ''suffix_attempt_count'') s"
      and "\<And>m s. off (plus_tick v ''suffix_attempt_count'') s \<Longrightarrow> wp (rest m) (\<lambda>_. off v) (\<lambda>_. off v) s"
    for t0 s and rest :: "pyfloat \<Rightarrow> (('a, 'b) sys, 'b \<times> pyfloat) act"
    by (auto intro!: wp_elapsed_minutes wp_add_elapsed that(2) balance.quiet_keeps[OF balance.quiet_keeps[OF that(1)]])
  have quar: "wp (quarantine i) (\<lambda>_. off v) (\<lambda>_. off v) (bump ''suffix_failure_count'' s)"
    if "off (plus_tick v ''suffix_attempt_count'') s" for i s
    by (rule keepsD[OF keeps_off_quarantine]) (rule off_ended[OF outcomes(4) _ that], simp)
  have ended: "off v (bump f s)" if "off (plus_tick v ''suffix_attempt_count'') s"
    "f = ''suffix_failure_count'' \<or> f = ''suffix_success_count''" for f s
    by (rule off_ended[OF outcomes(4) _ that(1)]) (use that(2) in auto)
  show ?thesis unfolding suffix_phase_def
    apply (intro keeps_bnd balance.keeps_perf_counter keeps_off_attempt assms)
      apply (subst wp_bnd, rule wp_finalize_suffix_off, assumption)
      apply (rule fin, assumption, simp add: quar ended)
     apply (subst wp_bnd, rule wp_finalize_suffix_off, assumption)
     apply (rule fin, assumption, simp add: quar ended split: option.split)
    apply simp
    done
qed


lemma wp_run_locked_off:
  assumes ex: "\<And>w rs. keeps (off w) (execute rs)" and s: "off v s"
  shows "wp (run_locked R t0 q execute) (\<lambda>_. off (plus_tick v ''replay_success_count'')) (\<lambda>_. off v) s"
  unfolding run_locked_def Let_def wp_bnd wp_seq case_prod_beta
  apply (rule wp_mono[OF keepsD[OF balance.keeps_lookup_restorable s]])
   apply (rule wp_mono[OF keepsD[OF balance.keeps_recheck_ready]], assumption)
    apply (rule wp_mono[OF keepsD[OF keeps_off_restore_phase]], assumption)
     apply (rule wp_mono[OF keepsD[OF keeps_off_equivalence_phase]], assumption)
      apply (rule wp_mono[OF keepsD[OF balance.keeps_observe_fidelity]], assumption)
       apply (rule wp_mono[OF keepsD[OF balance.keeps_world_call]], assumption)
        apply (rule wp_mono[OF keepsD[OF keeps_off_suffix_phase[OF ex]]], assumption)
         apply (rule wp_mono[OF keepsD[OF balance.keeps_elapsed_minutes]], assumption)
          apply (auto intro: off_bump)
  done

text \<open>The shape of \<open>run_from\<close> and \<open>release\<close>: the attempt is counted, the body counts its success,
  the handler its failure.\<close>

lemma wp_operation_off:
  assumes body: "\<And>w s. off w s \<Longrightarrow> wp body (\<lambda>_. off (plus_tick w good)) (\<lambda>_. off w) s"
    and os: "outcomes_of a [good, bad]" "bad \<in> set COUNT_FIELDS" and s: "off v s"
  shows "wp (finally_do (on_error body (\<lambda>_. metric bad)) (add_elapsed R f t0)) (\<lambda>_. off v) (\<lambda>_. off v) (bump a s)"
proof -
  have fin: "wp (add_elapsed R f t0) (\<lambda>_. off v) (\<lambda>_. off v) (bump bad u)" if "off (plus_tick v a) u" for u
    by (rule keepsD[OF balance.keeps_add_elapsed], rule off_ended[OF os(1) _ that]) simp
  have fin': "wp (add_elapsed R f t0) (\<lambda>_. off v) (\<lambda>_. off v) u"
    if "off (plus_tick (plus_tick v a) good) u" for u
    by (rule keepsD[OF balance.keeps_add_elapsed], rule off_cong[OF that])
      (use os(1) in \<open>simp add: plus_tick_def outcomes_of_def add.assoc\<close>)
  show ?thesis unfolding wp_finally_do wp_on_error
    by (rule wp_mono[OF body[OF off_bump[OF s]]]) (simp_all add: fin fin' os(2))
qed

lemma keeps_off_run_from:
  assumes "\<And>w rs. keeps (off w) (execute rs)"
  shows "keeps (off v) (run_from R i b m execute)"
  unfolding keeps_wp run_from_def
  by (auto simp del: wp_finally_do split: sum.splits intro: balance.quiet_keeps
      intro!: wp_perf_counter wp_operation_off[OF wp_run_locked_off[OF assms] outcomes(1)])

lemma keeps_off_release: "keeps (off v) (release R i)"
proof -
  have sides: "keeps (off w) (release_adapter_side i)" "keeps (off w) (release_agent_side i)" for w
    unfolding release_adapter_side_def release_agent_side_def
    by (auto intro!: keeps_intros balance.keeps_quiet keeps_off_update_entry split: option.splits sum.splits)
  have "wp (release_body i) (\<lambda>_. off (plus_tick v ''release_success_count'')) (\<lambda>_. off v) s" if s: "off v s" for v s
    unfolding release_body_def wp_bnd wp_seq
    apply (rule wp_mono[OF keepsD[OF balance.keeps_get_entry s]])
     apply (auto simp: off_bump split del: if_split)
    apply (split if_split, intro conjI impI)
     apply (simp add: off_bump)
    apply simp
    apply (rule wp_mono[OF keepsD[OF keeps_off_update_entry]], assumption)
     apply (rule wp_mono[OF keepsD[OF sides(1)]], assumption)
      apply (rule wp_mono[OF keepsD[OF sides(2)]], assumption)
       apply (rule wp_mono[OF keepsD[OF keeps_off_update_entry]], assumption)
        apply (rule wp_mono[OF keepsD[OF balance.keeps_get_entry]], assumption)
         apply (auto split: option.splits intro: off_bump)
    done
  note body = this
  show ?thesis unfolding keeps_wp release_def
    by (auto simp del: wp_finally_do intro: balance.quiet_keeps
        intro!: wp_perf_counter wp_operation_off[OF body outcomes(6)])
qed


lemma keeps_off_capture_at_head: "keeps (off v) (capture_at_head R a ac st ad rep)"
proof -
  have comp: "keeps (off v) (capture_compensate ad st r l k x :: (('a, 'b) sys, ReplayPoint) act)" for r l k x
    unfolding capture_compensate_def
    by (intro keeps_intros keeps_uncounted)
      (auto split: foreign.splits option.splits sum.splits
        intro!: keeps_intros keeps_uncounted balance.keeps_quiet)
  have commit: "keeps (off v) (capture_commit a c ev p r rd st ad k l)" for c ev p r rd k l
    unfolding capture_commit_def Let_def
    by (intro keeps_intros keeps_uncounted)
      (auto split: option.splits intro!: keeps_intros keeps_uncounted simp: keeps_wp intro: off_counts off_uncounted)
  have prot: "keeps (off v) (capture_protected a c ev p r st ad)" for c ev p r
    unfolding capture_protected_def
    by (intro keeps_intros balance.keeps_check_replaced)
      (auto split: sum.splits intro!: keeps_intros comp commit balance.keeps_capture_agent_key balance.keeps_quiet)
  show ?thesis unfolding capture_at_head_def
    by (intro keeps_intros balance.keeps_quiet keeps_uncounted prot) simp_all
qed

lemma keeps_off_select_before: "keeps (off v) (select_before t b n m)"
  unfolding select_before_def Let_def
  by (intro keeps_intros) (auto split: list.splits intro!: keeps_intros keeps_uncounted)




section \<open>The equivalence contract\<close>

text \<open>The conditions of the contract on a report, given the point and the receipt.\<close>

definition contract_met :: "ReplayPoint \<Rightarrow> RestoreReceipt \<Rightarrow> EquivalenceReport \<Rightarrow> bool" where
  "contract_met point receipt report \<longleftrightarrow>
     er_achieved_fidelity report = rc_achieved_fidelity receipt \<and>
     (rc_restored_projection_digest receipt = None \<or> er_observed_digest report = None \<or>
        rc_restored_projection_digest receipt = er_observed_digest report) \<and>
     (rp_captured_projection_digest point = None \<or>
        er_expected_digest report = rp_captured_projection_digest point) \<and>
     (er_equivalent report \<longrightarrow> (\<forall>c \<in> set (er_checks report). ec_passed c)) \<and>
     (er_achieved_fidelity report = EXACT \<longrightarrow>
        er_expected_digest report \<noteq> None \<and> er_observed_digest report = er_expected_digest report) \<and>
     (er_achieved_fidelity report = SEMANTIC_EQUIVALENT \<longrightarrow> er_checks report \<noteq> []) \<and>
     (fidelity_meets (er_achieved_fidelity report) SEMANTIC_EQUIVALENT \<longrightarrow> er_equivalent report)"

lemma validate_equivalence_contract_Inr:
  "validate_equivalence_contract p rc r m = Inr b \<longleftrightarrow>
     contract_met p rc r \<and>
     b = (er_equivalent r \<and> fidelity_meets (er_achieved_fidelity r) SEMANTIC_EQUIVALENT \<and>
          fidelity_meets (er_achieved_fidelity r) m)"
proof -
  have exact: "\<not> (f = EXACT \<and> (x = None \<or> y = None \<or> x \<noteq> y)) \<longleftrightarrow> (f = EXACT \<longrightarrow> x \<noteq> None \<and> y = x)"
    for f and x y :: "string option" by auto
  have checks: "\<not> (q \<and> (\<exists>c \<in> C. \<not> ec_passed c)) \<longleftrightarrow> (q \<longrightarrow> (\<forall>c \<in> C. ec_passed c))" for q and C :: "EquivalenceCheck set"
    by auto
  show ?thesis
    unfolding validate_equivalence_contract_def Let_def rbind_Inr check_Inr contract_met_def list_ex_iff
    by (simp only: sum.inject simp_thms exact checks)
      (simp only: de_Morgan_conj not_not imp_conv_disj conj_assoc eq_commute[of b])
qed

text \<open>The equivalence contract accepts exactly the reports that agree with the receipt and
  the captured point, pass every declared check when they claim equivalence, show equal digests
  for an exact replay and a check for a semantic one, and claim equivalence whenever they claim
  a trusted fidelity; an accepted report is eligible for promotion exactly when its fidelity is
  trusted and reaches the requested minimum.\<close>

theorem equivalence_contract_spec:
  "validate_equivalence_contract p rc r m = Inr b \<longleftrightarrow> contract_met p rc r \<and>
     b = (fidelity_meets (er_achieved_fidelity r) SEMANTIC_EQUIVALENT \<and> fidelity_meets (er_achieved_fidelity r) m)"
  by (auto simp: validate_equivalence_contract_Inr contract_met_def)

theorem equivalence_contract_spec_witness:
  "validate_equivalence_contract sample_point sample_receipt sample_report EXACT = Inr True \<and>
     contract_met sample_point sample_receipt sample_report"
proof -
  have "validate_equivalence_contract sample_point sample_receipt sample_report EXACT = Inr True" by code_simp
  with equivalence_contract_spec show ?thesis by blast
qed

section \<open>Results of a replay\<close>

lemma wp_restore_receipt:
  assumes "\<And>rc t. quiet s t \<Longrightarrow> rc_achieved_fidelity rc \<noteq> NON_REPLAYABLE \<Longrightarrow>
      fidelity_meets (rp_fidelity (rb_point e)) (rc_achieved_fidelity rc) \<Longrightarrow> Q rc t"
    and "\<And>x t. quiet s t \<Longrightarrow> E x t"
  shows "wp (restore_receipt e k q) Q E s"
  unfolding restore_receipt_def wp_bnd
  by (rule wp_call_class) (auto simp: wp_require_instance intro: assms)

lemma wp_restore_phase:
  assumes "\<And>rc m t. same_store s t \<Longrightarrow> rc_achieved_fidelity rc \<noteq> NON_REPLAYABLE \<Longrightarrow>
      fidelity_meets (rp_fidelity (rb_point e)) (rc_achieved_fidelity rc) \<Longrightarrow> Q (rc, m) t"
    and "\<And>x t. same_store s t \<Longrightarrow> E x t"
  shows "wp (restore_phase R e k q) Q E s"
proof -
  have fin: "wp (bnd (elapsed_minutes R t0) (\<lambda>minutes. seq (add_elapsed R ''restore_minutes'' t0)
      (bnd (of_res r) (\<lambda>rc. ret (rc, minutes))))) Q E u"
    if "same_store s u" "\<And>rc m t. r = Inr rc \<Longrightarrow> same_store s t \<Longrightarrow> Q (rc, m) t" for r t0 u
    using that by (auto intro!: wp_elapsed_minutes wp_add_elapsed assms(2) split: sum.splits
        simp: quiet_def same_store_def)
  show ?thesis unfolding restore_phase_def wp_bnd[of "perf_counter R"]
    apply (rule wp_perf_counter)
    apply (simp del: wp_bnd add: wp_bnd[of "attempt _"] wp_bnd[of "metric _"])
    apply (rule wp_restore_receipt)
     apply (rule fin; auto simp: same_store_def quiet_def intro!: assms)
    apply (rule fin; simp add: same_store_def quiet_def)
    done
qed

lemma wp_equivalence_phase:
  assumes "\<And>r b m' t. same_store s t \<Longrightarrow> validate_equivalence_contract (rb_point e) rc r m = Inr b \<Longrightarrow>
      Q ((r, b), m') t"
    and "\<And>x t. same_store s t \<Longrightarrow> E x t"
  shows "wp (equivalence_phase R e k rc m) Q E s"
proof -
  have fin: "wp (bnd (elapsed_minutes R t0) (\<lambda>minutes. seq (add_elapsed R ''equivalence_minutes'' t0)
      (bnd (of_res r) (\<lambda>x. ret (x, minutes))))) Q E u"
    if "same_store s u" "\<And>x m t. r = Inr x \<Longrightarrow> same_store s t \<Longrightarrow> Q (x, m) t" for r t0 u
    using that by (auto intro!: wp_elapsed_minutes wp_add_elapsed assms(2) split: sum.splits
        simp: quiet_def same_store_def)
  have rep: "wp (equivalence_report e k rc m) Q' E' u"
    if "\<And>r b t. quiet u t \<Longrightarrow> validate_equivalence_contract (rb_point e) rc r m = Inr b \<Longrightarrow> Q' (r, b) t"
      "\<And>x t. quiet u t \<Longrightarrow> E' x t" for Q' E' u
    unfolding equivalence_report_def wp_bnd
    by (rule wp_call_class) (auto simp: wp_require_instance intro: that split: sum.splits)
  show ?thesis unfolding equivalence_phase_def wp_bnd[of "perf_counter R"]
    apply (rule wp_perf_counter)
    apply (simp del: wp_bnd add: wp_bnd[of "attempt _"] wp_bnd[of "metric _"])
    apply (rule rep)
     apply (simp del: wp_bnd, intro conjI impI; rule fin; auto simp: same_store_def quiet_def intro!: assms)
    apply (rule fin; simp add: same_store_def quiet_def)
    done
qed


text \<open>What a returned result says of the point in the state the replay started from.\<close>

definition replay_result_of :: "('w, 'o) sys \<Rightarrow> string \<Rightarrow> string \<Rightarrow> ReplayFidelity \<Rightarrow> ReplayRestoreResult \<Rightarrow> bool" where
  "replay_result_of s i b m rs \<longleftrightarrow> (\<exists>e. dict_get (sy_entries s) i = Some e \<and>
     rp_lifecycle (rb_point e) = READY \<and> rp_fidelity (rb_point e) \<noteq> NON_REPLAYABLE \<and>
     rb_adapter_binding_key e \<noteq> None \<and>
     rs_replay_point_id rs = i \<and> rs_target_branch_id rs = strip b \<and> strip b \<noteq> [] \<and>
     rs_achieved_fidelity rs \<noteq> NON_REPLAYABLE \<and>
     fidelity_meets (rp_fidelity (rb_point e)) (rs_achieved_fidelity rs) \<and>
     (\<exists>rc. contract_met (rb_point e) rc (rs_report rs) \<and> rs_prefix_reused rs = rc_prefix_reused rc) \<and>
     rs_achieved_fidelity rs = er_achieved_fidelity (rs_report rs) \<and>
     rs_equivalent rs = er_equivalent (rs_report rs) \<and>
     rs_promotion_eligible rs = (fidelity_meets (rs_achieved_fidelity rs) SEMANTIC_EQUIVALENT \<and>
        fidelity_meets (rs_achieved_fidelity rs) m))"

lemma wp_run_locked_result:
  assumes "same_store s u" "strip b = b'" "b' \<noteq> []"
  shows "wp (run_locked R t0 \<lparr>rr_replay_point_id = i, rr_target_branch_id = b', rr_minimum_fidelity = m\<rparr> execute)
     (\<lambda>x _. replay_result_of s i b m (fst x)) (\<lambda>_ _. True) u"
proof -
  have res: "replay_result_of s i b m \<lparr>rs_replay_point_id = i, rs_target_branch_id = b',
        rs_achieved_fidelity = er_achieved_fidelity rep,
        rs_equivalent = er_equivalent rep, rs_promotion_eligible = ok, rs_prefix_reused = rc_prefix_reused rc,
        rs_report = rep, rs_restore_minutes = m1, rs_equivalence_minutes = m2, rs_suffix_minutes = m3,
        rs_replay_wall_minutes = m4\<rparr>"
    if "dict_get (sy_entries u) i = Some e" "rp_lifecycle (rb_point e) = READY"
      "rp_fidelity (rb_point e) \<noteq> NON_REPLAYABLE" "rb_adapter_binding_key e = Some k"
      "rc_achieved_fidelity rc \<noteq> NON_REPLAYABLE"
      "fidelity_meets (rp_fidelity (rb_point e)) (rc_achieved_fidelity rc)"
      "validate_equivalence_contract (rb_point e) rc rep m = Inr ok"
    for e k rc rep ok m1 m2 m3 m4
  proof -
    have c: "contract_met (rb_point e) rc rep" "ok = (er_equivalent rep \<and>
        fidelity_meets (er_achieved_fidelity rep) SEMANTIC_EQUIVALENT \<and> fidelity_meets (er_achieved_fidelity rep) m)"
      using that(7) by (simp_all add: validate_equivalence_contract_Inr)
    have a: "er_achieved_fidelity rep = rc_achieved_fidelity rc"
      "fidelity_meets (er_achieved_fidelity rep) SEMANTIC_EQUIVALENT \<longrightarrow> er_equivalent rep"
      using c(1) by (auto simp: contract_met_def)
    show ?thesis unfolding replay_result_of_def
      by (rule exI[of _ e]) (use that assms c a in \<open>auto simp: same_store_def\<close>)
  qed
  show ?thesis
    unfolding run_locked_def lookup_restorable_def recheck_ready_def
    by (auto simp: wp_get_entry wp_observe_fidelity same_store_def split: option.splits
        intro!: wp_restore_phase wp_equivalence_phase wp_observe_fidelity wp_world_call
          wp_any[where m = "suffix_phase R _ _ _ _ execute"] wp_any[where m = "elapsed_minutes R _"])
      (rule res, assumption+)
qed


lemma wp_run_from_result:
  "wp (run_from R i b m execute) (\<lambda>x _. replay_result_of s i b m (fst x)) (\<lambda>_ _. True) s"
proof (cases "strip b = []")
  case False
  show ?thesis
    unfolding run_from_def wp_bnd wp_of_res wp_seq require_nonempty_text_def Let_def if_not_P[OF False] sum.case
      wp_finally_do wp_on_error
    apply (rule wp_perf_counter, simp)
    apply (rule wp_mono[OF wp_run_locked_result[where s = s and b = b]])
        apply (simp_all add: False same_store_def quiet_def wp_any)
    done
qed (simp add: run_from_def require_nonempty_text_def)

text \<open>C3: a replay that returns was started from a ready, replayable point of the registry and
  reports on it truthfully: it names the point and the requested branch, the achieved fidelity
  is replayable and never stronger than the captured one, the report meets the equivalence
  contract against the captured point, and promotion is allowed exactly when the achieved
  fidelity is trusted and reaches the requested minimum.\<close>

theorem run_from_result:
  assumes "run_from R i b m execute s = (Inr (rs, out), t)"
  shows "replay_result_of s i b m rs"
  using wp_valueD[OF wp_run_from_result assms] by simp

lemma wp_world_call_value:
  assumes "fst (f (sy_world s)) = Inr x" "\<And>w. Q x (s\<lparr>sy_world := w\<rparr>)"
  shows "wp (world_call f) Q E s"
  using assms by (cases "f (sy_world s)") (simp add: wp_world_call_eq)

text \<open>Providers that let a replay of entry \<open>e\<close> through: the restore and the validation return
  objects that construct, with a receipt no stronger than the capture and a report that meets
  the contract; the agent state restores, and the finalizer, if there is one, returns.\<close>

definition replays_to ::
  "('w, 'o) RuntimeReplayBinding \<Rightarrow> key \<Rightarrow> RestoreReplayStateRequest \<Rightarrow> RestoreReceipt \<Rightarrow> EquivalenceReport \<Rightarrow> bool" where
  "replays_to e k q rc rep \<longleftrightarrow>
     (\<exists>f rc0. ad_restore_replay_state (rb_adapter e) = Callable f \<and>
        (\<forall>w. fst (f k q w) = Inr (Proper rc0)) \<and> RestoreReceipt_post_init rc0 = Inr rc) \<and>
     rc_achieved_fidelity rc \<noteq> NON_REPLAYABLE \<and>
     fidelity_meets (rp_fidelity (rb_point e)) (rc_achieved_fidelity rc) \<and>
     (\<exists>f rep0. ad_validate_replay_equivalence (rb_adapter e) = Callable f \<and>
        (\<forall>w. fst (f k rc w) = Inr (Proper rep0)) \<and> EquivalenceReport_post_init rep0 = Inr rep) \<and>
     contract_met (rb_point e) rc rep \<and>
     (\<forall>w. fst (as_restore_agent_state (rb_agent_state_store e) (rb_agent_state_key e) w) = Inr ()) \<and>
     (\<forall>f. ad_finalize_replay_suffix (rb_adapter e) = Callable f \<longrightarrow> (\<forall>b w. fst (f k q b w) = Inr ()))"

lemma wp_restore_phase_value:
  assumes "replays_to e k q rc rep" "\<And>m t. same_store s t \<Longrightarrow> Q (rc, m) t"
  shows "wp (restore_phase R e k q) Q E s"
proof -
  obtain f rc0 where f: "ad_restore_replay_state (rb_adapter e) = Callable f"
    "\<And>w. fst (f k q w) = Inr (Proper rc0)" "RestoreReceipt_post_init rc0 = Inr rc"
    "rc_achieved_fidelity rc \<noteq> NON_REPLAYABLE"
    "fidelity_meets (rp_fidelity (rb_point e)) (rc_achieved_fidelity rc)"
    using assms(1) unfolding replays_to_def by blast
  have "wp (restore_receipt e k q) Q' E' u" if "\<And>w. Q' rc (u\<lparr>sy_world := w\<rparr>)" for Q' E' and u :: "('a, 'b) sys"
    unfolding restore_receipt_def call_class_def call_method_def f(1)
    by (auto simp: f wp_require_instance intro!: wp_world_call_value[where f = "f k q", OF f(2)] that)
  note receipt = this
  show ?thesis unfolding restore_phase_def
    by (auto intro!: wp_perf_counter receipt wp_elapsed_minutes wp_add_elapsed assms(2) simp: same_store_def quiet_def)
qed

lemma wp_equivalence_phase_value:
  assumes "replays_to e k q rc rep"
    and "\<And>b m' t. same_store s t \<Longrightarrow> Q ((rep, b), m') t"
  shows "wp (equivalence_phase R e k rc m) Q E s"
proof -
  obtain f rep0 where f: "ad_validate_replay_equivalence (rb_adapter e) = Callable f"
    "\<And>w. fst (f k rc w) = Inr (Proper rep0)" "EquivalenceReport_post_init rep0 = Inr rep"
    "contract_met (rb_point e) rc rep"
    using assms(1) unfolding replays_to_def by blast
  then obtain b where b: "validate_equivalence_contract (rb_point e) rc rep m = Inr b"
    by (simp add: validate_equivalence_contract_Inr)
  have "wp (equivalence_report e k rc m) Q' E' u" if "\<And>w. Q' (rep, b) (u\<lparr>sy_world := w\<rparr>)" for Q' E' and u :: "('a, 'b) sys"
    unfolding equivalence_report_def call_class_def call_method_def f(1)
    by (auto simp: f b wp_require_instance intro!: wp_world_call_value[where f = "f k rc", OF f(2)] that)
  note report = this
  show ?thesis unfolding equivalence_phase_def
    by (auto intro!: wp_perf_counter report wp_elapsed_minutes wp_add_elapsed assms(2) simp: same_store_def quiet_def)
qed

lemma wp_suffix_phase_value:
  assumes "replays_to e k q rc rep" and J: "J (sy_traces s)"
    and exec: "\<And>s. J (sy_traces s) \<Longrightarrow> wp (execute rs) (\<lambda>out t. P out \<and> J (sy_traces t)) (\<lambda>_ _. False) s"
    and Q: "\<And>out m t. P out \<Longrightarrow> J (sy_traces t) \<Longrightarrow> Q (out, m) t"
  shows "wp (suffix_phase R e k q rs execute) Q E s"
proof -
  have ex: "wp (execute rs) Q' E' u" if "\<And>out t. P out \<Longrightarrow> J (sy_traces t) \<Longrightarrow> Q' out t" "J (sy_traces u)" for Q' E' u
    by (rule wp_mono[OF exec[OF that(2)]]) (auto intro: that(1))
  have fin: "wp (finalize_suffix e k q b) Q' E' u" if "\<And>t. J (sy_traces t) \<Longrightarrow> Q' None t" "J (sy_traces u)" for b Q' E' u
  proof (cases "ad_finalize_replay_suffix (rb_adapter e)")
    case (Callable f)
    then have "fst (f k q b w) = Inr ()" for w using assms(1) unfolding replays_to_def by blast
    then show ?thesis unfolding finalize_suffix_def Callable
      by (auto intro!: wp_world_call_value[where f = "f k q b"] that)
  qed (simp_all add: finalize_suffix_def that)
  show ?thesis unfolding suffix_phase_def
    by (auto intro!: wp_perf_counter ex fin wp_elapsed_minutes wp_add_elapsed Q simp: quiet_def J)
qed

lemma run_from_returns_lemma:
  assumes e: "dict_get (sy_entries s) i = Some e" "rp_lifecycle (rb_point e) = READY"
      "rb_adapter_binding_key e = Some k" "rp_fidelity (rb_point e) \<noteq> NON_REPLAYABLE" and b: "strip b \<noteq> []"
    and p: "replays_to e k \<lparr>rr_replay_point_id = i, rr_target_branch_id = strip b, rr_minimum_fidelity = m\<rparr> rc rep"
    and J: "J (sy_traces s)"
    and ex: "\<And>rs s. J (sy_traces s) \<Longrightarrow> wp (execute rs) (\<lambda>out t. P out \<and> J (sy_traces t)) (\<lambda>_ _. False) s"
  shows "\<exists>rs out t. run_from R i b m execute s = (Inr (rs, out), t) \<and> rs_report rs = rep \<and> P out \<and> J (sy_traces t)"
proof -
  have restore: "wp (world_call (as_restore_agent_state (rb_agent_state_store e) (rb_agent_state_key e))) Q E u"
    if "\<And>t. sy_traces t = sy_traces u \<Longrightarrow> Q () t" for Q E and u :: "('a, 'b) sys"
    using p that unfolding replays_to_def by (intro wp_world_call_value) auto
  have "wp (run_from R i b m execute) (\<lambda>x t. rs_report (fst x) = rep \<and> P (snd x) \<and> J (sy_traces t)) (\<lambda>_ _. False) s"
    unfolding run_from_def run_locked_def lookup_restorable_def recheck_ready_def require_nonempty_text_def
    by (auto simp: b e wp_get_entry quiet_def same_store_def J
        intro!: wp_perf_counter wp_restore_phase_value[OF p] wp_equivalence_phase_value[OF p] wp_observe_fidelity
          restore wp_suffix_phase_value[where J = J and P = P, OF p] wp_elapsed_minutes wp_add_elapsed ex)
  then show ?thesis by (auto elim!: wp_cases)
qed

lemma returning_wp: "\<forall>rs s. \<exists>out t. execute rs s = (Inr out, t) \<Longrightarrow> wp (execute rs) (\<lambda>_ _. True) (\<lambda>_ _. False) s"
  by (auto simp: wp_def split: prod.splits sum.splits) (metis Inl_Inr_False fst_conv)

lemma sample_replays:
  "replays_to sample_entry 1 \<lparr>rr_replay_point_id = ''p'', rr_target_branch_id = strip ''b1'', rr_minimum_fidelity = EXACT\<rparr>
     sample_receipt sample_report"
proof -
  have "RestoreReceipt_post_init sample_receipt = Inr sample_receipt"
    "EquivalenceReport_post_init sample_report = Inr sample_report"
    "contract_met (rb_point sample_entry) sample_receipt sample_report"
    "fidelity_meets (rp_fidelity (rb_point sample_entry)) (rc_achieved_fidelity sample_receipt)"
    "rc_achieved_fidelity sample_receipt \<noteq> NON_REPLAYABLE" by code_simp+
  moreover have "ad_restore_replay_state (rb_adapter sample_entry) = Callable (\<lambda>k q w. (Inr (Proper sample_receipt), w))"
    "ad_validate_replay_equivalence (rb_adapter sample_entry) = Callable (\<lambda>k rc w. (Inr (Proper sample_report), w))"
    "ad_finalize_replay_suffix (rb_adapter sample_entry) = Absent"
    "as_restore_agent_state (rb_agent_state_store sample_entry) = (\<lambda>k w. (Inr (), w))"
    by (simp_all add: sample_entry_def sample_adapter_def sample_store_def)
  ultimately show ?thesis unfolding replays_to_def by simp
qed

lemma sample_entry_facts: "rp_lifecycle (rb_point sample_entry) = READY" "rb_adapter_binding_key sample_entry = Some 1"
  "rp_fidelity (rb_point sample_entry) \<noteq> NON_REPLAYABLE" "strip ''b1'' \<noteq> []"
  by (simp_all add: sample_entry_def sample_point_def strip_def is_space_def)

theorem run_from_result_witness:
  "\<exists>rs out t. run_from sample_host ''p'' ''b1'' EXACT (\<lambda>rs. ret (7 :: nat)) sample_ready = (Inr (rs, out), t) \<and>
     replay_result_of sample_ready ''p'' ''b1'' EXACT rs"
proof -
  obtain rs out t where r: "run_from sample_host ''p'' ''b1'' EXACT (\<lambda>rs. ret (7 :: nat)) sample_ready = (Inr (rs, out), t)"
    using run_from_returns_lemma[OF sample_ready_entry sample_entry_facts sample_replays,
        of "\<lambda>_. True" "\<lambda>rs. ret (7 :: nat)" "\<lambda>_. True" sample_host] by auto
  with run_from_result[OF r] show ?thesis by blast
qed

text \<open>C4: a replay does return: from a ready, replayable point, when the providers keep the
  contract and the callback returns, \<open>run_from\<close> returns, with the adapter's own report.\<close>

theorem run_from_returns:
  assumes "dict_get (sy_entries s) i = Some e" and "rp_lifecycle (rb_point e) = READY"
    and "rb_adapter_binding_key e = Some k" and "rp_fidelity (rb_point e) \<noteq> NON_REPLAYABLE" and "strip b \<noteq> []"
    and "replays_to e k \<lparr>rr_replay_point_id = i, rr_target_branch_id = strip b, rr_minimum_fidelity = m\<rparr> rc rep"
    and "\<forall>rs s. \<exists>out t. execute rs s = (Inr out, t)"
  shows "\<exists>rs out t. run_from R i b m execute s = (Inr (rs, out), t) \<and> rs_report rs = rep"
  using run_from_returns_lemma[OF assms(1-6), of "\<lambda>_. True" execute "\<lambda>_. True" R]
    returning_wp[OF assms(7)] by auto

theorem run_from_returns_witness:
  "\<exists>rs out t. run_from sample_host ''p'' ''b1'' EXACT (\<lambda>rs. ret (7 :: nat)) sample_ready = (Inr (rs, out), t) \<and>
     rs_report rs = sample_report"
  using run_from_returns[OF sample_ready_entry sample_entry_facts sample_replays, of "\<lambda>rs. ret (7 :: nat)" sample_host]
  by (auto simp: ret_def)

text \<open>A point that is unknown, not ready, not replayable or without an adapter binding is
  refused before any provider is asked to restore: the replay counts as one failed attempt, no
  restore is attempted, and entries and logs stay as they were.\<close>

theorem run_from_refuses:
  assumes "strip b \<noteq> []"
    and "\<forall>e. dict_get (sy_entries s) i = Some e \<longrightarrow> rp_lifecycle (rb_point e) \<noteq> READY \<or>
       rp_fidelity (rb_point e) = NON_REPLAYABLE \<or> rb_adapter_binding_key e = None"
  shows "\<exists>x t. run_from R i b m execute s = (Inl x, t) \<and> same_store s t \<and>
     cnt t ''replay_attempt_count'' = cnt s ''replay_attempt_count'' + 1 \<and>
     cnt t ''replay_failure_count'' = cnt s ''replay_failure_count'' + 1 \<and>
     cnt t ''restore_attempt_count'' = cnt s ''restore_attempt_count'' \<and>
     (\<exists>msg. x = KeyError msg \<or> x = RuntimeError msg)"
proof -
  have "wp (run_from R i b m execute) (\<lambda>_ _. False) (\<lambda>x t. same_store s t \<and>
     cnt t ''replay_attempt_count'' = cnt s ''replay_attempt_count'' + 1 \<and>
     cnt t ''replay_failure_count'' = cnt s ''replay_failure_count'' + 1 \<and>
     cnt t ''restore_attempt_count'' = cnt s ''restore_attempt_count'' \<and>
     (\<exists>msg. x = KeyError msg \<or> x = RuntimeError msg)) s"
    unfolding run_from_def run_locked_def lookup_restorable_def wp_bnd wp_of_res wp_seq
    using assms
    by (auto simp: require_nonempty_text_def wp_get_entry same_store_def quiet_def split: option.splits
        intro!: wp_perf_counter wp_add_elapsed)
  then show ?thesis by (auto elim: wp_cases)
qed


theorem run_from_refuses_witness:
  "\<exists>x t. run_from sample_host ''unknown'' ''b1'' EXACT (\<lambda>rs. ret (7 :: nat)) sample_ready = (Inl x, t) \<and> same_store sample_ready t"
  using run_from_refuses[of "''b1''" sample_ready "''unknown''" sample_host EXACT "\<lambda>rs. ret (7 :: nat)"] sample_entry_facts(4)
  by (auto simp: sample_ready_def)

section \<open>Quarantine\<close>

text \<open>A failing suffix finalizer quarantines the point.  However the suffix itself ended, the
  phase raises (the suffix's own exception if it raised one) and the point is marked failed, so
  that no later replay starts from it.\<close>

theorem finalizer_failure_quarantines:
  assumes "ad_finalize_replay_suffix (rb_adapter e) = Callable f" and "\<forall>b w. isl (fst (f k q b w))"
    and "\<forall>u. dict_get (sy_entries (snd (execute rs u))) (rr_replay_point_id q) \<noteq> None"
  shows "\<exists>x t e'. suffix_phase R e k q rs execute s = (Inl x, t) \<and>
     dict_get (sy_entries t) (rr_replay_point_id q) = Some e' \<and> rp_lifecycle (rb_point e') = FAILED"
proof -
  let ?i = "rr_replay_point_id q"
  let ?P = "\<lambda>t. dict_get (sy_entries t) ?i \<noteq> None"
  have ex: "wp (execute rs) (\<lambda>_. ?P) (\<lambda>_. ?P) u" for u
    using assms(3)[rule_format, of u] by (auto simp: wp_def split: prod.splits sum.splits)
  have fin: "wp (finalize_suffix e k q b) Q E u" if "?P u" "\<And>x t. ?P t \<Longrightarrow> Q (Some x) t" for b Q E u
  proof -
    obtain x w where "f k q b (sy_world u) = (Inl x, w)" using assms(2) by (metis isl_def prod.collapse)
    then show ?thesis using that unfolding finalize_suffix_def assms(1)
      by (simp add: wp_world_call_eq[where f = "f k q b"])
  qed
  have quar: "wp (quarantine ?i) (\<lambda>_ t. \<exists>e'. dict_get (sy_entries t) ?i = Some e' \<and> rp_lifecycle (rb_point e') = FAILED) E u"
    if "?P u" for E u using that by (auto simp: quarantine_def wp_update_entry set_lifecycle_def)
  have "wp (suffix_phase R e k q rs execute) (\<lambda>_ _. False)
     (\<lambda>_ t. \<exists>e'. dict_get (sy_entries t) ?i = Some e' \<and> rp_lifecycle (rb_point e') = FAILED) s"
    unfolding suffix_phase_def wp_bnd wp_seq wp_attempt
    apply (rule wp_perf_counter, simp)
    apply (rule wp_mono[OF ex])
     apply (rule fin, assumption, rule wp_elapsed_minutes, rule wp_add_elapsed, simp, simp,
        rule quar, simp add: quiet_def)+
    done
  then show ?thesis by (auto elim!: wp_cases)
qed

definition sample_restore :: ReplayRestoreResult where
  "sample_restore = \<lparr>rs_replay_point_id = ''p'', rs_target_branch_id = ''b1'', rs_achieved_fidelity = EXACT,
     rs_equivalent = True, rs_promotion_eligible = True, rs_prefix_reused = Some True, rs_report = sample_report,
     rs_restore_minutes = Fin 0, rs_equivalence_minutes = Fin 0, rs_suffix_minutes = Fin 0,
     rs_replay_wall_minutes = Fin 0\<rparr>"

definition failing_finalizer :: "key \<Rightarrow> RestoreReplayStateRequest \<Rightarrow> bool \<Rightarrow> sample_world \<Rightarrow> unit res \<times> sample_world" where
  "failing_finalizer k q b w = (Inl (ForeignError ''FinalizeError''), w)"

theorem finalizer_failure_quarantines_witness:
  "\<exists>x t e'. suffix_phase sample_host
       (sample_entry\<lparr>rb_adapter := sample_adapter\<lparr>ad_finalize_replay_suffix := Callable failing_finalizer\<rparr>\<rparr>) 1
       \<lparr>rr_replay_point_id = ''p'', rr_target_branch_id = ''b1'', rr_minimum_fidelity = EXACT\<rparr>
       sample_restore (\<lambda>rs s. (Inr 7, sample_ready)) sample_ready = (Inl x, t) \<and>
     dict_get (sy_entries t) ''p'' = Some e' \<and> rp_lifecycle (rb_point e') = FAILED"
  using finalizer_failure_quarantines[where q = "\<lparr>rr_replay_point_id = ''p'', rr_target_branch_id = ''b1'', rr_minimum_fidelity = EXACT\<rparr>"
      and e = "sample_entry\<lparr>rb_adapter := sample_adapter\<lparr>ad_finalize_replay_suffix := Callable failing_finalizer\<rparr>\<rparr>"
      and execute = "\<lambda>rs s. (Inr 7, sample_ready)" and s = sample_ready and R = sample_host and k = 1 and f = failing_finalizer and rs = sample_restore]
  by (simp add: failing_finalizer_def sample_ready_entry)

end
