(* ===== verification/Child_Replay.thy ===== *)
theory Child_Replay
  imports Registry_Runs
begin

text \<open>
  \<open>src/loopx/capabilities/explore/child_replay_runtime.py\<close>: suffixes of one replay point run on
  isolated child sessions, or serially when the adapter cannot isolate them.

  A session is the dictionary the source keeps per child.  The threads of the pool are modelled
  by interleaving: a session advances in steps (intent assessment, agent restore, execution,
  outcome assessment, cleanup, settlement), and the order of the steps of different sessions is
  given by a schedule, a list of session indices; what the schedule leaves undone is run at its
  end, because leaving the pool waits for every thread.  The flags \<open>cleanup_failed\<close> and
  \<open>unsafe_outcome\<close> and the list \<open>prepared\<close> are shared by the threads and part of the state.
\<close>

section \<open>Sessions\<close>

datatype child_stage = Intent | Restore | Execute | Assess | Settle | Finish | Finished

datatype 'o child_outcome =
    ChildResult "'o ReplayChildExecutionResult"
  | ChildFailure ReplayChildExecutionFailure

record ('w, 'o) session =
  cs_task :: "(('w, 'o) sys, 'o) ReplayChildTask"
  cs_lease :: ReplayChildLease
  cs_agent_key :: "key option"
  cs_released :: bool
  cs_restore_minutes :: pyfloat
  cs_context :: "ReplayChildExecutionContext option"
  cs_cleanup_attempted :: bool
  cs_cleanup_error :: "exn option"
  cs_stage :: child_stage
  cs_suffix_started :: pyfloat
  cs_suffix_minutes :: pyfloat
  cs_execution_error :: "exn option"
  cs_outcome :: "'o option"
  cs_intent_assessment :: "ReplayRiskAssessment option"
  cs_outcome_assessment :: "ReplayRiskAssessment option"
  cs_result :: "'o child_outcome res option"

record ('w, 'o) grp =
  gr_sys :: "('w, 'o) sys"
  gr_prepared :: "('w, 'o) session list"
  gr_cleanup_failed :: bool
  gr_unsafe_outcome :: bool

definition on_sys :: "(('w, 'o) sys, 'a) act \<Rightarrow> (('w, 'o) grp, 'a) act" where
  "on_sys m = (\<lambda>g. case m (gr_sys g) of (r, s) \<Rightarrow> (r, g\<lparr>gr_sys := s\<rparr>))"

abbreviation get_session :: "nat \<Rightarrow> (('w, 'o) grp, ('w, 'o) session) act" where
  "get_session j \<equiv> gets (\<lambda>g. gr_prepared g ! j)"

definition upd_session :: "nat \<Rightarrow> (('w, 'o) session \<Rightarrow> ('w, 'o) session) \<Rightarrow> (('w, 'o) grp, unit) act" where
  "upd_session j f = modify (\<lambda>g. g\<lparr>gr_prepared := (gr_prepared g)[j := f (gr_prepared g ! j)]\<rparr>)"

section \<open>Cleanup\<close>

definition first_of :: "'a res \<Rightarrow> 'b res \<Rightarrow> exn option" where
  "first_of r1 r2 = (case r1 of Inl x \<Rightarrow> Some x | Inr _ \<Rightarrow> (case r2 of Inl x \<Rightarrow> Some x | Inr _ \<Rightarrow> None))"

definition cleanup :: "('w, 'o) RuntimeReplayBinding \<Rightarrow> nat \<Rightarrow> (('w, 'o) grp, exn option) act" where
  "cleanup e j = bnd (get_session j) (\<lambda>se.
     if cs_cleanup_attempted se then ret (cs_cleanup_error se) else
     seq (upd_session j (\<lambda>x. x\<lparr>cs_cleanup_attempted := True\<rparr>))
     (if cs_released se then ret None else
      seq (on_sys (metric ''child_session_release_attempt_count''))
     (bnd (on_sys (attempt (call_method (ad_release_replay_child (rb_adapter e))
             (\<lambda>f. f (cl_child_key (cs_lease se)))))) (\<lambda>r1.
      bnd (case cs_agent_key se of
             None \<Rightarrow> ret (Inr ())
           | Some k \<Rightarrow> on_sys (attempt (world_call (as_release_agent_state (rb_agent_state_store e) k)))) (\<lambda>r2.
      let first_error = first_of r1 r2 in
      seq (upd_session j (\<lambda>x. x\<lparr>cs_released := (first_error = None), cs_cleanup_error := first_error\<rparr>))
     (seq (if first_error = None then on_sys (metric ''child_session_release_success_count'')
           else seq (modify (\<lambda>g. g\<lparr>gr_cleanup_failed := True\<rparr>))
                    (on_sys (metric ''child_session_release_failure_count'')))
      (ret first_error)))))))"

section \<open>Preparation\<close>

definition new_session ::
  "(('w, 'o) sys, 'o) ReplayChildTask \<Rightarrow> ReplayChildLease \<Rightarrow> pyfloat \<Rightarrow> ('w, 'o) session" where
  "new_session task lease minutes = \<lparr>cs_task = task, cs_lease = lease, cs_agent_key = None,
     cs_released = False, cs_restore_minutes = minutes, cs_context = None, cs_cleanup_attempted = False,
     cs_cleanup_error = None, cs_stage = Intent, cs_suffix_started = Fin 0, cs_suffix_minutes = Fin 0,
     cs_execution_error = None, cs_outcome = None, cs_intent_assessment = None,
     cs_outcome_assessment = None, cs_result = None\<rparr>"

text \<open>The adapter's side of one fork: the session is in the list as soon as the lease is.\<close>

definition fork_child ::
  "'w registry_host \<Rightarrow> ('w, 'o) RuntimeReplayBinding \<Rightarrow> string \<Rightarrow> (('w, 'o) sys, 'o) ReplayChildTask \<Rightarrow>
   (('w, 'o) grp, ReplayChildLease) act" where
  "fork_child R e i task =
     bnd (on_sys (perf_counter R)) (\<lambda>fork_started.
     bnd (of_res (ForkReplayChildRequest_post_init
            \<lparr>fr_replay_point_id = i, fr_child_id = ct_child_id task,
             fr_target_branch_id = ct_target_branch_id task,
             fr_minimum_fidelity = ct_minimum_fidelity task\<rparr>)) (\<lambda>request.
     bnd (on_sys (call_class ReplayChildLease_post_init (ad_fork_replay_child (rb_adapter e))
            (\<lambda>f. f (the (rb_adapter_binding_key e)) request))) (\<lambda>obj.
     bnd (require_instance ''fork_replay_child must return a ReplayChildLease'' obj) (\<lambda>lease.
     bnd (gets gr_prepared) (\<lambda>prepared.
     if list_ex (\<lambda>x. cl_child_key (cs_lease x) = cl_child_key lease) prepared then
       raise (ValueError ''isolated replay child keys must be unique'')
     else
       bnd (on_sys (elapsed_minutes R fork_started)) (\<lambda>minutes.
       seq (modify (\<lambda>g. g\<lparr>gr_prepared := gr_prepared g @ [new_session task lease minutes]\<rparr>))
       (ret lease)))))))"

text \<open>The agent's side: the forked key is stored in the session just added.\<close>

definition fork_agent ::
  "('w, 'o) RuntimeReplayBinding \<Rightarrow> nat \<Rightarrow> (('w, 'o) sys, 'o) ReplayChildTask \<Rightarrow> (('w, 'o) grp, unit) act" where
  "fork_agent e j task =
     bnd (on_sys (call_method (as_fork_agent_state (rb_agent_state_store e))
            (\<lambda>f. f (rb_agent_state_key e) (ct_child_id task)))) (\<lambda>r. case r of
       None \<Rightarrow> raise (TypeError ''fork_agent_state must return an opaque child key'')
     | Some k \<Rightarrow> bnd (gets gr_prepared) (\<lambda>prepared.
         if list_ex (\<lambda>x. cs_agent_key x = Some k) (take j prepared) then
           raise (ValueError ''isolated agent child keys must be unique'')
         else upd_session j (\<lambda>x. x\<lparr>cs_agent_key := Some k\<rparr>)))"

definition validate_child ::
  "'w registry_host \<Rightarrow> ('w, 'o) RuntimeReplayBinding \<Rightarrow> string \<Rightarrow> nat \<Rightarrow>
   (('w, 'o) sys, 'o) ReplayChildTask \<Rightarrow> ReplayChildLease \<Rightarrow> (('w, 'o) grp, unit) act" where
  "validate_child R e i j task lease =
     (let receipt = cl_receipt lease in
      if rc_achieved_fidelity receipt = NON_REPLAYABLE then
        raise (RuntimeError ''isolated child reported non_replayable'')
      else if \<not> fidelity_meets (rp_fidelity (rb_point e)) (rc_achieved_fidelity receipt) then
        raise (ValueError ''child restore achieved fidelity stronger than the captured ReplayPoint'')
      else
      bnd (on_sys (perf_counter R)) (\<lambda>started.
      bnd (on_sys (call_class EquivalenceReport_post_init (ad_validate_replay_child_equivalence (rb_adapter e))
             (\<lambda>f. f (cl_child_key lease) receipt))) (\<lambda>obj.
      bnd (require_instance ''validate_replay_child_equivalence must return an EquivalenceReport'' obj) (\<lambda>report.
      bnd (of_res (validate_equivalence_contract (rb_point e) receipt report (ct_minimum_fidelity task))) (\<lambda>eligible.
      bnd (on_sys (elapsed_minutes R started)) (\<lambda>minutes.
      seq (on_sys (on_ledger (observe_fidelity (ReplayFidelity_value (er_achieved_fidelity report)))))
      (upd_session j (\<lambda>x. x\<lparr>cs_context := Some
         \<lparr>cx_child_id = ct_child_id task,
          cx_restore = \<lparr>rs_replay_point_id = i, rs_target_branch_id = ct_target_branch_id task,
            rs_achieved_fidelity = er_achieved_fidelity report, rs_equivalent = er_equivalent report,
            rs_promotion_eligible = eligible, rs_prefix_reused = rc_prefix_reused receipt,
            rs_report = report, rs_restore_minutes = cs_restore_minutes x,
            rs_equivalence_minutes = minutes, rs_suffix_minutes = Fin 0, rs_replay_wall_minutes = Fin 0\<rparr>,
          cx_isolated = True, cx_adapter_child_key = cl_child_key lease\<rparr>\<rparr>))))))))"

definition prepare_one ::
  "'w registry_host \<Rightarrow> ('w, 'o) RuntimeReplayBinding \<Rightarrow> string \<Rightarrow> (('w, 'o) sys, 'o) ReplayChildTask \<Rightarrow>
   (('w, 'o) grp, unit) act" where
  "prepare_one R e i task =
     seq (on_sys (metric ''child_session_fork_attempt_count''))
     (bnd (fork_child R e i task) (\<lambda>lease.
      bnd (gets (\<lambda>g. length (gr_prepared g) - 1)) (\<lambda>j.
      seq (fork_agent e j task)
     (seq (validate_child R e i j task lease)
      (on_sys (metric ''child_session_fork_success_count''))))))"

section \<open>Parallelism\<close>

definition process_worker_identities :: "('w, 'o) session list \<Rightarrow> key option list" where
  "process_worker_identities prepared =
     map (\<lambda>x. cl_worker_identity (cs_lease x))
       (filter (\<lambda>x. cl_concurrency (cs_lease x) = PROCESS_ISOLATED) prepared)"

definition requested_parallel :: "bool \<Rightarrow> ('w, 'o) session list \<Rightarrow> bool" where
  "requested_parallel par prepared = (par \<and> 1 < length prepared)"

definition actual_parallel :: "bool \<Rightarrow> ('w, 'o) session list \<Rightarrow> bool" where
  "actual_parallel par prepared = (requested_parallel par prepared
     \<and> list_all (\<lambda>x. cl_concurrency (cs_lease x) = THREAD_SAFE \<or> cl_concurrency (cs_lease x) = PROCESS_ISOLATED) prepared
     \<and> distinct (process_worker_identities prepared))"

definition count_parallelism :: "bool \<Rightarrow> (('w, 'o) grp, bool) act" where
  "count_parallelism par = bnd (gets gr_prepared) (\<lambda>prepared.
     let actual = actual_parallel par prepared in
     seq (if actual then
            seq (on_sys (metric ''child_parallel_group_count''))
              (when_do (process_worker_identities prepared \<noteq> [])
                (on_sys (metric ''child_process_isolated_parallel_group_count'')))
          else when_do (requested_parallel par prepared)
            (on_sys (metric ''child_parallel_downgrade_group_count'')))
     (ret actual))"

section \<open>Execution of one session\<close>

definition assess_intent ::
  "('w, 'o) RuntimeReplayBinding \<Rightarrow> bool \<Rightarrow> ('w, 'o) session \<Rightarrow>
   (('w, 'o) grp, ReplayRiskAssessment option) act" where
  "assess_intent e risk se = (if \<not> risk then ret None else
     seq (on_sys (metric ''child_intent_assessment_count''))
     (bnd (on_sys (call_class ReplayRiskAssessment_post_init (ad_assess_replay_child_intent (rb_adapter e))
            (\<lambda>f. f (cl_child_key (cs_lease se)) (ct_intent (cs_task se))))) (\<lambda>obj.
      bnd (require_instance ''assess_replay_child_intent must return a ReplayRiskAssessment'' obj) (\<lambda>a.
      if ra_disposition a = RISK_DENY then
        seq (on_sys (metric ''child_intent_denied_count'')) (raise (ReplayRiskRejectedError ''intent'' a))
      else seq (on_sys (metric ''child_intent_allowed_count'')) (ret (Some a))))))"

definition assess_outcome ::
  "('w, 'o) RuntimeReplayBinding \<Rightarrow> bool \<Rightarrow> ('w, 'o) session \<Rightarrow> 'o \<Rightarrow>
   (('w, 'o) grp, ReplayRiskAssessment option) act" where
  "assess_outcome e risk se out = (if \<not> risk then ret None else
     seq (on_sys (metric ''child_outcome_assessment_count''))
     (bnd (on_sys (call_class ReplayRiskAssessment_post_init (ad_assess_replay_child_outcome (rb_adapter e))
            (\<lambda>f. f (cl_child_key (cs_lease se)) (ct_intent (cs_task se)) out))) (\<lambda>obj.
      bnd (require_instance ''assess_replay_child_outcome must return a ReplayRiskAssessment'' obj) (\<lambda>a.
      if ra_disposition a = RISK_DENY then
        seq (on_sys (metric ''child_outcome_denied_count''))
        (seq (modify (\<lambda>g. g\<lparr>gr_unsafe_outcome := True\<rparr>))
        (raise (ReplayRiskRejectedError ''outcome'' a)))
      else seq (on_sys (metric ''child_outcome_allowed_count'')) (ret (Some a))))))"

text \<open>What a failed session reports when failures are settled.\<close>

definition child_failure :: "('w, 'o) session \<Rightarrow> ReplayRestoreResult \<Rightarrow> bool \<Rightarrow> exn \<Rightarrow> ReplayChildExecutionFailure" where
  "child_failure se restore parallel error =
     \<lparr>xf_child_id = ct_child_id (cs_task se), xf_restore = restore,
      xf_stage = (case error of ReplayRiskRejectedError st _ \<Rightarrow> (if st = ''intent'' then STAGE_INTENT else STAGE_SUFFIX)
                  | _ \<Rightarrow> STAGE_SUFFIX),
      xf_error_type = exn_type_name error, xf_isolated = True, xf_parallel = parallel,
      xf_risk_assessment = (case error of ReplayRiskRejectedError _ a \<Rightarrow> Some a | _ \<Rightarrow> None)\<rparr>"

definition finished_restore :: "('w, 'o) session \<Rightarrow> ReplayRestoreResult" where
  "finished_restore se = (let r = cx_restore (the (cs_context se)) in
     r\<lparr>rs_suffix_minutes := cs_suffix_minutes se,
       rs_replay_wall_minutes := fadd (fadd (rs_restore_minutes r) (rs_equivalence_minutes r)) (cs_suffix_minutes se)\<rparr>)"

definition session_result :: "bool \<Rightarrow> bool \<Rightarrow> bool \<Rightarrow> ('w, 'o) session \<Rightarrow> 'o child_outcome res" where
  "session_result settle_failures parallel unsafe se = (case cs_execution_error se of
     Some error \<Rightarrow>
       if cs_cleanup_error se \<noteq> None then Inl error
       else if settle_failures \<and> \<not> unsafe then
         rbind (ReplayChildExecutionFailure_post_init (child_failure se (finished_restore se) parallel error))
           (\<lambda>f. Inr (ChildFailure f))
       else Inl error
   | None \<Rightarrow> (case cs_cleanup_error se of
       Some error \<Rightarrow> Inl error
     | None \<Rightarrow> Inr (ChildResult
         \<lparr>xr_child_id = ct_child_id (cs_task se), xr_restore = finished_restore se,
          xr_outcome = the (cs_outcome se), xr_isolated = True, xr_parallel = parallel,
          xr_intent_assessment = cs_intent_assessment se,
          xr_outcome_assessment = cs_outcome_assessment se\<rparr>)))"

text \<open>One step of a session; an exception of the body moves the session to its cleanup.\<close>

definition step_try ::
  "nat \<Rightarrow> (('w, 'o) grp, 'a) act \<Rightarrow> ('a \<Rightarrow> ('w, 'o) session \<Rightarrow> ('w, 'o) session) \<Rightarrow> (('w, 'o) grp, unit) act" where
  "step_try j body next_stage = bnd (attempt body) (\<lambda>r. case r of
     Inl x \<Rightarrow> upd_session j (\<lambda>se. se\<lparr>cs_execution_error := Some x, cs_stage := Settle\<rparr>)
   | Inr v \<Rightarrow> upd_session j (next_stage v))"

definition session_step ::
  "'w registry_host \<Rightarrow> ('w, 'o) RuntimeReplayBinding \<Rightarrow> bool \<Rightarrow> bool \<Rightarrow> bool \<Rightarrow> nat \<Rightarrow> (('w, 'o) grp, unit) act" where
  "session_step R e settle_failures risk parallel j = bnd (get_session j) (\<lambda>se. case cs_stage se of
     Intent \<Rightarrow>
       bnd (on_sys (perf_counter R)) (\<lambda>started.
       seq (upd_session j (\<lambda>x. x\<lparr>cs_suffix_started := started\<rparr>))
       (step_try j (assess_intent e risk se) (\<lambda>a x. x\<lparr>cs_intent_assessment := a, cs_stage := Restore\<rparr>)))
   | Restore \<Rightarrow>
       step_try j (on_sys (world_call (as_restore_agent_state (rb_agent_state_store e) (the (cs_agent_key se)))))
         (\<lambda>_ x. x\<lparr>cs_stage := Execute\<rparr>)
   | Execute \<Rightarrow>
       step_try j (on_sys (ct_execute (cs_task se) (the (cs_context se))))
         (\<lambda>out x. x\<lparr>cs_outcome := Some out, cs_stage := Assess\<rparr>)
   | Assess \<Rightarrow>
       step_try j (assess_outcome e risk se (the (cs_outcome se)))
         (\<lambda>a x. x\<lparr>cs_outcome_assessment := a, cs_stage := Settle\<rparr>)
   | Settle \<Rightarrow>
       bnd (on_sys (elapsed_minutes R (cs_suffix_started se))) (\<lambda>minutes.
       seq (upd_session j (\<lambda>x. x\<lparr>cs_suffix_minutes := minutes\<rparr>))
       (bnd (cleanup e j) (\<lambda>_. upd_session j (\<lambda>x. x\<lparr>cs_stage := Finish\<rparr>))))
   | Finish \<Rightarrow>
       bnd (gets gr_unsafe_outcome) (\<lambda>unsafe.
       upd_session j (\<lambda>x. x\<lparr>cs_result := Some (session_result settle_failures parallel unsafe x),
                            cs_stage := Finished\<rparr>))
   | Finished \<Rightarrow> ret ())"


text \<open>The whole of a session: six steps at most.\<close>

definition run_to_end ::
  "'w registry_host \<Rightarrow> ('w, 'o) RuntimeReplayBinding \<Rightarrow> bool \<Rightarrow> bool \<Rightarrow> bool \<Rightarrow> nat \<Rightarrow> (('w, 'o) grp, unit) act" where
  "run_to_end R e settle_failures risk parallel j =
     seq (mapA (\<lambda>_. session_step R e settle_failures risk parallel j) [0 ..< 6 :: nat]) (ret ())"

definition execute_session ::
  "'w registry_host \<Rightarrow> ('w, 'o) RuntimeReplayBinding \<Rightarrow> bool \<Rightarrow> bool \<Rightarrow> bool \<Rightarrow> nat \<Rightarrow>
   (('w, 'o) grp, 'o child_outcome) act" where
  "execute_session R e settle_failures risk parallel j =
     seq (run_to_end R e settle_failures risk parallel j)
     (bnd (get_session j) (\<lambda>se. of_res (the (cs_result se))))"

section \<open>The group\<close>

definition worker_count :: "int option \<Rightarrow> nat \<Rightarrow> int" where
  "worker_count max_workers n = min (case max_workers of None \<Rightarrow> int n
     | Some w \<Rightarrow> (if w = 0 then int n else w)) (int n)"

text \<open>The pool: every session runs to its end whatever the others do; the results are collected
  in the order of the sessions, and the first exception in that order is raised.\<close>

definition execute_parallel ::
  "'w registry_host \<Rightarrow> nat list \<Rightarrow> ('w, 'o) RuntimeReplayBinding \<Rightarrow> bool \<Rightarrow> bool \<Rightarrow> int option \<Rightarrow>
   (('w, 'o) grp, 'o child_outcome list) act" where
  "execute_parallel R schedule e settle_failures risk max_workers =
     bnd (gets (\<lambda>g. length (gr_prepared g))) (\<lambda>n.
     if worker_count max_workers n \<le> 0 then raise (ValueError ''max_workers must be greater than 0'') else
     seq (mapA (session_step R e settle_failures risk True) (filter (\<lambda>j. j < n) schedule))
     (seq (mapA (run_to_end R e settle_failures risk True) [0 ..< n])
     (bnd (gets gr_prepared) (\<lambda>prepared. of_res (rmap (\<lambda>se. the (cs_result se)) prepared)))))"

definition execute_serial ::
  "'w registry_host \<Rightarrow> ('w, 'o) RuntimeReplayBinding \<Rightarrow> bool \<Rightarrow> bool \<Rightarrow> (('w, 'o) grp, 'o child_outcome list) act" where
  "execute_serial R e settle_failures risk =
     bnd (gets (\<lambda>g. length (gr_prepared g))) (\<lambda>n. mapA (execute_session R e settle_failures risk False) [0 ..< n])"

definition execute_group ::
  "'w registry_host \<Rightarrow> nat list \<Rightarrow> ('w, 'o) RuntimeReplayBinding \<Rightarrow> bool \<Rightarrow> bool \<Rightarrow> bool \<Rightarrow> int option \<Rightarrow>
   (('w, 'o) grp, 'o child_outcome list) act" where
  "execute_group R schedule e par settle_failures risk max_workers =
     bnd (count_parallelism par) (\<lambda>actual.
     if actual then execute_parallel R schedule e settle_failures risk max_workers
     else execute_serial R e settle_failures risk)"

text \<open>The \<open>except\<close> block: every session is cleaned up, and a failed cleanup or an unsafe outcome
  quarantines the point.\<close>

definition cleanup_all :: "('w, 'o) RuntimeReplayBinding \<Rightarrow> (('w, 'o) grp, unit) act" where
  "cleanup_all e = bnd (gets (\<lambda>g. length (gr_prepared g))) (\<lambda>n. seq (mapA (cleanup e) [0 ..< n]) (ret ()))"

definition group_abort :: "('w, 'o) RuntimeReplayBinding \<Rightarrow> string \<Rightarrow> exn \<Rightarrow> (('w, 'o) grp, 'a) act" where
  "group_abort e i error =
     seq (cleanup_all e)
     (bnd (gets (\<lambda>g. gr_cleanup_failed g \<or> gr_unsafe_outcome g)) (\<lambda>b.
      seq (when_do b (on_sys (quarantine i))) (raise error)))"

definition isolated_children ::
  "'w registry_host \<Rightarrow> nat list \<Rightarrow> ('w, 'o) RuntimeReplayBinding \<Rightarrow> string \<Rightarrow>
   (('w, 'o) sys, 'o) ReplayChildTask list \<Rightarrow> bool \<Rightarrow> int option \<Rightarrow> bool \<Rightarrow> bool \<Rightarrow>
   (('w, 'o) grp, 'o child_outcome list) act" where
  "isolated_children R schedule e i tasks par max_workers settle_failures risk =
     bnd (attempt (mapA (prepare_one R e i) tasks)) (\<lambda>p. case p of
       Inl error \<Rightarrow> seq (on_sys (metric ''child_session_fork_failure_count'')) (group_abort e i error)
     | Inr _ \<Rightarrow> bnd (attempt (execute_group R schedule e par settle_failures risk max_workers)) (\<lambda>r. case r of
         Inl error \<Rightarrow> group_abort e i error
       | Inr results \<Rightarrow> ret results))"

definition with_group :: "(('w, 'o) grp, 'a) act \<Rightarrow> (('w, 'o) sys, 'a) act" where
  "with_group m = (\<lambda>s. case m \<lparr>gr_sys = s, gr_prepared = [], gr_cleanup_failed = False,
       gr_unsafe_outcome = False\<rparr> of (r, g) \<Rightarrow> (r, gr_sys g))"

text \<open>The fallback without isolation: one ordinary replay per task, in order.\<close>

definition serial_fallback ::
  "'w registry_host \<Rightarrow> string \<Rightarrow> (('w, 'o) sys, 'o) ReplayChildTask list \<Rightarrow> (('w, 'o) sys, 'o child_outcome list) act" where
  "serial_fallback R i tasks =
     seq (metric ''child_serial_fallback_group_count'')
     (bnd (mapA (\<lambda>task.
        bnd (run_from R i (ct_target_branch_id task) (ct_minimum_fidelity task) (\<lambda>restored.
               ct_execute task \<lparr>cx_child_id = ct_child_id task, cx_restore = restored, cx_isolated = False,
                                cx_adapter_child_key = None\<rparr>)) (\<lambda>(restore, out).
        ret (ChildResult \<lparr>xr_child_id = ct_child_id task, xr_restore = restore, xr_outcome = out,
               xr_isolated = False, xr_parallel = False, xr_intent_assessment = None,
               xr_outcome_assessment = None\<rparr>))) tasks) (\<lambda>results.
      seq (metric ''child_group_success_count'') (ret results)))"

fun is_failure :: "'o child_outcome \<Rightarrow> bool" where
  "is_failure (ChildFailure f) = True"
| "is_failure (ChildResult r) = False"

definition count_results :: "bool \<Rightarrow> 'o child_outcome list \<Rightarrow> (('w, 'o) sys, unit) act" where
  "count_results settle_failures results =
     (if settle_failures then
        let failures = count_where is_failure results in
        seq (on_ledger (increment ''child_candidate_success_count'' (int (length results) - failures)))
        (seq (on_ledger (increment ''child_candidate_failure_count'' failures))
        (if failures \<noteq> 0 then metric ''child_group_settled_count'' else metric ''child_group_success_count''))
      else metric ''child_group_success_count'')"

definition child_group_body ::
  "'w registry_host \<Rightarrow> nat list \<Rightarrow> string \<Rightarrow> (('w, 'o) sys, 'o) ReplayChildTask list \<Rightarrow> bool \<Rightarrow> int option \<Rightarrow> bool \<Rightarrow>
   (('w, 'o) sys, 'o child_outcome list) act" where
  "child_group_body R schedule i tasks par max_workers settle_failures =
     bnd (get_entry i) (\<lambda>e.
     if rp_lifecycle (rb_point e) \<noteq> READY then
       raise (RuntimeError ''ReplayPoint must be ready before child replay'')
     else if rb_adapter_binding_key e = None then
       raise (RuntimeError ''replayable ReplayPoint has no Adapter binding'')
     else
     bnd (of_res (isolated_replay_child_mode (rb_adapter e) (rb_agent_state_store e))) (\<lambda>mode.
     if mode = None then
       (if settle_failures then raise (RuntimeError ''settled child results require isolated child sessions'')
        else serial_fallback R i tasks)
     else
     bnd (of_res (replay_child_risk_mode (rb_adapter e))) (\<lambda>risk.
     seq (recheck_ready ''ReplayPoint stopped being ready before child fork'' i)
     (bnd (with_group (isolated_children R schedule e i tasks par max_workers settle_failures (risk \<noteq> None))) (\<lambda>results.
      seq (count_results settle_failures results) (ret results))))))"

definition run_child_group_from ::
  "'w registry_host \<Rightarrow> nat list \<Rightarrow> string \<Rightarrow> (('w, 'o) sys, 'o) ReplayChildTask list \<Rightarrow> bool \<Rightarrow> int option \<Rightarrow> bool \<Rightarrow>
   (('w, 'o) sys, 'o child_outcome list) act" where
  "run_child_group_from R schedule i tasks par max_workers settle_failures =
     (if tasks = [] then raise (ValueError ''run_child_group_from requires at least one task'')
      else if \<not> distinct (map ct_child_id tasks) then
        raise (ValueError ''ReplayChildTask child_id values must be unique'')
      else seq (metric ''child_group_attempt_count'')
        (on_error (child_group_body R schedule i tasks par max_workers settle_failures)
          (\<lambda>_. metric ''child_group_failure_count'')))"

end
