(* ===== verification/Child_Properties.thy ===== *)
theory Child_Properties
  imports Child_Replay
begin

text \<open>
  Properties of the child groups: under every schedule a group that returns has cleaned up and
  released every session, saw no failed cleanup and no unsafe outcome, and gives one result per
  task in the order of the tasks; a group that raises has attempted the cleanup of every
  session, and quarantines the point when a cleanup failed or an outcome was unsafe.
\<close>

section \<open>Lifting\<close>

lemma wp_on_sys [wp_simps]:
  "wp (on_sys m) Q E g = wp m (\<lambda>x s. Q x (g\<lparr>gr_sys := s\<rparr>)) (\<lambda>x s. E x (g\<lparr>gr_sys := s\<rparr>)) (gr_sys g)"
  by (simp add: wp_def on_sys_def split: prod.splits sum.splits)

lemma wp_on_sys_any:
  assumes "\<And>x s. Q x (g\<lparr>gr_sys := s\<rparr>)" "\<And>x s. E x (g\<lparr>gr_sys := s\<rparr>)"
  shows "wp (on_sys m) Q E g"
  unfolding wp_on_sys using assms by (auto simp: wp_def split: prod.splits sum.splits)

lemma wp_on_sys_metric:
  "f \<in> set COUNT_FIELDS \<Longrightarrow> wp (on_sys (metric f)) Q E g = Q () (g\<lparr>gr_sys := bump f (gr_sys g)\<rparr>)"
  by (simp add: wp_on_sys)

lemma wp_on_sys_value:
  assumes "\<And>u. wp m (\<lambda>_ _. True) (\<lambda>_ _. False) u" "\<And>x s. Q x (g\<lparr>gr_sys := s\<rparr>)"
  shows "wp (on_sys m) Q E g"
  unfolding wp_on_sys using assms by (auto intro: wp_mono[OF assms(1)])

lemma perf_counter_returns: "wp (perf_counter R) (\<lambda>_ _. True) (\<lambda>_ _. False) s"
  by (rule wp_perf_counter) simp

lemma elapsed_minutes_returns: "wp (elapsed_minutes R t0) (\<lambda>_ _. True) (\<lambda>_ _. False) s"
  by (rule wp_elapsed_minutes) simp

lemma attempt_returns: "wp (attempt m) (\<lambda>_ _. True) (\<lambda>_ _. False) s"
  by (simp add: wp_any)

lemma metric_returns: "f \<in> set COUNT_FIELDS \<Longrightarrow> wp (metric f) (\<lambda>_ _. True) (\<lambda>_ _. False) s"
  by simp

lemma wp_upd_session [wp_simps, simp]:
  "wp (upd_session j f) Q E g = Q () (g\<lparr>gr_prepared := (gr_prepared g)[j := f (gr_prepared g ! j)]\<rparr>)"
  by (simp add: upd_session_def)

section \<open>The invariant of the execution\<close>

definition allowed :: "ReplayRiskAssessment option \<Rightarrow> bool" where
  "allowed a \<longleftrightarrow> (\<exists>x. a = Some x \<and> ra_disposition x = RISK_ALLOW)"

abbreviation past_cleanup :: "('w, 'o) session \<Rightarrow> bool" where
  "past_cleanup se \<equiv> cs_stage se = Finish \<or> cs_stage se = Finished"

definition session_ok :: "bool \<Rightarrow> bool \<Rightarrow> bool \<Rightarrow> ('w, 'o) session \<Rightarrow> bool" where
  "session_ok settle risk parallel se \<longleftrightarrow>
     (cs_cleanup_attempted se \<longleftrightarrow> past_cleanup se) \<and>
     (cs_cleanup_attempted se \<longrightarrow> (cs_released se \<longleftrightarrow> cs_cleanup_error se = None)) \<and>
     (\<not> cs_cleanup_attempted se \<longrightarrow> \<not> cs_released se \<and> cs_cleanup_error se = None) \<and>
     (cs_execution_error se \<noteq> None \<longrightarrow> cs_stage se = Settle \<or> past_cleanup se) \<and>
     (cs_execution_error se = None \<longrightarrow>
        (risk \<and> cs_stage se \<noteq> Intent \<longrightarrow> allowed (cs_intent_assessment se)) \<and>
        (cs_stage se = Assess \<or> cs_stage se = Settle \<or> past_cleanup se \<longrightarrow> cs_outcome se \<noteq> None) \<and>
        (risk \<and> (cs_stage se = Settle \<or> past_cleanup se) \<longrightarrow> allowed (cs_outcome_assessment se))) \<and>
     (cs_stage se \<noteq> Finished \<longrightarrow> cs_result se = None) \<and>
     (cs_stage se = Finished \<longrightarrow> (\<exists>u. cs_result se = Some (session_result settle parallel u se)))"

definition group_ok :: "bool \<Rightarrow> bool \<Rightarrow> bool \<Rightarrow> ('w, 'o) grp \<Rightarrow> bool" where
  "group_ok settle risk parallel g \<longleftrightarrow>
     (\<forall>se \<in> set (gr_prepared g). session_ok settle risk parallel se) \<and>
     (gr_cleanup_failed g \<longrightarrow> (\<exists>se \<in> set (gr_prepared g). cs_cleanup_error se \<noteq> None)) \<and>
     (gr_unsafe_outcome g \<longrightarrow> (\<exists>se \<in> set (gr_prepared g).
        cs_execution_error se \<noteq> None \<and> (\<forall>r. cs_result se = Some r \<longrightarrow> isl r)))"

lemma session_result_frame [simp]:
  "session_result a b u (se\<lparr>cs_result := x\<rparr>) = session_result a b u se"
  "session_result a b u (se\<lparr>cs_stage := y\<rparr>) = session_result a b u se"
  by (cases "cs_execution_error se"; cases "cs_cleanup_error se";
      simp add: session_result_def finished_restore_def child_failure_def)+

text \<open>Replacing one session keeps the invariant when the new one is as it should be and still
  carries what the flags stand for.\<close>

lemma group_ok_update:
  assumes g: "group_ok st rk pl g" and j: "j < length (gr_prepared g)"
    and se: "session_ok st rk pl se'"
    and frame: "gr_prepared g' = (gr_prepared g)[j := se']"
    and cf: "gr_cleanup_failed g' \<Longrightarrow> gr_cleanup_failed g \<or> cs_cleanup_error se' \<noteq> None"
    and ce: "cs_cleanup_error (gr_prepared g ! j) \<noteq> None \<Longrightarrow> cs_cleanup_error se' \<noteq> None"
    and uf: "gr_unsafe_outcome g' \<Longrightarrow> gr_unsafe_outcome g \<or> (cs_execution_error se' \<noteq> None \<and> cs_result se' = None)"
    and ue: "cs_execution_error (gr_prepared g ! j) \<noteq> None \<Longrightarrow> (\<forall>r. cs_result (gr_prepared g ! j) = Some r \<longrightarrow> isl r) \<Longrightarrow>
        gr_unsafe_outcome g \<Longrightarrow> cs_execution_error se' \<noteq> None \<and> (\<forall>r. cs_result se' = Some r \<longrightarrow> isl r)"
  shows "group_ok st rk pl g'"
proof -
  let ?xs = "gr_prepared g"
  have mem: "se' \<in> set (gr_prepared g')" using j by (simp add: frame set_update_memI)
  have move: "\<exists>x \<in> set (gr_prepared g'). P x" if some: "\<exists>x \<in> set ?xs. P x" and keep: "P (?xs ! j) \<Longrightarrow> P se'" for P
  proof -
    obtain k where k: "k < length ?xs" "P (?xs ! k)" using some by (auto simp: in_set_conv_nth)
    show ?thesis
    proof (cases "k = j")
      case True
      with keep k mem show ?thesis by blast
    next
      case False
      then have "gr_prepared g' ! k = ?xs ! k" "k < length (gr_prepared g')" using k by (simp_all add: frame)
      then show ?thesis using k(2) by (metis nth_mem)
    qed
  qed
  have all: "\<forall>x \<in> set (gr_prepared g'). session_ok st rk pl x"
    using g se set_update_subset_insert[of ?xs j se'] by (auto simp: group_ok_def frame)
  moreover have "\<exists>x \<in> set (gr_prepared g'). cs_cleanup_error x \<noteq> None" if "gr_cleanup_failed g'"
    using cf[OF that]
  proof
    assume "gr_cleanup_failed g"
    with g have "\<exists>x \<in> set ?xs. cs_cleanup_error x \<noteq> None" by (simp add: group_ok_def)
    then show ?thesis by (rule move) (rule ce)
  next
    assume "cs_cleanup_error se' \<noteq> None"
    with mem show ?thesis by blast
  qed
  moreover have "\<exists>x \<in> set (gr_prepared g'). cs_execution_error x \<noteq> None \<and> (\<forall>r. cs_result x = Some r \<longrightarrow> isl r)"
    if "gr_unsafe_outcome g'"
    using uf[OF that]
  proof
    assume u: "gr_unsafe_outcome g"
    with g have "\<exists>x \<in> set ?xs. cs_execution_error x \<noteq> None \<and> (\<forall>r. cs_result x = Some r \<longrightarrow> isl r)"
      by (simp add: group_ok_def)
    then show ?thesis by (rule move) (use ue u in blast)
  next
    assume "cs_execution_error se' \<noteq> None \<and> cs_result se' = None"
    with mem show ?thesis by auto
  qed
  ultimately show ?thesis by (simp add: group_ok_def)
qed


lemma group_ok_sys [simp]: "group_ok st rk pl (g\<lparr>gr_sys := s\<rparr>) = group_ok st rk pl g"
  by (simp add: group_ok_def)

lemma group_ok_nth: "group_ok st rk pl g \<Longrightarrow> j < length (gr_prepared g) \<Longrightarrow> session_ok st rk pl (gr_prepared g ! j)"
  by (simp add: group_ok_def)

section \<open>Steps keep the invariant\<close>

text \<open>What no step of the execution changes.\<close>

type_synonym ('w, 'o) session_kind =
  "(('w, 'o) sys, 'o) ReplayChildTask \<times> ReplayChildLease \<times> key option \<times> ReplayChildExecutionContext option"

definition kind_of :: "('w, 'o) session \<Rightarrow> ('w, 'o) session_kind" where
  "kind_of se = (cs_task se, cs_lease se, cs_agent_key se, cs_context se)"

lemma kind_of_frame [simp]:
  "kind_of (se\<lparr>cs_stage := a\<rparr>) = kind_of se" "kind_of (se\<lparr>cs_execution_error := b\<rparr>) = kind_of se"
  "kind_of (se\<lparr>cs_result := c\<rparr>) = kind_of se" "kind_of (se\<lparr>cs_released := d\<rparr>) = kind_of se"
  "kind_of (se\<lparr>cs_cleanup_attempted := d\<rparr>) = kind_of se" "kind_of (se\<lparr>cs_cleanup_error := b\<rparr>) = kind_of se"
  "kind_of (se\<lparr>cs_suffix_minutes := m\<rparr>) = kind_of se" "kind_of (se\<lparr>cs_suffix_started := m\<rparr>) = kind_of se"
  "kind_of (se\<lparr>cs_outcome := out\<rparr>) = kind_of se" "kind_of (se\<lparr>cs_intent_assessment := ra\<rparr>) = kind_of se"
  "kind_of (se\<lparr>cs_outcome_assessment := ra\<rparr>) = kind_of se"
  by (simp_all add: kind_of_def)

definition shape :: "('w, 'o) grp \<Rightarrow> ('w, 'o) session_kind list" where
  "shape g = map kind_of (gr_prepared g)"

lemma shape_update:
  "gr_prepared g' = (gr_prepared g)[j := se] \<Longrightarrow> kind_of se = kind_of (gr_prepared g ! j) \<Longrightarrow> shape g' = shape g"
  by (cases "j < length (gr_prepared g)") (simp_all add: shape_def map_update list_update_same_conv list_update_beyond)

lemma shape_length: "shape g' = shape g \<Longrightarrow> length (gr_prepared g') = length (gr_prepared g)"
  by (metis length_map shape_def)

definition executing :: "bool \<Rightarrow> bool \<Rightarrow> bool \<Rightarrow> ('w, 'o) grp \<Rightarrow> ('w, 'o) grp \<Rightarrow> bool" where
  "executing st rk pl g0 g \<longleftrightarrow> group_ok st rk pl g \<and> shape g = shape g0"

text \<open>A failed body moves the session to its cleanup.\<close>

lemma session_ok_failed:
  assumes "session_ok st rk pl se" "cs_stage se \<in> {Intent, Restore, Execute, Assess}"
  shows "session_ok st rk pl (se\<lparr>cs_execution_error := Some x, cs_stage := Settle\<rparr>)"
  using assms by (cases "cs_stage se"; simp add: session_ok_def)

lemma wp_step_try:
  assumes g: "group_ok st rk pl g" and j: "j < length (gr_prepared g)"
    and stage: "cs_stage (gr_prepared g ! j) \<in> {Intent, Restore, Execute, Assess}"
    and body: "wp body
       (\<lambda>v g'. gr_prepared g' = gr_prepared g \<and> gr_cleanup_failed g' = gr_cleanup_failed g \<and>
          gr_unsafe_outcome g' = gr_unsafe_outcome g \<and> session_ok st rk pl (f v (gr_prepared g ! j)) \<and>
          cs_execution_error (f v (gr_prepared g ! j)) = None \<and> kind_of (f v (gr_prepared g ! j)) = kind_of (gr_prepared g ! j))
       (\<lambda>_ g'. gr_prepared g' = gr_prepared g \<and> gr_cleanup_failed g' = gr_cleanup_failed g) g"
  shows "wp (step_try j body f) (\<lambda>_. executing st rk pl g) (\<lambda>_ _. False) g"
proof -
  let ?se = "gr_prepared g ! j"
  note ok = group_ok_nth[OF g j]
  have none: "cs_execution_error ?se = None" "cs_result ?se = None" "cs_cleanup_error ?se = None"
    using ok stage by (cases "cs_stage ?se"; simp add: session_ok_def)+
  have good: "executing st rk pl g (g'\<lparr>gr_prepared := (gr_prepared g')[j := f v (gr_prepared g' ! j)]\<rparr>)"
    if "gr_prepared g' = gr_prepared g" "gr_cleanup_failed g' = gr_cleanup_failed g"
      "gr_unsafe_outcome g' = gr_unsafe_outcome g"
      "session_ok st rk pl (f v ?se)" "kind_of (f v ?se) = kind_of ?se" for v g'
    unfolding executing_def
    by (intro conjI group_ok_update[OF g j that(4)] shape_update[OF _ that(5)]) (simp_all add: that none)
  have bad: "executing st rk pl g (g'\<lparr>gr_prepared :=
        (gr_prepared g')[j := (gr_prepared g' ! j)\<lparr>cs_execution_error := Some x, cs_stage := Settle\<rparr>]\<rparr>)"
    if "gr_prepared g' = gr_prepared g" "gr_cleanup_failed g' = gr_cleanup_failed g" for x g'
    unfolding executing_def
    by (intro conjI group_ok_update[OF g j session_ok_failed[OF ok stage]] shape_update[where j = j and se = "?se\<lparr>cs_execution_error := Some x, cs_stage := Settle\<rparr>"]) (simp_all add: that none)
  show ?thesis unfolding step_try_def wp_bnd wp_attempt sum.case wp_upd_session
    by (rule wp_mono[OF body]; elim conjE) (rule good bad; assumption)+
qed

lemma wp_assess_intent:
  "wp (assess_intent e rk se)
     (\<lambda>a g'. gr_prepared g' = gr_prepared g \<and> gr_cleanup_failed g' = gr_cleanup_failed g \<and>
        gr_unsafe_outcome g' = gr_unsafe_outcome g \<and> (rk \<longrightarrow> allowed a))
     (\<lambda>_ g'. gr_prepared g' = gr_prepared g \<and> gr_cleanup_failed g' = gr_cleanup_failed g) g"
  unfolding assess_intent_def
  by (auto simp: wp_on_sys_metric wp_require_instance allowed_def split: foreign.splits
      intro!: wp_on_sys_any intro: ReplayRiskDisposition.exhaust)

lemma wp_assess_outcome:
  "wp (assess_outcome e rk se out)
     (\<lambda>a g'. gr_prepared g' = gr_prepared g \<and> gr_cleanup_failed g' = gr_cleanup_failed g \<and>
        gr_unsafe_outcome g' = gr_unsafe_outcome g \<and> (rk \<longrightarrow> allowed a))
     (\<lambda>_ g'. gr_prepared g' = gr_prepared g \<and> gr_cleanup_failed g' = gr_cleanup_failed g) g"
  unfolding assess_outcome_def
  by (auto simp: wp_on_sys_metric wp_require_instance allowed_def split: foreign.splits
      intro!: wp_on_sys_any intro: ReplayRiskDisposition.exhaust)


text \<open>Cleanup of a session that was not cleaned up yet.\<close>

lemma wp_cleanup_fresh:
  assumes "\<not> cs_cleanup_attempted (gr_prepared g ! j)" "\<not> cs_released (gr_prepared g ! j)" "j < length (gr_prepared g)"
    and Q: "\<And>x s. Q x (g\<lparr>gr_sys := s, gr_cleanup_failed := (gr_cleanup_failed g \<or> x \<noteq> None),
        gr_prepared := (gr_prepared g)[j := (gr_prepared g ! j)\<lparr>cs_cleanup_attempted := True,
          cs_released := (x = None), cs_cleanup_error := x\<rparr>]\<rparr>)"
  shows "wp (cleanup e j) Q E g"
proof -
  have fin: "wp (if x = None then on_sys (metric ''child_session_release_success_count'')
           else seq (modify (\<lambda>g. g\<lparr>gr_cleanup_failed := True\<rparr>))
                    (on_sys (metric ''child_session_release_failure_count''))) (\<lambda>_. Q x) E
      (g\<lparr>gr_sys := s, gr_prepared := (gr_prepared g)[j := (gr_prepared g ! j)\<lparr>cs_cleanup_attempted := True,
          cs_released := (x = None), cs_cleanup_error := x\<rparr>]\<rparr>)" for x s
  proof (cases x)
    case None
    with Q[of None] show ?thesis by (cases g) (simp add: wp_on_sys_metric)
  next
    case (Some y)
    with Q[of "Some y"] show ?thesis by (cases g) (simp add: wp_on_sys_metric)
  qed
  show ?thesis unfolding cleanup_def Let_def
    using assms(1-3)
    apply (simp add: wp_on_sys_metric)
    apply (rule wp_on_sys_value[OF attempt_returns])
    apply (cases "cs_agent_key (gr_prepared g ! j)")
     apply (simp add: fin[simplified])
    apply simp
    apply (rule wp_on_sys_value[OF attempt_returns])
    apply (simp add: fin[simplified])
    done
qed


lemma session_ok_cleaned:
  assumes "session_ok st rk pl se" "cs_stage se = Settle"
  shows "session_ok st rk pl (se\<lparr>cs_suffix_minutes := m, cs_cleanup_attempted := True, cs_released := (x = None),
    cs_cleanup_error := x, cs_stage := Finish\<rparr>)"
  using assms by (simp add: session_ok_def)

lemma session_result_unsafe:
  "cs_execution_error se \<noteq> None \<Longrightarrow> isl (session_result st pl True se)"
  by (auto simp: session_result_def)

lemma session_ok_finished:
  assumes "session_ok st rk pl se" "cs_stage se = Finish"
  shows "session_ok st rk pl (se\<lparr>cs_result := Some (session_result st pl u se), cs_stage := Finished\<rparr>)"
  using assms by (auto simp: session_ok_def)

lemma wp_step_on_sys:
  assumes g: "group_ok st rk pl g" and j: "j < length (gr_prepared g)"
    and stage: "cs_stage (gr_prepared g ! j) \<in> {Intent, Restore, Execute, Assess}"
    and ok: "\<And>v. session_ok st rk pl (f v (gr_prepared g ! j)) \<and> cs_execution_error (f v (gr_prepared g ! j)) = None \<and>
       kind_of (f v (gr_prepared g ! j)) = kind_of (gr_prepared g ! j)"
  shows "wp (step_try j (on_sys m) f) (\<lambda>_. executing st rk pl g) (\<lambda>_ _. False) g"
  by (rule wp_step_try[OF g j stage], rule wp_on_sys_any) (use ok in simp_all)

text \<open>Recording the start and the end of the suffix.\<close>

lemma session_ok_times [simp]:
  "cs_stage se \<noteq> Finished \<Longrightarrow> session_ok st rk pl (se\<lparr>cs_suffix_started := m\<rparr>) = session_ok st rk pl se"
  by (simp add: session_ok_def)

lemma executing_started:
  assumes g: "group_ok st rk pl g" and j: "j < length (gr_prepared g)" and st: "cs_stage (gr_prepared g ! j) = Intent"
  shows "executing st rk pl g (g\<lparr>gr_sys := s, gr_prepared := (gr_prepared g)[j := (gr_prepared g ! j)\<lparr>cs_suffix_started := m\<rparr>]\<rparr>)"
  unfolding executing_def
  by (intro conjI group_ok_update[OF g j, where se' = "(gr_prepared g ! j)\<lparr>cs_suffix_started := m\<rparr>"]
      shape_update[where j = j and se = "(gr_prepared g ! j)\<lparr>cs_suffix_started := m\<rparr>"])
    (use group_ok_nth[OF g j] st in simp_all)

lemma executing_cleaned:
  assumes g: "group_ok st rk pl g" and j: "j < length (gr_prepared g)" and st: "cs_stage (gr_prepared g ! j) = Settle"
    and g': "gr_prepared g' = (gr_prepared g)[j := (gr_prepared g ! j)\<lparr>cs_suffix_minutes := m, cs_cleanup_attempted := True,
        cs_released := (x = None), cs_cleanup_error := x, cs_stage := Finish\<rparr>]"
      "gr_cleanup_failed g' = (gr_cleanup_failed g \<or> x \<noteq> None)" "gr_unsafe_outcome g' = gr_unsafe_outcome g"
  shows "executing st rk pl g g'"
proof -
  note ok = group_ok_nth[OF g j]
  have none: "cs_result (gr_prepared g ! j) = None" "cs_cleanup_error (gr_prepared g ! j) = None"
    using ok st by (simp_all add: session_ok_def)
  show ?thesis unfolding executing_def
    by (intro conjI group_ok_update[OF g j session_ok_cleaned[OF ok st] g'(1)] shape_update[OF g'(1)])
      (use g'(2,3) none in auto)
qed

lemma executing_finished:
  assumes g: "group_ok st rk pl g" and j: "j < length (gr_prepared g)" and st: "cs_stage (gr_prepared g ! j) = Finish"
  shows "executing st rk pl g (g\<lparr>gr_prepared := (gr_prepared g)[j := (gr_prepared g ! j)
     \<lparr>cs_result := Some (session_result st pl (gr_unsafe_outcome g) (gr_prepared g ! j)), cs_stage := Finished\<rparr>]\<rparr>)"
proof -
  note ok = group_ok_nth[OF g j]
  have "cs_result (gr_prepared g ! j) = None" using ok st by (simp add: session_ok_def)
  then show ?thesis unfolding executing_def
    by (intro conjI group_ok_update[OF g j session_ok_finished[OF ok st, of "gr_unsafe_outcome g"]]
        shape_update[where j = j and se = "(gr_prepared g ! j)
          \<lparr>cs_result := Some (session_result st pl (gr_unsafe_outcome g) (gr_prepared g ! j)), cs_stage := Finished\<rparr>"])
      (auto simp: session_result_unsafe)
qed

lemma executing_trans: "executing st rk pl g g' \<Longrightarrow> executing st rk pl g' g'' \<Longrightarrow> executing st rk pl g g''"
  by (simp add: executing_def)


lemma wp_session_step:
  assumes g: "group_ok st rk pl g" and j: "j < length (gr_prepared g)"
  shows "wp (session_step R e st rk pl j) (\<lambda>_. executing st rk pl g) (\<lambda>_ _. False) g"
proof -
  let ?se = "gr_prepared g ! j"
  note ok = group_ok_nth[OF g j]
  show ?thesis
  proof (cases "cs_stage ?se")
    case Intent
    have "wp (step_try j (assess_intent e rk ?se) (\<lambda>a x. x\<lparr>cs_intent_assessment := a, cs_stage := Restore\<rparr>))
        (\<lambda>_. executing st rk pl g) (\<lambda>_ _. False) g'"
      if g': "g' = g\<lparr>gr_sys := s, gr_prepared := (gr_prepared g)[j := ?se\<lparr>cs_suffix_started := m\<rparr>]\<rparr>" for s m g'
    proof -
      have ex: "executing st rk pl g g'" unfolding g' by (rule executing_started[OF g j Intent])
      have j': "j < length (gr_prepared g')" and se': "gr_prepared g' ! j = ?se\<lparr>cs_suffix_started := m\<rparr>"
        using j by (simp_all add: g')
      show ?thesis
        by (rule wp_mono[OF wp_step_try[OF _ j']], rule ex[unfolded executing_def, THEN conjunct1])
          (use ok Intent in \<open>auto simp: se' session_ok_def intro!: wp_mono[OF wp_assess_intent] intro: executing_trans[OF ex]\<close>)
    qed
    then show ?thesis unfolding session_step_def
      by (simp add: Intent) (rule wp_on_sys_value[OF perf_counter_returns], simp)
  next
    case Restore
    show ?thesis unfolding session_step_def
      by (simp add: Restore) (rule wp_step_on_sys[OF g j]; use ok Restore in \<open>simp add: session_ok_def\<close>)
  next
    case Execute
    show ?thesis unfolding session_step_def
      by (simp add: Execute) (rule wp_step_on_sys[OF g j]; use ok Execute in \<open>simp add: session_ok_def\<close>)
  next
    case Assess
    show ?thesis unfolding session_step_def
      by (simp add: Assess, rule wp_step_try[OF g j], simp add: Assess, rule wp_mono[OF wp_assess_outcome])
        (use ok Assess in \<open>auto simp: session_ok_def\<close>)
  next
    case Settle
    have fresh: "\<not> cs_cleanup_attempted ?se" "\<not> cs_released ?se" using ok Settle by (simp_all add: session_ok_def)
    show ?thesis unfolding session_step_def
      apply (simp add: Settle)
      apply (rule wp_on_sys_value[OF elapsed_minutes_returns], simp)
      apply (rule wp_cleanup_fresh)
         apply (simp_all add: j fresh)
      apply (rule executing_cleaned[OF g j Settle])
        apply simp_all
      done
  next
    case Finish
    show ?thesis unfolding session_step_def
      by (simp add: Finish) (rule executing_finished[OF g j Finish])
  next
    case Finished
    with g show ?thesis by (simp add: session_step_def executing_def)
  qed
qed


section \<open>Progress\<close>

fun steps_left :: "child_stage \<Rightarrow> nat" where
  "steps_left Intent = 6"
| "steps_left Restore = 5"
| "steps_left Execute = 4"
| "steps_left Assess = 3"
| "steps_left Settle = 2"
| "steps_left Finish = 1"
| "steps_left Finished = 0"

text \<open>A step of session \<open>j\<close> leaves the other sessions alone and brings \<open>j\<close> nearer to its end.\<close>

definition stepped :: "nat \<Rightarrow> ('w, 'o) grp \<Rightarrow> ('w, 'o) grp \<Rightarrow> bool" where
  "stepped j g g' \<longleftrightarrow> length (gr_prepared g') = length (gr_prepared g) \<and>
     (\<forall>k. k \<noteq> j \<longrightarrow> gr_prepared g' ! k = gr_prepared g ! k) \<and>
     steps_left (cs_stage (gr_prepared g' ! j)) \<le> steps_left (cs_stage (gr_prepared g ! j)) - 1"

lemma wp_step_try_stepped:
  assumes "j < length (gr_prepared g)" "3 \<le> steps_left (cs_stage (gr_prepared g ! j))"
    and "wp body (\<lambda>_ g'. gr_prepared g' = gr_prepared g) (\<lambda>_ g'. gr_prepared g' = gr_prepared g) g"
    and "\<And>v. steps_left (cs_stage (f v (gr_prepared g ! j))) \<le> steps_left (cs_stage (gr_prepared g ! j)) - 1"
  shows "wp (step_try j body f) (\<lambda>_. stepped j g) E g"
  unfolding step_try_def wp_bnd wp_attempt sum.case wp_upd_session
  by (rule wp_mono[OF assms(3)]) (use assms(1,2,4) in \<open>simp_all add: stepped_def\<close>)

lemma session_step_stepped:
  assumes g: "group_ok st rk pl g" and j: "j < length (gr_prepared g)"
  shows "wp (session_step R e st rk pl j) (\<lambda>_. stepped j g) (\<lambda>_ _. True) g"
proof (cases "cs_stage (gr_prepared g ! j)")
  case Intent
  have "wp (step_try j (assess_intent e rk (gr_prepared g ! j)) (\<lambda>a x. x\<lparr>cs_intent_assessment := a, cs_stage := Restore\<rparr>))
      (\<lambda>_. stepped j g) (\<lambda>_ _. True) (g\<lparr>gr_sys := s, gr_prepared := (gr_prepared g)[j := (gr_prepared g ! j)\<lparr>cs_suffix_started := m\<rparr>]\<rparr>)" for s m
    by (rule wp_mono[OF wp_step_try_stepped]) (use j Intent in \<open>auto simp: stepped_def intro!: wp_mono[OF wp_assess_intent]\<close>)
  then show ?thesis unfolding session_step_def
    by (simp add: Intent) (rule wp_on_sys_any, simp_all)
next
  case Settle
  have fresh: "\<not> cs_cleanup_attempted (gr_prepared g ! j)" "\<not> cs_released (gr_prepared g ! j)"
    using group_ok_nth[OF g j] Settle by (simp_all add: session_ok_def)
  show ?thesis unfolding session_step_def
    apply (simp add: Settle)
    apply (rule wp_on_sys_any, simp_all)
    apply (rule wp_cleanup_fresh)
       apply (simp_all add: j fresh stepped_def Settle)
    done
qed (use j in \<open>auto simp: session_step_def stepped_def
      intro!: wp_step_try_stepped wp_on_sys_any wp_mono[OF wp_assess_outcome]\<close>)


lemma wp_mapA_upt:
  assumes "\<And>k rs g. m \<le> k \<Longrightarrow> k < n \<Longrightarrow> I k rs g \<Longrightarrow> wp (f k) (\<lambda>r. I (Suc k) (rs @ [r])) E g"
    and "I m rs0 g" "m \<le> n"
  shows "wp (mapA f [m ..< n]) (\<lambda>rs. I n (rs0 @ rs)) E g"
  using assms
proof (induction "n - m" arbitrary: m rs0 g)
  case 0
  then show ?case by simp
next
  case (Suc d)
  then have up: "[m ..< n] = m # [Suc m ..< n]" by (simp add: upt_conv_Cons)
  have "wp (f m) (\<lambda>r. I (Suc m) (rs0 @ [r])) E g" using Suc by simp
  moreover have "wp (mapA f [Suc m ..< n]) (\<lambda>rs. I n ((rs0 @ [r]) @ rs)) E g'" if "I (Suc m) (rs0 @ [r]) g'" for r g'
    by (rule Suc.hyps(1)) (use Suc that in auto)
  ultimately show ?case unfolding up mapA.simps wp_bnd wp_ret by (auto elim!: wp_mono)
qed

lemma wp_mapA_inv:
  assumes "\<And>x g. x \<in> set xs \<Longrightarrow> I g \<Longrightarrow> wp (f x) (\<lambda>_. I) E g" "I g"
  shows "wp (mapA f xs) (\<lambda>_. I) E g"
  using assms
proof (induction xs arbitrary: g)
  case (Cons x xs)
  then have "wp (f x) (\<lambda>_. I) E g" by simp
  moreover have "wp (mapA f xs) (\<lambda>_. I) E g'" if "I g'" for g' using Cons that by simp
  ultimately show ?case by (auto elim!: wp_mono)
qed simp

text \<open>The sessions below \<open>k\<close> have finished.\<close>

definition done_upto :: "bool \<Rightarrow> bool \<Rightarrow> bool \<Rightarrow> ('w, 'o) grp \<Rightarrow> nat \<Rightarrow> ('w, 'o) grp \<Rightarrow> bool" where
  "done_upto st rk pl g0 k g \<longleftrightarrow> executing st rk pl g0 g \<and> (\<forall>i < k. cs_stage (gr_prepared g ! i) = Finished)"

lemma wp_run_to_end:
  assumes g: "group_ok st rk pl g" and j: "j < length (gr_prepared g)"
  shows "wp (run_to_end R e st rk pl j)
     (\<lambda>_ g'. executing st rk pl g g' \<and> cs_stage (gr_prepared g' ! j) = Finished \<and>
        (\<forall>k. k \<noteq> j \<longrightarrow> gr_prepared g' ! k = gr_prepared g ! k)) (\<lambda>_ _. False) g"
proof -
  let ?I = "\<lambda>n (_ :: unit list) g'. executing st rk pl g g' \<and> (\<forall>k. k \<noteq> j \<longrightarrow> gr_prepared g' ! k = gr_prepared g ! k) \<and>
     steps_left (cs_stage (gr_prepared g' ! j)) \<le> 6 - n"
  have bound: "steps_left x \<le> 6" for x by (cases x) auto
  have step: "wp (session_step R e st rk pl j) (\<lambda>r. ?I (Suc n) (rs @ [r])) (\<lambda>_ _. False) g'"
    if I: "?I n rs g'" "n < 6" for n rs g'
  proof -
    have g': "group_ok st rk pl g'" "j < length (gr_prepared g')" "executing st rk pl g g'"
      using I j shape_length[of g' g] by (auto simp: executing_def)
    show ?thesis
      by (rule wp_mono[OF wp_conj[OF wp_session_step[OF g'(1,2)] session_step_stepped[OF g'(1,2)]]])
        (use I in \<open>auto simp: stepped_def intro: executing_trans[OF g'(3)]\<close>)
  qed
  have "wp (mapA (\<lambda>_. session_step R e st rk pl j) [0 ..< 6]) (\<lambda>rs. ?I 6 ([] @ rs)) (\<lambda>_ _. False) g"
    by (rule wp_mapA_upt[where I = ?I]) (use step bound g in \<open>auto simp: executing_def\<close>)
  moreover have "steps_left x = 0 \<Longrightarrow> x = Finished" for x by (cases x) auto
  ultimately show ?thesis unfolding run_to_end_def by (auto elim!: wp_mono)
qed

lemma wp_run_to_end_done:
  assumes "done_upto st rk pl g0 j g" and "j < length (gr_prepared g)"
  shows "wp (run_to_end R e st rk pl j) (\<lambda>_. done_upto st rk pl g0 (Suc j)) (\<lambda>_ _. False) g"
proof -
  have g: "executing st rk pl g0 g" "group_ok st rk pl g" using assms by (auto simp: done_upto_def executing_def)
  show ?thesis
    by (rule wp_mono[OF wp_run_to_end[OF g(2) assms(2)]])
      (use assms(1) in \<open>auto simp: done_upto_def less_Suc_eq intro: executing_trans[OF g(1)]\<close>)
qed


section \<open>The end of the execution\<close>

abbreviation returned_as :: "('w, 'o) session \<Rightarrow> 'o child_outcome \<Rightarrow> bool" where
  "returned_as se r \<equiv> cs_result se = Some (Inr r)"

definition all_returned :: "bool \<Rightarrow> bool \<Rightarrow> bool \<Rightarrow> ('w, 'o) grp \<Rightarrow> 'o child_outcome list \<Rightarrow> ('w, 'o) grp \<Rightarrow> bool" where
  "all_returned st rk pl g0 rs g \<longleftrightarrow> executing st rk pl g0 g \<and>
     (\<forall>se \<in> set (gr_prepared g). cs_stage se = Finished) \<and> list_all2 returned_as (gr_prepared g) rs"

lemma done_result:
  assumes "group_ok st rk pl g" "j < length (gr_prepared g)" "cs_stage (gr_prepared g ! j) = Finished"
  obtains r where "cs_result (gr_prepared g ! j) = Some r"
  using group_ok_nth[OF assms(1,2)] assms(3) by (auto simp: session_ok_def)

lemma wp_execute_parallel:
  assumes g: "group_ok st rk True g"
  shows "wp (execute_parallel R sched e st rk mw) (all_returned st rk True g) (\<lambda>_. executing st rk True g) g"
proof -
  let ?n = "length (gr_prepared g)"
  have len: "length (gr_prepared g') = ?n" if "executing st rk True g g'" for g'
    using that shape_length[of g' g] by (simp add: executing_def)
  have inter: "wp (mapA (session_step R e st rk True) (filter (\<lambda>j. j < ?n) sched)) (\<lambda>_. executing st rk True g) E g" for E
  proof (rule wp_mapA_inv)
    fix j g' assume "j \<in> set (filter (\<lambda>j. j < ?n) sched)" and ex: "executing st rk True g g'"
    then show "wp (session_step R e st rk True j) (\<lambda>_. executing st rk True g) E g'"
      by (intro wp_mono[OF wp_session_step]) (auto simp: len executing_def)
  qed (use g in \<open>simp add: executing_def\<close>)
  have drain: "wp (mapA (run_to_end R e st rk True) [0 ..< ?n]) (\<lambda>_. done_upto st rk True g ?n) E g'"
    if "executing st rk True g g'" for E g'
  proof -
    have "wp (mapA (run_to_end R e st rk True) [0 ..< ?n]) (\<lambda>rs. (\<lambda>k (_ :: unit list). done_upto st rk True g k) ?n ([] @ rs)) E g'"
      by (rule wp_mapA_upt[where I = "\<lambda>k (_ :: unit list). done_upto st rk True g k"])
        (use that len in \<open>auto simp: done_upto_def intro!: wp_mono[OF wp_run_to_end_done]\<close>)
    then show ?thesis by simp
  qed
  have collect: "wp (of_res (rmap (\<lambda>se. the (cs_result se)) (gr_prepared g'))) (all_returned st rk True g) (\<lambda>_. executing st rk True g) g'"
    if d: "done_upto st rk True g ?n g'" for g'
  proof (cases "rmap (\<lambda>se. the (cs_result se)) (gr_prepared g')")
    case (Inl x)
    with d show ?thesis by (simp add: done_upto_def)
  next
    case (Inr rs)
    have ex: "executing st rk True g g'" and fin: "\<And>i. i < ?n \<Longrightarrow> cs_stage (gr_prepared g' ! i) = Finished"
      using d by (auto simp: done_upto_def)
    have "list_all2 returned_as (gr_prepared g') rs"
      using Inr[unfolded rmap_Inr] fin len[OF ex] ex
      by (auto simp: list_all2_conv_all_nth executing_def elim!: done_result)
    then show ?thesis using ex fin len[OF ex]
      by (auto simp: Inr all_returned_def in_set_conv_nth)
  qed
  show ?thesis unfolding execute_parallel_def
    apply (simp add: g executing_def[of st rk True g g])
    apply (intro impI)
    apply (rule wp_mono[OF inter], rule wp_mono[OF drain], assumption)
      apply (rule collect[simplified], assumption)
     apply assumption+
    done
qed


lemma wp_execute_serial:
  assumes g: "group_ok st rk False g"
  shows "wp (execute_serial R e st rk) (all_returned st rk False g) (\<lambda>_. executing st rk False g) g"
proof -
  let ?n = "length (gr_prepared g)"
  let ?I = "\<lambda>k rs g'. done_upto st rk False g k g' \<and> length rs = k \<and> (\<forall>i < k. returned_as (gr_prepared g' ! i) (rs ! i))"
  have len: "length (gr_prepared g') = ?n" if "executing st rk False g g'" for g'
    using that shape_length[of g' g] by (simp add: executing_def)
  have one: "wp (execute_session R e st rk False k) (\<lambda>r. ?I (Suc k) (rs @ [r])) (\<lambda>_. executing st rk False g) g'"
    if I: "?I k rs g'" and k: "k < ?n" for k rs g'
  proof -
    have g': "executing st rk False g g'" "group_ok st rk False g'" "k < length (gr_prepared g')"
      using I k len[of g'] by (auto simp: done_upto_def executing_def)
    have fin: "wp (of_res (the (cs_result (gr_prepared g'' ! k)))) (\<lambda>r. ?I (Suc k) (rs @ [r])) (\<lambda>_. executing st rk False g) g''"
      if h: "executing st rk False g' g''" "cs_stage (gr_prepared g'' ! k) = Finished"
        "\<forall>i. i \<noteq> k \<longrightarrow> gr_prepared g'' ! i = gr_prepared g' ! i" for g''
    proof -
      have ex: "executing st rk False g g''" by (rule executing_trans[OF g'(1) h(1)])
      obtain r where r: "cs_result (gr_prepared g'' ! k) = Some r"
        by (rule done_result[OF _ _ h(2), where st = st and rk = rk and pl = False])
          (use ex k len[OF ex] in \<open>auto simp: executing_def\<close>)
      show ?thesis using I h(2,3) ex by (cases r) (auto simp: r done_upto_def less_Suc_eq nth_append)
    qed
    show ?thesis unfolding execute_session_def wp_seq wp_bnd wp_gets
      by (rule wp_mono[OF wp_run_to_end[OF g'(2,3)]]; (elim conjE)?, (rule fin; assumption | simp))
  qed
  have "wp (mapA (execute_session R e st rk False) [0 ..< ?n]) (\<lambda>rs. ?I ?n ([] @ rs)) (\<lambda>_. executing st rk False g) g"
    by (rule wp_mapA_upt[where I = ?I]) (use one g in \<open>auto simp: done_upto_def executing_def\<close>)
  then show ?thesis unfolding execute_serial_def
    by (auto simp: all_returned_def done_upto_def list_all2_conv_all_nth len in_set_conv_nth elim!: wp_mono)
qed

lemma wp_count_parallelism:
  "wp (count_parallelism par) (\<lambda>b g'. b = actual_parallel par (gr_prepared g) \<and> (\<exists>s. g' = g\<lparr>gr_sys := s\<rparr>)) E g"
proof -
  have same: "\<exists>s. g = g\<lparr>gr_sys := s\<rparr>" by (rule exI[of _ "gr_sys g"]) simp
  show ?thesis unfolding count_parallelism_def Let_def
    by (auto simp: wp_on_sys_metric same)
qed

lemma executing_sys:
  "executing st rk pl (g0\<lparr>gr_sys := s\<rparr>) = executing st rk pl g0"
  "all_returned st rk pl (g0\<lparr>gr_sys := s\<rparr>) = all_returned st rk pl g0"
  by (simp_all add: executing_def shape_def all_returned_def fun_eq_iff)

lemma group_ok_fresh:
  assumes "\<forall>se \<in> set (gr_prepared g). session_ok st rk pl se" "\<not> gr_cleanup_failed g" "\<not> gr_unsafe_outcome g"
  shows "group_ok st rk pl g"
  using assms by (simp add: group_ok_def)

text \<open>Sessions right after their preparation.\<close>

definition ready_session :: "('w, 'o) session \<Rightarrow> bool" where
  "ready_session se \<longleftrightarrow> cs_stage se = Intent \<and> \<not> cs_cleanup_attempted se \<and> \<not> cs_released se \<and>
     cs_cleanup_error se = None \<and> cs_execution_error se = None \<and> cs_result se = None"

lemma ready_session_ok: "ready_session se \<Longrightarrow> session_ok st rk pl se"
  by (simp add: ready_session_def session_ok_def)

definition prepared_group :: "('w, 'o) grp \<Rightarrow> bool" where
  "prepared_group g \<longleftrightarrow> (\<forall>se \<in> set (gr_prepared g). ready_session se) \<and>
     \<not> gr_cleanup_failed g \<and> \<not> gr_unsafe_outcome g"

lemma prepared_group_ok: "prepared_group g \<Longrightarrow> group_ok st rk pl g"
  by (auto simp: prepared_group_def intro: group_ok_fresh ready_session_ok)

lemma wp_execute_group:
  assumes "prepared_group g"
  shows "wp (execute_group R sched e par st rk mw)
     (all_returned st rk (actual_parallel par (gr_prepared g)) g)
     (\<lambda>_. executing st rk (actual_parallel par (gr_prepared g)) g) g"
proof -
  have par: "wp (execute_parallel R sched e st rk mw) (all_returned st rk True g) (\<lambda>_. executing st rk True g) (g\<lparr>gr_sys := s\<rparr>)" for s
    using wp_execute_parallel[of st rk "g\<lparr>gr_sys := s\<rparr>" R sched e mw] prepared_group_ok[OF assms]
    by (simp add: executing_sys)
  have ser: "wp (execute_serial R e st rk) (all_returned st rk False g) (\<lambda>_. executing st rk False g) (g\<lparr>gr_sys := s\<rparr>)" for s
    using wp_execute_serial[of st rk "g\<lparr>gr_sys := s\<rparr>" R e] prepared_group_ok[OF assms]
    by (simp add: executing_sys)
  show ?thesis unfolding execute_group_def wp_bnd
    by (rule wp_mono[OF wp_count_parallelism[where g = g]]) (auto simp: par ser)
qed

lemma all_returned_safe:
  assumes "all_returned st rk pl g0 rs g"
  shows "\<not> gr_cleanup_failed g" "\<not> gr_unsafe_outcome g"
    "\<forall>se \<in> set (gr_prepared g). cs_cleanup_attempted se \<and> cs_released se"
proof -
  have ok: "group_ok st rk pl g" using assms by (simp add: all_returned_def executing_def)
  have each: "session_ok st rk pl se \<and> cs_stage se = Finished \<and> (\<exists>r. cs_result se = Some (Inr r))"
    if "se \<in> set (gr_prepared g)" for se
    using assms that ok by (auto simp: all_returned_def group_ok_def list_all2_conv_all_nth in_set_conv_nth)
  have clean: "cs_cleanup_error se = None" if "se \<in> set (gr_prepared g)" for se
    using each[OF that] by (auto simp: session_ok_def session_result_def split: option.splits if_splits)
  show "\<not> gr_cleanup_failed g" using ok clean by (auto simp: group_ok_def)
  show "\<not> gr_unsafe_outcome g" using ok each by (fastforce simp: group_ok_def)
  show "\<forall>se \<in> set (gr_prepared g). cs_cleanup_attempted se \<and> cs_released se"
    using each clean by (auto simp: session_ok_def)
qed


section \<open>Preparation\<close>

text \<open>While the sessions are prepared, session \<open>k\<close> belongs to task \<open>k\<close>.\<close>

definition preparing :: "(('w, 'o) sys, 'o) ReplayChildTask list \<Rightarrow> ('w, 'o) grp \<Rightarrow> bool" where
  "preparing ts g \<longleftrightarrow> prepared_group g \<and> map cs_task (gr_prepared g) = ts"

lemma preparing_sys [simp]: "preparing ts (g\<lparr>gr_sys := s\<rparr>) = preparing ts g"
  by (simp add: preparing_def prepared_group_def)

lemma preparing_update:
  assumes "preparing ts g" "gr_prepared g \<noteq> []" "j = length (gr_prepared g) - 1"
    and "ready_session (f (gr_prepared g ! j))" "cs_task (f (gr_prepared g ! j)) = cs_task (gr_prepared g ! j)"
  shows "preparing ts (g\<lparr>gr_sys := s, gr_prepared := (gr_prepared g)[j := f (gr_prepared g ! j)]\<rparr>)"
  using assms unfolding preparing_def prepared_group_def
  by (auto simp: map_update list_update_same_conv dest!: set_update_subset_insert[THEN subsetD])

lemma preparing_last:
  assumes "preparing (ts @ [task]) g"
  shows "gr_prepared g \<noteq> []" "ready_session (gr_prepared g ! (length (gr_prepared g) - 1))"
proof -
  show ne: "gr_prepared g \<noteq> []" using assms by (auto simp: preparing_def)
  then have "gr_prepared g ! (length (gr_prepared g) - 1) \<in> set (gr_prepared g)" by simp
  then show "ready_session (gr_prepared g ! (length (gr_prepared g) - 1))"
    using assms by (simp add: preparing_def prepared_group_def)
qed

lemma wp_fork_child:
  assumes "preparing ts g"
  shows "wp (fork_child R e i task)
     (\<lambda>_ g'. preparing (ts @ [task]) g') (\<lambda>_. preparing ts) g"
  unfolding fork_child_def
  using assms
  by (auto simp: wp_require_instance split: sum.splits foreign.splits intro!: wp_on_sys_any)
    (auto simp: preparing_def prepared_group_def ready_session_def new_session_def)

lemma wp_fork_agent:
  assumes "preparing (ts @ [task]) g" "j = length (gr_prepared g) - 1"
  shows "wp (fork_agent e j task) (\<lambda>_. preparing (ts @ [task])) (\<lambda>_. preparing (ts @ [task])) g"
  unfolding fork_agent_def
  using preparing_update[OF assms(1) preparing_last(1)[OF assms(1)] assms(2)] preparing_last(2)[OF assms(1)] assms
  by (auto simp: ready_session_def split: option.splits intro!: wp_on_sys_any)

lemma wp_validate_child:
  assumes "preparing (ts @ [task]) g" "j = length (gr_prepared g) - 1"
  shows "wp (validate_child R e i j task lease) (\<lambda>_. preparing (ts @ [task])) (\<lambda>_. preparing (ts @ [task])) g"
  unfolding validate_child_def Let_def
  using preparing_update[OF assms(1) preparing_last(1)[OF assms(1)] assms(2)] preparing_last(2)[OF assms(1)] assms
  by (auto simp: ready_session_def wp_require_instance split: foreign.splits sum.splits intro!: wp_on_sys_any)

lemma preparing_length: "preparing ts g \<Longrightarrow> length (gr_prepared g) = length ts"
  by (auto simp: preparing_def)

lemma wp_prepare_one:
  assumes "preparing ts g"
  shows "wp (prepare_one R e i task) (\<lambda>_. preparing (ts @ [task]))
     (\<lambda>_ g'. \<exists>us. preparing us g') g"
proof -
  let ?F = "\<lambda>_ g'. \<exists>us. preparing us g'"
  have rest: "wp (seq (fork_agent e (length (gr_prepared g') - 1) task)
      (seq (validate_child R e i (length (gr_prepared g') - 1) task lease)
        (on_sys (metric ''child_session_fork_success_count'')))) (\<lambda>_. preparing (ts @ [task])) ?F g'"
    if g': "preparing (ts @ [task]) g'" for g' lease
  proof -
    have "wp (validate_child R e i (length (gr_prepared g') - 1) task lease)
        (\<lambda>_. wp (on_sys (metric ''child_session_fork_success_count'')) (\<lambda>_. preparing (ts @ [task])) ?F) ?F g''"
      if "preparing (ts @ [task]) g''" for g''
      by (rule wp_mono[OF wp_validate_child[OF that]])
        (use that g' in \<open>auto simp: preparing_length wp_on_sys_metric\<close>)
    then show ?thesis unfolding wp_seq
      by (intro wp_mono[OF wp_fork_agent[OF g' refl]]) auto
  qed
  show ?thesis unfolding prepare_one_def
    by (simp add: wp_on_sys_metric del: wp_seq add: wp_seq[of "on_sys _"])
      (rule wp_mono[OF wp_fork_child], use assms rest in auto)
qed

lemma wp_prepare_all:
  assumes "preparing us g"
  shows "wp (mapA (prepare_one R e i) ts) (\<lambda>_. preparing (us @ ts)) (\<lambda>_ g'. \<exists>vs. preparing vs g') g"
  using assms
proof (induction ts arbitrary: us g)
  case Nil
  then show ?case by simp
next
  case (Cons x xs)
  have "wp (mapA (prepare_one R e i) xs) (\<lambda>_. preparing (us @ x # xs)) (\<lambda>_ g'. \<exists>vs. preparing vs g') g'"
    if "preparing (us @ [x]) g'" for g' using Cons.IH[OF that] by simp
  then show ?case unfolding mapA.simps wp_bnd wp_ret
    by (intro wp_mono[OF wp_prepare_one[OF Cons.prems]]) auto
qed


section \<open>Abort\<close>

text \<open>After the cleanup of session \<open>j\<close>: it has been attempted, nothing else changed but the flag.\<close>

definition cleaned :: "nat \<Rightarrow> ('w, 'o) grp \<Rightarrow> ('w, 'o) grp \<Rightarrow> bool" where
  "cleaned k g g' \<longleftrightarrow> length (gr_prepared g') = length (gr_prepared g) \<and>
     (\<forall>i < k. cs_cleanup_attempted (gr_prepared g' ! i))"

lemma wp_cleanup:
  assumes "cleaned j g0 g" "j < length (gr_prepared g0)"
  shows "wp (cleanup e j) (\<lambda>_. cleaned (Suc j) g0) (\<lambda>_ _. False) g"
proof -
  have j: "j < length (gr_prepared g)" using assms by (simp add: cleaned_def)
  consider "cs_cleanup_attempted (gr_prepared g ! j)"
    | "\<not> cs_cleanup_attempted (gr_prepared g ! j)" "cs_released (gr_prepared g ! j)"
    | "\<not> cs_cleanup_attempted (gr_prepared g ! j)" "\<not> cs_released (gr_prepared g ! j)" by blast
  then show ?thesis
  proof cases
    case 3
    then show ?thesis
      by (rule wp_cleanup_fresh[OF _ _ j]) (use assms j in \<open>auto simp: cleaned_def less_Suc_eq nth_list_update\<close>)
  qed (use assms j in \<open>auto simp: cleanup_def cleaned_def less_Suc_eq nth_list_update\<close>)
qed

lemma wp_cleanup_all:
  "wp (cleanup_all e) (\<lambda>_ g'. \<forall>se \<in> set (gr_prepared g'). cs_cleanup_attempted se) (\<lambda>_ _. False) g"
proof -
  let ?n = "length (gr_prepared g)"
  have "wp (mapA (cleanup e) [0 ..< ?n]) (\<lambda>rs. (\<lambda>k (_ :: exn option list). cleaned k g) ?n ([] @ rs)) (\<lambda>_ _. False) g"
    by (rule wp_mapA_upt[where I = "\<lambda>k (_ :: exn option list). cleaned k g"])
      (auto simp: cleaned_def[of 0] intro: wp_cleanup)
  then show ?thesis unfolding cleanup_all_def
    by (auto simp: cleaned_def in_set_conv_nth elim!: wp_mono)
qed

definition aborted :: "string \<Rightarrow> ('w, 'o) grp \<Rightarrow> bool" where
  "aborted i g \<longleftrightarrow> (\<forall>se \<in> set (gr_prepared g). cs_cleanup_attempted se) \<and>
     (gr_cleanup_failed g \<or> gr_unsafe_outcome g \<longrightarrow>
        (\<forall>e. dict_get (sy_entries (gr_sys g)) i = Some e \<longrightarrow> rp_lifecycle (rb_point e) = FAILED))"

lemma wp_group_abort: "wp (group_abort e i x) Q (\<lambda>_. aborted i) g"
proof -
  have quar: "wp (on_sys (quarantine i)) (\<lambda>_. aborted i) (\<lambda>_. aborted i) g'"
    if "\<forall>se \<in> set (gr_prepared g'). cs_cleanup_attempted se" for g'
    using that
    by (auto simp: wp_on_sys quarantine_def wp_update_entry aborted_def set_lifecycle_def dict_get_set split: option.splits)
  have calm: "aborted i g'" if "\<forall>se \<in> set (gr_prepared g'). cs_cleanup_attempted se"
    "\<not> (gr_cleanup_failed g' \<or> gr_unsafe_outcome g')" for g' :: "('a, 'b) grp" using that by (simp add: aborted_def)
  show ?thesis unfolding group_abort_def wp_seq wp_bnd
    by (rule wp_mono[OF wp_cleanup_all]) (auto simp: quar calm)
qed

section \<open>The isolated group\<close>

fun outcome_child_id :: "'o child_outcome \<Rightarrow> string" where
  "outcome_child_id (ChildResult r) = xr_child_id r"
| "outcome_child_id (ChildFailure f) = xf_child_id f"

abbreviation empty_group :: "('w, 'o) sys \<Rightarrow> ('w, 'o) grp" where
  "empty_group s \<equiv> \<lparr>gr_sys = s, gr_prepared = [], gr_cleanup_failed = False, gr_unsafe_outcome = False\<rparr>"

lemma wp_isolated_children:
  "wp (isolated_children R sched e i tasks par mw st rk)
     (\<lambda>rs g. \<exists>pl g0. map cs_task (gr_prepared g0) = tasks \<and> all_returned st rk pl g0 rs g)
     (\<lambda>_. aborted i) (empty_group s)"
proof -
  have start: "preparing [] (empty_group s)" by (simp add: preparing_def prepared_group_def)
  have exec: "wp (execute_group R sched e par st rk mw)
       (\<lambda>rs g. \<exists>pl g0. map cs_task (gr_prepared g0) = tasks \<and> all_returned st rk pl g0 rs g)
       (\<lambda>x. wp (group_abort e i x) Q (\<lambda>_. aborted i)) g" if "preparing tasks g" for g and Q :: "'b child_outcome list \<Rightarrow> _"
    by (rule wp_mono[OF wp_execute_group]) (use that in \<open>auto simp: preparing_def wp_group_abort\<close>)
  show ?thesis unfolding isolated_children_def wp_bnd wp_attempt sum.case wp_ret
    by (rule wp_mono[OF wp_prepare_all[OF start]])
      (auto simp: wp_on_sys_metric wp_group_abort intro: exec)
qed


lemma session_result_kind:
  assumes "session_result st pl u se = Inr r" "strip (ct_child_id (cs_task se)) = ct_child_id (cs_task se)"
  shows "outcome_child_id r = ct_child_id (cs_task se) \<and> (is_failure r \<longrightarrow> st) \<and>
     (\<forall>x. r = ChildResult x \<longrightarrow> cs_execution_error se = None \<and>
        xr_intent_assessment x = cs_intent_assessment se \<and> xr_outcome_assessment x = cs_outcome_assessment se)"
  using assms
  by (auto simp: session_result_def ReplayChildExecutionFailure_post_init_def child_failure_def res_iff
      split: option.splits if_splits)

lemma finished_result:
  assumes "session_ok st rk pl se" "cs_stage se = Finished" "cs_result se = Some x"
  obtains u where "session_result st pl u se = x"
proof -
  have "\<exists>u. cs_result se = Some (session_result st pl u se)" using assms(1,2) by (simp add: session_ok_def)
  then show thesis using that assms(3) by auto
qed

lemma all_returned_results:
  assumes tasks: "\<forall>t \<in> set tasks. strip (ct_child_id t) = ct_child_id t"
    and ts: "map cs_task (gr_prepared g0) = tasks" and ret: "all_returned st rk pl g0 rs g"
  shows "map outcome_child_id rs = map ct_child_id tasks \<and> (st \<or> list_all (\<lambda>r. \<not> is_failure r) rs)"
proof -
  have sh: "map cs_task (gr_prepared g) = tasks"
  proof -
    have "map (fst \<circ> kind_of) (gr_prepared g) = map (fst \<circ> kind_of) (gr_prepared g0)"
      using ret by (metis all_returned_def executing_def map_map shape_def)
    then show ?thesis using ts by (simp add: kind_of_def o_def)
  qed
  have each: "outcome_child_id (rs ! k) = ct_child_id (tasks ! k) \<and> (is_failure (rs ! k) \<longrightarrow> st)" if k: "k < length rs" for k
  proof -
    let ?se = "gr_prepared g ! k"
    have len: "length (gr_prepared g) = length rs" "length tasks = length rs"
      using ret sh by (auto simp: all_returned_def dest: list_all2_lengthD)
    have "session_ok st rk pl ?se" "cs_stage ?se = Finished" "cs_result ?se = Some (Inr (rs ! k))"
      using ret k len by (auto simp: all_returned_def executing_def group_ok_def list_all2_conv_all_nth)
    then obtain u where "session_result st pl u ?se = Inr (rs ! k)" by (rule finished_result)
    moreover have "cs_task ?se = tasks ! k" using sh k len by (metis nth_map)
    ultimately show ?thesis using session_result_kind[of st pl u ?se "rs ! k"] tasks k len by auto
  qed
  have "length tasks = length rs" using ret sh by (auto simp: all_returned_def dest: list_all2_lengthD)
  then show ?thesis using each by (auto simp: list_eq_iff_nth_eq list_all_length)
qed


definition sample_task :: "((sample_world, nat) sys, nat) ReplayChildTask" where
  "sample_task = \<lparr>ct_child_id = ''c1'', ct_target_branch_id = ''b1'', ct_minimum_fidelity = EXACT,
     ct_execute = (\<lambda>_. ret 7), ct_intent = PMap []\<rparr>"


fun risk_cleared :: "'o child_outcome \<Rightarrow> bool" where
  "risk_cleared (ChildFailure _) = True"
| "risk_cleared (ChildResult r) = (case (xr_intent_assessment r, xr_outcome_assessment r) of
     (Some a, Some b) \<Rightarrow> ra_disposition a = RISK_ALLOW \<and> ra_disposition b = RISK_ALLOW | _ \<Rightarrow> False)"

lemma all_returned_risk_cleared:
  assumes ret: "all_returned st True pl g0 rs g" and mem: "x \<in> set rs"
  shows "risk_cleared x"
proof (cases x)
  case (ChildResult r)
  obtain k where k: "k < length rs" "rs ! k = ChildResult r" using mem ChildResult by (metis in_set_conv_nth)
  let ?se = "gr_prepared g ! k"
  have ok: "session_ok st True pl ?se" "cs_stage ?se = Finished" "cs_result ?se = Some (Inr (ChildResult r))"
    using ret k by (auto simp: all_returned_def executing_def group_ok_def list_all2_conv_all_nth)
  then obtain u where res: "session_result st pl u ?se = Inr (ChildResult r)" by (rule finished_result)
  have "cs_execution_error ?se = None \<and> xr_intent_assessment r = cs_intent_assessment ?se \<and>
      xr_outcome_assessment r = cs_outcome_assessment ?se"
    using res by (auto simp: session_result_def res_iff split: option.splits if_splits)
  with ok show ?thesis by (auto simp: ChildResult session_ok_def allowed_def)
qed simp

text \<open>C6: the risk gate.  When the adapter assesses risk, every success an isolated group
  returns carries an intent assessment and an outcome assessment that both allowed it.\<close>

theorem child_results_risk_allowed:
  "case isolated_children R sched e i tasks par mw st True (empty_group s) of
     (Inr rs, g) \<Rightarrow> list_all risk_cleared rs | (Inl _, g) \<Rightarrow> aborted i g"
proof -
  have "wp (isolated_children R sched e i tasks par mw st True) (\<lambda>rs g. list_all risk_cleared rs)
     (\<lambda>_. aborted i) (empty_group s)"
    by (rule wp_mono[OF wp_isolated_children]) (auto simp: list_all_iff intro: all_returned_risk_cleared)
  then show ?thesis by (auto simp: wp_def split: prod.splits sum.splits)
qed

end
