(* ===== verification/Counterfactual.thy ===== *)
theory Counterfactual
  imports Child_Replay
begin

text \<open>
  \<open>src/loopx/capabilities/explore/counterfactual_runtime.py\<close>: replaying a changed suffix from the
  nearest replay point and deciding on its promotion by the validations it fixes and guards.

  The outcome of a suffix is what its callback returns: a mapping from validation ids to booleans,
  constructed \<open>ValidationOutcome\<close> objects or other objects, or no mapping at all.  The trace a run is
  given is an address of the registry's logs, read again where the source reads it again.
\<close>

section \<open>Validations, hypotheses and candidates\<close>

datatype CounterfactualDecision = PROMOTED | REJECTED | OBSERVED_ONLY

fun CounterfactualDecision_value :: "CounterfactualDecision \<Rightarrow> string" where
  "CounterfactualDecision_value PROMOTED = ''promoted''"
| "CounterfactualDecision_value REJECTED = ''rejected''"
| "CounterfactualDecision_value OBSERVED_ONLY = ''observed_only''"

record ValidationTarget =
  vt_validation_id :: string
  vt_baseline_passed :: bool

definition ValidationTarget_post_init :: "ValidationTarget \<Rightarrow> ValidationTarget res" where
  "ValidationTarget_post_init t =
     rbind (require_nonempty_text (vt_validation_id t) ''validation_id'') (\<lambda>i.
     Inr (t\<lparr>vt_validation_id := i\<rparr>))"

record ValidationOutcome =
  vo_validation_id :: string
  vo_passed :: bool
  vo_public_summary :: "string option"

definition ValidationOutcome_post_init :: "ValidationOutcome \<Rightarrow> ValidationOutcome res" where
  "ValidationOutcome_post_init v =
     rbind (require_nonempty_text (vo_validation_id v) ''validation_id'') (\<lambda>i.
     rbind (optional_public_text ''public_summary'' ''validation_outcome'' (vo_public_summary v)) (\<lambda>p.
     Inr (v\<lparr>vo_validation_id := i, vo_public_summary := p\<rparr>)))"

record CounterfactualHypothesis =
  hy_hypothesis_id :: string
  hy_first_affected_event_id :: string
  hy_first_affected_sequence :: int
  hy_fix_set :: "ValidationTarget list"
  hy_guard_set :: "ValidationTarget list"
  hy_minimum_fidelity :: ReplayFidelity

definition CounterfactualHypothesis_post_init :: "CounterfactualHypothesis \<Rightarrow> CounterfactualHypothesis res" where
  "CounterfactualHypothesis_post_init h =
     rbind (require_nonempty_text (hy_hypothesis_id h) ''hypothesis_id'') (\<lambda>i.
     rbind (require_nonempty_text (hy_first_affected_event_id h) ''first_affected_event_id'') (\<lambda>e.
     rbind (check (0 \<le> hy_first_affected_sequence h)
              (ValueError ''first_affected_sequence must be non-negative'')) (\<lambda>_.
     rbind (check (hy_fix_set h \<noteq> [])
              (ValueError ''fix_set must contain at least one failed baseline target'')) (\<lambda>_.
     rbind (check (hy_guard_set h \<noteq> [])
              (ValueError ''guard_set must contain at least one passing baseline target'')) (\<lambda>_.
     rbind (check (\<not> list_ex vt_baseline_passed (hy_fix_set h))
              (ValueError ''fix_set targets must fail in the baseline'')) (\<lambda>_.
     rbind (check (\<not> list_ex (\<lambda>t. \<not> vt_baseline_passed t) (hy_guard_set h))
              (ValueError ''guard_set targets must pass in the baseline'')) (\<lambda>_.
     rbind (check (distinct (map vt_validation_id (hy_fix_set h @ hy_guard_set h)))
              (ValueError ''fix_set and guard_set validation ids must be unique'')) (\<lambda>_.
     rbind (check (hy_minimum_fidelity h \<noteq> NON_REPLAYABLE)
              (ValueError ''counterfactual replay requires a replayable fidelity'')) (\<lambda>_.
     Inr (h\<lparr>hy_hypothesis_id := i, hy_first_affected_event_id := e\<rparr>))))))))))"

record CounterfactualCandidate =
  ca_candidate_id :: string
  ca_public_change_set :: pyval

definition CounterfactualCandidate_post_init :: "CounterfactualCandidate \<Rightarrow> CounterfactualCandidate res" where
  "CounterfactualCandidate_post_init c =
     rbind (require_nonempty_text (ca_candidate_id c) ''candidate_id'') (\<lambda>i.
     rbind (freeze_public_mapping (ca_public_change_set c) ''public_change_set'') (\<lambda>m.
     Inr (c\<lparr>ca_candidate_id := i, ca_public_change_set := m\<rparr>)))"

record CounterfactualReplayRequest =
  cq_hypothesis_id :: string
  cq_candidate_id :: string
  cq_replay_point :: ReplayPoint
  cq_first_affected_event_id :: string
  cq_first_affected_sequence :: int
  cq_public_change_set :: pyval

datatype raw_outcome = RawBool bool | RawOutcome ValidationOutcome | RawOther

datatype raw_outcomes = RawMapping "raw_outcome dict" | RawNoMapping

record 's CounterfactualChildCandidate =
  cc_candidate :: CounterfactualCandidate
  cc_target_branch_id :: string
  cc_execute_suffix ::
    "ReplayChildExecutionContext \<Rightarrow> CounterfactualReplayRequest \<Rightarrow> ('s, raw_outcomes) act"
  cc_intent :: pyval

definition CounterfactualChildCandidate_post_init ::
  "'s CounterfactualChildCandidate \<Rightarrow> 's CounterfactualChildCandidate res" where
  "CounterfactualChildCandidate_post_init c =
     rbind (require_nonempty_text (cc_target_branch_id c) ''target_branch_id'') (\<lambda>b.
     rbind (freeze_public_mapping (cc_intent c) ''counterfactual_child_intent'') (\<lambda>m.
     Inr (c\<lparr>cc_target_branch_id := b, cc_intent := m\<rparr>)))"

section \<open>Results\<close>

record CounterfactualReplayResult =
  cv_hypothesis_id :: string
  cv_candidate_id :: string
  cv_replay_point_id :: string
  cv_restore :: ReplayRestoreResult
  cv_decision :: CounterfactualDecision
  cv_outcomes :: "ValidationOutcome list"
  cv_missing_validations :: "string list"
  cv_failed_fixes :: "string list"
  cv_regressed_guards :: "string list"
  cv_addressed_prefix_event_count :: int
  cv_avoided_prefix_event_count :: int
  cv_verified_reused_prefix_event_count :: int
  cv_replay_distance_events :: int
  cv_reason :: string

definition promoted :: "CounterfactualReplayResult \<Rightarrow> bool" where
  "promoted r = (cv_decision r = PROMOTED)"

abbreviation py_texts :: "string list \<Rightarrow> pyval" where
  "py_texts xs \<equiv> PList (map PStr xs)"

definition CounterfactualReplayResult_to_record :: "CounterfactualReplayResult \<Rightarrow> pyval" where
  "CounterfactualReplayResult_to_record r = PMap
    [(KStr ''hypothesis_id'', PStr (cv_hypothesis_id r)),
     (KStr ''candidate_id'', PStr (cv_candidate_id r)),
     (KStr ''replay_point_id'', PStr (cv_replay_point_id r)),
     (KStr ''restore'', ReplayRestoreResult_to_record (cv_restore r)),
     (KStr ''decision'', PStr (CounterfactualDecision_value (cv_decision r))),
     (KStr ''outcomes'', PList (map (\<lambda>v. PMap
        [(KStr ''validation_id'', PStr (vo_validation_id v)),
         (KStr ''passed'', PBool (vo_passed v)),
         (KStr ''public_summary'', py_opt_str (vo_public_summary v))]) (cv_outcomes r))),
     (KStr ''missing_validations'', py_texts (cv_missing_validations r)),
     (KStr ''failed_fixes'', py_texts (cv_failed_fixes r)),
     (KStr ''regressed_guards'', py_texts (cv_regressed_guards r)),
     (KStr ''addressed_prefix_event_count'', PInt (cv_addressed_prefix_event_count r)),
     (KStr ''avoided_prefix_event_count'', PInt (cv_avoided_prefix_event_count r)),
     (KStr ''verified_reused_prefix_event_count'', PInt (cv_verified_reused_prefix_event_count r)),
     (KStr ''replay_distance_events'', PInt (cv_replay_distance_events r)),
     (KStr ''reason'', PStr (cv_reason r))]"

record CounterfactualChildCandidateResult =
  cg_candidate_id :: string
  cg_replay_result :: "CounterfactualReplayResult option"
  cg_execution_result :: "raw_outcomes ReplayChildExecutionResult option"
  cg_execution_failure :: "ReplayChildExecutionFailure option"

definition CounterfactualChildCandidateResult_post_init ::
  "CounterfactualChildCandidateResult \<Rightarrow> CounterfactualChildCandidateResult res" where
  "CounterfactualChildCandidateResult_post_init r =
     rbind (require_nonempty_text (cg_candidate_id r) ''candidate_id'') (\<lambda>i.
     rbind (check ((cg_replay_result r = None) \<noteq> (cg_execution_failure r = None))
              (ValueError ''exactly one replay_result or execution_failure is required'')) (\<lambda>_.
     rbind (check ((cg_replay_result r = None) = (cg_execution_result r = None))
              (ValueError ''replay_result and execution_result must be present together'')) (\<lambda>_.
     Inr (r\<lparr>cg_candidate_id := i\<rparr>))))"

definition evaluated :: "CounterfactualChildCandidateResult \<Rightarrow> bool" where
  "evaluated r = (cg_replay_result r \<noteq> None)"

definition CounterfactualChildCandidateResult_to_record :: "CounterfactualChildCandidateResult \<Rightarrow> pyval" where
  "CounterfactualChildCandidateResult_to_record r = PMap
    [(KStr ''candidate_id'', PStr (cg_candidate_id r)),
     (KStr ''status'', PStr (if evaluated r then ''evaluated'' else ''execution_failed'')),
     (KStr ''replay_result'', case cg_replay_result r of
        None \<Rightarrow> PNone | Some x \<Rightarrow> CounterfactualReplayResult_to_record x),
     (KStr ''execution_result'', case cg_execution_result r of
        None \<Rightarrow> PNone | Some x \<Rightarrow> ReplayChildExecutionResult_to_record x),
     (KStr ''execution_failure'', case cg_execution_failure r of
        None \<Rightarrow> PNone | Some x \<Rightarrow> ReplayChildExecutionFailure_to_record x)]"

record CounterfactualChildGroupResult =
  gg_hypothesis_id :: string
  gg_replay_point_id :: string
  gg_candidates :: "CounterfactualChildCandidateResult list"
  gg_parallel_requested :: bool

definition CounterfactualChildGroupResult_to_record :: "CounterfactualChildGroupResult \<Rightarrow> pyval" where
  "CounterfactualChildGroupResult_to_record g = PMap
    [(KStr ''hypothesis_id'', PStr (gg_hypothesis_id g)),
     (KStr ''replay_point_id'', PStr (gg_replay_point_id g)),
     (KStr ''parallel_requested'', PBool (gg_parallel_requested g)),
     (KStr ''candidate_count'', PInt (int (length (gg_candidates g)))),
     (KStr ''evaluated_count'', PInt (count_where evaluated (gg_candidates g))),
     (KStr ''execution_failure_count'', PInt (count_where (\<lambda>c. \<not> evaluated c) (gg_candidates g))),
     (KStr ''candidates'', PList (map CounterfactualChildCandidateResult_to_record (gg_candidates g)))]"

section \<open>The promotion contract\<close>

definition normalize_one :: "string \<times> raw_outcome \<Rightarrow> ValidationOutcome res" where
  "normalize_one item = (case item of (raw_id, raw) \<Rightarrow>
     rbind (require_nonempty_text raw_id ''validation_id'') (\<lambda>validation_id.
     case raw of
       RawOutcome v \<Rightarrow> rbind (check (vo_validation_id v = validation_id)
           (ValueError ''validation outcome key must match its validation_id'')) (\<lambda>_. Inr v)
     | RawBool b \<Rightarrow> ValidationOutcome_post_init
           \<lparr>vo_validation_id = validation_id, vo_passed = b, vo_public_summary = None\<rparr>
     | RawOther \<Rightarrow> Inl (TypeError ''validation outcomes must be bool or ValidationOutcome values'')))"

definition normalize_validation_outcomes :: "raw_outcomes \<Rightarrow> ValidationOutcome list res" where
  "normalize_validation_outcomes raw = (case raw of
     RawNoMapping \<Rightarrow> Inl (TypeError ''counterfactual suffix execution must return a validation mapping'')
   | RawMapping items \<Rightarrow> rmap normalize_one items)"

text \<open>\<open>by_id\<close>: in a dictionary comprehension the last outcome of an id stays.\<close>

definition by_id :: "ValidationOutcome list \<Rightarrow> string \<Rightarrow> ValidationOutcome option" where
  "by_id outcomes = map_of (rev (map (\<lambda>v. (vo_validation_id v, v)) outcomes))"

definition failing :: "ValidationOutcome list \<Rightarrow> ValidationTarget list \<Rightarrow> string list" where
  "failing outcomes targets = map vt_validation_id (filter (\<lambda>t.
     case by_id outcomes (vt_validation_id t) of None \<Rightarrow> False | Some v \<Rightarrow> \<not> vo_passed v) targets)"

definition missing :: "ValidationOutcome list \<Rightarrow> CounterfactualHypothesis \<Rightarrow> string list" where
  "missing outcomes h = filter (\<lambda>i. by_id outcomes i = None)
     (map vt_validation_id (hy_fix_set h @ hy_guard_set h))"

definition decide :: "bool \<Rightarrow> string list \<Rightarrow> string list \<Rightarrow> string list \<Rightarrow> CounterfactualDecision \<times> string" where
  "decide eligible miss failed regressed =
     (if \<not> eligible then (OBSERVED_ONLY, ''restore fidelity or equivalence is insufficient for promotion'')
      else if miss \<noteq> [] then (REJECTED, ''required validation outcomes are missing'')
      else if failed \<noteq> [] then (REJECTED, ''one or more fix targets remain failing'')
      else if regressed \<noteq> [] then (REJECTED, ''one or more guard targets regressed'')
      else (PROMOTED, ''all fix targets passed and no guard target regressed''))"

definition check_affected :: "TraceLog \<Rightarrow> CounterfactualHypothesis \<Rightarrow> unit res" where
  "check_affected trace h =
     rbind (TraceLog_event trace (hy_first_affected_event_id h)) (\<lambda>ev.
     check (te_sequence ev = hy_first_affected_sequence h)
       (ValueError ''first affected event sequence does not match the addressable trace''))"

definition evaluate_counterfactual_candidate ::
  "TraceLog \<Rightarrow> CounterfactualHypothesis \<Rightarrow> CounterfactualCandidate \<Rightarrow> ReplayPoint \<Rightarrow>
   ReplayRestoreResult \<Rightarrow> raw_outcomes \<Rightarrow> CounterfactualReplayResult res" where
  "evaluate_counterfactual_candidate trace h candidate point restore raw =
     rbind (check_affected trace h) (\<lambda>_.
     rbind (check (tc_trace_id (rp_cursor point) = tl_trace_id trace)
              (ValueError ''ReplayPoint trace does not match the hypothesis trace'')) (\<lambda>_.
     rbind (check (tc_branch_id (rp_cursor point) = tl_branch_id trace)
              (ValueError ''ReplayPoint branch does not match the hypothesis trace'')) (\<lambda>_.
     rbind (check (\<not> tc_next_sequence (rp_cursor point) > hy_first_affected_sequence h)
              (ValueError ''ReplayPoint must precede the first affected event'')) (\<lambda>_.
     rbind (check (rs_replay_point_id restore = rp_replay_point_id point)
              (ValueError ''restore result does not belong to the ReplayPoint'')) (\<lambda>_.
     rbind (normalize_validation_outcomes raw) (\<lambda>outcomes.
     let miss = missing outcomes h;
         failed = failing outcomes (hy_fix_set h);
         regressed = failing outcomes (hy_guard_set h);
         dec = decide (rs_promotion_eligible restore) miss failed regressed;
         addressed = tc_next_sequence (rp_cursor point) in
     Inr \<lparr>cv_hypothesis_id = hy_hypothesis_id h, cv_candidate_id = ca_candidate_id candidate,
          cv_replay_point_id = rp_replay_point_id point, cv_restore = restore,
          cv_decision = fst dec, cv_outcomes = outcomes, cv_missing_validations = miss,
          cv_failed_fixes = failed, cv_regressed_guards = regressed,
          cv_addressed_prefix_event_count = addressed, cv_avoided_prefix_event_count = addressed,
          cv_verified_reused_prefix_event_count =
            (if rs_prefix_reused restore = Some True then addressed else 0),
          cv_replay_distance_events =
            max 0 (hy_first_affected_sequence h - tc_next_sequence (rp_cursor point)),
          cv_reason = snd dec\<rparr>))))))"

section \<open>Runs\<close>

text \<open>The common start of both runs: the affected event is checked and a point selected.\<close>

definition select_for ::
  "nat \<Rightarrow> CounterfactualHypothesis \<Rightarrow> (('w, 'o) sys, ReplayPoint) act" where
  "select_for addr h =
     bnd (gets (\<lambda>s. sy_traces s addr)) (\<lambda>trace.
     seq (of_res (check_affected trace h))
     (select_before (tl_trace_id trace) (tl_branch_id trace) (hy_first_affected_sequence h)
        (hy_minimum_fidelity h)))"

definition replay_request ::
  "CounterfactualHypothesis \<Rightarrow> CounterfactualCandidate \<Rightarrow> ReplayPoint \<Rightarrow> CounterfactualReplayRequest" where
  "replay_request h c point =
     \<lparr>cq_hypothesis_id = hy_hypothesis_id h, cq_candidate_id = ca_candidate_id c, cq_replay_point = point,
      cq_first_affected_event_id = hy_first_affected_event_id h,
      cq_first_affected_sequence = hy_first_affected_sequence h,
      cq_public_change_set = ca_public_change_set c\<rparr>"

definition task_for ::
  "CounterfactualHypothesis \<Rightarrow> ReplayPoint \<Rightarrow> 's CounterfactualChildCandidate \<Rightarrow> ('s, raw_outcomes) ReplayChildTask res" where
  "task_for h point spec = ReplayChildTask_post_init
     \<lparr>ct_child_id = ca_candidate_id (cc_candidate spec), ct_target_branch_id = cc_target_branch_id spec,
      ct_minimum_fidelity = hy_minimum_fidelity h,
      ct_execute = (\<lambda>context. cc_execute_suffix spec context (replay_request h (cc_candidate spec) point)),
      ct_intent = cc_intent spec\<rparr>"

definition specs_by_id ::
  "'s CounterfactualChildCandidate list \<Rightarrow> string \<Rightarrow> 's CounterfactualChildCandidate option" where
  "specs_by_id candidates = map_of (rev (map (\<lambda>c. (ca_candidate_id (cc_candidate c), c)) candidates))"

definition settle_candidate ::
  "TraceLog \<Rightarrow> CounterfactualHypothesis \<Rightarrow> ReplayPoint \<Rightarrow> 's CounterfactualChildCandidate list \<Rightarrow>
   raw_outcomes child_outcome \<Rightarrow> CounterfactualChildCandidateResult res" where
  "settle_candidate trace h point candidates child =
     (let child_id = (case child of ChildResult r \<Rightarrow> xr_child_id r | ChildFailure f \<Rightarrow> xf_child_id f) in
      case specs_by_id candidates child_id of
        None \<Rightarrow> Inl (KeyError child_id)
      | Some spec \<Rightarrow> (case child of
          ChildFailure f \<Rightarrow> CounterfactualChildCandidateResult_post_init
            \<lparr>cg_candidate_id = xf_child_id f, cg_replay_result = None, cg_execution_result = None,
             cg_execution_failure = Some f\<rparr>
        | ChildResult r \<Rightarrow>
            rbind (evaluate_counterfactual_candidate trace h (cc_candidate spec) point
                     (xr_restore r) (xr_outcome r)) (\<lambda>v.
            CounterfactualChildCandidateResult_post_init
              \<lparr>cg_candidate_id = xr_child_id r, cg_replay_result = Some v,
               cg_execution_result = Some r, cg_execution_failure = None\<rparr>)))"

definition run_counterfactual_child_group ::
  "'w registry_host \<Rightarrow> nat list \<Rightarrow> nat \<Rightarrow> CounterfactualHypothesis \<Rightarrow>
   ('w, raw_outcomes) sys CounterfactualChildCandidate list \<Rightarrow> bool \<Rightarrow> int option \<Rightarrow>
   (('w, raw_outcomes) sys, CounterfactualChildGroupResult) act" where
  "run_counterfactual_child_group R schedule addr h candidates par max_workers =
     (if candidates = [] then raise (ValueError ''counterfactual child group requires at least one candidate'')
      else bnd (select_for addr h) (\<lambda>point.
      bnd (of_res (rmap (task_for h point) candidates)) (\<lambda>tasks.
      bnd (run_child_group_from R schedule (rp_replay_point_id point) tasks par max_workers True) (\<lambda>settled.
      bnd (gets (\<lambda>s. sy_traces s addr)) (\<lambda>trace.
      bnd (of_res (rmap (settle_candidate trace h point candidates) settled)) (\<lambda>results.
      ret \<lparr>gg_hypothesis_id = hy_hypothesis_id h, gg_replay_point_id = rp_replay_point_id point,
           gg_candidates = results, gg_parallel_requested = par\<rparr>))))))"

definition run_counterfactual_suffix_replay ::
  "'w registry_host \<Rightarrow> nat \<Rightarrow> CounterfactualHypothesis \<Rightarrow> CounterfactualCandidate \<Rightarrow>
   (CounterfactualReplayRequest \<Rightarrow> (('w, raw_outcomes) sys, raw_outcomes) act) \<Rightarrow>
   (('w, raw_outcomes) sys, CounterfactualReplayResult) act" where
  "run_counterfactual_suffix_replay R addr h candidate execute_suffix =
     bnd (select_for addr h) (\<lambda>point.
     let request = replay_request h candidate point in
     bnd (run_from R (rp_replay_point_id point) (''counterfactual-'' @ ca_candidate_id candidate)
            (hy_minimum_fidelity h) (\<lambda>_. execute_suffix request)) (\<lambda>(restore, raw).
     bnd (gets (\<lambda>s. sy_traces s addr)) (\<lambda>trace.
     of_res (evaluate_counterfactual_candidate trace h candidate point restore raw))))"

end
