(* ===== verification/Registry_Reach.thy ===== *)
theory Registry_Reach
  imports Child_Properties Counterfactual
begin

text \<open>
  The registry as a state machine: which states the operations of the registry, its child groups
  and the counterfactual runs can lead to, also when the callbacks they run call back into the
  registry.  Every invariant of the registry operations is an invariant of the reachable states:
  shown for the consistency of the entries with the logs and for the history, that is, what
  no operation ever takes back.
\<close>

section \<open>Child groups keep registry invariants\<close>

text \<open>A predicate of the registry, lifted to a group whose tasks respect it.\<close>

definition group_inv :: "(('w, 'o) sys \<Rightarrow> bool) \<Rightarrow> nat \<Rightarrow> ('w, 'o) grp \<Rightarrow> bool" where
  "group_inv I n g \<longleftrightarrow> I (gr_sys g) \<and> length (gr_prepared g) = n \<and>
     (\<forall>se \<in> set (gr_prepared g). \<forall>c. keeps I (ct_execute (cs_task se) c))"

lemma keeps_on_sys: "keeps I m \<Longrightarrow> keeps (group_inv I n) (on_sys m)"
  by (auto simp: keeps_def on_sys_def group_inv_def split: prod.splits)

lemma keeps_upd_session:
  assumes "\<And>x. cs_task (f x) = cs_task x"
  shows "keeps (group_inv I n) (upd_session j f)"
proof -
  have "cs_task se \<in> cs_task ` set xs" if "se \<in> set (xs[j := f (xs ! j)])" for se xs
  proof (cases "j < length xs")
    case True
    have "se = f (xs ! j) \<or> se \<in> set xs" using that set_update_subset_insert[of xs j "f (xs ! j)"] by blast
    then show ?thesis using assms nth_mem[OF True] by (metis imageI)
  qed (use that in \<open>simp add: list_update_beyond\<close>)
  then show ?thesis unfolding keeps_wp wp_upd_session group_inv_def by fastforce
qed

lemma group_task: "group_inv I n g \<Longrightarrow> j < n \<Longrightarrow> keeps I (ct_execute (cs_task (gr_prepared g ! j)) c)"
  by (simp add: group_inv_def)

lemma keeps_bnd_gets: "(\<And>s. P s \<Longrightarrow> keeps P (m (f s))) \<Longrightarrow> keeps P (bnd (gets f) m)"
  by (auto simp: keeps_wp)

lemma keeps_bnd_of_res: "(\<And>x. r = Inr x \<Longrightarrow> keeps P (f x)) \<Longrightarrow> keeps P (bnd (of_res r) f)"
  by (cases r) (auto simp: keeps_def bnd_def of_res_def)

lemma keeps_flag: "(\<And>g. gr_sys (f g) = gr_sys g \<and> gr_prepared (f g) = gr_prepared g) \<Longrightarrow>
    keeps (group_inv I n) (modify f)"
  by (simp add: keeps_wp group_inv_def)

lemma keeps_require_instance_any: "keeps P (require_instance m r)"
  unfolding require_instance_def by (auto split: foreign.splits intro: keeps_intros)

context registry_invariant begin

lemmas keeps_lifted = keeps_on_sys keeps_upd_session keeps_flag keeps_structural keeps_require_instance_any

lemma keeps_cleanup: "keeps (group_inv I n) (cleanup e j)"
  unfolding cleanup_def Let_def
  by (intro keeps_intros keeps_lifted)
    (auto split: option.splits intro!: keeps_intros keeps_lifted)

lemma keeps_assess_intent: "keeps (group_inv I n) (assess_intent e rk se)"
  unfolding assess_intent_def by (intro keeps_intros keeps_lifted)

lemma keeps_assess_outcome: "keeps (group_inv I n) (assess_outcome e rk se out)"
  unfolding assess_outcome_def by (intro keeps_intros keeps_lifted) simp

lemma keeps_step_try:
  assumes "keeps (group_inv I n) body" "\<And>v x. cs_task (nxt v x) = cs_task x"
  shows "keeps (group_inv I n) (step_try j body nxt)"
  unfolding step_try_def
  by (intro keeps_intros assms(1)) (auto split: sum.splits intro!: keeps_upd_session simp: assms(2))

lemma keeps_session_step:
  assumes "j < n"
  shows "keeps (group_inv I n) (session_step R e st rk pl j)"
  unfolding session_step_def
  by (rule keeps_bnd_gets)
    (auto split: child_stage.splits intro!: keeps_intros keeps_step_try keeps_assess_intent
        keeps_assess_outcome keeps_cleanup keeps_lifted group_task[OF _ assms])

lemma keeps_run_to_end: "j < n \<Longrightarrow> keeps (group_inv I n) (run_to_end R e st rk pl j)"
  unfolding run_to_end_def by (intro keeps_intros keeps_session_step)

lemma keeps_execute_group: "keeps (group_inv I n) (execute_group R sched e par st rk mw)"
proof -
  have count: "keeps (group_inv I n) (count_parallelism par)"
    unfolding count_parallelism_def Let_def by (intro keeps_intros keeps_lifted)
  have serial: "keeps (group_inv I n) (mapA (execute_session R e st rk False) [0 ..< n])"
    unfolding execute_session_def by (intro keeps_intros keeps_run_to_end) simp
  have pool: "keeps (group_inv I n) (if worker_count mw n \<le> 0 then raise (ValueError ''max_workers must be greater than 0'') else
       seq (mapA (session_step R e st rk True) (filter (\<lambda>j. j < n) sched))
       (seq (mapA (run_to_end R e st rk True) [0 ..< n])
       (bnd (gets gr_prepared) (\<lambda>prepared. of_res (rmap (\<lambda>se. the (cs_result se)) prepared)))))"
    by (intro keeps_intros keeps_run_to_end keeps_session_step) auto
  have "keeps (group_inv I n) (execute_parallel R sched e st rk mw)" "keeps (group_inv I n) (execute_serial R e st rk)"
    unfolding execute_parallel_def execute_serial_def
    using pool serial by (auto intro!: keeps_bnd_gets simp: group_inv_def)
  then show ?thesis unfolding execute_group_def by (intro keeps_intros count)
qed

lemma keeps_group_abort: "keeps (group_inv I n) (group_abort e i x)"
  unfolding group_abort_def cleanup_all_def
  by (intro keeps_intros keeps_cleanup keeps_on_sys keeps_quarantine)

text \<open>Preparation lengthens the list of sessions.\<close>

definition some_group :: "('w, 'o) grp \<Rightarrow> bool" where
  "some_group g \<longleftrightarrow> (\<exists>n. group_inv I n g)"

lemma some_groupI: "(\<And>n. keeps (group_inv I n) m) \<Longrightarrow> keeps some_group m"
  by (auto simp: keeps_def some_group_def)

lemma keeps_prepare_one:
  assumes "\<And>c. keeps I (ct_execute task c)"
  shows "keeps some_group (prepare_one R e i task)"
proof -
  have add: "keeps some_group (modify (\<lambda>g. g\<lparr>gr_prepared := gr_prepared g @ [new_session task l m]\<rparr>))" for l m
    using assms by (auto simp: keeps_def[of some_group] modify_def some_group_def group_inv_def new_session_def)
  have lift: "keeps some_group (on_sys m)" if "keeps I m" for m :: "(('w, 'o) sys, 'z) act"
    by (rule some_groupI) (rule keeps_on_sys[OF that])
  have upd: "keeps some_group (upd_session j f)" if "\<And>x. cs_task (f x) = cs_task x" for j f
    by (rule some_groupI) (rule keeps_upd_session[OF that])
  note rules = keeps_intros lift upd add keeps_structural keeps_require_instance_any
  show ?thesis
    unfolding prepare_one_def fork_child_def fork_agent_def validate_child_def Let_def
    by (intro rules) (auto split: option.splits intro!: rules)
qed

lemma keeps_isolated_children:
  assumes "\<And>t c. t \<in> set tasks \<Longrightarrow> keeps I (ct_execute t c)"
  shows "keeps some_group (isolated_children R sched e i tasks par mw st rk)"
proof -
  have all: "keeps some_group (mapA (prepare_one R e i) tasks)"
    by (intro keeps_mapA keeps_prepare_one assms)
  have fail: "keeps some_group (on_sys (metric f))" for f
    by (rule some_groupI) (intro keeps_lifted)
  show ?thesis unfolding isolated_children_def
    by (intro keeps_intros all)
      (auto split: sum.splits intro!: keeps_intros fail some_groupI[OF keeps_group_abort] some_groupI[OF keeps_execute_group])
qed

lemma keeps_with_group: "keeps some_group m \<Longrightarrow> keeps I (with_group m)"
  unfolding keeps_def with_group_def some_group_def group_inv_def
  by (auto split: prod.splits) (metis (no_types, lifting) grp.select_convs(1,2) list.set(1) empty_iff snd_conv)

lemma keeps_run_child_group:
  assumes "\<And>t c. t \<in> set tasks \<Longrightarrow> keeps I (ct_execute t c)"
  shows "keeps I (run_child_group_from R sched i tasks par mw st)"
proof -
  have fallback: "keeps I (serial_fallback R i tasks)"
    unfolding serial_fallback_def
    by (intro keeps_intros keeps_structural keeps_run_from assms) (auto intro!: keeps_intros)
  have count: "keeps I (count_results st rs)" for rs :: "'o child_outcome list"
    unfolding count_results_def Let_def by (intro keeps_intros keeps_structural)
  show ?thesis unfolding run_child_group_from_def child_group_body_def
    by (intro keeps_intros keeps_structural fallback count keeps_recheck_ready keeps_with_group
        keeps_isolated_children assms)
qed

end

section \<open>Reachable states\<close>

text \<open>What clients can do: append to a log, change the outside world, and call the registry; a
  callback handed to a replay or to a child group may again do any of this.\<close>

inductive evolves :: "'w registry_host \<Rightarrow> ('w, 'o) sys \<Rightarrow> ('w, 'o) sys \<Rightarrow> bool" for R where
  stay: "evolves R s s"
| trans: "evolves R s t \<Longrightarrow> evolves R t u \<Longrightarrow> evolves R s u"
| world: "evolves R s (s\<lparr>sy_world := w\<rparr>)"
| append: "append_unlocked ev (sy_traces s a) = Inr l \<Longrightarrow> evolves R s (s\<lparr>sy_traces := (sy_traces s)(a := l)\<rparr>)"
| capture: "evolves R s (snd (capture_at_head R a ac st ad rep s))"
| select: "evolves R s (snd (select_before tr br n m s))"
| release: "evolves R s (snd (release R i s))"
| run: "(\<And>rs u. evolves R u (snd (execute rs u))) \<Longrightarrow> evolves R s (snd (run_from R i b m execute s))"
| children: "(\<And>task c u. task \<in> set tasks \<Longrightarrow> evolves R u (snd (ct_execute task c u))) \<Longrightarrow>
    evolves R s (snd (run_child_group_from R sched i tasks par mw settle s))"

locale client_invariant = registry_invariant I for I :: "('w, 'o) sys \<Rightarrow> bool" +
  assumes appended: "I s \<Longrightarrow> append_unlocked ev (sy_traces s a) = Inr l \<Longrightarrow>
    I (s\<lparr>sy_traces := (sy_traces s)(a := l)\<rparr>)"
begin

lemma evolves_keeps: "evolves R s t \<Longrightarrow> I s \<Longrightarrow> I t"
proof (induction rule: evolves.induct)
  case (world s w)
  then show ?case by (auto intro: structural)
next
  case (run execute s i b m)
  then have "keeps I (execute rs)" for rs by (auto simp: keeps_def)
  from keeps_run_from[OF this] run show ?case by (auto simp: keeps_def)
next
  case (children tasks s sched i par mw st)
  then have "keeps I (ct_execute task c)" if "task \<in> set tasks" for task c using that by (auto simp: keeps_def)
  from keeps_run_child_group[OF this] children show ?case by (auto simp: keeps_def)
qed (use keeps_capture_at_head keeps_select_before keeps_release appended in \<open>auto simp: keeps_def\<close>)

end

interpretation consistency: client_invariant reg_inv
  by unfold_locales (rule reg_inv_append)

section \<open>What is never taken back\<close>

definition same_binding :: "('w, 'o) RuntimeReplayBinding \<Rightarrow> ('w, 'o) RuntimeReplayBinding \<Rightarrow> bool" where
  "same_binding e e' \<longleftrightarrow> (\<exists>lc. rb_point e' = (rb_point e)\<lparr>rp_lifecycle := lc\<rparr>) \<and>
     rb_agent_state_key e' = rb_agent_state_key e \<and> rb_adapter_binding_key e' = rb_adapter_binding_key e \<and>
     rb_agent_state_store e' = rb_agent_state_store e \<and> rb_adapter e' = rb_adapter e \<and>
     (rb_agent_released e \<longrightarrow> rb_agent_released e') \<and> (rb_adapter_released e \<longrightarrow> rb_adapter_released e')"

definition extends :: "('w, 'o) sys \<Rightarrow> ('w, 'o) sys \<Rightarrow> bool" where
  "extends s t \<longleftrightarrow>
     (\<forall>a. tl_trace_id (sy_traces t a) = tl_trace_id (sy_traces s a) \<and>
        tl_branch_id (sy_traces t a) = tl_branch_id (sy_traces s a) \<and>
        (\<exists>es. tl_events (sy_traces t a) = tl_events (sy_traces s a) @ es)) \<and>
     (\<forall>i e. dict_get (sy_entries s) i = Some e \<longrightarrow>
        (\<exists>e'. dict_get (sy_entries t) i = Some e' \<and> same_binding e e'))"

lemma same_binding_refl [simp]: "same_binding e e"
  unfolding same_binding_def by (auto intro: exI[of _ "rp_lifecycle (rb_point e)"])

lemma same_binding_trans: "same_binding e e' \<Longrightarrow> same_binding e' e'' \<Longrightarrow> same_binding e e''"
  unfolding same_binding_def by auto

lemma released_as_same: "released_as e b e' \<Longrightarrow> same_binding e e'"
  by (auto simp: released_as_def same_binding_def settle_lifecycle_def set_lifecycle_def)

lemma same_binding_failed: "same_binding e (set_lifecycle FAILED e)"
  by (auto simp: same_binding_def set_lifecycle_def)

lemma extends_refl [simp]: "extends s s"
  by (simp add: extends_def)

lemma extends_set:
  assumes "extends s t" "dict_get (sy_entries t) i = Some e" "same_binding e e'"
    and "sy_traces u = sy_traces t" "sy_entries u = dict_set i e' (sy_entries t)"
  shows "extends s u"
  using assms unfolding extends_def by (auto simp: dict_get_set) (metis same_binding_trans option.inject)

lemma extends_append:
  assumes "extends s t" "append_unlocked ev (sy_traces t a) = Inr l" "sy_traces u = (sy_traces t)(a := l)"
    and "\<And>i e. dict_get (sy_entries t) i = Some e \<Longrightarrow> dict_get (sy_entries u) i = Some e"
  shows "extends s u"
proof -
  have "tl_events l = tl_events (sy_traces t a) @ [ev]" "tl_trace_id l = tl_trace_id (sy_traces t a)"
    "tl_branch_id l = tl_branch_id (sy_traces t a)"
    using assms(2) by (auto simp: append_unlocked_Inr)
  moreover obtain es where "tl_events (sy_traces t a) = tl_events (sy_traces s a) @ es"
    using assms(1) unfolding extends_def by blast
  ultimately show ?thesis using assms(1,3,4) unfolding extends_def by (auto 4 3)
qed

lemma keeps_extends_release: "keeps (extends s) (release_body i)"
  unfolding keeps_wp
proof (intro allI impI)
  fix t
  assume t: "extends s t"
  show "wp (release_body i) (\<lambda>_. extends s) (\<lambda>_. extends s) t"
  proof (cases "dict_get (sy_entries t) i")
    case None
    then show ?thesis by (simp add: release_body_unknown t)
  next
    case (Some e)
    have "extends s u" if "rewrote i t e' u" "released_as e b e'" for u e' b
      using extends_set[OF t Some released_as_same[OF that(2)]] that(1) by (simp add: rewrote_def)
    then show ?thesis using t
      by (cases "rp_lifecycle (rb_point e) = RELEASED")
        (auto simp: release_body_again[OF Some] extends_def bump_def intro!: wp_release_body[OF Some])
  qed
qed

interpretation history: client_invariant "extends s"
proof
  show "extends s u" if "extends s t" "sy_traces u = sy_traces t" "sy_entries u = sy_entries t"
    for t u using that by (simp add: extends_def)
  show "keeps (extends s) (update_entry i (set_lifecycle FAILED))" for i
    unfolding keeps_wp wp_update_entry
    by (auto split: option.splits intro: extends_set[OF _ _ same_binding_failed])
  show "keeps (extends s) (release_body i)" for i by (rule keeps_extends_release)
  show "wp (capture_commit a c ev p rep rd st ad k l) (\<lambda>_. extends s) (\<lambda>_. extends s) t"
    if "extends s t" for t a c ev p rep rd st ad k l
  proof (rule wp_capture_commit)
    show "extends s u" if "sy_traces u = sy_traces t" "sy_entries u = sy_entries t" for u
      using that \<open>extends s t\<close> by (simp add: extends_def)
    show "extends s u" if "dict_get (sy_entries t) p = None" "append_unlocked ev' (sy_traces t a) = Inr l'"
      "sy_traces u = (sy_traces t)(a := l')" "sy_entries u = dict_set p e (sy_entries t)" for u ev' l' e
      by (rule extends_append[OF \<open>extends s t\<close> that(2,3)]) (use that(1,4) in \<open>auto simp: dict_get_set\<close>)
  qed
  show "extends s (t\<lparr>sy_traces := (sy_traces t)(a := l)\<rparr>)"
    if "extends s t" "append_unlocked ev (sy_traces t a) = Inr l" for t ev a l
    by (rule extends_append[OF that]) auto
qed

section \<open>Properties\<close>

lemma list_all2_in_right: "list_all2 P xs ys \<Longrightarrow> y \<in> set ys \<Longrightarrow> \<exists>x \<in> set xs. P x y"
  by (induction rule: list_all2_induct) auto

definition registry_start :: "(nat \<Rightarrow> TraceLog) \<Rightarrow> 'w \<Rightarrow> ('w, 'o) sys" where
  "registry_start traces w = \<lparr>sy_traces = traces, sy_entries = [], sy_ledger = ledger_init, sy_world = w\<rparr>"

text \<open>C13: consistency of every reachable state.  From an empty registry over well-formed logs,
  whatever clients, callbacks, adapters and stores do, every entry agrees with its lease and its
  lifecycle, every point is anchored at the lifecycle event that recorded its capture, and every
  log is well formed.\<close>

theorem reachable_consistent:
  assumes "evolves R (registry_start traces w) t" and "\<forall>a. trace_wf (traces a)"
  shows "reg_inv t"
  using consistency.evolves_keeps[OF assms(1)] assms(2) by (simp add: reg_inv_def registry_start_def)

lemma sample_sys_start: "sample_sys = registry_start (\<lambda>_. sample_log) ([], [])"
  by (simp add: sample_sys_def registry_start_def)

theorem reachable_consistent_witness: "reg_inv sample_captured"
proof (rule reachable_consistent[where R = sample_host and traces = "\<lambda>_. sample_log" and w = "([], [])"])
  show "evolves sample_host (registry_start (\<lambda>_. sample_log) ([], [])) sample_captured"
    unfolding sample_captured_def sample_sys_start[symmetric] by (rule evolves.capture)
qed (simp add: trace_sample_wf)

text \<open>C14: nothing recorded is taken back.  Along every sequence of registry operations, with
  callbacks that call the registry again, logs only grow at their end, an entry stays under its
  identifier with its point (but for the lifecycle), its keys and its providers, and a side once
  released stays released.\<close>

theorem registry_history:
  assumes "evolves R s t"
  shows "extends s t"
  using history.evolves_keeps[OF assms] by simp

theorem registry_history_witness:
  "extends sample_sys (snd (release sample_host ''p'' sample_captured))"
proof (rule registry_history)
  have "evolves sample_host sample_sys sample_captured"
    unfolding sample_captured_def by (rule evolves.capture)
  then show "evolves sample_host sample_sys (snd (release sample_host ''p'' sample_captured))"
    by (rule evolves.trans) (rule evolves.release)
qed

text \<open>Counterfactual runs act on the registry only through its operations: whatever their
  callbacks may lead to, every state a counterfactual run or a counterfactual child group ends in,
  returning or raising, is reached by registry operations and those callbacks.\<close>

theorem counterfactual_runs_evolve:
  assumes "\<forall>q u. evolves R u (snd (execute q u))"
    and "\<forall>cc \<in> set cs. \<forall>c q u. evolves R u (snd (cc_execute_suffix cc c q u))"
  shows "evolves R s (snd (run_counterfactual_suffix_replay R a h cand execute s)) \<and>
     evolves R s (snd (run_counterfactual_child_group R sched a h cs par mw s))"
proof -
  let ?E = "evolves R s"
  have sel: "keeps ?E (select_for a h)"
    unfolding select_for_def by (intro keeps_intros) (auto simp: keeps_def intro: evolves.intros)
  have run: "keeps ?E (run_from R i b m (\<lambda>_. execute q))" for i b m q
    unfolding keeps_def by (auto intro!: evolves.trans[OF _ evolves.run] simp: assms(1))
  have child: "keeps ?E (run_child_group_from R sched i tasks par mw True)"
    if "rmap (task_for h p) cs = Inr tasks" for i tasks p
  proof -
    have "\<exists>cc \<in> set cs. \<exists>q. \<forall>c. ct_execute task c = cc_execute_suffix cc c q" if mem: "task \<in> set tasks" for task
    proof -
      obtain cc where "cc \<in> set cs" "task_for h p cc = Inr task"
        using list_all2_in_right[OF _ mem] \<open>rmap (task_for h p) cs = Inr tasks\<close> unfolding rmap_Inr by blast
      then show ?thesis by (auto simp: task_for_def ReplayChildTask_post_init_def res_iff intro!: bexI[of _ cc])
    qed
    then have "evolves R u (snd (ct_execute task c u))" if "task \<in> set tasks" for task c u
      using that assms(2) by metis
    then show ?thesis unfolding keeps_def by (auto intro!: evolves.trans[OF _ evolves.children])
  qed
  have "keeps ?E (run_counterfactual_suffix_replay R a h cand execute)"
    unfolding run_counterfactual_suffix_replay_def Let_def
    by (intro keeps_intros sel run) (auto intro!: keeps_intros)
  moreover have "keeps ?E (run_counterfactual_child_group R sched a h cs par mw)"
    unfolding run_counterfactual_child_group_def
    by (rule keeps_if, rule keeps_raise, rule keeps_bnd, rule sel, rule keeps_bnd_of_res, rule keeps_bnd,
        erule child, intro keeps_intros)
  ultimately show ?thesis by (auto simp: keeps_def intro: evolves.stay)
qed

definition sample_hypothesis :: CounterfactualHypothesis where
  "sample_hypothesis = \<lparr>hy_hypothesis_id = ''h'', hy_first_affected_event_id = ''e2'',
     hy_first_affected_sequence = 2,
     hy_fix_set = [\<lparr>vt_validation_id = ''fix'', vt_baseline_passed = False\<rparr>],
     hy_guard_set = [\<lparr>vt_validation_id = ''guard'', vt_baseline_passed = True\<rparr>],
     hy_minimum_fidelity = EXACT\<rparr>"

definition sample_candidate :: CounterfactualCandidate where
  "sample_candidate = \<lparr>ca_candidate_id = ''c1'', ca_public_change_set = PMap []\<rparr>"

definition sample_raw :: raw_outcomes where
  "sample_raw = RawMapping [(''fix'', RawBool True), (''guard'', RawBool True)]"

definition sample_child_candidate :: "('w, raw_outcomes) sys CounterfactualChildCandidate" where
  "sample_child_candidate = \<lparr>cc_candidate = sample_candidate, cc_target_branch_id = ''b1'',
     cc_execute_suffix = (\<lambda>_ _. ret sample_raw), cc_intent = PMap []\<rparr>"

theorem counterfactual_runs_evolve_witness:
  "evolves sample_host (registry_start (\<lambda>_. sample_log) ([], [])) (snd (run_counterfactual_suffix_replay
       sample_host 0 sample_hypothesis sample_candidate (\<lambda>_. ret sample_raw) (registry_start (\<lambda>_. sample_log) ([], [])))) \<and>
     evolves sample_host (registry_start (\<lambda>_. sample_log) ([], [])) (snd (run_counterfactual_child_group
       sample_host [0] 0 sample_hypothesis [sample_child_candidate] True None (registry_start (\<lambda>_. sample_log) ([], []))))"
  by (rule counterfactual_runs_evolve) (simp_all add: sample_child_candidate_def ret_def evolves.stay)

end
