(* ===== verification/Counterfactual_Properties.thy ===== *)
theory Counterfactual_Properties
  imports Registry_Reach
begin

text \<open>
  What a counterfactual verdict means: the decision of an evaluation, the conditions under which a
  replay promotes a candidate, and the results of a counterfactual child group.
\<close>

section \<open>The verdict\<close>

text \<open>The validations passed: the last outcome recorded for the id says so.\<close>

definition validated :: "ValidationOutcome list \<Rightarrow> ValidationTarget \<Rightarrow> bool" where
  "validated outcomes t = (case by_id outcomes (vt_validation_id t) of None \<Rightarrow> False | Some v \<Rightarrow> vo_passed v)"

lemma all_validated:
  "missing outcomes h = [] \<and> failing outcomes (hy_fix_set h) = [] \<and> failing outcomes (hy_guard_set h) = []
    \<longleftrightarrow> (\<forall>t \<in> set (hy_fix_set h @ hy_guard_set h). validated outcomes t)"
  by (auto simp: missing_def failing_def validated_def filter_empty_conv split: option.splits)

lemma evaluate_Inr:
  assumes "evaluate_counterfactual_candidate trace h c p rs raw = Inr r"
  obtains ev outcomes where "TraceLog_event trace (hy_first_affected_event_id h) = Inr ev"
    "te_sequence ev = hy_first_affected_sequence h"
    "tc_trace_id (rp_cursor p) = tl_trace_id trace" "tc_branch_id (rp_cursor p) = tl_branch_id trace"
    "point_sequence p \<le> hy_first_affected_sequence h" "rs_replay_point_id rs = rp_replay_point_id p"
    "normalize_validation_outcomes raw = Inr outcomes" "cv_outcomes r = outcomes" "cv_restore r = rs"
    "cv_missing_validations r = missing outcomes h"
    "cv_failed_fixes r = failing outcomes (hy_fix_set h)"
    "cv_regressed_guards r = failing outcomes (hy_guard_set h)"
    "(cv_decision r, cv_reason r) = decide (rs_promotion_eligible rs) (missing outcomes h)
       (failing outcomes (hy_fix_set h)) (failing outcomes (hy_guard_set h))"
    "cv_addressed_prefix_event_count r = point_sequence p"
    "cv_replay_distance_events r = max 0 (hy_first_affected_sequence h - point_sequence p)"
    "cv_verified_reused_prefix_event_count r = (if rs_prefix_reused rs = Some True then point_sequence p else 0)"
    "cv_candidate_id r = ca_candidate_id c" "cv_replay_point_id r = rp_replay_point_id p"
  using assms
  by (auto simp: evaluate_counterfactual_candidate_def check_affected_def res_iff Let_def point_sequence_def)

lemma promoted_iff:
  assumes "evaluate_counterfactual_candidate trace h c p rs raw = Inr r"
  shows "cv_decision r = PROMOTED \<longleftrightarrow> rs_promotion_eligible rs \<and>
     (\<forall>t \<in> set (hy_fix_set h @ hy_guard_set h). validated (cv_outcomes r) t)"
proof -
  have "cv_decision r = PROMOTED \<longleftrightarrow> rs_promotion_eligible rs \<and> missing (cv_outcomes r) h = [] \<and>
      failing (cv_outcomes r) (hy_fix_set h) = [] \<and> failing (cv_outcomes r) (hy_guard_set h) = []"
    using assms by (elim evaluate_Inr) (auto simp: decide_def split: if_splits)
  then show ?thesis by (simp only: all_validated)
qed

text \<open>The promotion contract.  An evaluation that returns promotes exactly when the restore is
  eligible and every fix target and every guard target has a passing outcome; it only observes
  exactly when the restore is not eligible; the failed fixes and the regressed guards are targets
  with a failing outcome, the missing ones have none; and the prefix addressed and the distance
  replayed add up to the position of the first affected event.\<close>

theorem promotion_contract:
  assumes "evaluate_counterfactual_candidate trace h c p rs raw = Inr r"
  shows "(promoted r \<longleftrightarrow> rs_promotion_eligible rs \<and>
       (\<forall>t \<in> set (hy_fix_set h @ hy_guard_set h). validated (cv_outcomes r) t)) \<and>
     (cv_decision r = OBSERVED_ONLY \<longleftrightarrow> \<not> rs_promotion_eligible rs) \<and>
     set (cv_failed_fixes r @ cv_regressed_guards r @ cv_missing_validations r) =
       {vt_validation_id t | t. t \<in> set (hy_fix_set h @ hy_guard_set h) \<and> \<not> validated (cv_outcomes r) t} \<and>
     cv_addressed_prefix_event_count r + cv_replay_distance_events r = hy_first_affected_sequence h \<and>
     0 \<le> cv_replay_distance_events r"
proof -
  obtain outcomes where o: "cv_outcomes r = outcomes" "cv_missing_validations r = missing outcomes h"
      "cv_failed_fixes r = failing outcomes (hy_fix_set h)" "cv_regressed_guards r = failing outcomes (hy_guard_set h)"
    and d: "(cv_decision r, cv_reason r) = decide (rs_promotion_eligible rs) (missing outcomes h)
       (failing outcomes (hy_fix_set h)) (failing outcomes (hy_guard_set h))"
    and n: "cv_addressed_prefix_event_count r + cv_replay_distance_events r = hy_first_affected_sequence h"
      "0 \<le> cv_replay_distance_events r"
    using assms by (elim evaluate_Inr) auto
  have "set (failing outcomes (hy_fix_set h) @ failing outcomes (hy_guard_set h) @ missing outcomes h) =
       {vt_validation_id t | t. t \<in> set (hy_fix_set h @ hy_guard_set h) \<and> \<not> validated outcomes t}"
    by (auto simp: failing_def missing_def validated_def split: option.splits)
  moreover have "cv_decision r = OBSERVED_ONLY \<longleftrightarrow> \<not> rs_promotion_eligible rs"
    using d by (auto simp: decide_def split: if_splits)
  ultimately show ?thesis using promoted_iff[OF assms] o n by (simp add: promoted_def)
qed

section \<open>A promoting replay\<close>

lemma select_pool_entry:
  assumes "p \<in> select_pool t b n m s"
  shows "\<exists>i e. (i, e) \<in> set (sy_entries s) \<and> p = rb_point e \<and> rp_lifecycle p = READY \<and>
     point_sequence p \<le> n \<and> tc_trace_id (rp_cursor p) = strip t \<and> tc_branch_id (rp_cursor p) = strip b"
proof -
  have "p \<in> set (select_candidates (strip t) (strip b) n (sy_entries s))"
    using assms by (simp add: select_pool_def Let_def split: if_splits)
  then have *: "p \<in> (\<lambda>(i, e). rb_point e) ` set (sy_entries s)" "rp_lifecycle p = READY" "point_sequence p \<le> n"
    "tc_trace_id (rp_cursor p) = strip t" "tc_branch_id (rp_cursor p) = strip b"
    unfolding select_candidates_def by simp_all
  from *(1) obtain i e where "(i, e) \<in> set (sy_entries s)" "p = rb_point e" by force
  with *(2-) show ?thesis by blast
qed

lemma wp_select_for:
  assumes "reg_inv s"
    and "\<And>p t e. same_store s t \<Longrightarrow> dict_get (sy_entries s) (rp_replay_point_id p) = Some e \<Longrightarrow> rb_point e = p \<Longrightarrow>
      rp_lifecycle p = READY \<Longrightarrow> point_sequence p \<le> hy_first_affected_sequence h \<Longrightarrow> Q p t"
    and "\<And>x t. E x t"
  shows "wp (select_for a h) Q E s"
proof -
  have "wp (select_before tr br (hy_first_affected_sequence h) m) Q E s" for tr br m
  proof (rule wp_mono[OF wp_select_before])
    fix p t
    assume *: "same_store s t \<and> strip tr \<noteq> [] \<and> strip br \<noteq> [] \<and>
      p \<in> select_pool tr br (hy_first_affected_sequence h) m s \<and>
      (\<forall>q \<in> select_pool tr br (hy_first_affected_sequence h) m s. point_sequence q \<le> point_sequence p)"
    then obtain i e where e: "(i, e) \<in> set (sy_entries s)" "p = rb_point e" "rp_lifecycle p = READY"
      "point_sequence p \<le> hy_first_affected_sequence h" using select_pool_entry by blast
    have "dict_wf (sy_entries s)" using assms(1) unfolding reg_inv_def by blast
    with e(1) have get: "dict_get (sy_entries s) i = Some e" by (simp only: dict_get_entry)
    have i: "rp_replay_point_id p = i"
      using reg_invD(1)[OF assms(1) get] unfolding e(2) entry_ok_def by blast
    show "Q p t" by (rule assms(2)) (use * get e i in blast)+
  qed (simp add: assms(3))
  then show ?thesis unfolding select_for_def by (auto simp: assms(3) split: sum.splits)
qed

text \<open>What a promotion rests on.\<close>

definition promotion_grounds ::
  "CounterfactualHypothesis \<Rightarrow> ('w, 'o) sys \<Rightarrow> CounterfactualReplayResult \<Rightarrow> bool" where
  "promotion_grounds h s r \<longleftrightarrow> (\<exists>e. dict_get (sy_entries s) (cv_replay_point_id r) = Some e \<and>
     rp_lifecycle (rb_point e) = READY \<and> point_sequence (rb_point e) \<le> hy_first_affected_sequence h \<and>
     fidelity_meets (rp_fidelity (rb_point e)) (rs_achieved_fidelity (cv_restore r))) \<and>
     fidelity_meets (rs_achieved_fidelity (cv_restore r)) SEMANTIC_EQUIVALENT \<and>
     fidelity_meets (rs_achieved_fidelity (cv_restore r)) (hy_minimum_fidelity h) \<and>
     rs_equivalent (cv_restore r) \<and>
     (\<forall>t \<in> set (hy_fix_set h @ hy_guard_set h). validated (cv_outcomes r) t)"

lemma promotion_groundsI:
  assumes p: "dict_get (sy_entries s) (rp_replay_point_id p) = Some e" "rb_point e = p" "rp_lifecycle p = READY"
      "point_sequence p \<le> hy_first_affected_sequence h"
    and rs: "replay_result_of u (rp_replay_point_id p) b (hy_minimum_fidelity h) rs" "same_store s u"
    and r: "evaluate_counterfactual_candidate trace h c p rs raw = Inr r" "cv_decision r = PROMOTED"
  shows "promotion_grounds h s r"
proof -
  have el: "rs_promotion_eligible rs" "\<forall>t \<in> set (hy_fix_set h @ hy_guard_set h). validated (cv_outcomes r) t"
    using promoted_iff[OF r(1)] r(2) by simp_all
  have res: "fidelity_meets (rp_fidelity p) (rs_achieved_fidelity rs)"
    "fidelity_meets (rs_achieved_fidelity rs) SEMANTIC_EQUIVALENT"
    "fidelity_meets (rs_achieved_fidelity rs) (hy_minimum_fidelity h)" "rs_equivalent rs"
  proof -
    have "sy_entries u = sy_entries s" using rs(2) by (simp add: same_store_def)
    then obtain rc where "fidelity_meets (rp_fidelity p) (rs_achieved_fidelity rs)"
      "rs_promotion_eligible rs = (fidelity_meets (rs_achieved_fidelity rs) SEMANTIC_EQUIVALENT \<and>
        fidelity_meets (rs_achieved_fidelity rs) (hy_minimum_fidelity h))"
      "contract_met p rc (rs_report rs)" "rs_achieved_fidelity rs = er_achieved_fidelity (rs_report rs)"
      "rs_equivalent rs = er_equivalent (rs_report rs)"
      using rs(1) p(1,2) unfolding replay_result_of_def by force
    then show "fidelity_meets (rp_fidelity p) (rs_achieved_fidelity rs)"
      "fidelity_meets (rs_achieved_fidelity rs) SEMANTIC_EQUIVALENT"
      "fidelity_meets (rs_achieved_fidelity rs) (hy_minimum_fidelity h)" "rs_equivalent rs"
      using el(1) by (simp_all add: contract_met_def)
  qed
  have "cv_replay_point_id r = rp_replay_point_id p" "cv_restore r = rs"
    using r(1) by (elim evaluate_Inr, simp)+
  then show ?thesis using p res el(2) unfolding promotion_grounds_def by auto
qed

text \<open>C12: a promotion is grounded.  When a counterfactual replay promotes a candidate, it was
  replayed from a ready point at or before the first affected event, with a fidelity that is
  trusted, reaches the hypothesis' minimum, is not stronger than what was captured and comes with
  verified equivalence, and every fix target and every guard target passed.\<close>

theorem counterfactual_promotion_grounded:
  assumes "run_counterfactual_suffix_replay R a h c execute s = (Inr r, t)" and "reg_inv s" and "promoted r"
  shows "promotion_grounds h s r"
proof -
  have "wp (run_counterfactual_suffix_replay R a h c execute)
     (\<lambda>r _. cv_decision r = PROMOTED \<longrightarrow> promotion_grounds h s r) (\<lambda>_ _. True) s"
    unfolding run_counterfactual_suffix_replay_def Let_def wp_bnd
  proof (rule wp_select_for[OF assms(2)])
    fix p u e
    assume p: "same_store s u" "dict_get (sy_entries s) (rp_replay_point_id p) = Some e" "rb_point e = p"
      "rp_lifecycle p = READY" "point_sequence p \<le> hy_first_affected_sequence h"
    show "wp (run_from R (rp_replay_point_id p) (''counterfactual-'' @ ca_candidate_id c) (hy_minimum_fidelity h)
        (\<lambda>_. execute (replay_request h c p)))
      (\<lambda>x. wp (case x of (rs, raw) \<Rightarrow> bnd (gets (\<lambda>s. sy_traces s a))
          (\<lambda>trace. of_res (evaluate_counterfactual_candidate trace h c p rs raw)))
        (\<lambda>r _. cv_decision r = PROMOTED \<longrightarrow> promotion_grounds h s r) (\<lambda>_ _. True)) (\<lambda>_ _. True) u"
      by (rule wp_mono[OF wp_run_from_result[where s = u]])
        (auto split: prod.splits sum.splits intro!: promotion_groundsI[OF p(2-5) _ p(1)])
  qed simp
  from wp_valueD[OF this assms(1)] assms(3) show ?thesis by (simp add: promoted_def)
qed

section \<open>A promotion that happens\<close>

lemma strip_not_Nil: "\<not> is_space x \<Longrightarrow> strip (x # xs) \<noteq> []"
  by (simp add: strip_def dropWhile_eq_Nil_conv)

lemma counterfactual_promotes_lemma:
  assumes inv: "reg_inv s" and aff: "check_affected (sy_traces s a) h = Inr ()"
    and ids: "strip (tl_trace_id (sy_traces s a)) = tl_trace_id (sy_traces s a)"
      "strip (tl_branch_id (sy_traces s a)) = tl_branch_id (sy_traces s a)"
    and sel: "select_before (tl_trace_id (sy_traces s a)) (tl_branch_id (sy_traces s a))
      (hy_first_affected_sequence h) (hy_minimum_fidelity h) s = (Inr p, u)"
    and e: "dict_get (sy_entries s) (rp_replay_point_id p) = Some e" "rb_adapter_binding_key e = Some k"
    and prov: "replays_to e k \<lparr>rr_replay_point_id = rp_replay_point_id p,
      rr_target_branch_id = strip (''counterfactual-'' @ ca_candidate_id c),
      rr_minimum_fidelity = hy_minimum_fidelity h\<rparr> rc rep"
    and fid: "fidelity_meets (er_achieved_fidelity rep) SEMANTIC_EQUIVALENT"
      "fidelity_meets (er_achieved_fidelity rep) (hy_minimum_fidelity h)"
    and ex: "\<forall>q w. wp (execute q) (\<lambda>out t. out = raw \<and> sy_traces t = sy_traces w) (\<lambda>_ _. False) w"
    and val: "normalize_validation_outcomes raw = Inr outcomes"
      "\<forall>t \<in> set (hy_fix_set h @ hy_guard_set h). validated outcomes t"
  shows "\<exists>r t. run_counterfactual_suffix_replay R a h c execute s = (Inr r, t) \<and> promoted r"
proof -
  let ?tr = "sy_traces s a" and ?b = "''counterfactual-'' @ ca_candidate_id c"
  have u: "same_store s u" and pool: "p \<in> select_pool (tl_trace_id ?tr) (tl_branch_id ?tr)
      (hy_first_affected_sequence h) (hy_minimum_fidelity h) s"
    using wp_valueD[OF wp_select_before sel] by blast+
  obtain i e' where e': "(i, e') \<in> set (sy_entries s)" "p = rb_point e'" "rp_lifecycle p = READY"
    "point_sequence p \<le> hy_first_affected_sequence h" "tc_trace_id (rp_cursor p) = tl_trace_id ?tr"
    "tc_branch_id (rp_cursor p) = tl_branch_id ?tr"
    using select_pool_entry[OF pool] ids by force
  have "dict_wf (sy_entries s)" using inv unfolding reg_inv_def by blast
  with e'(1) have get: "dict_get (sy_entries s) i = Some e'" by (simp only: dict_get_entry)
  have "rp_replay_point_id p = i" using reg_invD(1)[OF inv get] unfolding e'(2) entry_ok_def by blast
  then have point: "rb_point e = p" using get e(1) e'(2) by simp
  have nonrep: "rp_fidelity (rb_point e) \<noteq> NON_REPLAYABLE"
    using reg_invD(1)[OF inv e(1)] e(2) unfolding entry_ok_def by auto
  have entries: "sy_entries u = sy_entries s" "sy_traces u = sy_traces s" using u by (simp_all add: same_store_def)
  have ex': "wp (execute q) (\<lambda>out t. out = raw \<and> sy_traces t = sy_traces s) (\<lambda>_ _. False) w"
    if "sy_traces w = sy_traces s" for q w
    using ex that by metis
  have "\<exists>rs out t. run_from R (rp_replay_point_id p) ?b (hy_minimum_fidelity h) (\<lambda>_. execute (replay_request h c p)) u
      = (Inr (rs, out), t) \<and> rs_report rs = rep \<and> out = raw \<and> sy_traces t = sy_traces s"
    by (intro run_from_returns_lemma[OF _ _ e(2) nonrep _ prov, where J = "\<lambda>tr. tr = sy_traces s"])
      (auto simp: entries e(1) point e'(3) strip_not_Nil is_space_def intro: ex')
  then obtain rs t where run: "run_from R (rp_replay_point_id p) ?b (hy_minimum_fidelity h)
      (\<lambda>_. execute (replay_request h c p)) u = (Inr (rs, raw), t)" "rs_report rs = rep" "sy_traces t = sy_traces s"
    by blast
  have "replay_result_of u (rp_replay_point_id p) ?b (hy_minimum_fidelity h) rs"
    using wp_valueD[OF wp_run_from_result run(1)] by simp
  then have rs: "rs_replay_point_id rs = rp_replay_point_id p" "rs_promotion_eligible rs"
    using fid run(2) unfolding replay_result_of_def by auto
  have "tc_next_sequence (rp_cursor p) \<le> hy_first_affected_sequence h" using e'(4) by (simp add: point_sequence_def)
  then obtain r where r: "evaluate_counterfactual_candidate ?tr h c p rs raw = Inr r"
    using aff e' rs val(1) by (simp add: evaluate_counterfactual_candidate_def Let_def)
  have "cv_outcomes r = outcomes" using r val(1) by (elim evaluate_Inr) simp
  then have "promoted r" using promoted_iff[OF r] rs(2) val(2) by (simp add: promoted_def)
  moreover have "run_counterfactual_suffix_replay R a h c execute s = (Inr r, t)"
    using run(1,3) r by (simp add: run_counterfactual_suffix_replay_def select_for_def bnd_def seq_def gets_def
        of_res_def aff sel Let_def)
  ultimately show ?thesis by blast
qed

text \<open>A sound candidate is promoted.  When the affected event is addressable, a point is
  selected, its providers keep the replay contract with a trusted fidelity that reaches the
  minimum, and the suffix returns passing outcomes for every target, the counterfactual replay
  returns, and promotes.\<close>

theorem counterfactual_promotes:
  assumes "reg_inv s" and "check_affected (sy_traces s a) h = Inr ()"
    and "strip (tl_trace_id (sy_traces s a)) = tl_trace_id (sy_traces s a)"
    and "strip (tl_branch_id (sy_traces s a)) = tl_branch_id (sy_traces s a)"
    and "select_before (tl_trace_id (sy_traces s a)) (tl_branch_id (sy_traces s a))
      (hy_first_affected_sequence h) (hy_minimum_fidelity h) s = (Inr p, u)"
    and "dict_get (sy_entries s) (rp_replay_point_id p) = Some e" and "rb_adapter_binding_key e = Some k"
    and "replays_to e k \<lparr>rr_replay_point_id = rp_replay_point_id p,
      rr_target_branch_id = strip (''counterfactual-'' @ ca_candidate_id c),
      rr_minimum_fidelity = hy_minimum_fidelity h\<rparr> rc rep"
    and "fidelity_meets (er_achieved_fidelity rep) SEMANTIC_EQUIVALENT"
    and "fidelity_meets (er_achieved_fidelity rep) (hy_minimum_fidelity h)"
    and "\<forall>q w. wp (execute q) (\<lambda>out t. out = raw \<and> sy_traces t = sy_traces w) (\<lambda>_ _. False) w"
    and "normalize_validation_outcomes raw = Inr outcomes"
    and "\<forall>t \<in> set (hy_fix_set h @ hy_guard_set h). validated outcomes t"
  shows "\<exists>r t. run_counterfactual_suffix_replay R a h c execute s = (Inr r, t) \<and> promoted r"
  using assms by (rule counterfactual_promotes_lemma)

section \<open>A sample replay\<close>

definition cf_entry :: "(sample_world, raw_outcomes) RuntimeReplayBinding" where
  "cf_entry = \<lparr>rb_point = sample_point, rb_agent_state_key = 1, rb_adapter_binding_key = Some 1,
     rb_agent_state_store = sample_store, rb_adapter = sample_adapter, rb_agent_released = False,
     rb_adapter_released = False\<rparr>"

definition cf_ready :: "(sample_world, raw_outcomes) sys" where
  "cf_ready = \<lparr>sy_traces = sy_traces sample_ready, sy_entries = [(''p'', cf_entry)],
     sy_ledger = ledger_init, sy_world = ([1], [1])\<rparr>"

lemma cf_ready_inv: "reg_inv cf_ready"
proof -
  have "entry_ok ''p'' cf_entry" by code_simp
  moreover have "dict_get (sy_entries sample_ready) ''p'' = Some sample_entry" by (rule sample_ready_entry)
  note reg_invD(2)[OF sample_ready_inv this]
  moreover have "trace_wf (sy_traces sample_ready a)" for a using sample_ready_inv by (simp add: reg_inv_def)
  ultimately show ?thesis by (simp add: reg_inv_def cf_ready_def cf_entry_def sample_entry_def)
qed

lemma cf_replays:
  "replays_to cf_entry 1 \<lparr>rr_replay_point_id = ''p'', rr_target_branch_id = b, rr_minimum_fidelity = EXACT\<rparr>
     sample_receipt sample_report"
proof -
  have "RestoreReceipt_post_init sample_receipt = Inr sample_receipt"
    "EquivalenceReport_post_init sample_report = Inr sample_report"
    "contract_met (rb_point cf_entry) sample_receipt sample_report"
    "fidelity_meets (rp_fidelity (rb_point cf_entry)) (rc_achieved_fidelity sample_receipt)"
    "rc_achieved_fidelity sample_receipt \<noteq> NON_REPLAYABLE" by code_simp+
  then show ?thesis unfolding replays_to_def
    by (simp add: cf_entry_def sample_adapter_def sample_store_def)
qed

lemma cf_select: "\<exists>u. select_before (tl_trace_id (sy_traces cf_ready 0)) (tl_branch_id (sy_traces cf_ready 0))
      (hy_first_affected_sequence sample_hypothesis) (hy_minimum_fidelity sample_hypothesis) cf_ready
    = (Inr sample_point, u)"
proof -
  have "fst (select_before (tl_trace_id (sy_traces cf_ready 0)) (tl_branch_id (sy_traces cf_ready 0))
      (hy_first_affected_sequence sample_hypothesis) (hy_minimum_fidelity sample_hypothesis) cf_ready)
    = Inr sample_point" by code_simp
  then show ?thesis by (metis prod.collapse)
qed

lemma cf_facts:
  "check_affected (sy_traces cf_ready 0) sample_hypothesis = Inr ()"
  "strip (tl_trace_id (sy_traces cf_ready 0)) = tl_trace_id (sy_traces cf_ready 0)"
  "strip (tl_branch_id (sy_traces cf_ready 0)) = tl_branch_id (sy_traces cf_ready 0)"
  "rp_replay_point_id sample_point = ''p''" "hy_minimum_fidelity sample_hypothesis = EXACT"
  "fidelity_meets (er_achieved_fidelity sample_report) SEMANTIC_EQUIVALENT"
  "fidelity_meets (er_achieved_fidelity sample_report) EXACT"
  by code_simp+

lemma cf_entry_facts:
  "dict_get (sy_entries cf_ready) ''p'' = Some cf_entry" "rb_adapter_binding_key cf_entry = Some 1"
  by (simp_all add: cf_ready_def cf_entry_def)

definition cf_outcomes :: "ValidationOutcome list" where
  "cf_outcomes = [\<lparr>vo_validation_id = ''fix'', vo_passed = True, vo_public_summary = None\<rparr>,
     \<lparr>vo_validation_id = ''guard'', vo_passed = True, vo_public_summary = None\<rparr>]"

lemma cf_validated:
  "normalize_validation_outcomes sample_raw = Inr cf_outcomes"
  "\<forall>t \<in> set (hy_fix_set sample_hypothesis @ hy_guard_set sample_hypothesis). validated cf_outcomes t"
  by code_simp+

lemma cf_execute:
  "\<forall>q w. wp ((\<lambda>_. ret sample_raw) q) (\<lambda>out t. out = sample_raw \<and> sy_traces t = sy_traces w) (\<lambda>_ _. False) w"
  by simp

theorem counterfactual_promotes_witness:
  "\<exists>r t. run_counterfactual_suffix_replay sample_host 0 sample_hypothesis sample_candidate
     (\<lambda>_. ret sample_raw) cf_ready = (Inr r, t) \<and> promoted r"
proof -
  obtain u where sel: "select_before (tl_trace_id (sy_traces cf_ready 0)) (tl_branch_id (sy_traces cf_ready 0))
      (hy_first_affected_sequence sample_hypothesis) (hy_minimum_fidelity sample_hypothesis) cf_ready
    = (Inr sample_point, u)" using cf_select by blast
  show ?thesis
    by (rule counterfactual_promotes[where rc = sample_receipt, OF cf_ready_inv cf_facts(1-3) sel _ cf_entry_facts(2) _ cf_facts(6) _
          cf_execute cf_validated]) (simp_all only: cf_facts cf_entry_facts cf_replays)
qed

lemma cf_promoted: "\<exists>r t. run_counterfactual_suffix_replay sample_host 0 sample_hypothesis sample_candidate
     (\<lambda>_. ret sample_raw) cf_ready = (Inr r, t) \<and> promoted r"
proof -
  obtain u where sel: "select_before (tl_trace_id (sy_traces cf_ready 0)) (tl_branch_id (sy_traces cf_ready 0))
      (hy_first_affected_sequence sample_hypothesis) (hy_minimum_fidelity sample_hypothesis) cf_ready
    = (Inr sample_point, u)" using cf_select by blast
  show ?thesis
    by (rule counterfactual_promotes_lemma[where rc = sample_receipt, OF cf_ready_inv cf_facts(1-3) sel _ cf_entry_facts(2) _ cf_facts(6) _
          cf_execute cf_validated]) (simp_all only: cf_facts cf_entry_facts cf_replays)
qed

theorem counterfactual_promotion_grounded_witness:
  "\<exists>r. promoted r \<and> promotion_grounds sample_hypothesis cf_ready r"
  using cf_promoted counterfactual_promotion_grounded[OF _ cf_ready_inv] by blast

theorem promotion_contract_witness:
  "\<exists>r. evaluate_counterfactual_candidate (sy_traces cf_ready 0) sample_hypothesis sample_candidate sample_point
      sample_restore sample_raw = Inr r \<and>
     (promoted r \<longleftrightarrow> rs_promotion_eligible sample_restore \<and>
       (\<forall>t \<in> set (hy_fix_set sample_hypothesis @ hy_guard_set sample_hypothesis). validated (cv_outcomes r) t))"
proof -
  have "\<not> isl (evaluate_counterfactual_candidate (sy_traces cf_ready 0) sample_hypothesis sample_candidate
      sample_point sample_restore sample_raw)" by code_simp
  then obtain r where r: "evaluate_counterfactual_candidate (sy_traces cf_ready 0) sample_hypothesis
      sample_candidate sample_point sample_restore sample_raw = Inr r" by (metis sum.collapse(2))
  with promotion_contract[OF r] show ?thesis by blast
qed

section \<open>Counterfactual child groups\<close>

text \<open>The result of one candidate: it failed to execute, or it was executed and judged, and a
  judged one was judged by the promotion contract on its own restore.\<close>

definition judged_result ::
  "CounterfactualHypothesis \<Rightarrow> ReplayPoint \<Rightarrow> CounterfactualChildCandidateResult \<Rightarrow> bool" where
  "judged_result h p r = (case (cg_replay_result r, cg_execution_result r, cg_execution_failure r) of
     (None, None, Some _) \<Rightarrow> True
   | (Some v, Some x, None) \<Rightarrow> cv_restore v = xr_restore x \<and> cv_replay_point_id v = rp_replay_point_id p \<and>
       rs_replay_point_id (xr_restore x) = rp_replay_point_id p \<and>
       promoted v = (rs_promotion_eligible (xr_restore x) \<and>
         list_all (validated (cv_outcomes v)) (hy_fix_set h @ hy_guard_set h))
   | _ \<Rightarrow> False)"

lemma settle_candidate_Inr:
  assumes "settle_candidate trace h p cs child = Inr r" "strip (outcome_child_id child) = outcome_child_id child"
  shows "cg_candidate_id r = outcome_child_id child \<and> judged_result h p r"
proof (cases child)
  case (ChildFailure f)
  then have "CounterfactualChildCandidateResult_post_init \<lparr>cg_candidate_id = xf_child_id f, cg_replay_result = None,
      cg_execution_result = None, cg_execution_failure = Some f\<rparr> = Inr r"
    using assms(1) by (auto simp: settle_candidate_def Let_def split: option.splits)
  with ChildFailure assms(2) show ?thesis
    by (auto simp: CounterfactualChildCandidateResult_post_init_def res_iff judged_result_def)
next
  case (ChildResult x)
  then obtain c v where v: "evaluate_counterfactual_candidate trace h c p (xr_restore x) (xr_outcome x) = Inr v"
    "CounterfactualChildCandidateResult_post_init \<lparr>cg_candidate_id = xr_child_id x, cg_replay_result = Some v,
               cg_execution_result = Some x, cg_execution_failure = None\<rparr> = Inr r"
    using assms(1) by (auto simp: settle_candidate_def Let_def res_iff split: option.splits)
  have "cv_restore v = xr_restore x" "cv_replay_point_id v = rp_replay_point_id p"
    "rs_replay_point_id (xr_restore x) = rp_replay_point_id p"
    using v(1) by (elim evaluate_Inr, simp)+
  with v(2) ChildResult assms(2) promoted_iff[OF v(1)] show ?thesis
    by (auto simp: CounterfactualChildCandidateResult_post_init_def res_iff judged_result_def promoted_def list_all_iff)
qed

lemma wp_settled_group:
  assumes "\<forall>t \<in> set tasks. strip (ct_child_id t) = ct_child_id t"
  shows "wp (run_child_group_from R sched i tasks par mw True)
     (\<lambda>rs _. map outcome_child_id rs = map ct_child_id tasks \<and> distinct (map ct_child_id tasks)) (\<lambda>_ _. True) s"
proof -
  have group: "wp (with_group (isolated_children R sched e i tasks par mw True rk)) Q (\<lambda>_ _. True) u"
    if Q: "\<And>rs t. map outcome_child_id rs = map ct_child_id tasks \<Longrightarrow> Q rs t" for e rk Q u
  proof -
    have "wp (isolated_children R sched e i tasks par mw True rk)
       (\<lambda>rs _. map outcome_child_id rs = map ct_child_id tasks) (\<lambda>_ _. True) (empty_group u)"
      by (rule wp_mono[OF wp_isolated_children]) (use all_returned_results[OF assms] in blast)+
    then show ?thesis by (auto simp: wp_def with_group_def Q split: prod.splits sum.splits)
  qed
  have count: "wp (count_results True rs) (\<lambda>_ _. P) (\<lambda>_ _. True) u" if P for rs :: "'b child_outcome list" and u P
    using that by (simp add: wp_any)
  show ?thesis
    unfolding run_child_group_from_def child_group_body_def recheck_ready_def
    by (auto simp: wp_get_entry wp_if wp_any split: option.splits sum.splits intro!: group count)
qed

text \<open>A counterfactual child group answers for every candidate.  If it returns, there is one
  result per candidate, under the candidate's id and in the order given, ids are distinct, and
  each result is an execution failure or a judged execution whose promotion follows the
  promotion contract.\<close>

theorem counterfactual_group_results:
  "case run_counterfactual_child_group R sched a h cs par mw s of
     (Inl _, _) \<Rightarrow> True
   | (Inr g, _) \<Rightarrow> map cg_candidate_id (gg_candidates g) = map (\<lambda>c. strip (ca_candidate_id (cc_candidate c))) cs \<and>
       distinct (map cg_candidate_id (gg_candidates g)) \<and>
       (\<exists>p. gg_replay_point_id g = rp_replay_point_id p \<and> list_all (judged_result h p) (gg_candidates g))"
proof -
  let ?ids = "map (\<lambda>c. strip (ca_candidate_id (cc_candidate c))) cs"
  have tasks: "map ct_child_id tasks = ?ids \<and> (\<forall>t \<in> set tasks. strip (ct_child_id t) = ct_child_id t)"
    if "rmap (task_for h p) cs = Inr tasks" for p tasks
  proof -
    have "list_all2 (\<lambda>c t. ct_child_id t = strip (ca_candidate_id (cc_candidate c))) cs tasks"
      using that unfolding rmap_Inr
      by (rule list_all2_mono) (auto simp: task_for_def ReplayChildTask_post_init_def require_nonempty_text_def res_iff Let_def split: if_splits)
    then show ?thesis by (induction rule: list_all2_induct) auto
  qed
  have settled: "map cg_candidate_id results = map outcome_child_id rs \<and> list_all (judged_result h p) results"
    if "rmap (settle_candidate trace h p cs) rs = Inr results" "map outcome_child_id rs = map strip xs" for trace p rs results xs
  proof -
    have "strip (outcome_child_id child) = outcome_child_id child" if "child \<in> set rs" for child
      using that \<open>map outcome_child_id rs = map strip xs\<close>
      by (metis (no_types, lifting) image_iff list.set_map strip_idem)
    then have "list_all2 (\<lambda>child r. cg_candidate_id r = outcome_child_id child \<and> judged_result h p r) rs results"
      using \<open>rmap (settle_candidate trace h p cs) rs = Inr results\<close>
      unfolding rmap_Inr list_all2_conv_all_nth by (metis settle_candidate_Inr nth_mem)
    then show ?thesis by (induction rule: list_all2_induct) auto
  qed
  let ?post = "\<lambda>g. map cg_candidate_id (gg_candidates g) = ?ids \<and> distinct (map cg_candidate_id (gg_candidates g)) \<and>
       (\<exists>p. gg_replay_point_id g = rp_replay_point_id p \<and> list_all (judged_result h p) (gg_candidates g))"
  have run: "wp (run_child_group_from R sched i tasks par mw True)
     (\<lambda>x s. \<forall>y. rmap (settle_candidate (sy_traces s a) h p cs) x = Inr y \<longrightarrow>
        ?post \<lparr>gg_hypothesis_id = hy_hypothesis_id h, gg_replay_point_id = rp_replay_point_id p,
           gg_candidates = y, gg_parallel_requested = par\<rparr>) (\<lambda>_ _. True) u"
    if "rmap (task_for h p) cs = Inr tasks" for i p tasks u
    by (rule wp_mono[OF wp_settled_group])
      (use tasks[OF that] settled[where xs = "map (\<lambda>c. ca_candidate_id (cc_candidate c)) cs"] in \<open>auto simp: o_def\<close>)
  have "wp (run_counterfactual_child_group R sched a h cs par mw) (\<lambda>g _. ?post g) (\<lambda>_ _. True) s"
    unfolding run_counterfactual_child_group_def wp_if wp_bnd wp_of_res wp_gets wp_ret wp_raise
    by (auto split: sum.splits simp del: map_eq_conv intro!: wp_any[where m = "select_for a h"] wp_mono[OF run]) blast+
  then show ?thesis by (auto simp: wp_def split: prod.splits sum.splits)
qed

end
