(* ===== verification/Py_Sort.thy ===== *)
theory Py_Sort
  imports Py_Prelude "HOL-Library.Multiset"
begin

text \<open>
  Python's \<open>list.sort\<close> and \<open>sorted\<close> with a key: the stable arrangement by the order \<open>lt\<close> on
  the keys.  The order is only required to behave on the elements that are sorted (floats are
  ordered only without NaN), so the laws are stated over a carrier.
\<close>

fun insert_by :: "('a \<Rightarrow> 'a \<Rightarrow> bool) \<Rightarrow> 'a \<Rightarrow> 'a list \<Rightarrow> 'a list" where
  "insert_by lt x [] = [x]"
| "insert_by lt x (y # ys) = (if lt y x then y # insert_by lt x ys else x # y # ys)"

definition stable_sort :: "('a \<Rightarrow> 'a \<Rightarrow> bool) \<Rightarrow> 'a list \<Rightarrow> 'a list" where
  "stable_sort lt xs = foldr (insert_by lt) xs []"

lemma stable_sort_simps [simp]:
  "stable_sort lt [] = []"
  "stable_sort lt (x # xs) = insert_by lt x (stable_sort lt xs)"
  by (simp_all add: stable_sort_def)

lemma mset_insert_by [simp]: "mset (insert_by lt x xs) = add_mset x (mset xs)"
  by (induction xs) auto

lemma mset_stable_sort [simp]: "mset (stable_sort lt xs) = mset xs"
  by (induction xs) auto

lemma set_insert_by [simp]: "set (insert_by lt x xs) = insert x (set xs)"
  by (induction xs) auto

lemma set_stable_sort [simp]: "set (stable_sort lt xs) = set xs"
  by (induction xs) auto

lemma length_stable_sort [simp]: "length (stable_sort lt xs) = length xs"
  using mset_stable_sort[of lt xs] by (metis size_mset)

text \<open>A strict weak order on a carrier, and what sorting by it gives.\<close>

locale weak_order_on =
  fixes lt :: "'a \<Rightarrow> 'a \<Rightarrow> bool" and carrier :: "'a \<Rightarrow> bool"
  assumes less_asym: "carrier x \<Longrightarrow> carrier y \<Longrightarrow> lt x y \<Longrightarrow> \<not> lt y x"
    and less_negtrans: "carrier x \<Longrightarrow> carrier y \<Longrightarrow> carrier z \<Longrightarrow> lt x z \<Longrightarrow> lt x y \<or> lt y z"
begin

abbreviation in_order :: "'a list \<Rightarrow> bool" where
  "in_order xs \<equiv> sorted_wrt (\<lambda>x y. \<not> lt y x) xs"

lemma in_order_insert_by:
  assumes "carrier x" "list_all carrier xs" "in_order xs"
  shows "in_order (insert_by lt x xs)"
  using assms
proof (induction xs)
  case (Cons y ys)
  show ?case
  proof (cases "lt y x")
    case True
    then have "\<not> lt x y" using Cons.prems less_asym by auto
    then show ?thesis using Cons True by auto
  next
    case False
    have "\<not> lt z x" if "z \<in> set ys" for z
      using that Cons.prems False less_negtrans[of z y x] by (auto simp: list_all_iff)
    then show ?thesis using Cons.prems False by auto
  qed
qed simp

lemma in_order_stable_sort: "list_all carrier xs \<Longrightarrow> in_order (stable_sort lt xs)"
  by (induction xs) (auto simp: list_all_iff intro!: in_order_insert_by)

text \<open>Stability: among elements that no key separates from \<open>e\<close>, the order is the input's.\<close>

lemma insert_by_stable:
  assumes "carrier e" "carrier x" "list_all carrier xs" "in_order xs"
  shows "filter (\<lambda>y. \<not> lt e y \<and> \<not> lt y e) (insert_by lt x xs)
    = filter (\<lambda>y. \<not> lt e y \<and> \<not> lt y e) (x # xs)"
  using assms
proof (induction xs)
  case (Cons y ys)
  then show ?case
    using less_negtrans[of y e x] less_negtrans[of y x e] less_negtrans[of e x y] by auto
qed simp

lemma stable_sort_stable:
  assumes "carrier e" "list_all carrier xs"
  shows "filter (\<lambda>y. \<not> lt e y \<and> \<not> lt y e) (stable_sort lt xs)
    = filter (\<lambda>y. \<not> lt e y \<and> \<not> lt y e) xs"
  using assms
proof (induction xs)
  case (Cons x xs)
  then have "filter (\<lambda>y. \<not> lt e y \<and> \<not> lt y e) (insert_by lt x (stable_sort lt xs))
      = filter (\<lambda>y. \<not> lt e y \<and> \<not> lt y e) (x # stable_sort lt xs)"
    by (intro insert_by_stable in_order_stable_sort) (auto simp: list_all_iff)
  then show ?case using Cons by simp
qed simp

text \<open>The first \<open>k\<close> of the sorted list: nothing left out comes before anything kept.\<close>

lemma stable_sort_best:
  assumes "list_all carrier xs"
  shows "\<exists>rest. mset (take k (stable_sort lt xs) @ rest) = mset xs \<and>
     (\<forall>p \<in> set (take k (stable_sort lt xs)). \<forall>r \<in> set rest. \<not> lt r p) \<and>
     (rest \<noteq> [] \<longrightarrow> length (take k (stable_sort lt xs)) = k)"
proof (intro exI conjI)
  let ?ys = "stable_sort lt xs"
  show "mset (take k ?ys @ drop k ?ys) = mset xs" by (metis append_take_drop_id mset_stable_sort)
  have "in_order (take k ?ys @ drop k ?ys)" using in_order_stable_sort[OF assms] by simp
  then show "\<forall>p \<in> set (take k ?ys). \<forall>r \<in> set (drop k ?ys). \<not> lt r p"
    by (simp only: sorted_wrt_append) blast
  show "drop k ?ys \<noteq> [] \<longrightarrow> length (take k ?ys) = k" by auto
qed

end

end
