(* ===== verification/Replay_Planner.thy ===== *)
theory Replay_Planner
  imports Replay_Contract Py_Sort "HOL-Library.Product_Lexorder"
begin

text \<open>
  \<open>src/loopx/capabilities/explore/adaptive_replay_planner.py\<close>: ranking trace boundaries by the
  replay minutes a capture there is expected to save.

  The numeric arguments are the classes of objects \<open>_finite\<close> tells apart: a bool, an integer, a
  float, and an object \<open>float\<close> refuses (a text is outside the annotated type).  The type checks
  on the two sequences are the types of the model.
\<close>

section \<open>Numbers\<close>

datatype num_arg = ABool bool | AInt int | AFloat pyfloat | ARefused

definition finite_number :: "num_arg \<Rightarrow> string \<Rightarrow> string \<Rightarrow> pyfloat res" where
  "finite_number v field_name requirement =
     (let message = field_name @ '' must be a '' @ requirement in
      case v of
        ABool _ \<Rightarrow> Inl (ValueError message)
      | ARefused \<Rightarrow> Inl (ValueError message)
      | AInt i \<Rightarrow> if isfinite (of_pyint i) then Inr (of_pyint i) else Inl (ValueError message)
      | AFloat x \<Rightarrow> if isfinite x then Inr x else Inl (ValueError message))"

definition nonnegative :: "num_arg \<Rightarrow> string \<Rightarrow> pyfloat res" where
  "nonnegative v field_name =
     rbind (finite_number v field_name ''finite non-negative number'') (\<lambda>x.
     if fless x (Fin 0) then Inl (ValueError (field_name @ '' must be a finite non-negative number''))
     else Inr x)"

text \<open>The conversion of an integer operand of a float multiplication.\<close>

definition float_operand :: "int \<Rightarrow> pyfloat res" where
  "float_operand i = (if isfinite (of_pyint i) then Inr (of_pyint i)
     else Inl (OverflowError ''int too large to convert to float''))"

section \<open>Candidates, observations and proposals\<close>

record ReplayPositionCost =
  pc_after_event_id :: "string option"
  pc_next_sequence :: int
  pc_achievable_fidelity :: ReplayFidelity
  pc_capture_minutes :: pyfloat
  pc_restore_minutes :: pyfloat

definition ReplayPositionCost_new ::
  "string option \<Rightarrow> int \<Rightarrow> ReplayFidelity \<Rightarrow> num_arg \<Rightarrow> num_arg \<Rightarrow> ReplayPositionCost res" where
  "ReplayPositionCost_new after next_seq fidelity capture restore =
     rbind (optional_text after ''after_event_id'') (\<lambda>a.
     rbind (check (0 \<le> next_seq) (ValueError ''next_sequence must be non-negative'')) (\<lambda>_.
     rbind (check (fidelity \<noteq> NON_REPLAYABLE) (ValueError ''ReplayPositionCost must be replayable'')) (\<lambda>_.
     rbind (nonnegative capture ''capture_minutes'') (\<lambda>c.
     rbind (nonnegative restore ''restore_minutes'') (\<lambda>r.
     Inr \<lparr>pc_after_event_id = a, pc_next_sequence = next_seq, pc_achievable_fidelity = fidelity,
          pc_capture_minutes = c, pc_restore_minutes = r\<rparr>)))))"

record FailureReplayObservation =
  fo_first_effect_sequence :: int
  fo_terminal_sequence :: int
  fo_full_replay_minutes :: pyfloat
  fo_minimum_fidelity :: ReplayFidelity
  fo_weight :: pyfloat

definition FailureReplayObservation_new ::
  "int \<Rightarrow> int \<Rightarrow> num_arg \<Rightarrow> ReplayFidelity \<Rightarrow> num_arg \<Rightarrow> FailureReplayObservation res" where
  "FailureReplayObservation_new first terminal full minimum weight =
     rbind (check (0 \<le> first) (ValueError ''first_effect_sequence must be non-negative'')) (\<lambda>_.
     rbind (check (first < terminal)
              (ValueError ''terminal_sequence must be after first_effect_sequence'')) (\<lambda>_.
     rbind (nonnegative full ''full_replay_minutes'') (\<lambda>m.
     rbind (check (minimum \<noteq> NON_REPLAYABLE)
              (ValueError ''failure observations require replayable fidelity'')) (\<lambda>_.
     rbind (finite_number weight ''weight'' ''finite positive number'') (\<lambda>w.
     rbind (check (\<not> fle w (Fin 0)) (ValueError ''weight must be a finite positive number'')) (\<lambda>_.
     Inr \<lparr>fo_first_effect_sequence = first, fo_terminal_sequence = terminal,
          fo_full_replay_minutes = m, fo_minimum_fidelity = minimum, fo_weight = w\<rparr>))))))"

record AdaptiveReplayPointProposal =
  ap_after_event_id :: "string option"
  ap_next_sequence :: int
  ap_achievable_fidelity :: ReplayFidelity
  ap_score_minutes :: pyfloat
  ap_expected_saved_minutes :: pyfloat
  ap_expected_suffix_events :: pyfloat
  ap_eligible_observation_weight :: pyfloat
  ap_capture_minutes :: pyfloat
  ap_restore_minutes :: pyfloat

definition AdaptiveReplayPointProposal_to_record :: "AdaptiveReplayPointProposal \<Rightarrow> pyval dict" where
  "AdaptiveReplayPointProposal_to_record p =
    [(''after_event_id'', py_opt_str (ap_after_event_id p)),
     (''next_sequence'', PInt (ap_next_sequence p)),
     (''achievable_fidelity'', PStr (ReplayFidelity_value (ap_achievable_fidelity p))),
     (''score_minutes'', PFloat (ap_score_minutes p)),
     (''expected_saved_minutes'', PFloat (ap_expected_saved_minutes p)),
     (''expected_suffix_events'', PFloat (ap_expected_suffix_events p)),
     (''eligible_observation_weight'', PFloat (ap_eligible_observation_weight p)),
     (''capture_minutes'', PFloat (ap_capture_minutes p)),
     (''restore_minutes'', PFloat (ap_restore_minutes p))]"

section \<open>Planning\<close>

definition validate_position :: "TraceLog \<Rightarrow> ReplayPositionCost \<Rightarrow> unit res" where
  "validate_position trace c =
     rbind (check (pc_next_sequence c \<le> int (length (tl_events trace)))
              (ValueError ''candidate next_sequence exceeds the trace head'')) (\<lambda>_.
     if pc_next_sequence c = 0 then
       check (pc_after_event_id c = None) (ValueError ''origin candidate must not name after_event_id'')
     else (case pc_after_event_id c of
       None \<Rightarrow> Inl (ValueError ''non-origin candidate requires after_event_id'')
     | Some i \<Rightarrow> rbind (TraceLog_event trace i) (\<lambda>event.
         check (te_sequence event + 1 = pc_next_sequence c)
           (ValueError ''candidate after_event_id does not match next_sequence boundary''))))"

text \<open>One turn of the inner loop; the state is \<open>eligible_weight\<close>, \<open>expected_saved\<close> and
  \<open>weighted_suffix_events\<close>.\<close>

definition eligible :: "ReplayPositionCost \<Rightarrow> FailureReplayObservation \<Rightarrow> bool" where
  "eligible c ob \<longleftrightarrow> \<not> pc_next_sequence c > fo_first_effect_sequence ob \<and>
     fidelity_meets (pc_achievable_fidelity c) (fo_minimum_fidelity ob)"

definition observe ::
  "ReplayPositionCost \<Rightarrow> FailureReplayObservation \<Rightarrow> pyfloat \<times> pyfloat \<times> pyfloat \<Rightarrow>
   (pyfloat \<times> pyfloat \<times> pyfloat) res" where
  "observe c ob = (\<lambda>(weight, saved, suffix).
     if \<not> eligible c ob then Inr (weight, saved, suffix)
     else
       rbind (int_div (pc_next_sequence c) (fo_terminal_sequence ob)) (\<lambda>reused_fraction.
       let saved_minutes = fmax0 (fsub (fmul (fo_full_replay_minutes ob) reused_fraction)
                                    (pc_restore_minutes c)) in
       rbind (float_operand (fo_terminal_sequence ob - pc_next_sequence c)) (\<lambda>distance.
       Inr (fadd weight (fo_weight ob), fadd saved (fmul (fo_weight ob) saved_minutes),
            fadd suffix (fmul (fo_weight ob) distance)))))"

definition propose ::
  "pyfloat \<Rightarrow> FailureReplayObservation list \<Rightarrow> ReplayPositionCost \<Rightarrow> AdaptiveReplayPointProposal option res" where
  "propose threshold observations c =
     rbind (rfold (observe c) observations (Fin 0, Fin 0, Fin 0)) (\<lambda>(weight, saved, suffix).
     if feq weight (Fin 0) then Inr None
     else
       rbind (finite_number (AFloat weight) ''eligible_observation_weight'' ''finite number'') (\<lambda>_.
       rbind (finite_number (AFloat saved) ''expected_saved_minutes'' ''finite number'') (\<lambda>_.
       rbind (finite_number (AFloat suffix) ''weighted_suffix_events'' ''finite number'') (\<lambda>_.
       let score = fsub saved (pc_capture_minutes c) in
       if fless score threshold then Inr None
       else rbind (fdiv suffix weight) (\<lambda>events. Inr (Some
         \<lparr>ap_after_event_id = pc_after_event_id c, ap_next_sequence = pc_next_sequence c,
          ap_achievable_fidelity = pc_achievable_fidelity c, ap_score_minutes = score,
          ap_expected_saved_minutes = saved, ap_expected_suffix_events = events,
          ap_eligible_observation_weight = weight, ap_capture_minutes = pc_capture_minutes c,
          ap_restore_minutes = pc_restore_minutes c\<rparr>))))))"

text \<open>The comparison of two sort keys: tuples compare at their first difference.\<close>

definition after_text :: "AdaptiveReplayPointProposal \<Rightarrow> string" where
  "after_text p = (case ap_after_event_id p of None \<Rightarrow> [] | Some t \<Rightarrow> t)"

definition proposal_less :: "AdaptiveReplayPointProposal \<Rightarrow> AdaptiveReplayPointProposal \<Rightarrow> bool" where
  "proposal_less p q =
     (let s = fneg (ap_score_minutes p); t = fneg (ap_score_minutes q);
          v = fneg (ap_eligible_observation_weight p); w = fneg (ap_eligible_observation_weight q) in
      if \<not> feq s t then fless s t
      else if \<not> feq v w then fless v w
      else if ap_next_sequence p \<noteq> ap_next_sequence q then - ap_next_sequence p < - ap_next_sequence q
      else after_text p < after_text q)"

definition plan_adaptive_replay_points ::
  "TraceLog \<Rightarrow> ReplayPositionCost list \<Rightarrow> FailureReplayObservation list \<Rightarrow> int \<Rightarrow> num_arg \<Rightarrow>
   AdaptiveReplayPointProposal list res" where
  "plan_adaptive_replay_points trace candidates observations max_proposals minimum_score =
     (if candidates = [] then Inr [] else
      if observations = [] then Inr [] else
      rbind (check (0 < max_proposals) (ValueError ''max_proposals must be positive'')) (\<lambda>_.
      rbind (finite_number minimum_score ''minimum_score_minutes'' ''finite number'') (\<lambda>threshold.
      rbind (rmap (validate_position trace) candidates) (\<lambda>_.
      rbind (rmap (\<lambda>ob. check (fo_terminal_sequence ob \<le> int (length (tl_events trace)))
               (ValueError ''observation terminal_sequence exceeds the trace head'')) observations) (\<lambda>_.
      rbind (rmap (propose threshold observations) candidates) (\<lambda>proposals.
      Inr (take (nat max_proposals) (stable_sort proposal_less (List.map_filter (\<lambda>p. p) proposals)))))))))"

section \<open>The order of the ranking\<close>

text \<open>Away from NaN the comparison of keys is the lexicographic order of a tuple of linear
  orders, so the sort is a sort by a weak order.\<close>

fun float_rank :: "pyfloat \<Rightarrow> int \<times> rat" where
  "float_rank (Fin q) = (0, q)"
| "float_rank PInf = (1, 0)"
| "float_rank _ = (- 1, 0)"

lemma fless_rank: "x \<noteq> NaN \<Longrightarrow> y \<noteq> NaN \<Longrightarrow> fless x y \<longleftrightarrow> float_rank x < float_rank y"
  by (cases x; cases y) auto

lemma feq_rank: "x \<noteq> NaN \<Longrightarrow> y \<noteq> NaN \<Longrightarrow> feq x y \<longleftrightarrow> float_rank x = float_rank y"
  by (cases x; cases y) auto

lemma fneg_NaN [simp]: "fneg x = NaN \<longleftrightarrow> x = NaN"
  by (cases x) auto

definition comparable :: "AdaptiveReplayPointProposal \<Rightarrow> bool" where
  "comparable p \<longleftrightarrow> ap_score_minutes p \<noteq> NaN \<and> ap_eligible_observation_weight p \<noteq> NaN"

definition proposal_rank :: "AdaptiveReplayPointProposal \<Rightarrow> (int \<times> rat) \<times> (int \<times> rat) \<times> int \<times> string" where
  "proposal_rank p = (float_rank (fneg (ap_score_minutes p)),
     float_rank (fneg (ap_eligible_observation_weight p)), - ap_next_sequence p, after_text p)"

lemma proposal_less_rank:
  assumes "comparable p" "comparable q"
  shows "proposal_less p q \<longleftrightarrow> proposal_rank p < proposal_rank q"
  using assms unfolding comparable_def
  by (auto simp: proposal_less_def proposal_rank_def Let_def fless_rank feq_rank less_prod_def')

interpretation ranking: weak_order_on proposal_less comparable
  by unfold_locales (auto simp: proposal_less_rank)

section \<open>What a plan guarantees\<close>

lemma int_div_nonneg: "int_div i j = Inr x \<Longrightarrow> 0 \<le> i \<Longrightarrow> 0 \<le> j \<Longrightarrow> fle (Fin 0) x"
  by (auto simp: int_div_def rnd_nonneg split: if_splits)

lemma fle_zero_cases: "fle (Fin 0) x \<longleftrightarrow> x = PInf \<or> (\<exists>q. x = Fin q \<and> 0 \<le> q)"
  by (cases x) (auto simp: fle_def)

lemma fsub_finite_not_NaN: "isfinite x \<Longrightarrow> isfinite y \<Longrightarrow> fsub x y \<noteq> NaN"
  by (cases x; cases y) (auto simp: fsub_def)

text \<open>A proposal as the properties describe it: its fields are the candidate's, some observation
  is eligible, the sums are finite, and its score reaches the threshold.\<close>

definition proposal_for ::
  "pyfloat \<Rightarrow> FailureReplayObservation list \<Rightarrow> ReplayPositionCost \<Rightarrow> AdaptiveReplayPointProposal \<Rightarrow> bool" where
  "proposal_for threshold observations c p \<longleftrightarrow>
     ap_after_event_id p = pc_after_event_id c \<and> ap_next_sequence p = pc_next_sequence c \<and>
     ap_achievable_fidelity p = pc_achievable_fidelity c \<and>
     ap_capture_minutes p = pc_capture_minutes c \<and> ap_restore_minutes p = pc_restore_minutes c \<and>
     ap_score_minutes p = fsub (ap_expected_saved_minutes p) (pc_capture_minutes c) \<and>
     isfinite (ap_expected_saved_minutes p) \<and> isfinite (ap_eligible_observation_weight p) \<and>
     (\<exists>ob \<in> set observations. eligible c ob) \<and>
     \<not> fless (ap_score_minutes p) threshold"

lemma rfold_observe_none:
  assumes "\<And>ob. ob \<in> set obs \<Longrightarrow> \<not> eligible c ob"
  shows "rfold (observe c) obs a = Inr a"
  using assms by (induction obs arbitrary: a) (auto simp: observe_def split: prod.splits)

lemma finite_number_AFloat [res_iff]:
  "finite_number (AFloat x) f r = Inr y \<longleftrightarrow> isfinite x \<and> y = x"
  by (auto simp: finite_number_def Let_def)

lemma propose_Some:
  assumes "propose threshold obs c = Inr (Some p)"
  shows "proposal_for threshold obs c p"
proof -
  obtain w s x where fold: "rfold (observe c) obs (Fin 0, Fin 0, Fin 0) = Inr (w, s, x)"
    and rest: "\<not> feq w (Fin 0)" "isfinite w" "isfinite s" "\<not> fless (fsub s (pc_capture_minutes c)) threshold"
    and p: "ap_expected_saved_minutes p = s" "ap_eligible_observation_weight p = w"
      "ap_score_minutes p = fsub s (pc_capture_minutes c)"
      "ap_after_event_id p = pc_after_event_id c" "ap_next_sequence p = pc_next_sequence c"
      "ap_achievable_fidelity p = pc_achievable_fidelity c"
      "ap_capture_minutes p = pc_capture_minutes c" "ap_restore_minutes p = pc_restore_minutes c"
    using assms by (auto simp: propose_def res_iff Let_def split: if_splits prod.splits)
  have "\<exists>ob \<in> set obs. eligible c ob"
  proof (rule ccontr)
    assume "\<not> (\<exists>ob \<in> set obs. eligible c ob)"
    then have "rfold (observe c) obs (Fin 0, Fin 0, Fin 0) = Inr (Fin 0, Fin 0, Fin 0)"
      by (intro rfold_observe_none) blast
    with fold have "w = Fin 0" by simp
    with rest(1) show False by simp
  qed
  with rest p show ?thesis by (simp add: proposal_for_def)
qed

lemma validate_position_boundary:
  assumes "trace_wf trace" "validate_position trace c = Inr u" "0 \<le> pc_next_sequence c"
  shows "pc_next_sequence c \<le> int (length (tl_events trace)) \<and>
     (if pc_next_sequence c = 0 then pc_after_event_id c = None
      else \<exists>i. pc_after_event_id c = Some i \<and>
        te_event_id (tl_events trace ! nat (pc_next_sequence c - 1)) = strip i)"
proof (cases "pc_next_sequence c = 0")
  case False
  obtain i ev where ev: "pc_after_event_id c = Some i" "TraceLog_event trace i = Inr ev"
      "te_sequence ev + 1 = pc_next_sequence c" and le: "pc_next_sequence c \<le> int (length (tl_events trace))"
    using assms(2) False by (auto simp: validate_position_def res_iff split: option.splits)
  have "find (\<lambda>e. te_event_id e = strip i) (tl_events trace) = Some ev"
    using ev(2) by (auto simp: TraceLog_event_def require_nonempty_text_def res_iff Let_def
        split: option.splits if_splits)
  then obtain n where n: "n < length (tl_events trace)" "tl_events trace ! n = ev" "te_event_id ev = strip i"
    by (auto simp: find_Some_iff)
  then have "te_sequence ev = int n" using assms(1) by (auto simp: trace_wf_def Let_def)
  then have "nat (pc_next_sequence c - 1) = n" using ev(3) by simp
  then show ?thesis using n ev(1) le False by simp
qed (use assms in \<open>auto simp: validate_position_def res_iff\<close>)

lemma plan_Inr:
  assumes "plan_adaptive_replay_points trace cs obs k thr = Inr ps"
  shows "ps = [] \<and> (cs = [] \<or> obs = []) \<or>
     (\<exists>t qs. finite_number thr ''minimum_score_minutes'' ''finite number'' = Inr t \<and> 0 < k \<and>
        (\<forall>c \<in> set cs. validate_position trace c = Inr ()) \<and>
        (\<forall>ob \<in> set obs. fo_terminal_sequence ob \<le> int (length (tl_events trace))) \<and>
        list_all2 (\<lambda>c q. propose t obs c = Inr q) cs qs \<and>
        ps = take (nat k) (stable_sort proposal_less (List.map_filter (\<lambda>p. p) qs)))"
  using assms unfolding plan_adaptive_replay_points_def
  by (auto simp: res_iff rmap_Inr list_all2_conv_all_nth all_set_conv_all_nth split: if_splits)

lemma in_map_filter_id: "p \<in> set (List.map_filter (\<lambda>p. p) qs) \<longleftrightarrow> Some p \<in> set qs"
  by (force simp: List.map_filter_def)

lemma list_all2_propose:
  assumes "list_all2 (\<lambda>c q. propose t obs c = Inr q) cs qs" and "p \<in> set (List.map_filter (\<lambda>p. p) qs)"
  shows "\<exists>c \<in> set cs. proposal_for t obs c p"
proof -
  have "Some p \<in> set qs" using assms(2) by (simp only: in_map_filter_id)
  then obtain n where "n < length qs" "qs ! n = Some p" by (metis in_set_conv_nth)
  with assms(1) show ?thesis
    by (intro bexI[of _ "cs ! n"] propose_Some) (auto simp: list_all2_conv_all_nth)
qed

lemma proposal_for_comparable:
  "proposal_for t obs c p \<Longrightarrow> isfinite (pc_capture_minutes c) \<Longrightarrow> comparable p"
  using fsub_finite_not_NaN[of "ap_expected_saved_minutes p" "pc_capture_minutes c"]
  by (auto simp: proposal_for_def comparable_def)

text \<open>The ranking.  A plan holds at most \<open>max_proposals\<close> proposals, in the order of
  decreasing score, weight and position; it is a part of the proposals of all candidates, nothing
  left out ranks before anything kept, and something is left out only when the plan is full.\<close>

theorem plan_keeps_best:
  assumes "plan_adaptive_replay_points trace cs obs k thr = Inr ps"
    and "\<forall>c \<in> set cs. isfinite (pc_capture_minutes c)" and "cs \<noteq> []" "obs \<noteq> []"
  shows "\<exists>t qs rest. finite_number thr ''minimum_score_minutes'' ''finite number'' = Inr t \<and>
     map (propose t obs) cs = map Inr qs \<and>
     length ps \<le> nat k \<and> sorted_wrt (\<lambda>p q. \<not> proposal_less q p) ps \<and>
     mset (ps @ rest) = mset (List.map_filter (\<lambda>p. p) qs) \<and>
     (\<forall>p \<in> set ps. \<forall>r \<in> set rest. \<not> proposal_less r p) \<and> (rest \<noteq> [] \<longrightarrow> length ps = nat k)"
proof -
  obtain t qs where t: "finite_number thr ''minimum_score_minutes'' ''finite number'' = Inr t"
    and qs: "list_all2 (\<lambda>c q. propose t obs c = Inr q) cs qs"
    and ps: "ps = take (nat k) (stable_sort proposal_less (List.map_filter (\<lambda>p. p) qs))"
    using plan_Inr[OF assms(1)] assms(3,4) by blast
  have all: "list_all comparable (List.map_filter (\<lambda>p. p) qs)"
    using list_all2_propose[OF qs] proposal_for_comparable assms(2) unfolding list_all_iff by blast
  have "map (propose t obs) cs = map Inr qs"
    using qs by (auto simp: list_all2_conv_all_nth intro: nth_equalityI)
  moreover have "sorted_wrt (\<lambda>p q. \<not> proposal_less q p) ps" "length ps \<le> nat k"
    using ranking.in_order_stable_sort[OF all] by (simp_all add: ps sorted_wrt_take)
  ultimately show ?thesis
    using t ranking.stable_sort_best[OF all, of "nat k"] unfolding ps[symmetric] by blast
qed

text \<open>Every proposal of a plan is a real boundary of the trace and worth its capture: it
  copies a candidate whose position is the origin or directly follows the event it names, some
  observed failure is at or after it and accepts its fidelity, its expected savings are finite,
  and its score, the savings less the capture, reaches the threshold.\<close>

theorem plan_proposals_sound:
  assumes "plan_adaptive_replay_points trace cs obs k thr = Inr ps" and "trace_wf trace"
    and "\<forall>c \<in> set cs. 0 \<le> pc_next_sequence c" and "p \<in> set ps"
  shows "\<exists>t c. finite_number thr ''minimum_score_minutes'' ''finite number'' = Inr t \<and>
     c \<in> set cs \<and> proposal_for t obs c p \<and>
     ap_next_sequence p \<le> int (length (tl_events trace)) \<and>
     (if ap_next_sequence p = 0 then ap_after_event_id p = None
      else \<exists>i. ap_after_event_id p = Some i \<and>
        te_event_id (tl_events trace ! nat (ap_next_sequence p - 1)) = strip i)"
proof -
  obtain t qs where t: "finite_number thr ''minimum_score_minutes'' ''finite number'' = Inr t"
    and val: "\<forall>c \<in> set cs. validate_position trace c = Inr ()"
    and qs: "list_all2 (\<lambda>c q. propose t obs c = Inr q) cs qs"
    and ps: "ps = take (nat k) (stable_sort proposal_less (List.map_filter (\<lambda>p. p) qs))"
    using plan_Inr[OF assms(1)] assms(4) by auto
  have "p \<in> set (List.map_filter (\<lambda>p. p) qs)"
    using assms(4) ps by (metis in_set_takeD set_stable_sort)
  then obtain c where c: "c \<in> set cs" "proposal_for t obs c p" using list_all2_propose[OF qs] by blast
  then have pos: "ap_next_sequence p = pc_next_sequence c" "ap_after_event_id p = pc_after_event_id c"
    by (simp_all add: proposal_for_def)
  show ?thesis
    using validate_position_boundary[OF assms(2), of c] val assms(3) c t unfolding pos by blast
qed

section \<open>A sample plan\<close>

definition sample_position :: ReplayPositionCost where
  "sample_position = \<lparr>pc_after_event_id = Some ''e0'', pc_next_sequence = 1,
     pc_achievable_fidelity = EXACT, pc_capture_minutes = Fin 1, pc_restore_minutes = Fin 2\<rparr>"

definition sample_observation :: FailureReplayObservation where
  "sample_observation = \<lparr>fo_first_effect_sequence = 1, fo_terminal_sequence = 2,
     fo_full_replay_minutes = Fin 8, fo_minimum_fidelity = EXACT, fo_weight = Fin 1\<rparr>"


definition sample_proposal :: AdaptiveReplayPointProposal where
  "sample_proposal = \<lparr>ap_after_event_id = Some ''e0'', ap_next_sequence = 1,
     ap_achievable_fidelity = EXACT, ap_score_minutes = Fin 1, ap_expected_saved_minutes = Fin 2,
     ap_expected_suffix_events = Fin 1, ap_eligible_observation_weight = Fin 1,
     ap_capture_minutes = Fin 1, ap_restore_minutes = Fin 2\<rparr>"

lemma rnd_half: "rnd (1 / 2) = Fin (1 / 2)"
  by code_simp

lemma sample_plan:
  "plan_adaptive_replay_points sample_log [sample_position] [sample_observation] 1 (AInt 0)
     = Inr [sample_proposal]"
  by (simp add: plan_adaptive_replay_points_def validate_position_def propose_def observe_def
      eligible_def sample_position_def sample_observation_def sample_proposal_def finite_number_def
      of_pyint_def int_div_def rnd_half float_operand_def fsub_def fmax0_def TraceLog_event_def
      require_nonempty_text_def strip_def is_space_def sample_log_def sample_event_def
      List.map_filter_simps fidelity_meets_def Let_def)

theorem plan_keeps_best_witness:
  "\<exists>t qs rest. finite_number (AInt 0) ''minimum_score_minutes'' ''finite number'' = Inr t \<and>
     map (propose t [sample_observation]) [sample_position] = map Inr qs \<and>
     mset (sample_proposal # rest) = mset (List.map_filter (\<lambda>p. p) qs)"
proof -
  have "\<forall>c \<in> set [sample_position]. isfinite (pc_capture_minutes c)" by (simp add: sample_position_def)
  from plan_keeps_best[OF sample_plan this] show ?thesis by fastforce
qed

theorem plan_proposals_sound_witness:
  "\<exists>t. proposal_for t [sample_observation] sample_position sample_proposal \<and>
     te_event_id (tl_events sample_log ! 0) = strip ''e0''"
  using plan_proposals_sound[OF sample_plan trace_sample_wf, of sample_proposal]
  by (auto simp: sample_position_def sample_proposal_def)

lemma finite_number_Inl: "finite_number v f r = Inl e \<Longrightarrow> \<exists>m. e = ValueError m"
  by (auto simp: finite_number_def Let_def split: num_arg.splits if_splits)

lemma validate_position_Inl:
  "validate_position trace c = Inl e \<Longrightarrow> (\<exists>m. e = ValueError m) \<or> (\<exists>m. e = KeyError m)"
  by (auto simp: validate_position_def rbind_Inl check_def TraceLog_event_def require_nonempty_text_def
      Let_def split: if_splits option.splits)

text \<open>Planning refuses a bad request.  On non-empty input a plan that is asked for no
  proposals, has a threshold that is no finite number, a candidate off the trace's boundaries, or
  an observation beyond the trace head raises, and the exception is a \<open>ValueError\<close> or, for an
  unknown event, a \<open>KeyError\<close>.\<close>

theorem plan_refuses:
  assumes "cs \<noteq> []" "obs \<noteq> []"
    and "k \<le> 0 \<or> (\<exists>e. finite_number thr ''minimum_score_minutes'' ''finite number'' = Inl e) \<or>
      (\<exists>c \<in> set cs. \<exists>e. validate_position trace c = Inl e) \<or>
      (\<exists>ob \<in> set obs. int (length (tl_events trace)) < fo_terminal_sequence ob)"
  shows "\<exists>m. plan_adaptive_replay_points trace cs obs k thr \<in> {Inl (ValueError m), Inl (KeyError m)}"
proof (cases "plan_adaptive_replay_points trace cs obs k thr")
  case (Inr ps)
  then show ?thesis using plan_Inr[OF Inr] assms by fastforce
next
  case (Inl e)
  then have "(\<exists>m. e = ValueError m) \<or> (\<exists>c \<in> set cs. validate_position trace c = Inl e) \<or>
      (\<forall>c \<in> set cs. validate_position trace c = Inr ()) \<and> \<not> k \<le> 0 \<and>
      (\<forall>ob \<in> set obs. fo_terminal_sequence ob \<le> int (length (tl_events trace))) \<and>
      (\<exists>t. finite_number thr ''minimum_score_minutes'' ''finite number'' = Inr t)"
    using assms(1,2) unfolding plan_adaptive_replay_points_def
    by (auto simp: rbind_Inl check_def rmap_Inr list_all2_conv_all_nth all_set_conv_all_nth
        split: if_splits dest!: rmap_Inl finite_number_Inl)
  then show ?thesis using assms(3) Inl validate_position_Inl by fastforce
qed

theorem plan_refuses_witness:
  "\<exists>m. plan_adaptive_replay_points sample_log [sample_position\<lparr>pc_next_sequence := 2\<rparr>] [sample_observation] 1 (AInt 0)
     \<in> {Inl (ValueError m), Inl (KeyError m)}"
  by (rule plan_refuses)
    (simp_all add: validate_position_def sample_position_def TraceLog_event_def
      require_nonempty_text_def strip_def is_space_def sample_log_def sample_event_def check_def Let_def)

end
