(* ===== verification/Replay_Summary.thy ===== *)
theory Replay_Summary
  imports Counterfactual
begin

text \<open>
  \<open>summarize_counterfactual_results\<close> of \<open>src/loopx/capabilities/explore/replay_metrics.py\<close>: the
  totals over a sequence of counterfactual results, with an estimate of the fresh-run minutes the
  replays avoided.  The local variables of the loop are a record; a \<open>Counter\<close> keeps its keys in
  insertion order and is listed sorted.
\<close>

record summary =
  su_decision_counts :: "int dict"
  su_fidelity_counts :: "int dict"
  su_failed_fix_count :: int
  su_guard_regression_count :: int
  su_missing_validation_count :: int
  su_avoided_prefix_events :: int
  su_addressed_prefix_events :: int
  su_verified_reused_prefix_events :: int
  su_replay_distance_events :: int
  su_restore_minutes :: pyfloat
  su_equivalence_minutes :: pyfloat
  su_suffix_minutes :: pyfloat
  su_replay_wall_minutes :: pyfloat
  su_estimated_fresh_minutes :: pyfloat
  su_estimated_avoided_minutes :: pyfloat
  su_promoted_avoided_minutes :: pyfloat
  su_fresh_samples :: int
  su_prefix_reuse_counts :: "int dict"

definition summary_init :: summary where
  "summary_init = \<lparr>su_decision_counts = [], su_fidelity_counts = [], su_failed_fix_count = 0,
     su_guard_regression_count = 0, su_missing_validation_count = 0, su_avoided_prefix_events = 0,
     su_addressed_prefix_events = 0, su_verified_reused_prefix_events = 0, su_replay_distance_events = 0,
     su_restore_minutes = Fin 0, su_equivalence_minutes = Fin 0, su_suffix_minutes = Fin 0,
     su_replay_wall_minutes = Fin 0, su_estimated_fresh_minutes = Fin 0,
     su_estimated_avoided_minutes = Fin 0, su_promoted_avoided_minutes = Fin 0, su_fresh_samples = 0,
     su_prefix_reuse_counts = []\<rparr>"

definition prefix_reuse_label :: "bool option \<Rightarrow> string" where
  "prefix_reuse_label b = (case b of Some True \<Rightarrow> ''verified_reuse'' | Some False \<Rightarrow> ''reconstructed''
     | None \<Rightarrow> ''unknown'')"

text \<open>The counts of one result.\<close>

definition summarize_counts :: "CounterfactualReplayResult \<Rightarrow> summary \<Rightarrow> summary" where
  "summarize_counts r a = a\<lparr>
     su_decision_counts := counter_add (CounterfactualDecision_value (cv_decision r)) 1 (su_decision_counts a),
     su_fidelity_counts := counter_add (ReplayFidelity_value (rs_achieved_fidelity (cv_restore r))) 1 (su_fidelity_counts a),
     su_failed_fix_count := su_failed_fix_count a + int (length (cv_failed_fixes r)),
     su_guard_regression_count := su_guard_regression_count a + int (length (cv_regressed_guards r)),
     su_missing_validation_count := su_missing_validation_count a + int (length (cv_missing_validations r)),
     su_avoided_prefix_events := su_avoided_prefix_events a + cv_avoided_prefix_event_count r,
     su_addressed_prefix_events := su_addressed_prefix_events a + cv_addressed_prefix_event_count r,
     su_verified_reused_prefix_events :=
       su_verified_reused_prefix_events a + cv_verified_reused_prefix_event_count r,
     su_prefix_reuse_counts :=
       counter_add (prefix_reuse_label (rs_prefix_reused (cv_restore r))) 1 (su_prefix_reuse_counts a),
     su_replay_distance_events := su_replay_distance_events a + cv_replay_distance_events r\<rparr>"

definition summarize_minutes :: "CounterfactualReplayResult \<Rightarrow> summary \<Rightarrow> summary" where
  "summarize_minutes r a = a\<lparr>
     su_restore_minutes := fadd (su_restore_minutes a) (rs_restore_minutes (cv_restore r)),
     su_equivalence_minutes := fadd (su_equivalence_minutes a) (rs_equivalence_minutes (cv_restore r)),
     su_suffix_minutes := fadd (su_suffix_minutes a) (rs_suffix_minutes (cv_restore r)),
     su_replay_wall_minutes := fadd (su_replay_wall_minutes a) (rs_replay_wall_minutes (cv_restore r))\<rparr>"

text \<open>The comparison with a fresh run, when a baseline is known for the candidate.\<close>

definition avoided_minutes :: "pyfloat \<Rightarrow> CounterfactualReplayResult \<Rightarrow> pyfloat" where
  "avoided_minutes baseline r = fmax0 (fsub (fmax0 baseline) (rs_replay_wall_minutes (cv_restore r)))"

definition summarize_fresh :: "pyfloat dict \<Rightarrow> CounterfactualReplayResult \<Rightarrow> summary \<Rightarrow> summary" where
  "summarize_fresh baselines r a = (case dict_get baselines (cv_candidate_id r) of
     None \<Rightarrow> a
   | Some baseline \<Rightarrow> a\<lparr>
       su_estimated_fresh_minutes := fadd (su_estimated_fresh_minutes a) (fmax0 baseline),
       su_estimated_avoided_minutes := fadd (su_estimated_avoided_minutes a) (avoided_minutes baseline r),
       su_fresh_samples := su_fresh_samples a + 1,
       su_promoted_avoided_minutes :=
         (if CounterfactualDecision_value (cv_decision r) = ''promoted''
          then fadd (su_promoted_avoided_minutes a) (avoided_minutes baseline r)
          else su_promoted_avoided_minutes a)\<rparr>)"

definition summarize_one :: "pyfloat dict \<Rightarrow> CounterfactualReplayResult \<Rightarrow> summary \<Rightarrow> summary" where
  "summarize_one baselines r a = summarize_fresh baselines r (summarize_minutes r (summarize_counts r a))"

definition summary_totals :: "pyfloat dict option \<Rightarrow> CounterfactualReplayResult list \<Rightarrow> summary" where
  "summary_totals baselines results =
     fold (summarize_one (case baselines of None \<Rightarrow> [] | Some b \<Rightarrow> b)) results summary_init"

definition summarize_counterfactual_results ::
  "CounterfactualReplayResult list \<Rightarrow> pyfloat dict option \<Rightarrow> pyval dict" where
  "summarize_counterfactual_results results baselines =
     (let a = summary_totals baselines results in
      [(''counterfactual_attempt_count'', PInt (int (length results))),
       (''promotion_count'', PInt (counter_get (su_decision_counts a) ''promoted'')),
       (''rejection_count'', PInt (counter_get (su_decision_counts a) ''rejected'')),
       (''observed_only_count'', PInt (counter_get (su_decision_counts a) ''observed_only'')),
       (''failed_fix_count'', PInt (su_failed_fix_count a)),
       (''guard_regression_count'', PInt (su_guard_regression_count a)),
       (''missing_validation_count'', PInt (su_missing_validation_count a)),
       (''addressed_prefix_event_count'', PInt (su_addressed_prefix_events a)),
       (''avoided_prefix_event_count'', PInt (su_avoided_prefix_events a)),
       (''verified_reused_prefix_event_count'', PInt (su_verified_reused_prefix_events a)),
       (''replay_distance_event_count'', PInt (su_replay_distance_events a)),
       (''restore_minutes'', PFloat (round_decimals (su_restore_minutes a) 6)),
       (''equivalence_minutes'', PFloat (round_decimals (su_equivalence_minutes a) 6)),
       (''suffix_minutes'', PFloat (round_decimals (su_suffix_minutes a) 6)),
       (''replay_wall_minutes'', PFloat (round_decimals (su_replay_wall_minutes a) 6)),
       (''fresh_compute_sample_count'', PInt (su_fresh_samples a)),
       (''estimated_fresh_compute_minutes'', PFloat (round_decimals (su_estimated_fresh_minutes a) 6)),
       (''estimated_avoided_compute_minutes'', PFloat (round_decimals (su_estimated_avoided_minutes a) 6)),
       (''promoted_avoided_compute_minutes'', PFloat (round_decimals (su_promoted_avoided_minutes a) 6)),
       (''decision_counts'', sorted_counter (su_decision_counts a)),
       (''restored_fidelity_counts'', sorted_counter (su_fidelity_counts a)),
       (''prefix_reuse_counts'', sorted_counter (su_prefix_reuse_counts a))])"

section \<open>The totals\<close>

lemma summarize_fresh_counts [simp]:
  "su_decision_counts (summarize_fresh b r a) = su_decision_counts a"
  "su_failed_fix_count (summarize_fresh b r a) = su_failed_fix_count a"
  "su_guard_regression_count (summarize_fresh b r a) = su_guard_regression_count a"
  "su_missing_validation_count (summarize_fresh b r a) = su_missing_validation_count a"
  "su_addressed_prefix_events (summarize_fresh b r a) = su_addressed_prefix_events a"
  "su_prefix_reuse_counts (summarize_fresh b r a) = su_prefix_reuse_counts a"
  by (simp_all add: summarize_fresh_def split: option.splits)

lemma totals_counts:
  "counter_get (su_decision_counts (fold (summarize_one b) rs a)) (CounterfactualDecision_value d)
     = counter_get (su_decision_counts a) (CounterfactualDecision_value d) + count_where (\<lambda>r. cv_decision r = d) rs"
proof -
  have "CounterfactualDecision_value d = CounterfactualDecision_value d' \<longleftrightarrow> d = d'" for d'
    by (cases d; cases d') auto
  then show ?thesis
    by (induction rs arbitrary: a)
      (auto simp: summarize_one_def summarize_minutes_def summarize_counts_def counter_get_add count_where_def)
qed

lemma totals_sums:
  "su_failed_fix_count (fold (summarize_one b) rs a) = su_failed_fix_count a + (\<Sum>r\<leftarrow>rs. int (length (cv_failed_fixes r)))"
  "su_guard_regression_count (fold (summarize_one b) rs a)
     = su_guard_regression_count a + (\<Sum>r\<leftarrow>rs. int (length (cv_regressed_guards r)))"
  "su_missing_validation_count (fold (summarize_one b) rs a)
     = su_missing_validation_count a + (\<Sum>r\<leftarrow>rs. int (length (cv_missing_validations r)))"
  "su_addressed_prefix_events (fold (summarize_one b) rs a)
     = su_addressed_prefix_events a + (\<Sum>r\<leftarrow>rs. cv_addressed_prefix_event_count r)"
  by (induction rs arbitrary: a) (simp_all add: summarize_one_def summarize_minutes_def summarize_counts_def)

lemma decision_partition:
  "count_where (\<lambda>r. cv_decision r = PROMOTED) rs + count_where (\<lambda>r. cv_decision r = REJECTED) rs
     + count_where (\<lambda>r. cv_decision r = OBSERVED_ONLY) rs = int (length rs)"
proof (induction rs)
  case (Cons r rs)
  then show ?case by (cases "cv_decision r") (simp_all add: count_where_def)
qed (simp add: count_where_def)

text \<open>The summary counts what it says.  The promotion, rejection and observation counts are
  the numbers of results with those decisions and add up to the number of attempts, and the fix,
  guard, missing and prefix counts are the sums over the results.\<close>

theorem summary_counts_spec:
  "\<exists>p j ob. dict_get (summarize_counterfactual_results rs b) ''promotion_count'' = Some (PInt p) \<and>
     dict_get (summarize_counterfactual_results rs b) ''rejection_count'' = Some (PInt j) \<and>
     dict_get (summarize_counterfactual_results rs b) ''observed_only_count'' = Some (PInt ob) \<and>
     p = count_where promoted rs \<and> p + j + ob = int (length rs) \<and>
     dict_get (summarize_counterfactual_results rs b) ''counterfactual_attempt_count'' = Some (PInt (p + j + ob)) \<and>
     dict_get (summarize_counterfactual_results rs b) ''failed_fix_count''
       = Some (PInt (\<Sum>r\<leftarrow>rs. int (length (cv_failed_fixes r)))) \<and>
     dict_get (summarize_counterfactual_results rs b) ''guard_regression_count''
       = Some (PInt (\<Sum>r\<leftarrow>rs. int (length (cv_regressed_guards r)))) \<and>
     dict_get (summarize_counterfactual_results rs b) ''missing_validation_count''
       = Some (PInt (\<Sum>r\<leftarrow>rs. int (length (cv_missing_validations r)))) \<and>
     dict_get (summarize_counterfactual_results rs b) ''addressed_prefix_event_count''
       = Some (PInt (\<Sum>r\<leftarrow>rs. cv_addressed_prefix_event_count r))"
proof -
  note counts = totals_counts[of _ rs summary_init PROMOTED] totals_counts[of _ rs summary_init REJECTED]
    totals_counts[of _ rs summary_init OBSERVED_ONLY]
  have "count_where (\<lambda>r. cv_decision r = PROMOTED) rs = count_where promoted rs"
    by (simp add: promoted_def[abs_def])
  then show ?thesis
    using counts decision_partition[of rs]
    by (simp add: summarize_counterfactual_results_def summary_totals_def Let_def totals_sums summary_init_def
        counter_get_def)
qed

section \<open>Bounds of the estimate\<close>

definition avoided_inv :: "summary \<Rightarrow> bool" where
  "avoided_inv a \<longleftrightarrow> fle (Fin 0) (su_promoted_avoided_minutes a) \<and>
     fle (su_promoted_avoided_minutes a) (su_estimated_avoided_minutes a) \<and>
     is_float (su_estimated_avoided_minutes a)"

lemma is_float_fsub: "is_float (fsub x y)"
  by (cases x; cases y) (simp_all add: fsub_def, simp_all add: is_float_def)

lemma is_float_fmax0: "is_float x \<Longrightarrow> is_float (fmax0 x)"
  by (auto simp: fmax0_def is_float_def)

lemma avoided_inv_one:
  assumes "avoided_inv a"
  shows "avoided_inv (summarize_one b r a)"
proof (cases "dict_get b (cv_candidate_id r)")
  case None
  then show ?thesis using assms
    by (simp add: avoided_inv_def summarize_one_def summarize_fresh_def summarize_minutes_def summarize_counts_def)
next
  case (Some base)
  define m where "m = avoided_minutes base r"
  let ?p = "su_promoted_avoided_minutes a" and ?e = "su_estimated_avoided_minutes a"
  have m: "fle (Fin 0) m" "is_float m"
    by (simp_all add: m_def avoided_minutes_def fmax0_nonneg is_float_fmax0 is_float_fsub)
  have e: "fle (Fin 0) ?e" "is_float ?e" "fle ?p ?e" "fle (Fin 0) ?p"
    using assms fle_trans by (auto simp: avoided_inv_def)
  have "fle ?p (fadd ?e m)" using fadd_ge_left[OF e(2,1) m(1)] e(3) fle_trans by blast
  moreover have "fle (fadd ?p m) (fadd ?e m)" using fadd_mono_left e(3,4) m(1) by blast
  moreover have "fle (Fin 0) (fadd ?p m)" using fadd_nonneg e(4) m(1) by blast
  ultimately show ?thesis using Some e m
    by (simp add: avoided_inv_def summarize_one_def summarize_fresh_def summarize_minutes_def summarize_counts_def
        m_def[symmetric] is_float_fadd)
qed

text \<open>The avoided minutes are an estimate within bounds: in the summary the minutes avoided by
  promoted candidates are non-negative and never exceed the minutes avoided by all, whatever the
  measured durations and the baselines are (infinite or not a number included) and in spite of
  the rounding of every sum.\<close>

theorem summary_avoided_bounds:
  "\<exists>p e. dict_get (summarize_counterfactual_results rs b) ''promoted_avoided_compute_minutes'' = Some (PFloat p) \<and>
     dict_get (summarize_counterfactual_results rs b) ''estimated_avoided_compute_minutes'' = Some (PFloat e) \<and>
     fle (Fin 0) p \<and> fle p e"
proof -
  have "avoided_inv (fold (summarize_one d) rs a)" if "avoided_inv a" for d a
    using that by (induction rs arbitrary: a) (auto intro: avoided_inv_one)
  moreover have "avoided_inv summary_init" by (simp add: avoided_inv_def summary_init_def is_float_def)
  ultimately have inv: "avoided_inv (summary_totals b rs)" by (simp add: summary_totals_def)
  have "round_decimals (Fin 0) 6 = Fin 0" by (simp add: round_half_even_def)
  then show ?thesis
    using inv round_decimals_mono[of "Fin 0" "su_promoted_avoided_minutes (summary_totals b rs)" 6]
      round_decimals_mono[of "su_promoted_avoided_minutes (summary_totals b rs)"
        "su_estimated_avoided_minutes (summary_totals b rs)" 6]
    by (simp add: summarize_counterfactual_results_def Let_def avoided_inv_def)
qed

end
