(* ===== verification/Py_Object.thy ===== *)
theory Py_Object
  imports Replay_Contract
begin

text \<open>
  Dynamically typed dictionaries, as the control-plane code passes them around: reading a key,
  truth values, \<open>or\<close>, and conversion to text.  The text of an object that is no string is given
  by its class; it is a parameter \<open>str_of\<close> of the definitions that convert.  Opaque objects count
  as true.
\<close>

fun truthy :: "pyval \<Rightarrow> bool" where
  "truthy PNone = False"
| "truthy (PBool b) = b"
| "truthy (PInt i) = (i \<noteq> 0)"
| "truthy (PFloat x) = (\<not> feq x (Fin 0))"
| "truthy (PStr s) = (s \<noteq> [])"
| "truthy (PMap m) = (m \<noteq> [])"
| "truthy (PList xs) = (xs \<noteq> [])"
| "truthy (PTuple xs) = (xs \<noteq> [])"
| "truthy _ = True"

definition py_or :: "pyval \<Rightarrow> pyval \<Rightarrow> pyval" where
  "py_or v w = (if truthy v then v else w)"

definition get :: "pyval dict \<Rightarrow> string \<Rightarrow> pyval" where
  "get d k = (case dict_get d k of None \<Rightarrow> PNone | Some v \<Rightarrow> v)"

text \<open>The same on a mapping that is a value, and a dictionary as a value.\<close>

definition map_get :: "(pykey \<times> pyval) list \<Rightarrow> string \<Rightarrow> pyval" where
  "map_get m k = (case map_of m (KStr k) of None \<Rightarrow> PNone | Some v \<Rightarrow> v)"

definition map_value :: "pyval dict \<Rightarrow> pyval" where
  "map_value d = PMap (map (\<lambda>(k, v). (KStr k, v)) d)"

definition py_text :: "(pyval \<Rightarrow> string) \<Rightarrow> pyval \<Rightarrow> string" where
  "py_text str_of v = (case v of PStr s \<Rightarrow> s | _ \<Rightarrow> str_of v)"

text \<open>\<open>str(value or "")\<close>\<close>

definition text_or_empty :: "(pyval \<Rightarrow> string) \<Rightarrow> pyval \<Rightarrow> string" where
  "text_or_empty str_of v = py_text str_of (py_or v (PStr []))"

text \<open>\<open>d.pop(key, None)\<close>\<close>

definition dict_pop :: "string \<Rightarrow> 'v dict \<Rightarrow> 'v dict" where
  "dict_pop k d = filter (\<lambda>(k', _). k' \<noteq> k) d"

definition dict_setdefault :: "string \<Rightarrow> 'v \<Rightarrow> 'v dict \<Rightarrow> 'v dict" where
  "dict_setdefault k v d = (case dict_get d k of None \<Rightarrow> dict_set k v d | Some _ \<Rightarrow> d)"

text \<open>\<open>dict.fromkeys(xs)\<close>: the first occurrences, in order.\<close>

definition dedupe :: "'a list \<Rightarrow> 'a list" where
  "dedupe xs = fold (\<lambda>x acc. if x \<in> set acc then acc else acc @ [x]) xs []"

text \<open>Decimal text of an integer, and with zeros to a width.\<close>

fun decimal_nat :: "nat \<Rightarrow> string" where
  "decimal_nat n = (if n < 10 then [char_of (48 + n)] else decimal_nat (n div 10) @ [char_of (48 + n mod 10)])"

declare decimal_nat.simps [simp del]

definition decimal :: "int \<Rightarrow> string" where
  "decimal i = (if i < 0 then ''-'' @ decimal_nat (nat (- i)) else decimal_nat (nat i))"

definition zero_padded :: "nat \<Rightarrow> nat \<Rightarrow> string" where
  "zero_padded w n = replicate (w - length (decimal_nat n)) (CHR ''0'') @ decimal_nat n"

section \<open>Laws\<close>

lemma get_set: "get (dict_set k v d) k' = (if k' = k then v else get d k')"
  by (simp add: get_def dict_get_set)

lemma dict_get_pop: "dict_get (dict_pop k d) k' = (if k' = k then None else dict_get d k')"
  by (induction d) (auto simp: dict_pop_def)

lemma get_pop: "get (dict_pop k d) k' = (if k' = k then PNone else get d k')"
  by (simp add: get_def dict_get_pop)

lemma dedupe_laws: "set (dedupe xs) = set xs" "distinct (dedupe xs)"
proof -
  have "set (fold (\<lambda>x acc. if x \<in> set acc then acc else acc @ [x]) xs a) = set a \<union> set xs \<and>
      (distinct a \<longrightarrow> distinct (fold (\<lambda>x acc. if x \<in> set acc then acc else acc @ [x]) xs a))" for a
    by (induction xs arbitrary: a) auto
  from this[of "[]"] show "set (dedupe xs) = set xs" "distinct (dedupe xs)" by (simp_all add: dedupe_def)
qed

text \<open>The decimal text determines the number.\<close>

lemma decimal_nat_value: "foldl (\<lambda>a c. 10 * a + (of_char c - 48)) 0 (decimal_nat n) = n"
proof (induction n rule: decimal_nat.induct)
  case (1 n)
  then show ?case
    by (subst decimal_nat.simps) (auto simp: of_char_of)
qed

lemma decimal_nat_inj: "decimal_nat m = decimal_nat n \<Longrightarrow> m = n"
  using decimal_nat_value by metis

lemma zero_padded_inj: "zero_padded w m = zero_padded w n \<Longrightarrow> m = n"
proof -
  have "foldl (\<lambda>a c. 10 * a + (of_char c - 48)) 0 (zero_padded w n) = n" for n
  proof -
    have z: "foldl (\<lambda>a c. 10 * a + (of_char c - 48)) (0 :: nat) (replicate k (CHR ''0'')) = 0" for k
      by (induction k) auto
    show ?thesis by (simp add: zero_padded_def z decimal_nat_value)
  qed
  then show "zero_padded w m = zero_padded w n \<Longrightarrow> m = n" by metis
qed

end
