(* ===== verification/Episode_Runtime.thy ===== *)
theory Episode_Runtime
  imports Py_Object
begin

text \<open>
  \<open>src/loopx/capabilities/explore/episode_runtime.py\<close>: the grouping of a queue of items into
  execution units, one seed with its variants per unit, and the execution of a unit: prepare a
  shared prefix, execute the suffixes, always release the handle.

  Items and records are dictionaries with string keys.  A unit is a dictionary in the source;
  here it is an \<open>execution_unit\<close> with the fields the code stores, and \<open>unit_dict\<close> is the dictionary
  itself.  The adapter, the factory of error records and the clock are parameters that act on a
  world of type \<open>'w\<close>; a handle is an opaque \<open>'h\<close>.  The adapter is taken not to write into the
  dictionaries it is handed.  \<open>PBinary\<close> is a \<open>bytes\<close> object here, and no opaque object is a sequence or
  a mapping.  Units reach the execution from the grouping, whose group and seed ids are not empty
  (\<open>Episode_Properties\<close>), so the fallbacks for empty ids in \<open>execute_episode_group\<close> do not arise.
\<close>

section \<open>Concurrency keys and the adapter protocol\<close>

definition RECOVERABLE_EPISODE_MODE :: string where
  "RECOVERABLE_EPISODE_MODE = ''recoverable-v0''"

definition RECORD_KIND_SHARED_PREFIX :: string where
  "RECORD_KIND_SHARED_PREFIX = ''shared_prefix''"

definition RECORD_KIND_EPISODE_SUFFIX :: string where
  "RECORD_KIND_EPISODE_SUFFIX = ''episode_suffix''"

definition RECORD_KIND_STANDALONE :: string where
  "RECORD_KIND_STANDALONE = ''standalone''"

definition raw_concurrency_keys :: "(pyval \<Rightarrow> string) \<Rightarrow> pyval \<Rightarrow> string list" where
  "raw_concurrency_keys str_of raw =
     (let sequence = (case raw of PList xs \<Rightarrow> xs | PTuple xs \<Rightarrow> xs | _ \<Rightarrow> []);
          texts = map (\<lambda>v. strip (py_text str_of v)) (filter (\<lambda>v. v \<noteq> PNone) sequence)
      in filter (\<lambda>key. key \<noteq> []) texts)"

definition fallback_key :: "(pyval \<Rightarrow> string) \<Rightarrow> pyval dict \<Rightarrow> string" where
  "fallback_key str_of item =
     strip (text_or_empty str_of (py_or (get item ''concurrency_key'') (get item ''family'')))"

definition item_concurrency_keys :: "(pyval \<Rightarrow> string) \<Rightarrow> pyval dict \<Rightarrow> string list" where
  "item_concurrency_keys str_of item =
     (let keys = raw_concurrency_keys str_of (get item ''concurrency_keys'');
          fallback = fallback_key str_of item
      in dedupe (if keys \<noteq> [] then keys else if fallback \<noteq> [] then [fallback] else []))"

text \<open>What \<open>prepare_episode_group\<close> returns: \<open>None\<close>, an object that is no mapping, or a mapping; of
  a mapping the handle (if the key is there), the prefix record (if it is a mapping) and the
  checkpoint reference (\<open>None\<close> if the key is not there).\<close>

datatype 'h prepared =
    PreparedNone
  | PreparedOther
  | PreparedMap "'h option" "pyval dict option" pyval

text \<open>The keyword arguments of every call into the adapter; the episode calls also get the
  execution group id.\<close>

record queue_context =
  qc_run_root :: string
  qc_arm :: string
  qc_epoch :: int
  qc_branch_id :: string

record ('w, 'h) episode_adapter =
  ea_prepare_episode_group :: "pyval dict \<Rightarrow> pyval dict list \<Rightarrow> queue_context \<Rightarrow> string \<Rightarrow> ('w, 'h prepared) act"
  ea_execute_episode :: "'h \<Rightarrow> pyval dict \<Rightarrow> queue_context \<Rightarrow> string \<Rightarrow> ('w, pyval dict option) act"
  ea_release_episode_group :: "'h \<Rightarrow> queue_context \<Rightarrow> string \<Rightarrow> ('w, unit) act"
  ea_execute :: "pyval dict \<Rightarrow> queue_context \<Rightarrow> ('w, pyval dict option) act"

definition recoverable_episode_mode :: "'a attr \<Rightarrow> 'b attr \<Rightarrow> 'c attr \<Rightarrow> string option res" where
  "recoverable_episode_mode prepare execute release =
     protocol_mode RECOVERABLE_EPISODE_MODE
       ''recoverable episode adapters must implement all protocol methods''
       [method_facts prepare, method_facts execute, method_facts release]"

section \<open>Grouping\<close>

text \<open>A reason keeps the constant part of the source's message.\<close>

definition item_id_text :: "(pyval \<Rightarrow> string) \<Rightarrow> pyval dict \<Rightarrow> string" where
  "item_id_text str_of item = strip (text_or_empty str_of (get item ''item_id''))"

definition seed_item_id_text :: "(pyval \<Rightarrow> string) \<Rightarrow> pyval dict \<Rightarrow> string" where
  "seed_item_id_text str_of item = strip (text_or_empty str_of (get item ''seed_item_id''))"

definition is_variant :: "pyval dict \<Rightarrow> bool" where
  "is_variant item = truthy (get item ''is_variant'')"

type_synonym reasons = "(nat \<times> string) list"

record seed_scan =
  seeds :: "pyval dict dict"
  seed_indices :: "nat dict"
  ambiguous_seed_ids :: "string set"
  invalid_reasons :: reasons

definition scan_seed :: "(pyval \<Rightarrow> string) \<Rightarrow> nat \<times> pyval dict \<Rightarrow> seed_scan \<Rightarrow> seed_scan" where
  "scan_seed str_of = (\<lambda>(index, item) s.
     if is_variant item then s
     else let item_id = item_id_text str_of item in
       if item_id = [] then
         s\<lparr>invalid_reasons := AList.update index
             ''recoverable episode seed items require a non-empty item_id'' (invalid_reasons s)\<rparr>
       else case dict_get (seeds s) item_id of
         Some _ \<Rightarrow>
           let reason = ''recoverable episode seed item_id is duplicated'';
               first = the (dict_get (seed_indices s) item_id);
               with_first = (if map_of (invalid_reasons s) first = None
                             then AList.update first reason (invalid_reasons s)
                             else invalid_reasons s)
           in s\<lparr>invalid_reasons := AList.update index reason with_first,
                ambiguous_seed_ids := insert item_id (ambiguous_seed_ids s)\<rparr>
       | None \<Rightarrow> s\<lparr>seeds := dict_set item_id item (seeds s),
                   seed_indices := dict_set item_id index (seed_indices s)\<rparr>)"

definition scan_seeds :: "(pyval \<Rightarrow> string) \<Rightarrow> pyval dict list \<Rightarrow> seed_scan" where
  "scan_seeds str_of items =
     fold (scan_seed str_of) (enumerate 0 items)
       \<lparr>seeds = [], seed_indices = [], ambiguous_seed_ids = {}, invalid_reasons = []\<rparr>"

record variant_scan =
  variants :: "pyval dict list dict"
  variant_item_ids :: "string set"
  all_reasons :: reasons

definition scan_variant ::
  "(pyval \<Rightarrow> string) \<Rightarrow> seed_scan \<Rightarrow> nat \<times> pyval dict \<Rightarrow> variant_scan \<Rightarrow> variant_scan" where
  "scan_variant str_of s = (\<lambda>(index, item) v.
     if \<not> is_variant item then v
     else
       let item_id = item_id_text str_of item;
           seed_item_id = seed_item_id_text str_of item;
           reject = (\<lambda>reason. v\<lparr>all_reasons := AList.update index reason (all_reasons v)\<rparr>)
       in
       if item_id = [] then
         reject ''recoverable episode variant items require a non-empty item_id''
       else if dict_get (seeds s) item_id \<noteq> None then
         (reject ''recoverable episode variant item_id collides with a seed item_id'')
           \<lparr>variant_item_ids := insert item_id (variant_item_ids v)\<rparr>
       else if item_id \<in> variant_item_ids v then
         reject ''recoverable episode variant item_id is duplicated''
       else
         let v = v\<lparr>variant_item_ids := insert item_id (variant_item_ids v)\<rparr>;
             reject = (\<lambda>reason. v\<lparr>all_reasons := AList.update index reason (all_reasons v)\<rparr>)
         in
         if seed_item_id \<in> ambiguous_seed_ids s then
           reject ''recoverable episode variant seed_item_id is ambiguous because the seed item_id is duplicated''
         else if seed_item_id = [] \<or> dict_get (seeds s) seed_item_id = None then
           reject ''recoverable episode variant requires seed_item_id matching an epoch seed''
         else
           v\<lparr>variants := dict_set seed_item_id
               ((case dict_get (variants v) seed_item_id of None \<Rightarrow> [] | Some xs \<Rightarrow> xs) @ [item])
               (variants v)\<rparr>)"

definition scan_variants :: "(pyval \<Rightarrow> string) \<Rightarrow> seed_scan \<Rightarrow> pyval dict list \<Rightarrow> variant_scan" where
  "scan_variants str_of s items =
     fold (scan_variant str_of s) (enumerate 0 items)
       \<lparr>variants = [], variant_item_ids = {}, all_reasons = invalid_reasons s\<rparr>"

record episode_group =
  eg_execution_group_id :: string
  eg_family :: pyval
  eg_concurrency_key :: pyval
  eg_concurrency_keys :: "string list"
  eg_seed_item_id :: string
  eg_seed :: "pyval dict"
  eg_items :: "pyval dict list"

datatype execution_unit =
    InvalidUnit "pyval dict" string
  | GroupUnit episode_group

definition group_id_text :: "string \<Rightarrow> int \<Rightarrow> nat \<Rightarrow> string" where
  "group_id_text arm epoch index =
     arm @ '':epoch-'' @ decimal epoch @ '':group-'' @ zero_padded 4 index"

definition make_group ::
  "(pyval \<Rightarrow> string) \<Rightarrow> string \<Rightarrow> int \<Rightarrow> variant_scan \<Rightarrow> nat \<Rightarrow> pyval dict \<Rightarrow> episode_group" where
  "make_group str_of arm epoch v index item =
     (let seed_item_id = strip (py_text str_of (get item ''item_id''));
          siblings = (case dict_get (variants v) seed_item_id of None \<Rightarrow> [] | Some xs \<Rightarrow> xs);
          episode_items = item # siblings
      in \<lparr>eg_execution_group_id = group_id_text arm epoch index,
          eg_family = get item ''family'',
          eg_concurrency_key = py_or (get item ''concurrency_key'') (get item ''family''),
          eg_concurrency_keys = dedupe (concat (map (item_concurrency_keys str_of) episode_items)),
          eg_seed_item_id = seed_item_id,
          eg_seed = item,
          eg_items = episode_items\<rparr>)"

fun make_units ::
  "(pyval \<Rightarrow> string) \<Rightarrow> string \<Rightarrow> int \<Rightarrow> variant_scan \<Rightarrow> nat \<Rightarrow> (nat \<times> pyval dict) list \<Rightarrow> execution_unit list" where
  "make_units str_of arm epoch v group_index [] = []"
| "make_units str_of arm epoch v group_index ((index, item) # rest) =
     (case map_of (all_reasons v) index of
        Some reason \<Rightarrow> InvalidUnit item reason # make_units str_of arm epoch v group_index rest
      | None \<Rightarrow>
          if is_variant item then make_units str_of arm epoch v group_index rest
          else GroupUnit (make_group str_of arm epoch v (group_index + 1) item)
                 # make_units str_of arm epoch v (group_index + 1) rest)"

definition build_episode_execution_units ::
  "(pyval \<Rightarrow> string) \<Rightarrow> pyval dict list \<Rightarrow> string \<Rightarrow> int \<Rightarrow> bool \<Rightarrow> execution_unit list res" where
  "build_episode_execution_units str_of items arm epoch fatal_preflight =
     (let s = scan_seeds str_of items;
          v = scan_variants str_of s items;
          reasons = all_reasons v
      in if fatal_preflight \<and> reasons \<noteq> []
         then Inl (ValueError (the (map_of reasons (Min (set (map fst reasons))))))
         else Inr (make_units str_of arm epoch v 0 (enumerate 0 items)))"

text \<open>The unit as the dictionary the source builds.\<close>

fun unit_dict :: "execution_unit \<Rightarrow> pyval dict" where
  "unit_dict (InvalidUnit item reason) = dict_set ''_loopx_episode_invalid'' (PStr reason) item"
| "unit_dict (GroupUnit g) =
     [(''item_id'', PStr (eg_execution_group_id g)),
      (''family'', eg_family g),
      (''concurrency_key'', eg_concurrency_key g),
      (''concurrency_keys'', PList (map PStr (eg_concurrency_keys g))),
      (''execution_group_id'', PStr (eg_execution_group_id g)),
      (''seed_item_id'', PStr (eg_seed_item_id g)),
      (''_loopx_episode_seed'', map_value (eg_seed g)),
      (''_loopx_episode_items'', PList (map map_value (eg_items g)))]"

section \<open>Records\<close>

definition normalize_item_record :: "pyval dict option \<Rightarrow> pyval dict \<Rightarrow> pyval dict res" where
  "normalize_item_record record item =
     (case record of
        None \<Rightarrow> Inl (TypeError ''adapter execution must return a dict observation record'')
      | Some r \<Rightarrow>
          let n = dict_set ''is_variant'' (PBool (is_variant item))
                    (dict_set ''family'' (get item ''family'')
                      (dict_set ''item_id'' (get item ''item_id'') r))
          in Inr (if is_variant item
                  then (case get item ''variant_spec'' of
                          PMap spec \<Rightarrow> dict_set ''variant_spec_id'' (map_get spec ''spec_id'') n
                        | _ \<Rightarrow> n)
                  else dict_pop ''variant_spec_id'' n))"

definition annotate_group_record ::
  "string \<Rightarrow> string \<Rightarrow> string \<Rightarrow> bool \<Rightarrow> string option \<Rightarrow> pyval dict \<Rightarrow> pyval dict" where
  "annotate_group_record group_id seed_item_id record_kind prefix_reused checkpoint_ref record =
     (let a = dict_set ''prefix_reused'' (PBool prefix_reused)
                (dict_set ''seed_item_id'' (PStr seed_item_id)
                  (dict_set ''record_kind'' (PStr record_kind)
                    (dict_set ''execution_group_id'' (PStr group_id) record)))
      in case checkpoint_ref of
           Some c \<Rightarrow> dict_set ''checkpoint_ref'' (PStr c) a
         | None \<Rightarrow> dict_pop ''checkpoint_ref'' a)"

definition standalone_record :: "pyval dict \<Rightarrow> pyval dict" where
  "standalone_record record =
     dict_set ''prefix_reused'' (PBool False)
       (dict_set ''record_kind'' (PStr RECORD_KIND_STANDALONE)
         (dict_pop ''execution_group_id'' record))"

definition attach_release_error :: "pyval dict \<Rightarrow> pyval dict \<Rightarrow> pyval dict" where
  "attach_release_error release_error record =
     (let r = dict_set ''episode_release_error''
           (PMap [(KStr ''duration_minutes'', get release_error ''duration_minutes''),
                  (KStr ''retryable_infra_error'',
                     PBool (truthy (get release_error ''retryable_infra_error''))),
                  (KStr ''adapter_error'', get release_error ''adapter_error'')]) record
      in dict_set ''retryable_infra_error''
           (PBool (truthy (py_or (get r ''retryable_infra_error'')
                            (get release_error ''retryable_infra_error'')))) r)"

section \<open>Execution of a unit\<close>

record ('w, 'h) episode_env =
  ee_adapter :: "('w, 'h) episode_adapter"
  ee_error_record :: "pyval dict \<Rightarrow> exn \<Rightarrow> pyfloat \<Rightarrow> ('w, pyval dict) act"
  ee_clock :: "'w \<Rightarrow> pyfloat \<times> 'w"
  ee_fatal :: bool
  ee_context :: queue_context

text \<open>\<open>ee_fatal\<close> is \<open>failure_policy == fatal_failure_policy\<close>.\<close>

definition clock :: "('w, 'h) episode_env \<Rightarrow> ('w, pyfloat) act" where
  "clock E = (\<lambda>w. case ee_clock E w of (t, w') \<Rightarrow> (Inr t, w'))"

definition episode_elapsed_minutes :: "('w, 'h) episode_env \<Rightarrow> pyfloat \<Rightarrow> ('w, pyfloat) act" where
  "episode_elapsed_minutes E started = bnd (clock E) (\<lambda>now. of_res (fdiv (fsub now started) (Fin 60)))"

text \<open>The record of a failure that started at \<open>started\<close>.\<close>

definition failure_record ::
  "('w, 'h) episode_env \<Rightarrow> pyval dict \<Rightarrow> exn \<Rightarrow> pyfloat \<Rightarrow> ('w, pyval dict) act" where
  "failure_record E item e started =
     bnd (episode_elapsed_minutes E started) (ee_error_record E item e)"

definition prepare_failed ::
  "('w, 'h) episode_env \<Rightarrow> episode_group \<Rightarrow> pyfloat \<Rightarrow> exn \<Rightarrow> pyval dict option \<Rightarrow> ('w, pyval dict list) act" where
  "prepare_failed E g started e release_error =
     (if ee_fatal E then raise e
      else bnd (failure_record E (eg_seed g) e started) (\<lambda>failed.
        let failed = dict_set ''episode_stage'' (PStr ''prepare'') failed;
            failed = (case release_error of None \<Rightarrow> failed | Some r \<Rightarrow> attach_release_error r failed)
        in ret [annotate_group_record (eg_execution_group_id g) (eg_seed_item_id g)
                  RECORD_KIND_SHARED_PREFIX False None failed]))"

fun legacy_items :: "('w, 'h) episode_env \<Rightarrow> pyval dict list \<Rightarrow> ('w, pyval dict list) act" where
  "legacy_items E [] = ret []"
| "legacy_items E (item # items) =
     bnd (clock E) (\<lambda>item_started.
     bnd (attempt (bnd (ea_execute (ee_adapter E) item (ee_context E))
                     (\<lambda>r. of_res (normalize_item_record r item)))) (\<lambda>outcome.
     bnd (case outcome of
            Inr record \<Rightarrow> ret record
          | Inl e \<Rightarrow> if ee_fatal E then raise e
                    else bnd (failure_record E item e item_started)
                      (\<lambda>r. ret (dict_set ''episode_stage'' (PStr ''legacy_execute'') r))) (\<lambda>record.
     let record = dict_set ''episode_fallback'' (PStr ''prepare_returned_none'') (standalone_record record)
     in bnd (legacy_items E items) (\<lambda>records. ret (record # records)))))"

text \<open>The validation of what \<open>prepare\<close> returned, up to the annotated prefix record and the
  checkpoint reference.\<close>

definition prefix_of ::
  "episode_group \<Rightarrow> 'h prepared \<Rightarrow> ('h \<times> pyval dict \<times> string option) res" where
  "prefix_of g prepared =
     (case prepared of
        PreparedMap handle prefix_record checkpoint_ref \<Rightarrow>
          (case handle of
             None \<Rightarrow> Inl (TypeError ''prepare_episode_group result must contain handle'')
           | Some h \<Rightarrow>
             (case prefix_record of
                None \<Rightarrow> Inl (TypeError ''prepare_episode_group result must contain prefix_record dict'')
              | Some payload \<Rightarrow>
                rbind (case checkpoint_ref of
                         PNone \<Rightarrow> Inr None
                       | PStr c \<Rightarrow> Inr (Some c)
                       | _ \<Rightarrow> Inl (TypeError ''checkpoint_ref must be a string or None'')) (\<lambda>checkpoint.
                let prefix = dict_setdefault ''item_id'' (PStr (eg_seed_item_id g @ '':shared-prefix'')) payload;
                    prefix = dict_set ''family'' (get (eg_seed g) ''family'') prefix;
                    prefix = dict_set ''is_variant'' (PBool False) prefix;
                    prefix = dict_pop ''variant_spec_id'' prefix;
                    prefix = dict_setdefault ''accepted'' (PBool True) prefix
                in Inr (h, annotate_group_record (eg_execution_group_id g) (eg_seed_item_id g)
                             RECORD_KIND_SHARED_PREFIX (1 < length (eg_items g)) checkpoint prefix,
                        checkpoint))))
      | _ \<Rightarrow> Inl (TypeError ''prepare_episode_group must return a dict or None''))"

definition prepared_handle :: "'h prepared \<Rightarrow> 'h option" where
  "prepared_handle prepared = (case prepared of PreparedMap handle _ _ \<Rightarrow> handle | _ \<Rightarrow> None)"

text \<open>The cleanup after a prepare that returned something malformed: the record of the failed
  release, if there was a handle and its release failed.\<close>

definition release_malformed ::
  "('w, 'h) episode_env \<Rightarrow> episode_group \<Rightarrow> 'h option \<Rightarrow> ('w, pyval dict option) act" where
  "release_malformed E g handle =
     (case handle of
        None \<Rightarrow> ret None
      | Some h \<Rightarrow>
          bnd (clock E) (\<lambda>release_started.
          bnd (attempt (ea_release_episode_group (ee_adapter E) h (ee_context E) (eg_execution_group_id g)))
            (\<lambda>outcome. case outcome of
               Inr _ \<Rightarrow> ret None
             | Inl cleanup_error \<Rightarrow>
                 bnd (failure_record E (eg_seed g) cleanup_error release_started) (\<lambda>r. ret (Some r)))))"

text \<open>The suffixes: the records so far, and the error that broke the loop off under the fatal
  policy.\<close>

fun suffix_items ::
  "('w, 'h) episode_env \<Rightarrow> episode_group \<Rightarrow> 'h \<Rightarrow> string option \<Rightarrow> pyval dict list \<Rightarrow>
   ('w, pyval dict list \<times> exn option) act" where
  "suffix_items E g h checkpoint [] = ret ([], None)"
| "suffix_items E g h checkpoint (item # items) =
     bnd (clock E) (\<lambda>item_started.
     bnd (attempt (bnd (ea_execute_episode (ee_adapter E) h item (ee_context E) (eg_execution_group_id g))
                     (\<lambda>r. of_res (normalize_item_record r item)))) (\<lambda>outcome.
     let go_on = (\<lambda>record.
           bnd (suffix_items E g h checkpoint items) (\<lambda>(records, fatal_error).
           ret (annotate_group_record (eg_execution_group_id g) (eg_seed_item_id g)
                  RECORD_KIND_EPISODE_SUFFIX (1 < length (eg_items g)) checkpoint record # records,
                fatal_error)))
     in case outcome of
          Inr record \<Rightarrow> go_on record
        | Inl e \<Rightarrow>
            if ee_fatal E then ret ([], Some e)
            else bnd (failure_record E item e item_started) (\<lambda>r.
              go_on (dict_set ''episode_stage'' (PStr ''execute'') r))))"

text \<open>The \<open>finally\<close> block: what it makes of the prefix record, or what it raises.\<close>

definition release_group ::
  "('w, 'h) episode_env \<Rightarrow> episode_group \<Rightarrow> 'h \<Rightarrow> exn option \<Rightarrow> pyval dict \<Rightarrow> ('w, pyval dict) act" where
  "release_group E g h fatal_error prefix =
     bnd (clock E) (\<lambda>release_started.
     bnd (attempt (ea_release_episode_group (ee_adapter E) h (ee_context E) (eg_execution_group_id g)))
       (\<lambda>outcome. case outcome of
          Inr _ \<Rightarrow> ret prefix
        | Inl e \<Rightarrow>
            (case fatal_error of
               Some f \<Rightarrow> raise f
             | None \<Rightarrow>
                 if ee_fatal E then raise e
                 else bnd (failure_record E (eg_seed g) e release_started) (\<lambda>release_error.
                   ret (dict_set ''episode_stage'' (PStr ''release'')
                          (attach_release_error release_error prefix))))))"

definition run_suffixes ::
  "('w, 'h) episode_env \<Rightarrow> episode_group \<Rightarrow> 'h \<Rightarrow> pyval dict \<Rightarrow> string option \<Rightarrow> ('w, pyval dict list) act" where
  "run_suffixes E g h prefix checkpoint =
     bnd (attempt (suffix_items E g h checkpoint (eg_items g))) (\<lambda>body.
     bnd (release_group E g h (case body of Inr (_, f) \<Rightarrow> f | Inl _ \<Rightarrow> None) prefix) (\<lambda>prefix.
     case body of
       Inl e \<Rightarrow> raise e
     | Inr (records, Some f) \<Rightarrow> raise f
     | Inr (records, None) \<Rightarrow> ret (prefix # records)))"

definition run_prepared ::
  "('w, 'h) episode_env \<Rightarrow> episode_group \<Rightarrow> pyfloat \<Rightarrow> 'h prepared \<Rightarrow> ('w, pyval dict list) act" where
  "run_prepared E g prepare_started prepared =
     (case prefix_of g prepared of
        Inl e \<Rightarrow> bnd (release_malformed E g (prepared_handle prepared))
                  (prepare_failed E g prepare_started e)
      | Inr (h, prefix, checkpoint) \<Rightarrow> run_suffixes E g h prefix checkpoint)"

definition run_episode_group :: "('w, 'h) episode_env \<Rightarrow> episode_group \<Rightarrow> ('w, pyval dict list) act" where
  "run_episode_group E g =
     bnd (clock E) (\<lambda>prepare_started.
     bnd (attempt (ea_prepare_episode_group (ee_adapter E) (eg_seed g) (eg_items g) (ee_context E)
                     (eg_execution_group_id g))) (\<lambda>outcome.
     case outcome of
       Inl e \<Rightarrow> prepare_failed E g prepare_started e None
     | Inr PreparedNone \<Rightarrow> legacy_items E (eg_items g)
     | Inr prepared \<Rightarrow> run_prepared E g prepare_started prepared))"

definition execute_episode_group :: "('w, 'h) episode_env \<Rightarrow> execution_unit \<Rightarrow> ('w, pyval dict list) act" where
  "execute_episode_group E unit =
     (case unit of
        InvalidUnit item reason \<Rightarrow>
          (if ee_fatal E then raise (ValueError reason)
           else bnd (ee_error_record E (unit_dict unit) (ValueError reason) (Fin 0)) (\<lambda>record.
             ret [standalone_record (dict_set ''episode_stage'' (PStr ''group_validation'') record)]))
      | GroupUnit g \<Rightarrow> run_episode_group E g)"

end
