(* ===== verification/Episode_Properties.thy ===== *)
theory Episode_Properties
  imports Episode_Runtime "HOL-Library.Multiset"
begin

text \<open>
  The grouping of the episode queue: no item is lost and none is scheduled twice, groups are well
  formed, and the fatal preflight reports the first malformed item.
\<close>

section \<open>The scan of the seeds\<close>

text \<open>After the first loop: the recorded index of a seed id is a seed with that id, every seed's id
  is recorded, and a seed is valid exactly if its id is not ambiguous.\<close>

definition index_inv :: "(pyval \<Rightarrow> string) \<Rightarrow> pyval dict list \<Rightarrow> seed_scan \<Rightarrow> bool" where
  "index_inv str_of xs s \<longleftrightarrow>
     (\<forall>k i. dict_get (seed_indices s) k = Some i \<longrightarrow>
        i < length xs \<and> \<not> is_variant (xs ! i) \<and> item_id_text str_of (xs ! i) = k \<and> k \<noteq> [])"

definition keys_inv :: "seed_scan \<Rightarrow> bool" where
  "keys_inv s \<longleftrightarrow>
     (\<forall>k. dict_get (seeds s) k = None \<longleftrightarrow> dict_get (seed_indices s) k = None) \<and>
     (\<forall>k \<in> ambiguous_seed_ids s. dict_get (seed_indices s) k \<noteq> None)"

definition seed_valid :: "(pyval \<Rightarrow> string) \<Rightarrow> seed_scan \<Rightarrow> nat \<Rightarrow> pyval dict \<Rightarrow> bool" where
  "seed_valid str_of s i x \<longleftrightarrow> item_id_text str_of x \<notin> ambiguous_seed_ids s \<and>
     dict_get (seed_indices s) (item_id_text str_of x) = Some i"

definition reasons_inv :: "(pyval \<Rightarrow> string) \<Rightarrow> pyval dict list \<Rightarrow> seed_scan \<Rightarrow> bool" where
  "reasons_inv str_of xs s \<longleftrightarrow>
     (\<forall>i < length xs. map_of (invalid_reasons s) i = None \<longleftrightarrow>
        is_variant (xs ! i) \<or> seed_valid str_of s i (xs ! i)) \<and>
     (\<forall>i \<ge> length xs. map_of (invalid_reasons s) i = None)"

definition seed_inv :: "(pyval \<Rightarrow> string) \<Rightarrow> pyval dict list \<Rightarrow> seed_scan \<Rightarrow> bool" where
  "seed_inv str_of xs s \<longleftrightarrow> index_inv str_of xs s \<and> keys_inv s \<and> reasons_inv str_of xs s"

lemma map_of_update: "map_of (AList.update k v d) k' = (if k' = k then Some v else map_of d k')"
  by (simp add: update_conv')

lemma reasons_inv_snoc:
  assumes "reasons_inv str_of xs s"
    and "\<And>i. i < length xs \<Longrightarrow> map_of (invalid_reasons s') i = None \<longleftrightarrow>
           map_of (invalid_reasons s) i = None \<and> (is_variant (xs ! i) \<or> P i)"
    and "\<And>i. i < length xs \<Longrightarrow> \<not> is_variant (xs ! i) \<Longrightarrow>
           seed_valid str_of s' i (xs ! i) \<longleftrightarrow> seed_valid str_of s i (xs ! i) \<and> P i"
    and "map_of (invalid_reasons s') (length xs) = None \<longleftrightarrow> is_variant x \<or> seed_valid str_of s' (length xs) x"
    and "\<And>i. length xs < i \<Longrightarrow> map_of (invalid_reasons s') i = map_of (invalid_reasons s) i"
  shows "reasons_inv str_of (xs @ [x]) s'"
proof -
  have "map_of (invalid_reasons s') i = None \<longleftrightarrow> is_variant (xs ! i) \<or> seed_valid str_of s' i (xs ! i)"
    if "i < length xs" for i
    using assms(1) assms(2,3)[OF that] that unfolding reasons_inv_def by blast
  then show ?thesis
    using assms(1,4,5) unfolding reasons_inv_def by (auto simp: nth_append less_Suc_eq)
qed

lemma index_inv_append: "index_inv str_of xs s \<Longrightarrow> index_inv str_of (xs @ [x]) s"
  unfolding index_inv_def by (simp add: nth_append) (blast intro: less_SucI)

lemma seed_inv_variant: "seed_inv str_of xs s \<Longrightarrow> is_variant x \<Longrightarrow> seed_inv str_of (xs @ [x]) s"
  unfolding seed_inv_def
  by (intro conjI index_inv_append reasons_inv_snoc[where P = "\<lambda>_. True" and s = s]) (auto simp: reasons_inv_def)

lemma seed_inv_empty_id:
  assumes "seed_inv str_of xs s" "\<not> is_variant x" "item_id_text str_of x = []"
  shows "seed_inv str_of (xs @ [x]) (s\<lparr>invalid_reasons := AList.update (length xs) r (invalid_reasons s)\<rparr>)"
    (is "seed_inv _ _ ?s")
proof -
  have "dict_get (seed_indices s) [] = None"
    using assms(1) unfolding seed_inv_def index_inv_def by (metis option.exhaust)
  then have "reasons_inv str_of (xs @ [x]) ?s"
    using assms unfolding seed_inv_def
    by (intro reasons_inv_snoc[where s = s and P = "\<lambda>_. True"]) (auto simp: map_of_update seed_valid_def)
  then show ?thesis
    using assms index_inv_append[of str_of xs s x] by (simp add: seed_inv_def index_inv_def keys_inv_def)
qed

lemma seed_inv_new:
  assumes inv: "seed_inv str_of xs s" and x: "\<not> is_variant x" "item_id_text str_of x = k" "k \<noteq> []"
    and new: "dict_get (seeds s) k = None"
  shows "seed_inv str_of (xs @ [x]) (s\<lparr>seeds := dict_set k x (seeds s),
           seed_indices := dict_set k (length xs) (seed_indices s)\<rparr>)" (is "seed_inv _ _ ?s")
proof -
  have k: "dict_get (seed_indices s) k = None" "k \<notin> ambiguous_seed_ids s"
    using inv new unfolding seed_inv_def keys_inv_def by blast+
  have "reasons_inv str_of (xs @ [x]) ?s"
    using inv x k unfolding seed_inv_def
    by (intro reasons_inv_snoc[where s = s and P = "\<lambda>_. True"])
      (auto simp: seed_valid_def dict_get_set reasons_inv_def)
  moreover have "index_inv str_of (xs @ [x]) ?s"
    using inv x unfolding seed_inv_def index_inv_def by (simp add: dict_get_set nth_append) (blast intro: less_SucI)
  moreover have "keys_inv ?s"
    using inv unfolding seed_inv_def keys_inv_def by (simp add: dict_get_set)
  ultimately show ?thesis by (simp add: seed_inv_def)
qed

lemma seed_inv_duplicate:
  assumes inv: "seed_inv str_of xs s" and x: "\<not> is_variant x" "item_id_text str_of x = k"
    and old: "dict_get (seed_indices s) k = Some i"
    and r: "\<And>j. map_of r j = None \<longleftrightarrow> map_of (invalid_reasons s) j = None \<and> j \<noteq> i"
  shows "seed_inv str_of (xs @ [x]) (s\<lparr>invalid_reasons := AList.update (length xs) reason r,
           ambiguous_seed_ids := insert k (ambiguous_seed_ids s)\<rparr>)" (is "seed_inv _ _ ?s")
proof -
  have i: "i < length xs" "item_id_text str_of (xs ! i) = k" "\<not> is_variant (xs ! i)"
    using inv old unfolding seed_inv_def index_inv_def by blast+
  have j: "map_of r j = None \<longleftrightarrow> map_of (invalid_reasons s) j = None \<and>
      (is_variant (xs ! j) \<or> item_id_text str_of (xs ! j) \<noteq> k)" if "j < length xs" for j
  proof -
    have "map_of (invalid_reasons s) j = None \<longleftrightarrow> is_variant (xs ! j) \<or> seed_valid str_of s j (xs ! j)"
      using inv that unfolding seed_inv_def reasons_inv_def by blast
    then show ?thesis unfolding r using i old by (auto simp: seed_valid_def)
  qed
  have "map_of r j = map_of (invalid_reasons s) j" if "length xs < j" for j
    using inv r[of j] that i unfolding seed_inv_def reasons_inv_def by auto
  then have "reasons_inv str_of (xs @ [x]) ?s"
    using inv x j unfolding seed_inv_def
    by (intro reasons_inv_snoc[where s = s and P = "\<lambda>j. item_id_text str_of (xs ! j) \<noteq> k"])
      (auto simp: map_of_update seed_valid_def)
  moreover have "index_inv str_of (xs @ [x]) ?s"
    using inv index_inv_append[of str_of xs s x] by (simp add: seed_inv_def index_inv_def)
  moreover have "keys_inv ?s" using inv old unfolding seed_inv_def keys_inv_def by simp
  ultimately show ?thesis by (simp add: seed_inv_def)
qed

lemma seed_inv_snoc:
  assumes "seed_inv str_of xs s"
  shows "seed_inv str_of (xs @ [x]) (scan_seed str_of (length xs, x) s)"
proof (cases "is_variant x \<or> item_id_text str_of x = []")
  case True
  then show ?thesis
    using assms seed_inv_variant seed_inv_empty_id by (auto simp: scan_seed_def)
next
  case False
  show ?thesis
  proof (cases "dict_get (seeds s) (item_id_text str_of x)")
    case None
    with False assms show ?thesis by (simp add: scan_seed_def Let_def seed_inv_new)
  next
    case (Some y)
    then obtain i where "dict_get (seed_indices s) (item_id_text str_of x) = Some i"
      using assms unfolding seed_inv_def keys_inv_def by (metis option.exhaust option.distinct(1))
    with False assms Some show ?thesis
      by (auto simp: scan_seed_def Let_def map_of_update split: if_splits intro!: seed_inv_duplicate)
  qed
qed

lemma scan_seeds_inv: "seed_inv str_of xs (scan_seeds str_of xs)"
proof (induction xs rule: rev_induct)
  case Nil
  show ?case
    by (simp add: seed_inv_def scan_seeds_def index_inv_def keys_inv_def reasons_inv_def)
next
  case (snoc x xs)
  have "scan_seeds str_of (xs @ [x]) = scan_seed str_of (length xs, x) (scan_seeds str_of xs)"
    by (simp add: scan_seeds_def enumerate_append_eq)
  with seed_inv_snoc[OF snoc] show ?case by simp
qed

section \<open>The scan of the variants\<close>

text \<open>After the second loop: the variants kept are those with no reason against them, under the
  id of a seed that is not ambiguous; no reason of a seed changed.\<close>

definition variant_inv ::
  "(pyval \<Rightarrow> string) \<Rightarrow> seed_scan \<Rightarrow> pyval dict list \<Rightarrow> variant_scan \<Rightarrow> bool" where
  "variant_inv str_of s xs v \<longleftrightarrow>
     dict_wf (variants v) \<and>
     (\<forall>k \<in> fst ` set (variants v). k \<notin> ambiguous_seed_ids s \<and> dict_get (seeds s) k \<noteq> None) \<and>
     (\<forall>k ys. dict_get (variants v) k = Some ys \<longrightarrow>
        (\<forall>y \<in> set ys. is_variant y \<and> seed_item_id_text str_of y = k)) \<and>
     (\<forall>i. map_of (all_reasons v) i = map_of (invalid_reasons s) i \<or>
        i < length xs \<and> is_variant (xs ! i)) \<and>
     mset (concat (map snd (variants v))) =
       mset (map snd (filter (\<lambda>(i, x). is_variant x \<and> map_of (all_reasons v) i = None) (enumerate 0 xs)))"

lemma mset_variants_set:
  assumes "dict_wf d"
  shows "mset (concat (map snd (dict_set k ((case dict_get d k of None \<Rightarrow> [] | Some xs \<Rightarrow> xs) @ [x]) d)))
    = add_mset x (mset (concat (map snd d)))"
  using assms by (induction d) (auto simp: dict_get_Some_key split: option.splits)

lemma valid_variants_snoc:
  assumes "\<And>i. i < length xs \<Longrightarrow> map_of r' i = map_of r i"
  shows "map snd (filter (\<lambda>(i, x). is_variant x \<and> map_of r' i = None) (enumerate 0 (xs @ [x]))) =
    map snd (filter (\<lambda>(i, x). is_variant x \<and> map_of r i = None) (enumerate 0 xs)) @
    (if is_variant x \<and> map_of r' (length xs) = None then [x] else [])"
proof -
  have "filter (\<lambda>(i, x). is_variant x \<and> map_of r' i = None) (enumerate 0 xs) =
      filter (\<lambda>(i, x). is_variant x \<and> map_of r i = None) (enumerate 0 xs)"
    using assms by (intro filter_cong) (auto simp: in_set_enumerate_eq)
  then show ?thesis by (simp add: enumerate_append_eq)
qed

lemma variant_inv_reject:
  assumes "variant_inv str_of s xs v" "is_variant x"
  shows "variant_inv str_of s (xs @ [x]) (v\<lparr>all_reasons := AList.update (length xs) r (all_reasons v),
           variant_item_ids := ids\<rparr>)"
proof -
  have "map snd (filter (\<lambda>(i, x). is_variant x \<and> map_of (AList.update (length xs) r (all_reasons v)) i = None)
      (enumerate 0 (xs @ [x]))) =
    map snd (filter (\<lambda>(i, x). is_variant x \<and> map_of (all_reasons v) i = None) (enumerate 0 xs))"
    by (subst valid_variants_snoc[where r = "all_reasons v"]) (auto simp: map_of_update)
  with assms show ?thesis
    unfolding variant_inv_def by (auto simp: map_of_update nth_append less_Suc_eq)
qed

lemma variant_inv_keep:
  assumes "variant_inv str_of s xs v" "is_variant x" "map_of (invalid_reasons s) (length xs) = None"
    and k: "seed_item_id_text str_of x = k" "k \<notin> ambiguous_seed_ids s" "dict_get (seeds s) k \<noteq> None"
  shows "variant_inv str_of s (xs @ [x]) (v\<lparr>variant_item_ids := ids, variants := dict_set k
      ((case dict_get (variants v) k of None \<Rightarrow> [] | Some ys \<Rightarrow> ys) @ [x]) (variants v)\<rparr>)"
proof -
  have n: "map_of (all_reasons v) (length xs) = None"
    using assms(1,3) unfolding variant_inv_def by (metis less_irrefl)
  have "mset (map snd (filter (\<lambda>(i, x). is_variant x \<and> map_of (all_reasons v) i = None)
      (enumerate 0 (xs @ [x])))) =
    add_mset x (mset (map snd (filter (\<lambda>(i, x). is_variant x \<and> map_of (all_reasons v) i = None) (enumerate 0 xs))))"
    by (subst valid_variants_snoc[where r = "all_reasons v"]) (auto simp: n assms(2))
  moreover have "\<forall>y \<in> set (case dict_get (variants v) k of None \<Rightarrow> [] | Some ys \<Rightarrow> ys).
      is_variant y \<and> seed_item_id_text str_of y = k"
    using assms(1) unfolding variant_inv_def by (auto split: option.splits)
  moreover have "fst ` set (dict_set k ys (variants v)) = insert k (fst ` set (variants v))" for ys
    by (simp add: dom_update)
  ultimately show ?thesis
    using assms unfolding variant_inv_def
    by (simp add: mset_variants_set dict_wf_set dict_get_set nth_append) (blast intro: less_SucI)
qed

lemma variant_inv_snoc:
  assumes inv: "variant_inv str_of s xs v" and "is_variant x \<Longrightarrow> map_of (invalid_reasons s) (length xs) = None"
  shows "variant_inv str_of s (xs @ [x]) (scan_variant str_of s (length xs, x) v)"
proof (cases "is_variant x")
  case True
  note r = variant_inv_reject[OF inv True, where ids = "variant_item_ids v"]
    variant_inv_reject[OF inv True, where ids = "insert (item_id_text str_of x) (variant_item_ids v)"]
  have c: "v\<lparr>variant_item_ids := ids, all_reasons := rs\<rparr> = v\<lparr>all_reasons := rs, variant_item_ids := ids\<rparr>" for ids rs
    by simp
  have "variant_inv str_of s (xs @ [x])
      (v\<lparr>variant_item_ids := ids, all_reasons := AList.update (length xs) q (all_reasons v)\<rparr>)" for ids q
    unfolding c by (rule variant_inv_reject[OF inv True])
  then show ?thesis
    using True r variant_inv_keep[OF inv True assms(2)[OF True] refl] by (simp add: scan_variant_def Let_def)
next
  case False
  then have "scan_variant str_of s (length xs, x) v = v" by (simp add: scan_variant_def)
  moreover have "variant_inv str_of s (xs @ [x]) v"
    using inv False valid_variants_snoc[of xs "all_reasons v" "all_reasons v" x]
    unfolding variant_inv_def by (simp add: nth_append) (blast intro: less_SucI)
  ultimately show ?thesis by simp
qed

lemma scan_variants_inv:
  assumes "\<And>i. i < length xs \<Longrightarrow> is_variant (xs ! i) \<Longrightarrow> map_of (invalid_reasons s) i = None"
  shows "variant_inv str_of s xs (scan_variants str_of s xs)"
  using assms
proof (induction xs rule: rev_induct)
  case Nil
  show ?case by (simp add: variant_inv_def scan_variants_def)
next
  case (snoc x xs)
  have "scan_variants str_of s (xs @ [x]) = scan_variant str_of s (length xs, x) (scan_variants str_of s xs)"
    by (simp add: scan_variants_def enumerate_append_eq)
  moreover have "variant_inv str_of s xs (scan_variants str_of s xs)"
    using snoc.prems by (intro snoc.IH) (metis length_append_singleton less_SucI nth_append)
  ultimately show ?case
    using snoc.prems[of "length xs"] by (simp add: variant_inv_snoc)
qed


section \<open>The units\<close>

text \<open>The items of a unit.\<close>

fun unit_items :: "execution_unit \<Rightarrow> pyval dict list" where
  "unit_items (InvalidUnit item _) = [item]"
| "unit_items (GroupUnit g) = eg_items g"

definition valid_seeds :: "variant_scan \<Rightarrow> (nat \<times> pyval dict) list \<Rightarrow> pyval dict list" where
  "valid_seeds v ixs = map snd (filter (\<lambda>(i, x). \<not> is_variant x \<and> map_of (all_reasons v) i = None) ixs)"

definition siblings_of :: "variant_scan \<Rightarrow> string \<Rightarrow> pyval dict list" where
  "siblings_of v k = (case dict_get (variants v) k of None \<Rightarrow> [] | Some xs \<Rightarrow> xs)"

definition group_seed_id :: "(pyval \<Rightarrow> string) \<Rightarrow> pyval dict \<Rightarrow> string" where
  "group_seed_id str_of x = strip (py_text str_of (get x ''item_id''))"

lemma group_seed_id_text: "item_id_text str_of x \<noteq> [] \<Longrightarrow> group_seed_id str_of x = item_id_text str_of x"
  by (auto simp: group_seed_id_def item_id_text_def text_or_empty_def py_or_def py_text_def strip_def split: if_splits)

lemma eg_items_make_group [simp]:
  "eg_items (make_group str_of arm epoch v n x) = x # siblings_of v (group_seed_id str_of x)"
  by (simp add: make_group_def Let_def siblings_of_def group_seed_id_def)

lemma mset_make_units:
  "mset (concat (map unit_items (make_units str_of arm epoch v n ixs))) +
     mset (map snd (filter (\<lambda>(i, x). is_variant x \<and> map_of (all_reasons v) i = None) ixs)) =
   mset (map snd ixs) + mset (concat (map (\<lambda>x. siblings_of v (group_seed_id str_of x)) (valid_seeds v ixs)))"
  by (induction ixs arbitrary: n rule: list.induct)
    (auto simp: valid_seeds_def split: option.splits)

text \<open>Collecting a dictionary of lists key by key collects every entry.\<close>

lemma mset_collect:
  assumes "dict_wf d" "distinct ks" "fst ` set d \<subseteq> set ks"
  shows "mset (concat (map (\<lambda>k. case dict_get d k of None \<Rightarrow> [] | Some xs \<Rightarrow> xs) ks)) = mset (concat (map snd d))"
  using assms
proof (induction d)
  case Nil
  then show ?case by (induction ks) auto
next
  case (Cons e d)
  obtain k ys where e: "e = (k, ys)" by (cases e)
  have k: "dict_get d k = None" using Cons.prems(1) by (simp add: e map_of_eq_None_iff)
  have k': "k \<in> set ks" using Cons.prems(3) by (simp add: e)
  have "mset (concat (map (\<lambda>j. case dict_get (e # d) j of None \<Rightarrow> [] | Some xs \<Rightarrow> xs) js)) =
      (if k \<in> set js then mset ys else {#}) + mset (concat (map (\<lambda>k. case dict_get d k of None \<Rightarrow> [] | Some xs \<Rightarrow> xs) js))"
    if "distinct js" for js
    using that by (induction js) (auto simp: e k)
  from this[OF Cons.prems(2)] k' Cons show ?case by (simp add: e)
qed


text \<open>The valid seeds have distinct ids, and every unambiguous seed id is one of theirs.\<close>

lemma valid_seeds_nth:
  assumes inv: "seed_inv str_of xs s" and v: "variant_inv str_of s xs v"
  shows "set (valid_seeds v (enumerate 0 xs)) =
    {xs ! i |i. i < length xs \<and> \<not> is_variant (xs ! i) \<and> seed_valid str_of s i (xs ! i)}"
proof -
  have "map_of (all_reasons v) i = None \<longleftrightarrow> seed_valid str_of s i (xs ! i)"
    if "i < length xs" "\<not> is_variant (xs ! i)" for i
    using inv v that unfolding seed_inv_def reasons_inv_def variant_inv_def by metis
  then show ?thesis by (force simp: valid_seeds_def in_set_enumerate_eq image_iff)
qed

lemma valid_seeds_ids:
  assumes inv: "seed_inv str_of xs s" and v: "variant_inv str_of s xs v"
  defines "ks \<equiv> map (group_seed_id str_of) (valid_seeds v (enumerate 0 xs))"
  shows "fst ` set (variants v) \<subseteq> set ks" "distinct ks"
    "x \<in> set (valid_seeds v (enumerate 0 xs)) \<Longrightarrow> group_seed_id str_of x = item_id_text str_of x \<and> item_id_text str_of x \<noteq> []"
proof -
  have id: "group_seed_id str_of (xs ! i) = item_id_text str_of (xs ! i)" "item_id_text str_of (xs ! i) \<noteq> []"
    if "seed_valid str_of s i (xs ! i)" for i
    using inv that group_seed_id_text unfolding seed_inv_def index_inv_def seed_valid_def by blast+
  show "x \<in> set (valid_seeds v (enumerate 0 xs)) \<Longrightarrow> group_seed_id str_of x = item_id_text str_of x \<and> item_id_text str_of x \<noteq> []"
    using id unfolding valid_seeds_nth[OF inv v] by auto
  show "fst ` set (variants v) \<subseteq> set ks"
  proof
    fix k
    assume "k \<in> fst ` set (variants v)"
    then have "k \<notin> ambiguous_seed_ids s" "dict_get (seed_indices s) k \<noteq> None"
      using v inv unfolding variant_inv_def seed_inv_def keys_inv_def by blast+
    then obtain i where "i < length xs" "\<not> is_variant (xs ! i)" "item_id_text str_of (xs ! i) = k"
      "seed_valid str_of s i (xs ! i)"
      using inv unfolding seed_inv_def index_inv_def seed_valid_def by blast
    then show "k \<in> set ks"
      using id[of i] unfolding ks_def set_map valid_seeds_nth[OF inv v] by force
  qed
  let ?P = "\<lambda>(i, x). \<not> is_variant x \<and> map_of (all_reasons v) i = None"
  have valid: "seed_valid str_of s i (xs ! i)"
    if "i < length xs" "\<not> is_variant (xs ! i)" "map_of (all_reasons v) i = None" for i
    using inv v that unfolding seed_inv_def reasons_inv_def variant_inv_def by metis
  have inj: "inj_on (group_seed_id str_of \<circ> snd) (set (filter ?P (enumerate 0 xs)))"
  proof (rule inj_onI, clarsimp simp: in_set_enumerate_eq)
    fix i j
    assume "i < length xs" "\<not> is_variant (xs ! i)" "map_of (all_reasons v) i = None"
      and "j < length xs" "\<not> is_variant (xs ! j)" "map_of (all_reasons v) j = None"
      and eq: "group_seed_id str_of (xs ! i) = group_seed_id str_of (xs ! j)"
    then have sv: "seed_valid str_of s i (xs ! i)" "seed_valid str_of s j (xs ! j)" by (auto intro: valid)
    have "item_id_text str_of (xs ! i) = item_id_text str_of (xs ! j)"
      using eq unfolding id(1)[OF sv(1)] id(1)[OF sv(2)] .
    then have "i = j" using sv unfolding seed_valid_def by (metis option.inject)
    then show "i = j \<and> xs ! i = xs ! j" by simp
  qed
  have "distinct (filter ?P (enumerate 0 xs))" by simp
  then have "distinct (map (group_seed_id str_of \<circ> snd) (filter ?P (enumerate 0 xs)))"
    unfolding distinct_map using inj by (rule conjI)
  then show "distinct ks" by (simp add: ks_def valid_seeds_def)
qed

lemma grouping_invs:
  assumes "s = scan_seeds str_of items" "v = scan_variants str_of s items"
  shows "seed_inv str_of items s" "variant_inv str_of s items v"
proof -
  show s: "seed_inv str_of items s" unfolding assms by (rule scan_seeds_inv)
  show "variant_inv str_of s items v"
    using s unfolding assms(2) seed_inv_def reasons_inv_def by (intro scan_variants_inv) blast
qed

text \<open>C18: grouping loses no item and schedules none twice.  Without the preflight it always
  returns, and the items of all units together (of an invalid unit the item it stands for, of a
  group the seed and its variants) are the items of the queue, each as often as it occurs there.\<close>

theorem grouping_partitions_items:
  "\<exists>units. build_episode_execution_units str_of items arm epoch False = Inr units \<and>
     mset (concat (map unit_items units)) = mset items"
proof -
  define s where "s = scan_seeds str_of items"
  define v where "v = scan_variants str_of s items"
  note invs = grouping_invs[OF s_def v_def]
  note s = invs(1) and v = invs(2)
  note ids = valid_seeds_ids[OF s v]
  have "mset (concat (map (siblings_of v) (map (group_seed_id str_of) (valid_seeds v (enumerate 0 items))))) =
      mset (concat (map snd (variants v)))"
    unfolding siblings_of_def using v unfolding variant_inv_def by (intro mset_collect ids) blast
  then have "mset (concat (map unit_items (make_units str_of arm epoch v 0 (enumerate 0 items)))) = mset items"
    using mset_make_units[of str_of arm epoch v 0 "enumerate 0 items"] v
    unfolding variant_inv_def by (simp add: comp_def)
  then show ?thesis by (simp add: build_episode_execution_units_def Let_def s_def v_def)
qed


text \<open>The reasons of the invalid units, in order.\<close>

fun unit_reasons :: "execution_unit list \<Rightarrow> string list" where
  "unit_reasons [] = []"
| "unit_reasons (InvalidUnit _ r # us) = r # unit_reasons us"
| "unit_reasons (GroupUnit _ # us) = unit_reasons us"

lemma unit_reasons_make_units:
  "unit_reasons (make_units str_of arm epoch v n ixs) = List.map_filter (\<lambda>(i, x). map_of (all_reasons v) i) ixs"
  by (induction ixs arbitrary: n rule: list.induct) (auto simp: map_filter_simps split: option.splits)

lemma first_reason:
  assumes "r \<noteq> []" and "\<And>i. length xs \<le> i \<Longrightarrow> map_of r i = None"
  defines "m \<equiv> Min (set (map fst r))"
  shows "\<exists>rest. List.map_filter (\<lambda>(i, x). map_of r i) (enumerate 0 xs) = the (map_of r m) # rest"
proof -
  have "m \<in> set (map fst r)" unfolding m_def using assms(1) by (intro Min_in) auto
  then obtain q where q: "map_of r m = Some q" by (auto dest: weak_map_of_SomeI)
  then have m: "m < length xs" using assms(2)[of m] by (metis not_le option.distinct(1))
  have "m \<le> i" if "i \<in> set (map fst r)" for i unfolding m_def using that by (intro Min_le) auto
  then have "map_of r i = None" if "i < m" for i using that by (force simp: map_of_eq_None_iff)
  then have "List.map_filter (\<lambda>(i, x). map_of r i) (enumerate 0 (take m xs)) = []"
    by (auto simp: map_filter_def filter_empty_conv in_set_enumerate_eq)
  moreover have "enumerate 0 xs = enumerate 0 (take m xs) @ (m, xs ! m) # enumerate (Suc m) (drop (Suc m) xs)"
    using m by (subst id_take_nth_drop[OF m]) (simp add: enumerate_append_eq)
  ultimately show ?thesis by (simp add: map_filter_def q)
qed

text \<open>The fatal preflight refuses a queue exactly if the grouping without it has an invalid
  unit, with the reason of the first one; otherwise it changes nothing.\<close>

theorem fatal_preflight_spec:
  "build_episode_execution_units str_of items arm epoch True =
     rbind (build_episode_execution_units str_of items arm epoch False) (\<lambda>units.
       case unit_reasons units of [] \<Rightarrow> Inr units | reason # _ \<Rightarrow> Inl (ValueError reason))"
proof -
  define s where "s = scan_seeds str_of items"
  define v where "v = scan_variants str_of s items"
  note invs = grouping_invs[OF s_def v_def]
  have "map_of (all_reasons v) i = None" if "length items \<le> i" for i
    using invs that unfolding seed_inv_def reasons_inv_def variant_inv_def by (metis not_le)
  note first = first_reason[OF _ this]
  show ?thesis
  proof (cases "all_reasons v = []")
    case True
    then have "unit_reasons (make_units str_of arm epoch v 0 (enumerate 0 items)) = []"
      by (auto simp: unit_reasons_make_units map_filter_def filter_empty_conv)
    with True show ?thesis by (simp add: build_episode_execution_units_def Let_def s_def v_def)
  next
    case False
    from first[OF this] obtain rest where "unit_reasons (make_units str_of arm epoch v 0 (enumerate 0 items)) =
        the (map_of (all_reasons v) (Min (set (map fst (all_reasons v))))) # rest"
      by (auto simp: unit_reasons_make_units)
    with False show ?thesis by (simp add: build_episode_execution_units_def Let_def s_def v_def)
  qed
qed


text \<open>A group's keys, read from its dictionary, are the keys of its items.\<close>

lemma keys_strip: "k \<in> set (item_concurrency_keys str_of item) \<Longrightarrow> strip k = k \<and> k \<noteq> []"
  by (auto simp: item_concurrency_keys_def raw_concurrency_keys_def fallback_key_def Let_def dedupe_laws split: if_splits)

lemma raw_keys_texts:
  "(\<And>k. k \<in> set ks \<Longrightarrow> strip k = k \<and> k \<noteq> []) \<Longrightarrow> raw_concurrency_keys str_of (PList (map PStr ks)) = ks"
  by (induction ks) (auto simp: raw_concurrency_keys_def py_text_def)

lemma set_unit_keys:
  "set (item_concurrency_keys str_of (unit_dict (GroupUnit (make_group str_of arm epoch v n x)))) =
   (\<Union>item \<in> set (eg_items (make_group str_of arm epoch v n x)). set (item_concurrency_keys str_of item))"
    (is "set (item_concurrency_keys str_of (unit_dict (GroupUnit ?g))) = ?keys")
proof -
  have "eg_concurrency_keys ?g = dedupe (concat (map (item_concurrency_keys str_of) (eg_items ?g)))"
    unfolding make_group_def Let_def by (simp only: episode_group.select_convs)
  then have ks: "set (eg_concurrency_keys ?g) = ?keys" by (simp only: dedupe_laws set_concat set_map image_image)
  then have raw: "raw_concurrency_keys str_of (get (unit_dict (GroupUnit ?g)) ''concurrency_keys'') = eg_concurrency_keys ?g"
    using keys_strip by (simp add: get_def) (rule raw_keys_texts, blast)
  show ?thesis
  proof (cases "eg_concurrency_keys ?g = []")
    case True
    then have "item_concurrency_keys str_of x = []" using ks by simp
    then have "fallback_key str_of x = []"
      using dedupe_laws(1)[of "[fallback_key str_of x]"] dedupe_laws(1)[of "raw_concurrency_keys str_of (get x ''concurrency_keys'')"]
      by (auto simp: item_concurrency_keys_def Let_def split: if_splits)
    then have "fallback_key str_of (unit_dict (GroupUnit ?g)) = []"
      by (auto simp: fallback_key_def get_def make_group_def Let_def py_or_def text_or_empty_def split: if_splits)
    with True ks raw show ?thesis by (simp add: item_concurrency_keys_def Let_def dedupe_laws)
  next
    case False
    with ks raw show ?thesis by (simp add: item_concurrency_keys_def Let_def dedupe_laws)
  qed
qed


fun unit_groups :: "execution_unit list \<Rightarrow> episode_group list" where
  "unit_groups [] = []"
| "unit_groups (GroupUnit g # us) = g # unit_groups us"
| "unit_groups (InvalidUnit _ _ # us) = unit_groups us"

lemma unit_groups_make_units:
  "unit_groups (make_units str_of arm epoch v n ixs) =
   map (\<lambda>(m, x). make_group str_of arm epoch v m x) (enumerate (Suc n) (valid_seeds v ixs))"
  by (induction ixs arbitrary: n rule: list.induct) (auto simp: valid_seeds_def split: option.splits)

lemma group_id_inj: "group_id_text arm epoch m = group_id_text arm epoch n \<Longrightarrow> m = n"
  by (auto simp: group_id_text_def dest: zero_padded_inj)

definition group_wf :: "(pyval \<Rightarrow> string) \<Rightarrow> pyval dict list \<Rightarrow> episode_group \<Rightarrow> bool" where
  "group_wf str_of items g \<longleftrightarrow>
     eg_seed g \<in> set items \<and> \<not> is_variant (eg_seed g) \<and>
     eg_seed_item_id g = item_id_text str_of (eg_seed g) \<and> eg_seed_item_id g \<noteq> [] \<and>
     eg_items g \<noteq> [] \<and> hd (eg_items g) = eg_seed g \<and>
     (\<forall>y \<in> set (tl (eg_items g)). is_variant y \<and> seed_item_id_text str_of y = eg_seed_item_id g) \<and>
     set (item_concurrency_keys str_of (unit_dict (GroupUnit g))) =
       (\<Union>item \<in> set (eg_items g). set (item_concurrency_keys str_of item))"

lemma make_group_wf:
  assumes inv: "seed_inv str_of items s" "variant_inv str_of s items v"
    and x: "x \<in> set (valid_seeds v (enumerate 0 items))"
  shows "group_wf str_of items (make_group str_of arm epoch v m x)" (is "group_wf _ _ ?g")
proof -
  have id: "eg_seed_item_id ?g = group_seed_id str_of x" "eg_seed ?g = x"
    by (simp_all add: make_group_def Let_def group_seed_id_def)
  have "\<forall>y \<in> set (siblings_of v k). is_variant y \<and> seed_item_id_text str_of y = k" for k
    using inv(2) unfolding variant_inv_def siblings_of_def by (auto split: option.splits)
  moreover have "x \<in> set items" "\<not> is_variant x" using x unfolding valid_seeds_nth[OF inv] by auto
  moreover note valid_seeds_ids(3)[OF inv x]
  ultimately show ?thesis
    unfolding group_wf_def set_unit_keys id by (simp add: id)
qed

text \<open>C19: every group is a seed followed by variants that name it: its seed is a seed item of
  the queue with a non-empty id, the group's seed id; each further item is a variant whose
  \<open>seed_item_id\<close> is that id; the exclusion keys of the unit are those of its items.  No two groups have
  the same group id or the same seed id.\<close>

theorem groups_well_formed:
  assumes "build_episode_execution_units str_of items arm epoch pre = Inr units"
  shows "list_all (group_wf str_of items) (unit_groups units) \<and>
    distinct (map eg_execution_group_id (unit_groups units)) \<and>
    distinct (map eg_seed_item_id (unit_groups units))"
proof (intro conjI)
  define s where "s = scan_seeds str_of items"
  define v where "v = scan_variants str_of s items"
  note invs = grouping_invs[OF s_def v_def]
  let ?seeds = "valid_seeds v (enumerate 0 items)"
  have units: "unit_groups units = map (\<lambda>(m, x). make_group str_of arm epoch v m x) (enumerate 1 ?seeds)"
    using assms by (auto simp: build_episode_execution_units_def Let_def s_def v_def unit_groups_make_units split: if_splits)
  have id: "eg_seed_item_id (make_group str_of arm epoch v m x) = group_seed_id str_of x"
    "eg_execution_group_id (make_group str_of arm epoch v m x) = group_id_text arm epoch m" for m x
    by (simp_all add: make_group_def Let_def group_seed_id_def)
  show "distinct (map eg_execution_group_id (unit_groups units))"
    by (auto simp: units comp_def id split_beta distinct_map in_set_enumerate_eq intro!: inj_onI dest: group_id_inj)
  show "distinct (map eg_seed_item_id (unit_groups units))"
  proof -
    have "map eg_seed_item_id (unit_groups units) = map (group_seed_id str_of) (map snd (enumerate 1 ?seeds))"
      unfolding units map_map by (simp add: comp_def split_beta id)
    then show ?thesis using valid_seeds_ids(2)[OF invs] by simp
  qed
  show "list_all (group_wf str_of items) (unit_groups units)"
    using make_group_wf[OF invs]
    by (auto simp: units list_all_iff in_set_enumerate_eq)
qed

definition queue_example :: "pyval dict list" where
  "queue_example =
     [[(''item_id'', PStr ''a''), (''family'', PStr ''f'')],
      [(''item_id'', PStr ''b''), (''is_variant'', PBool True), (''seed_item_id'', PStr ''a''),
       (''concurrency_keys'', PList [PStr ''g''])],
      [(''item_id'', PStr ''c''), (''is_variant'', PBool True), (''seed_item_id'', PStr ''z'')]]"

theorem groups_well_formed_witness:
  "\<exists>units. build_episode_execution_units (\<lambda>_. []) queue_example ''x'' 1 False = Inr units \<and>
     length (unit_groups units) = 1 \<and> list_all (group_wf (\<lambda>_. []) queue_example) (unit_groups units)"
proof -
  have "case build_episode_execution_units (\<lambda>_. []) queue_example ''x'' 1 False of
      Inl _ \<Rightarrow> False | Inr units \<Rightarrow> length (unit_groups units) = 1" by code_simp
  then obtain units where u: "build_episode_execution_units (\<lambda>_. []) queue_example ''x'' 1 False = Inr units"
    and "length (unit_groups units) = 1" by (auto split: sum.splits)
  with groups_well_formed[OF u] show ?thesis by blast
qed

end
