(* ===== verification/Episode_Release.thy ===== *)
theory Episode_Release
  imports Episode_Runtime
begin

text \<open>
  The execution of an episode group: every handle that \<open>prepare_episode_group\<close> hands out is
  released exactly once, whatever raises; and under the recording failure policy a unit always
  returns records of the documented shape.
\<close>

section \<open>Handles\<close>

text \<open>\<open>opened w h\<close> counts how often the handle \<open>h\<close> is out in the world \<open>w\<close>.  Preparing a group that
  returns a mapping with a handle takes it out; a call of release puts it back, even if the
  call then raises; nothing else changes the count.\<close>

definition handles_counted :: "('w, 'h) episode_env \<Rightarrow> ('w \<Rightarrow> 'h \<Rightarrow> int) \<Rightarrow> bool" where
  "handles_counted E opened \<longleftrightarrow>
     (\<forall>w. opened (snd (ee_clock E w)) = opened w) \<and>
     (\<forall>item e d w. opened (snd (ee_error_record E item e d w)) = opened w) \<and>
     (\<forall>item c w. opened (snd (ea_execute (ee_adapter E) item c w)) = opened w) \<and>
     (\<forall>h item c g w. opened (snd (ea_execute_episode (ee_adapter E) h item c g w)) = opened w) \<and>
     (\<forall>seed items c g w. case ea_prepare_episode_group (ee_adapter E) seed items c g w of
        (Inl e, w') \<Rightarrow> opened w' = opened w
      | (Inr p, w') \<Rightarrow> opened w' = (case prepared_handle p of None \<Rightarrow> opened w
                                 | Some h \<Rightarrow> (opened w)(h := opened w h + 1))) \<and>
     (\<forall>h c g w. opened (snd (ea_release_episode_group (ee_adapter E) h c g w)) =
        (opened w)(h := opened w h - 1))"

lemma keeps_sum [keeps_intros]:
  "(\<And>e. keeps I (f e)) \<Longrightarrow> (\<And>x. keeps I (g x)) \<Longrightarrow> keeps I (case r of Inl e \<Rightarrow> f e | Inr x \<Rightarrow> g x)"
  by (cases r) auto

lemma keeps_option [keeps_intros]:
  "keeps I f \<Longrightarrow> (\<And>x. keeps I (g x)) \<Longrightarrow> keeps I (case r of None \<Rightarrow> f | Some x \<Rightarrow> g x)"
  by (cases r) auto

lemma keeps_pair [keeps_intros]: "(\<And>x y. keeps I (f x y)) \<Longrightarrow> keeps I (case p of (x, y) \<Rightarrow> f x y)"
  by (cases p) auto

lemma wp_snd: "P (snd (m w)) \<Longrightarrow> wp m (\<lambda>_. P) (\<lambda>_. P) w"
  by (auto simp: wp_def split: prod.splits sum.splits)

lemma wp_keeps: "keeps I m \<Longrightarrow> I w \<Longrightarrow> (\<And>x w'. I w' \<Longrightarrow> Q x w') \<Longrightarrow> (\<And>e w'. I w' \<Longrightarrow> F e w') \<Longrightarrow> wp m Q F w"
  by (rule wp_mono[OF keepsD])

lemma keeps_clock: "handles_counted E opened \<Longrightarrow> keeps (\<lambda>w. opened w = k) (clock E)"
  by (auto simp: handles_counted_def keeps_def clock_def split: prod.splits) (metis snd_conv)

lemma keeps_failure_record:
  assumes "handles_counted E opened"
  shows "keeps (\<lambda>w. opened w = k) (failure_record E item e t)"
proof -
  have "keeps (\<lambda>w. opened w = k) (ee_error_record E item e d)" for d
    using assms by (simp add: handles_counted_def keeps_def)
  then show ?thesis
    unfolding failure_record_def episode_elapsed_minutes_def
    by (intro keeps_intros keeps_clock[OF assms])
qed

lemmas keeps_records = keeps_clock keeps_failure_record

lemma keeps_prepare_failed:
  "handles_counted E opened \<Longrightarrow> keeps (\<lambda>w. opened w = k) (prepare_failed E g t e r)"
  unfolding prepare_failed_def Let_def by (intro keeps_intros keeps_records)

lemma keeps_legacy_items:
  assumes "handles_counted E opened"
  shows "keeps (\<lambda>w. opened w = k) (legacy_items E items)"
proof -
  have "keeps (\<lambda>w. opened w = k) (ea_execute (ee_adapter E) item c)" for item c
    using assms by (simp add: handles_counted_def keeps_def)
  then show ?thesis
    by (induction items) (auto simp: Let_def intro!: keeps_intros keeps_records[OF assms])
qed

lemma keeps_suffix_items:
  assumes "handles_counted E opened"
  shows "keeps (\<lambda>w. opened w = k) (suffix_items E g h c items)"
proof -
  have "keeps (\<lambda>w. opened w = k) (ea_execute_episode (ee_adapter E) h item d i)" for item d i
    using assms by (simp add: handles_counted_def keeps_def)
  then show ?thesis
    by (induction items) (auto simp: Let_def intro!: keeps_intros keeps_records[OF assms])
qed

text \<open>Reading the clock does not raise.  A release takes \<open>h\<close> back, whether it raises or not.\<close>

abbreviation taken :: "('h \<Rightarrow> int) \<Rightarrow> 'h \<Rightarrow> 'h \<Rightarrow> int" where
  "taken k h \<equiv> k(h := k h + 1)"

lemma wp_clock_counted:
  assumes "handles_counted E opened" "opened w = k" "\<And>t w'. opened w' = k \<Longrightarrow> Q t w'"
  shows "wp (clock E) Q F w"
  using assms by (auto simp: wp_def clock_def handles_counted_def split: prod.splits) (metis snd_conv)

lemma wp_release_call:
  assumes "handles_counted E opened" "opened w = taken k h"
    and "\<And>x w'. opened w' = k \<Longrightarrow> Q x w'" "\<And>e w'. opened w' = k \<Longrightarrow> F e w'"
  shows "wp (ea_release_episode_group (ee_adapter E) h c g) Q F w"
proof -
  have "opened (snd (ea_release_episode_group (ee_adapter E) h c g w)) = k"
    using assms(1,2) by (simp add: handles_counted_def)
  then have "wp (ea_release_episode_group (ee_adapter E) h c g) (\<lambda>_ w. opened w = k) (\<lambda>_ w. opened w = k) w"
    by (rule wp_snd)
  then show ?thesis by (rule wp_mono) (simp_all add: assms(3,4))
qed

lemma wp_release_malformed:
  assumes c: "handles_counted E opened" and k: "opened w = (case handle of None \<Rightarrow> k | Some h \<Rightarrow> taken k h)"
  shows "wp (release_malformed E g handle) (\<lambda>_ w. opened w = k) (\<lambda>_ w. opened w = k) w"
proof (cases handle)
  case (Some h)
  have r: "keeps (\<lambda>w. opened w = k) (case r of Inr _ \<Rightarrow> ret None
      | Inl e \<Rightarrow> bnd (failure_record E (eg_seed g) e t) (\<lambda>r. ret (Some r)))" for r :: "unit res" and t
    by (intro keeps_intros keeps_records[OF c])
  have "opened w = taken k h" using k by (simp add: Some)
  then show ?thesis
    unfolding release_malformed_def Some option.case wp_bnd wp_attempt
    by (rule wp_clock_counted[OF c]) (rule wp_release_call[OF c], assumption, rule keepsD[OF r], assumption, rule keepsD[OF r])
qed (use k in \<open>simp add: release_malformed_def\<close>)

lemma wp_release_group:
  assumes c: "handles_counted E opened" and k: "opened w = taken k h"
  shows "wp (release_group E g h f prefix) (\<lambda>_ w. opened w = k) (\<lambda>_ w. opened w = k) w"
proof -
  have r: "keeps (\<lambda>w. opened w = k) (case r of Inr _ \<Rightarrow> ret prefix | Inl e \<Rightarrow>
      (case f of Some f \<Rightarrow> raise f | None \<Rightarrow>
        if ee_fatal E then raise e
        else bnd (failure_record E (eg_seed g) e t) (\<lambda>r. ret (dict_set ''episode_stage'' (PStr ''release'')
               (attach_release_error r prefix)))))" for r :: "unit res" and t
    by (intro keeps_intros keeps_records[OF c])
  show ?thesis
    unfolding release_group_def wp_bnd wp_attempt using k
    by (rule wp_clock_counted[OF c]) (rule wp_release_call[OF c], assumption, rule keepsD[OF r], assumption, rule keepsD[OF r])
qed

lemma wp_run_suffixes:
  assumes c: "handles_counted E opened" and k: "opened w = taken k h"
  shows "wp (run_suffixes E g h prefix cp) (\<lambda>_ w. opened w = k) (\<lambda>_ w. opened w = k) w"
proof -
  have end_ok: "wp (case body of Inl e \<Rightarrow> raise e | Inr (records, f) \<Rightarrow>
      (case f of Some f \<Rightarrow> raise f | None \<Rightarrow> ret (p # records))) (\<lambda>_ w. opened w = k) (\<lambda>_ w. opened w = k) w"
    if "opened w = k" for body :: "(pyval dict list \<times> exn option) res" and p w
    using that by (simp split: sum.splits prod.splits option.splits)
  show ?thesis
    unfolding run_suffixes_def wp_bnd wp_attempt
    by (rule wp_keeps[OF keeps_suffix_items[OF c, of "taken k h"] k]; rule wp_mono[OF wp_release_group[OF c]],
        assumption, rule end_ok, assumption, assumption)
qed

lemma prefix_of_handle: "prefix_of g p = Inr (h, prefix, cp) \<Longrightarrow> prepared_handle p = Some h"
  by (auto simp: prefix_of_def prepared_handle_def Let_def res_iff split: prepared.splits option.splits)

lemma wp_prepare:
  assumes "handles_counted E opened" "opened w = k"
    and "\<And>p w'. opened w' = (case prepared_handle p of None \<Rightarrow> k | Some h \<Rightarrow> taken k h) \<Longrightarrow> Q p w'"
    and "\<And>e w'. opened w' = k \<Longrightarrow> F e w'"
  shows "wp (ea_prepare_episode_group (ee_adapter E) seed items c g) Q F w"
proof -
  have "case ea_prepare_episode_group (ee_adapter E) seed items c g w of
        (Inl e, w') \<Rightarrow> opened w' = opened w
      | (Inr p, w') \<Rightarrow> opened w' = (case prepared_handle p of None \<Rightarrow> opened w
                                 | Some h \<Rightarrow> (opened w)(h := opened w h + 1))"
    using assms(1) unfolding handles_counted_def by simp
  then show ?thesis using assms(2-) by (auto simp: wp_def split: prod.splits sum.splits)
qed

lemma wp_run_prepared:
  assumes c: "handles_counted E opened"
    and k: "opened w = (case prepared_handle p of None \<Rightarrow> k | Some h \<Rightarrow> taken k h)"
  shows "wp (run_prepared E g t p) (\<lambda>_ w. opened w = k) (\<lambda>_ w. opened w = k) w"
proof (cases "prefix_of g p")
  case (Inl e)
  have "wp (prepare_failed E g t e r) (\<lambda>_ w. opened w = k) (\<lambda>_ w. opened w = k) w" if "opened w = k" for r w
    using keepsD[OF keeps_prepare_failed[OF c]] that by blast
  then show ?thesis
    using wp_mono[OF wp_release_malformed[OF c k]] by (simp add: run_prepared_def Inl)
next
  case (Inr x)
  then obtain h prefix cp where x: "prefix_of g p = Inr (h, prefix, cp)" by (cases x) auto
  then have "opened w = taken k h" using k by (simp add: prefix_of_handle[OF x])
  from wp_run_suffixes[OF c this] show ?thesis by (simp add: run_prepared_def x)
qed

lemma wp_run_episode_group:
  assumes c: "handles_counted E opened" and k: "opened w = k"
  shows "wp (run_episode_group E g) (\<lambda>_ w. opened w = k) (\<lambda>_ w. opened w = k) w"
proof -
  let ?P = "\<lambda>_ w. opened w = k"
  have p: "wp (case p of PreparedNone \<Rightarrow> legacy_items E (eg_items g) | PreparedOther \<Rightarrow> run_prepared E g t PreparedOther
      | PreparedMap a b c \<Rightarrow> run_prepared E g t (PreparedMap a b c)) ?P ?P w"
    if "opened w = (case prepared_handle p of None \<Rightarrow> k | Some h \<Rightarrow> taken k h)" for p t w
    using that wp_run_prepared[OF c that] keepsD[OF keeps_legacy_items[OF c]]
    by (cases p) (auto simp: prepared_handle_def)
  show ?thesis
    unfolding run_episode_group_def wp_bnd wp_attempt
    by (rule wp_clock_counted[OF c k], rule wp_prepare[OF c], assumption)
      (simp_all add: p keepsD[OF keeps_prepare_failed[OF c]])
qed

text \<open>C20: an episode group releases every handle it was given, exactly once, under either failure
  policy and whether prepare, the validation of its result, a suffix, the error factory or the
  release itself raises: the count of open handles is the same after as before.\<close>

theorem episode_handles_released:
  assumes "handles_counted E opened"
  shows "opened (snd (execute_episode_group E unit w)) = opened w"
proof -
  have "wp (execute_episode_group E unit) (\<lambda>_ w'. opened w' = opened w) (\<lambda>_ w'. opened w' = opened w) w"
  proof (cases unit)
    case (InvalidUnit item r)
    have "keeps (\<lambda>w'. opened w' = opened w) (ee_error_record E item' e d)" for item' e d
      using assms by (simp add: handles_counted_def keeps_def)
    then have "keeps (\<lambda>w'. opened w' = opened w) (execute_episode_group E unit)"
      unfolding execute_episode_group_def InvalidUnit execution_unit.case by (intro keeps_intros)
    from keepsD[OF this] show ?thesis by simp
  next
    case (GroupUnit g)
    with wp_run_episode_group[OF assms refl] show ?thesis by (simp add: execute_episode_group_def)
  qed
  then show ?thesis by (auto simp: wp_def split: prod.splits sum.splits)
qed


definition counting_env :: "bool \<Rightarrow> (nat \<Rightarrow> int, nat) episode_env" where
  "counting_env fatal =
     \<lparr>ee_adapter = \<lparr>
        ea_prepare_episode_group = (\<lambda>_ _ _ _ w. (Inr (PreparedMap (Some 7) (Some []) PNone), w(7 := w 7 + 1))),
        ea_execute_episode = (\<lambda>_ item _ _ w.
          (if is_variant item then Inl (ForeignError ''AdapterError'') else Inr (Some []), w)),
        ea_release_episode_group = (\<lambda>h _ _ w. (Inl (ForeignError ''ReleaseError''), w(h := w h - 1))),
        ea_execute = (\<lambda>_ _ w. (Inr None, w))\<rparr>,
      ee_error_record = (\<lambda>item _ _ w. (Inr item, w)),
      ee_clock = (\<lambda>w. (Fin 0, w)),
      ee_fatal = fatal,
      ee_context = \<lparr>qc_run_root = [], qc_arm = [], qc_epoch = 1, qc_branch_id = []\<rparr>\<rparr>"

lemma counting_env_counts: "handles_counted (counting_env fatal) (\<lambda>w. w)"
  by (simp add: handles_counted_def counting_env_def prepared_handle_def)

theorem episode_handles_released_witness:
  "\<forall>unit. snd (execute_episode_group (counting_env True) unit (\<lambda>_. 0)) = (\<lambda>_. 0)"
  using episode_handles_released[OF counting_env_counts, of True] by simp

section \<open>Records under the recording policy\<close>

lemma annotate_get:
  "get (annotate_group_record gid sid kind reused cp r) ''record_kind'' = PStr kind"
  "get (annotate_group_record gid sid kind reused cp r) ''execution_group_id'' = PStr gid"
  "get (annotate_group_record gid sid kind reused cp r) ''seed_item_id'' = PStr sid"
  by (auto simp: annotate_group_record_def Let_def get_set get_pop split: option.splits)

lemma standalone_get:
  "get (dict_set ''episode_fallback'' v (standalone_record r)) ''record_kind'' = PStr RECORD_KIND_STANDALONE"
  "get (dict_set ''episode_fallback'' v (standalone_record r)) ''execution_group_id'' = PNone"
  by (auto simp: standalone_record_def get_set get_pop)

lemma annotated_release_get:
  "k \<notin> {''episode_release_error'', ''retryable_infra_error'', ''episode_stage''} \<Longrightarrow>
   get (dict_set ''episode_stage'' v (attach_release_error e r)) k = get r k"
  by (simp add: attach_release_error_def Let_def get_set)

text \<open>A record of the group \<open>g\<close> of a given kind.\<close>

definition group_record :: "episode_group \<Rightarrow> string \<Rightarrow> pyval dict \<Rightarrow> bool" where
  "group_record g kind r \<longleftrightarrow> get r ''record_kind'' = PStr kind \<and>
     get r ''execution_group_id'' = PStr (eg_execution_group_id g) \<and>
     get r ''seed_item_id'' = PStr (eg_seed_item_id g)"

definition recording :: "('w, 'h) episode_env \<Rightarrow> bool" where
  "recording E \<longleftrightarrow> \<not> ee_fatal E \<and> (\<forall>item e d w. \<exists>r w'. ee_error_record E item e d w = (Inr r, w'))"

lemma wp_clock: "wp (clock E) Q F w = (case ee_clock E w of (t, w') \<Rightarrow> Q t w')"
  by (simp add: wp_def clock_def split: prod.splits)

lemma wp_failure_record:
  assumes "recording E" "\<And>r w. Q r w"
  shows "wp (failure_record E item e t) Q F w"
proof -
  have div: "\<exists>x. fdiv y (Fin 60) = Inr x" for y by (cases y) auto
  have "wp (ee_error_record E item e d) Q F w" for d w
  proof -
    obtain r w' where "ee_error_record E item e d w = (Inr r, w')" using assms(1) unfolding recording_def by blast
    then show ?thesis by (simp add: wp_def assms(2))
  qed
  then have "wp (of_res (fdiv y (Fin 60))) (\<lambda>d. wp (ee_error_record E item e d) Q F) F w" for y w
    using div[of y] by auto
  then show ?thesis
    by (simp add: failure_record_def episode_elapsed_minutes_def wp_clock del: wp_of_res)
qed

lemma wp_clock_any: "(\<And>t w'. Q t w') \<Longrightarrow> wp (clock E) Q F w"
  by (simp add: wp_clock split: prod.splits)

lemma wp_attempt_any: "(\<And>r w'. Q r w') \<Longrightarrow> wp (attempt m) Q F w"
  unfolding wp_attempt by (rule wp_any)

text \<open>Running every item leaves one record per item.\<close>

definition legacy_record :: "pyval dict \<Rightarrow> bool" where
  "legacy_record r \<longleftrightarrow> get r ''record_kind'' = PStr RECORD_KIND_STANDALONE \<and> get r ''execution_group_id'' = PNone"

lemma legacy_record_standalone: "legacy_record (dict_set ''episode_fallback'' v (standalone_record r))"
  by (simp add: legacy_record_def standalone_get)

lemma group_record_annotate:
  "group_record g kind (annotate_group_record (eg_execution_group_id g) (eg_seed_item_id g) kind b c r)"
  by (simp add: group_record_def annotate_get)

lemma wp_legacy_items:
  assumes E: "recording E"
  shows "wp (legacy_items E items) (\<lambda>rs _. length rs = length items \<and> list_all legacy_record rs) (\<lambda>_ _. False) w"
proof (induction items arbitrary: w)
  case (Cons item items)
  have step: "wp (bnd (legacy_items E items) (\<lambda>rs. ret (dict_set ''episode_fallback'' v (standalone_record r) # rs)))
      (\<lambda>rs _. length rs = Suc (length items) \<and> list_all legacy_record rs) (\<lambda>_ _. False) w" for r v w
    unfolding wp_bnd by (rule wp_mono[OF Cons.IH]) (auto simp: legacy_record_standalone)
  have "\<not> ee_fatal E" using E by (simp add: recording_def)
  then show ?case
    unfolding legacy_items.simps Let_def wp_bnd[of "clock E"] wp_bnd[of "attempt _"]
    by (intro wp_clock_any wp_attempt_any)
      (auto simp del: wp_bnd simp: wp_bnd[of "case _ of Inl e \<Rightarrow> _ e | Inr x \<Rightarrow> _ x"] wp_bnd[of "failure_record _ _ _ _"]
        split: sum.splits intro!: step wp_failure_record[OF E])
qed simp

lemma wp_suffix_items:
  assumes E: "recording E"
  shows "wp (suffix_items E g h c items) (\<lambda>(rs, f) _. f = None \<and> length rs = length items \<and>
      list_all (group_record g RECORD_KIND_EPISODE_SUFFIX) rs) (\<lambda>_ _. False) w"
proof (induction items arbitrary: w)
  case (Cons item items)
  have step: "wp (bnd (suffix_items E g h c items) (\<lambda>(rs, f).
        ret (annotate_group_record (eg_execution_group_id g) (eg_seed_item_id g)
               RECORD_KIND_EPISODE_SUFFIX b c r # rs, f)))
      (\<lambda>(rs, f) _. f = None \<and> length rs = Suc (length items) \<and>
        list_all (group_record g RECORD_KIND_EPISODE_SUFFIX) rs) (\<lambda>_ _. False) w" for b r w
    unfolding wp_bnd by (rule wp_mono[OF Cons.IH]) (auto simp: group_record_annotate)
  have "\<not> ee_fatal E" using E by (simp add: recording_def)
  then show ?case
    unfolding suffix_items.simps Let_def wp_bnd[of "clock E"] wp_bnd[of "attempt _"]
    by (intro wp_clock_any wp_attempt_any)
      (auto simp del: wp_bnd simp: wp_bnd[of "failure_record _ _ _ _"]
        split: sum.splits intro!: step wp_failure_record[OF E])
qed simp


lemma wp_release_group_records:
  assumes E: "recording E" and p: "group_record g kind prefix"
  shows "wp (release_group E g h None prefix) (\<lambda>r _. group_record g kind r) (\<lambda>_ _. False) w"
proof -
  have "group_record g kind (dict_set ''episode_stage'' v (attach_release_error e prefix))" for v e
    using p by (simp add: group_record_def annotated_release_get)
  then show ?thesis
    using E p unfolding release_group_def wp_bnd[of "clock E"] wp_bnd[of "attempt _"] recording_def
    by (intro wp_clock_any wp_attempt_any)
      (auto split: sum.splits intro!: wp_failure_record[OF E])
qed

text \<open>The records of a group: the record of a failed preparation, or one standalone record per
  item if the adapter opted out, or the prefix record and one suffix record per item.\<close>

definition group_records :: "episode_group \<Rightarrow> pyval dict list \<Rightarrow> bool" where
  "group_records g rs \<longleftrightarrow>
     (length rs = 1 \<and> group_record g RECORD_KIND_SHARED_PREFIX (hd rs) \<and>
        get (hd rs) ''episode_stage'' = PStr ''prepare'') \<or>
     (length rs = length (eg_items g) \<and> list_all legacy_record rs) \<or>
     (length rs = 1 + length (eg_items g) \<and> group_record g RECORD_KIND_SHARED_PREFIX (hd rs) \<and>
        list_all (group_record g RECORD_KIND_EPISODE_SUFFIX) (tl rs))"

lemma wp_prepare_failed_records:
  assumes E: "recording E"
  shows "wp (prepare_failed E g t e r) (\<lambda>rs _. group_records g rs) (\<lambda>_ _. False) w"
proof -
  have "get (annotate_group_record a b c d None (case r of None \<Rightarrow> dict_set ''episode_stage'' (PStr ''prepare'') f
      | Some x \<Rightarrow> attach_release_error x (dict_set ''episode_stage'' (PStr ''prepare'') f))) ''episode_stage'' = PStr ''prepare''"
    for a b c d f
    by (auto simp: annotate_group_record_def attach_release_error_def Let_def get_set get_pop split: option.splits)
  then show ?thesis
    using E unfolding prepare_failed_def Let_def
    by (auto simp: recording_def group_records_def group_record_annotate intro!: wp_failure_record[OF E])
qed

lemma wp_run_suffixes_records:
  assumes E: "recording E" and p: "group_record g RECORD_KIND_SHARED_PREFIX prefix"
  shows "wp (run_suffixes E g h prefix c) (\<lambda>rs _. group_records g rs) (\<lambda>_ _. False) w"
  unfolding run_suffixes_def wp_bnd wp_attempt
  by (rule wp_mono[OF wp_suffix_items[OF E]])
    (auto intro!: wp_mono[OF wp_release_group_records[OF E p]] simp: group_records_def)

lemma wp_release_malformed_records:
  assumes E: "recording E" and "\<And>r w. wp (f r) Q F w"
  shows "wp (release_malformed E g handle) (\<lambda>r. wp (f r) Q F) F w"
  unfolding release_malformed_def
  by (auto split: option.splits simp del: wp_attempt simp: assms(2)
      intro!: wp_clock_any wp_attempt_any)
    (auto split: sum.splits simp: assms(2) intro!: wp_failure_record[OF E])

lemma wp_run_prepared_records:
  assumes E: "recording E"
  shows "wp (run_prepared E g t p) (\<lambda>rs _. group_records g rs) (\<lambda>_ _. False) w"
proof (cases "prefix_of g p")
  case (Inl e)
  then show ?thesis
    using wp_release_malformed_records[OF E wp_prepare_failed_records[OF E]] by (simp add: run_prepared_def)
next
  case (Inr x)
  then obtain h prefix cp where x: "prefix_of g p = Inr (h, prefix, cp)" by (cases x) auto
  then have "group_record g RECORD_KIND_SHARED_PREFIX prefix"
    by (auto simp: prefix_of_def Let_def res_iff group_record_annotate split: prepared.splits option.splits)
  from wp_run_suffixes_records[OF E this] show ?thesis by (simp add: run_prepared_def x)
qed

lemma wp_run_episode_group_records:
  assumes E: "recording E"
  shows "wp (run_episode_group E g) (\<lambda>rs _. group_records g rs) (\<lambda>_ _. False) w"
proof -
  have "wp (legacy_items E (eg_items g)) (\<lambda>rs _. group_records g rs) (\<lambda>_ _. False) w" for w
    by (rule wp_mono[OF wp_legacy_items[OF E]]) (auto simp: group_records_def)
  then show ?thesis
    unfolding run_episode_group_def wp_bnd[of "clock E"] wp_bnd[of "attempt _"]
    by (intro wp_clock_any wp_attempt_any)
      (auto split: sum.splits prepared.splits intro!: wp_prepare_failed_records[OF E] wp_run_prepared_records[OF E])
qed

text \<open>Under the recording policy, with an error factory that returns, executing a unit never
  raises, whatever the adapter does.  An invalid unit gives one standalone record; a group gives
  the record of its failed preparation, or a record per item if the adapter opted out, or a
  prefix record and a suffix record per item, all carrying the group and seed ids.\<close>

theorem recording_policy_total:
  assumes "recording E"
  shows "\<exists>rs w'. execute_episode_group E unit w = (Inr rs, w') \<and>
    (case unit of
       InvalidUnit _ _ \<Rightarrow> length rs = 1 \<and> get (hd rs) ''record_kind'' = PStr RECORD_KIND_STANDALONE
     | GroupUnit g \<Rightarrow> group_records g rs)"
proof -
  let ?Q = "\<lambda>rs _. case unit of
       InvalidUnit _ _ \<Rightarrow> length rs = 1 \<and> get (hd rs) ''record_kind'' = PStr RECORD_KIND_STANDALONE
     | GroupUnit g \<Rightarrow> group_records g rs"
  have "wp (execute_episode_group E unit) ?Q (\<lambda>_ _. False) w"
  proof (cases unit)
    case (InvalidUnit item reason)
    obtain r w' where "ee_error_record E (unit_dict unit) (ValueError reason) (Fin 0) w = (Inr r, w')"
      using assms unfolding recording_def by blast
    with assms InvalidUnit show ?thesis
      by (simp add: execute_episode_group_def recording_def wp_def[of "ee_error_record _ _ _ _"] standalone_record_def get_set)
  next
    case (GroupUnit g)
    with wp_run_episode_group_records[OF assms] show ?thesis by (simp add: execute_episode_group_def)
  qed
  then show ?thesis by (auto simp: wp_def split: prod.splits sum.splits)
qed

theorem recording_policy_total_witness:
  "\<exists>rs w'. execute_episode_group (counting_env False) (InvalidUnit [] ''r'') (\<lambda>_. 0) = (Inr rs, w') \<and>
     length rs = 1 \<and> get (hd rs) ''record_kind'' = PStr RECORD_KIND_STANDALONE"
proof -
  have "recording (counting_env False)" by (simp add: recording_def counting_env_def)
  from recording_policy_total[OF this, of "InvalidUnit [] ''r''" "\<lambda>_. 0"] show ?thesis by simp
qed

end
