(* ===== verification/Harness_Queue.thy ===== *)
theory Harness_Queue
  imports Episode_Runtime
begin

text \<open>
  \<open>src/loopx/capabilities/explore/harness_runtime.py\<close>: the failure policies, the error record of an
  item, and \<open>run_queue_epoch\<close>, in which a pool of workers drains a shared queue of items whose
  exclusion keys must not overlap while they are in flight.

  A worker moves in atomic steps: every block under the lock is one step, and the execution of an
  item ends in one step with an outcome that the surroundings choose.  The epoch is the
  interleaving of these steps in any order; \<open>sleep\<close>, the stagger and the wall-clock minutes of a lane
  are not represented.  For each item a worker has executed, its batch of records is kept
  together with the item; the source keeps the concatenation of the batches.
\<close>

section \<open>Failure policies and error records\<close>

datatype ItemFailurePolicy = POLICY_RECORD | POLICY_FATAL

fun ItemFailurePolicy_value :: "ItemFailurePolicy \<Rightarrow> string" where
  "ItemFailurePolicy_value POLICY_RECORD = ''record''"
| "ItemFailurePolicy_value POLICY_FATAL = ''fatal''"

text \<open>The argument is a member of the enum or some other value.\<close>

datatype policy_argument = PolicyMember ItemFailurePolicy | PolicyValue pyval

definition normalize_item_failure_policy :: "(pyval \<Rightarrow> string) \<Rightarrow> policy_argument \<Rightarrow> string res" where
  "normalize_item_failure_policy str_of value =
     (case value of
        PolicyMember p \<Rightarrow> Inr (ItemFailurePolicy_value p)
      | PolicyValue v \<Rightarrow>
          let policy = map (\<lambda>c. if c = CHR ''_'' then CHR ''-'' else c)
                (lower (strip (py_text str_of (py_or v (PStr (ItemFailurePolicy_value POLICY_RECORD))))))
          in if policy \<in> {ItemFailurePolicy_value POLICY_RECORD, ItemFailurePolicy_value POLICY_FATAL}
             then Inr policy
             else Inl (ValueError ''item_failure_policy must be one of: fatal, record''))"

text \<open>\<open>" ".join(text.split())\<close>\<close>

lemma length_dropWhile_less [termination_simp]: "length (dropWhile P xs) < Suc (length xs)"
  by (simp add: length_dropWhile_le less_Suc_eq_le)

fun squeeze :: "string \<Rightarrow> string" where
  "squeeze [] = []"
| "squeeze (c # cs) =
     (if is_space c then squeeze cs
      else let word = takeWhile (\<lambda>c. \<not> is_space c) (c # cs);
               rest = squeeze (dropWhile (\<lambda>c. \<not> is_space c) cs)
           in if rest = [] then word else word @ '' '' @ rest)"

text \<open>What the record reads of an exception: its message and its \<open>retryable_infra_error\<close> attribute.\<close>

record error_facts =
  ef_text :: "exn \<Rightarrow> string"
  ef_retryable :: "exn \<Rightarrow> bool"

definition MIN_DURATION_MINUTES :: pyfloat where
  "MIN_DURATION_MINUTES = rnd (5 / 100)"

definition adapter_error_record :: "error_facts \<Rightarrow> pyval dict \<Rightarrow> exn \<Rightarrow> pyfloat \<Rightarrow> pyval dict" where
  "adapter_error_record F item error duration_minutes =
     [(''item_id'', get item ''item_id''),
      (''family'', get item ''family''),
      (''is_variant'', PBool (is_variant item)),
      (''variant_spec_id'',
         if is_variant item
         then (case get item ''variant_spec'' of PMap spec \<Rightarrow> map_get spec ''spec_id'' | _ \<Rightarrow> PNone)
         else PNone),
      (''execution_status'', PStr ''adapter_error''),
      (''item_failure_policy'', PStr (ItemFailurePolicy_value POLICY_RECORD)),
      (''accepted'', PBool False),
      (''observation_keys'', PList []),
      (''weighted_flags'', PMap []),
      (''duration_minutes'',
         PFloat (if fless MIN_DURATION_MINUTES duration_minutes then duration_minutes else MIN_DURATION_MINUTES)),
      (''retryable_infra_error'', PBool (ef_retryable F error)),
      (''adapter_error'', PMap
         [(KStr ''schema_version'', PStr ''loopx_explore_adapter_error_v0''),
          (KStr ''type'', PStr (exn_type_name error)),
          (KStr ''message'', PStr (take 240 (squeeze (ef_text F error))))])]"

section \<open>The batch of an item\<close>

text \<open>What \<open>execute\<close> did: raise, return a mapping, return a sequence (of an element that is no
  mapping \<open>None\<close>), or return something else.\<close>

datatype execute_outcome =
    Raised exn
  | OneRecord "pyval dict"
  | RecordSequence "pyval dict option list"
  | OtherOutcome

definition collect_batch :: "execute_outcome \<Rightarrow> pyval dict list res" where
  "collect_batch outcome =
     (case outcome of
        Raised e \<Rightarrow> Inl e
      | OneRecord r \<Rightarrow> Inr [r]
      | RecordSequence candidates \<Rightarrow>
          rmap (\<lambda>c. case c of
             None \<Rightarrow> Inl (TypeError ''queue execute sequences must contain dict observation records'')
           | Some r \<Rightarrow> Inr r) candidates
      | OtherOutcome \<Rightarrow> Inl (TypeError ''queue execute must return a dict or sequence of dict observations''))"

definition fill_record :: "pyval dict \<Rightarrow> pyval dict \<Rightarrow> pyval dict res" where
  "fill_record item record =
     (let r = dict_setdefault ''is_variant'' (PBool (is_variant item))
                (dict_setdefault ''family'' (get item ''family'')
                  (dict_setdefault ''item_id'' (get item ''item_id'') record))
      in if is_variant item
         then (case py_or (get item ''variant_spec'') (PMap []) of
                 PMap spec \<Rightarrow> Inr (dict_setdefault ''variant_spec_id'' (map_get spec ''spec_id'') r)
               | _ \<Rightarrow> Inl (AttributeError ''get''))
         else Inr r)"

definition make_batch :: "pyval dict \<Rightarrow> execute_outcome \<Rightarrow> pyval dict list res" where
  "make_batch item outcome =
     rbind (collect_batch outcome) (\<lambda>batch.
     rbind (check (batch \<noteq> []) (TypeError ''queue execute must return at least one observation'')) (\<lambda>_.
     rmap (fill_record item) batch))"

section \<open>The workers\<close>

datatype phase =
    Pulling
  | Checking
  | Running "pyval dict"
  | Finished
  | Failed "pyval dict" exn

record worker =
  wk_phase :: phase
  wk_results :: "(pyval dict \<times> pyval dict list) list"

record queue_state =
  q_pending :: "pyval dict list"
  q_in_flight :: "string set"
  q_workers :: "worker list"

record queue_env =
  qe_str_of :: "pyval \<Rightarrow> string"
  qe_facts :: error_facts
  qe_fatal :: bool

abbreviation item_keys :: "queue_env \<Rightarrow> pyval dict \<Rightarrow> string list" where
  "item_keys Q \<equiv> item_concurrency_keys (qe_str_of Q)"

fun pull_next ::
  "(pyval dict \<Rightarrow> string list) \<Rightarrow> string set \<Rightarrow> pyval dict list \<Rightarrow> (pyval dict \<times> pyval dict list) option" where
  "pull_next keys in_flight [] = None"
| "pull_next keys in_flight (item # pending) =
     (if list_ex (\<lambda>key. key \<in> in_flight) (keys item)
      then map_option (\<lambda>(x, rest). (x, item # rest)) (pull_next keys in_flight pending)
      else Some (item, pending))"

definition set_phase :: "nat \<Rightarrow> phase \<Rightarrow> queue_state \<Rightarrow> queue_state" where
  "set_phase i p s = s\<lparr>q_workers := (q_workers s)[i := (q_workers s ! i)\<lparr>wk_phase := p\<rparr>]\<rparr>"

definition pull_step :: "queue_env \<Rightarrow> nat \<Rightarrow> queue_state \<Rightarrow> queue_state" where
  "pull_step Q i s =
     (case pull_next (item_keys Q) (q_in_flight s) (q_pending s) of
        None \<Rightarrow> set_phase i Checking s
      | Some (item, rest) \<Rightarrow>
          (set_phase i (Running item) s)
            \<lparr>q_pending := rest, q_in_flight := q_in_flight s \<union> set (item_keys Q item)\<rparr>)"

definition check_step :: "nat \<Rightarrow> queue_state \<Rightarrow> queue_state" where
  "check_step i s = set_phase i (if q_pending s = [] then Finished else Pulling) s"

text \<open>The end of an execution: the batch or the error, and in either case the release of the keys.\<close>

definition finish_step ::
  "queue_env \<Rightarrow> nat \<Rightarrow> pyval dict \<Rightarrow> execute_outcome \<Rightarrow> pyfloat \<Rightarrow> queue_state \<Rightarrow> queue_state" where
  "finish_step Q i item outcome duration_minutes s =
     (let released = s\<lparr>q_in_flight := q_in_flight s - set (item_keys Q item)\<rparr>;
          w = q_workers s ! i;
          extend = (\<lambda>batch. released\<lparr>q_workers := (q_workers s)[i :=
              \<lparr>wk_phase = Pulling, wk_results = wk_results w @ [(item, batch)]\<rparr>]\<rparr>)
      in case make_batch item outcome of
           Inr batch \<Rightarrow> extend batch
         | Inl e \<Rightarrow>
             if qe_fatal Q then set_phase i (Failed item e) released
             else extend [adapter_error_record (qe_facts Q) item e duration_minutes])"

inductive queue_step :: "queue_env \<Rightarrow> queue_state \<Rightarrow> queue_state \<Rightarrow> bool" for Q where
  pull: "i < length (q_workers s) \<Longrightarrow> wk_phase (q_workers s ! i) = Pulling \<Longrightarrow> queue_step Q s (pull_step Q i s)"
| check: "i < length (q_workers s) \<Longrightarrow> wk_phase (q_workers s ! i) = Checking \<Longrightarrow> queue_step Q s (check_step i s)"
| finish: "i < length (q_workers s) \<Longrightarrow> wk_phase (q_workers s ! i) = Running item \<Longrightarrow>
    queue_step Q s (finish_step Q i item outcome d s)"

definition thread_count :: "int \<Rightarrow> pyval dict list \<Rightarrow> int" where
  "thread_count worker_count pending =
     max 1 (min worker_count (if pending = [] then 1 else int (length pending)))"

definition queue_init :: "int \<Rightarrow> pyval dict list \<Rightarrow> queue_state" where
  "queue_init worker_count items =
     \<lparr>q_pending = items, q_in_flight = {},
      q_workers = replicate (nat (thread_count worker_count items)) \<lparr>wk_phase = Pulling, wk_results = []\<rparr>\<rparr>"

text \<open>The states of an epoch.\<close>

inductive epoch_state :: "queue_env \<Rightarrow> int \<Rightarrow> pyval dict list \<Rightarrow> queue_state \<Rightarrow> bool" for Q n items where
  start: "epoch_state Q n items (queue_init n items)"
| step: "epoch_state Q n items s \<Longrightarrow> queue_step Q s s' \<Longrightarrow> epoch_state Q n items s'"

text \<open>The lane a worker returns (without its wall-clock minutes).\<close>

record lane =
  ln_branch_id :: string
  ln_launch_index :: nat
  ln_item_ids :: "pyval list"
  ln_families :: "pyval list"
  ln_results :: "pyval dict list"

definition worker_lane :: "nat \<Rightarrow> worker \<Rightarrow> lane" where
  "worker_lane worker_index w =
     (let results = concat (map snd (wk_results w))
      in \<lparr>ln_branch_id = ''queue_worker_'' @ zero_padded 2 (worker_index + 1),
          ln_launch_index = worker_index,
          ln_item_ids = map (\<lambda>r. get r ''item_id'') results,
          ln_families = map (\<lambda>r. get r ''family'') results,
          ln_results = results\<rparr>)"

definition ended :: "phase \<Rightarrow> bool" where
  "ended p = (case p of Finished \<Rightarrow> True | Failed _ _ \<Rightarrow> True | _ \<Rightarrow> False)"

inductive_cases queue_step_cases: "queue_step Q s s'"

end
