(* ===== verification/Queue_Properties.thy ===== *)
theory Queue_Properties
  imports Harness_Queue "HOL-Library.Multiset"
begin

text \<open>
  The shared pull queue under every interleaving of its workers: items whose exclusion keys overlap
  are never in flight together, no item is lost or executed twice, and the epoch can always come
  to its end.
\<close>

section \<open>Invariant\<close>

fun phase_items :: "phase \<Rightarrow> pyval dict multiset" where
  "phase_items (Running x) = {#x#}"
| "phase_items (Failed x _) = {#x#}"
| "phase_items _ = {#}"

definition worker_items :: "worker \<Rightarrow> pyval dict multiset" where
  "worker_items w = phase_items (wk_phase w) + mset (map fst (wk_results w))"

fun phase_keys :: "queue_env \<Rightarrow> phase \<Rightarrow> string set" where
  "phase_keys Q (Running x) = set (item_keys Q x)"
| "phase_keys Q _ = {}"

abbreviation worker_keys :: "queue_env \<Rightarrow> queue_state \<Rightarrow> nat \<Rightarrow> string set" where
  "worker_keys Q s i \<equiv> phase_keys Q (wk_phase (q_workers s ! i))"

text \<open>The keys in flight are those of the running items, which are pairwise disjoint.\<close>

definition exclusive :: "queue_env \<Rightarrow> queue_state \<Rightarrow> bool" where
  "exclusive Q s \<longleftrightarrow>
     q_in_flight s = (\<Union>i < length (q_workers s). worker_keys Q s i) \<and>
     (\<forall>i < length (q_workers s). \<forall>j < length (q_workers s). i \<noteq> j \<longrightarrow> worker_keys Q s i \<inter> worker_keys Q s j = {})"

definition conserved :: "pyval dict list \<Rightarrow> queue_state \<Rightarrow> bool" where
  "conserved items s \<longleftrightarrow> mset (q_pending s) + sum_list (map worker_items (q_workers s)) = mset items"

definition worker_ok :: "queue_env \<Rightarrow> queue_state \<Rightarrow> worker \<Rightarrow> bool" where
  "worker_ok Q s w \<longleftrightarrow>
     (wk_phase w = Finished \<longrightarrow> q_pending s = []) \<and>
     (\<not> qe_fatal Q \<longrightarrow> (\<forall>x e. wk_phase w \<noteq> Failed x e)) \<and>
     (\<forall>(x, batch) \<in> set (wk_results w). batch \<noteq> [])"

definition queue_inv :: "queue_env \<Rightarrow> pyval dict list \<Rightarrow> queue_state \<Rightarrow> bool" where
  "queue_inv Q items s \<longleftrightarrow> exclusive Q s \<and> conserved items s \<and> (\<forall>w \<in> set (q_workers s). worker_ok Q s w)"

lemma pull_next_Some:
  "pull_next keys fl xs = Some (x, rest) \<Longrightarrow> mset xs = add_mset x (mset rest) \<and> set (keys x) \<inter> fl = {}"
  by (induction xs arbitrary: rest) (auto simp: list_ex_iff split: if_splits option.splits)

lemma pull_next_free: "pull_next keys {} (x # xs) = Some (x, xs)"
  by (simp add: list_ex_iff)

lemma sum_list_update_mset:
  fixes f :: "'b \<Rightarrow> 'a multiset"
  shows "i < length ws \<Longrightarrow> sum_list (map f (ws[i := w])) + f (ws ! i) = sum_list (map f ws) + f w"
  by (induction ws arbitrary: i) (auto split: nat.splits simp: ac_simps)

lemma conserved_update:
  assumes "conserved items s" "i < length (q_workers s)"
    and "mset (q_pending s) + worker_items (q_workers s ! i) = mset (q_pending s') + worker_items w"
    and "q_workers s' = (q_workers s)[i := w]"
  shows "conserved items s'"
proof -
  let ?f = "worker_items"
  have "sum_list (map ?f (q_workers s')) + ?f (q_workers s ! i) = sum_list (map ?f (q_workers s)) + ?f w"
    unfolding assms(4) using assms(2) by (rule sum_list_update_mset)
  then have "mset (q_pending s') + sum_list (map ?f (q_workers s')) + ?f (q_workers s ! i) + ?f w =
      mset (q_pending s) + sum_list (map ?f (q_workers s)) + ?f (q_workers s ! i) + ?f w"
    using assms(3) by (simp add: ac_simps)
  then show ?thesis using assms(1) by (simp add: conserved_def)
qed

lemma disjoint_union_minus:
  assumes "\<forall>j < n. \<forall>k < n. j \<noteq> k \<longrightarrow> A j \<inter> A k = {}" "(i::nat) < n"
  shows "(\<Union>j < n. A j) - A i = (\<Union>j \<in> {..<n} - {i}. A j)"
proof
  show "(\<Union>j \<in> {..<n} - {i}. A j) \<subseteq> (\<Union>j < n. A j) - A i"
    using assms by (auto simp: disjoint_iff)
qed auto

text \<open>Changing one worker to other keys.\<close>

lemma exclusive_update:
  assumes ex: "exclusive Q s" and i: "i < length (q_workers s)"
    and ws: "q_workers s' = (q_workers s)[i := w]"
    and fl: "q_in_flight s' = (q_in_flight s - worker_keys Q s i) \<union> phase_keys Q (wk_phase w)"
    and new: "phase_keys Q (wk_phase w) \<inter> (q_in_flight s - worker_keys Q s i) = {}"
  shows "exclusive Q s'"
proof -
  let ?n = "length (q_workers s)"
  have others: "q_in_flight s - worker_keys Q s i = (\<Union>j \<in> {..<?n} - {i}. worker_keys Q s j)"
    using ex disjoint_union_minus[OF _ i, of "worker_keys Q s"] unfolding exclusive_def by simp
  have keys: "worker_keys Q s' j = (if j = i then phase_keys Q (wk_phase w) else worker_keys Q s j)" if "j < ?n" for j
    using that by (simp add: ws nth_list_update)
  have "(\<Union>j < ?n. worker_keys Q s' j) = phase_keys Q (wk_phase w) \<union> (\<Union>j \<in> {..<?n} - {i}. worker_keys Q s j)"
    using i keys by (auto split: if_splits)
  moreover have "worker_keys Q s' j \<inter> worker_keys Q s' k = {}" if "j < ?n" "k < ?n" "j \<noteq> k" for j k
    using ex new that unfolding others exclusive_def by (auto simp: keys split: if_splits)
  ultimately show ?thesis
    unfolding exclusive_def fl others by (simp add: ws Un_commute)
qed


lemma worker_ok_mono:
  "worker_ok Q s w \<Longrightarrow> (q_pending s = [] \<Longrightarrow> q_pending s' = []) \<Longrightarrow> worker_ok Q s' w"
  by (auto simp: worker_ok_def)

lemma queue_inv_update:
  assumes inv: "queue_inv Q items s" and i: "i < length (q_workers s)"
    and ws: "q_workers s' = (q_workers s)[i := w]"
    and "q_in_flight s' = (q_in_flight s - worker_keys Q s i) \<union> phase_keys Q (wk_phase w)"
    and "phase_keys Q (wk_phase w) \<inter> (q_in_flight s - worker_keys Q s i) = {}"
    and "mset (q_pending s) + worker_items (q_workers s ! i) = mset (q_pending s') + worker_items w"
    and "q_pending s = [] \<Longrightarrow> q_pending s' = []" and "worker_ok Q s' w"
  shows "queue_inv Q items s'"
proof -
  have "\<forall>v \<in> set (q_workers s'). worker_ok Q s' v"
    using inv assms(7,8) worker_ok_mono[of Q s _ s'] set_update_subset_insert[of "q_workers s" i w]
    unfolding queue_inv_def ws by blast
  with assms show ?thesis
    unfolding queue_inv_def by (blast intro: exclusive_update conserved_update)
qed

lemma pull_inv:
  assumes inv: "queue_inv Q items s" and i: "i < length (q_workers s)" "wk_phase (q_workers s ! i) = Pulling"
  shows "queue_inv Q items (pull_step Q i s)"
proof -
  have ok: "worker_ok Q s (q_workers s ! i)" using inv i by (simp add: queue_inv_def)
  show ?thesis
  proof (cases "pull_next (item_keys Q) (q_in_flight s) (q_pending s)")
    case None
    with ok i show ?thesis
      by (intro queue_inv_update[OF inv i(1), where w = "(q_workers s ! i)\<lparr>wk_phase := Checking\<rparr>"])
        (auto simp: pull_step_def set_phase_def worker_items_def worker_ok_def)
  next
    case (Some p)
    then obtain x rest where p: "pull_next (item_keys Q) (q_in_flight s) (q_pending s) = Some (x, rest)"
      by (cases p) auto
    with ok i pull_next_Some[OF p] show ?thesis
      by (intro queue_inv_update[OF inv i(1), where w = "(q_workers s ! i)\<lparr>wk_phase := Running x\<rparr>"])
        (auto simp: pull_step_def set_phase_def worker_items_def worker_ok_def)
  qed
qed

lemma check_inv:
  assumes inv: "queue_inv Q items s" and i: "i < length (q_workers s)" "wk_phase (q_workers s ! i) = Checking"
  shows "queue_inv Q items (check_step i s)"
proof -
  have ok: "worker_ok Q s (q_workers s ! i)" using inv i by (simp add: queue_inv_def)
  show ?thesis
    using ok i
    by (intro queue_inv_update[OF inv i(1), where w = "(q_workers s ! i)\<lparr>wk_phase := if q_pending s = [] then Finished else Pulling\<rparr>"])
      (auto simp: check_step_def set_phase_def worker_items_def worker_ok_def)
qed

lemma make_batch_not_empty: "make_batch item outcome = Inr batch \<Longrightarrow> batch \<noteq> []"
  by (auto simp: make_batch_def res_iff dest: rmap_Inr_length)

lemma finish_inv:
  assumes inv: "queue_inv Q items s" and i: "i < length (q_workers s)" "wk_phase (q_workers s ! i) = Running item"
  shows "queue_inv Q items (finish_step Q i item outcome d s)"
proof -
  have ok: "worker_ok Q s (q_workers s ! i)" using inv i by (simp add: queue_inv_def)
  show ?thesis
  proof (cases "\<exists>e. make_batch item outcome = Inl e \<and> qe_fatal Q")
    case True
    then obtain e where "make_batch item outcome = Inl e" "qe_fatal Q" by blast
    with ok i show ?thesis
      by (intro queue_inv_update[OF inv i(1), where w = "(q_workers s ! i)\<lparr>wk_phase := Failed item e\<rparr>"])
        (auto simp: finish_step_def set_phase_def Let_def worker_items_def worker_ok_def)
  next
    case False
    then obtain batch where "batch \<noteq> []" and
      b: "finish_step Q i item outcome d s = s\<lparr>q_in_flight := q_in_flight s - set (item_keys Q item),
        q_workers := (q_workers s)[i := \<lparr>wk_phase = Pulling, wk_results = wk_results (q_workers s ! i) @ [(item, batch)]\<rparr>]\<rparr>"
      using make_batch_not_empty
      by (cases "make_batch item outcome") (auto simp: finish_step_def Let_def adapter_error_record_def)
    with ok i show ?thesis unfolding b
      by (intro queue_inv_update[OF inv i(1),
          where w = "\<lparr>wk_phase = Pulling, wk_results = wk_results (q_workers s ! i) @ [(item, batch)]\<rparr>"])
        (auto simp: worker_items_def worker_ok_def)
  qed
qed

lemma queue_init_inv: "queue_inv Q items (queue_init n items)"
proof -
  have "sum_list (replicate k {#}) = ({#} :: pyval dict multiset)" for k by (induction k) auto
  then show ?thesis
    by (auto simp: queue_inv_def queue_init_def exclusive_def conserved_def worker_ok_def worker_items_def map_replicate)
qed

lemma epoch_inv: "epoch_state Q n items s \<Longrightarrow> queue_inv Q items s"
  by (induction rule: epoch_state.induct)
    (auto simp: queue_init_inv elim!: queue_step_cases intro: pull_inv check_inv finish_inv)


lemma queue_step_workers: "queue_step Q s s' \<Longrightarrow> length (q_workers s') = length (q_workers s)"
  by (auto elim!: queue_step_cases simp: pull_step_def check_step_def finish_step_def set_phase_def Let_def
      split: option.splits sum.splits if_splits)

lemma epoch_workers: "epoch_state Q n items s \<Longrightarrow> q_workers s \<noteq> []"
proof (induction rule: epoch_state.induct)
  case start
  show ?case by (simp add: queue_init_def thread_count_def)
next
  case (step s s')
  then show ?case using queue_step_workers by (metis length_0_conv)
qed

section \<open>Exclusion and conservation\<close>

text \<open>C15: in every state of an epoch, two items in flight on different workers share no exclusion
  key, and the set the workers consult holds exactly the keys of the items in flight.\<close>

theorem queue_exclusion:
  assumes "epoch_state Q n items s" "i < length (q_workers s)" "j < length (q_workers s)" "i \<noteq> j"
    and "wk_phase (q_workers s ! i) = Running x" "wk_phase (q_workers s ! j) = Running y"
  shows "set (item_keys Q x) \<inter> set (item_keys Q y) = {} \<and> set (item_keys Q x) \<subseteq> q_in_flight s"
proof -
  have "exclusive Q s" using epoch_inv[OF assms(1)] by (simp add: queue_inv_def)
  then have "worker_keys Q s i \<inter> worker_keys Q s j = {}" "worker_keys Q s i \<subseteq> q_in_flight s"
    using assms(2-4) unfolding exclusive_def by blast+
  then show ?thesis by (simp add: assms(5,6))
qed

definition queue_example_env :: queue_env where
  "queue_example_env = \<lparr>qe_str_of = (\<lambda>_. []), qe_facts = \<lparr>ef_text = (\<lambda>_. []), ef_retryable = (\<lambda>_. False)\<rparr>, qe_fatal = False\<rparr>"

definition queue_example_items :: "pyval dict list" where
  "queue_example_items = [[(''family'', PStr ''a'')], [(''family'', PStr ''b'')]]"

definition both_running :: queue_state where
  "both_running = pull_step queue_example_env 1 (pull_step queue_example_env 0 (queue_init 2 queue_example_items))"

lemma both_running_reachable: "epoch_state queue_example_env 2 queue_example_items both_running"
  unfolding both_running_def
  by (rule epoch_state.step[OF epoch_state.step[OF epoch_state.start]]; rule queue_step.pull; code_simp)

theorem queue_exclusion_witness:
  "set (item_keys queue_example_env [(''family'', PStr ''a'')]) \<inter>
     set (item_keys queue_example_env [(''family'', PStr ''b'')]) = {} \<and>
   set (item_keys queue_example_env [(''family'', PStr ''a'')]) \<subseteq> q_in_flight both_running"
  by (rule queue_exclusion[OF both_running_reachable, of 0 1]) code_simp+

lemma sum_list_executed:
  "\<forall>w \<in> set ws. phase_items (wk_phase w) = {#} \<Longrightarrow>
   sum_list (map worker_items ws) = mset (concat (map (\<lambda>w. map fst (wk_results w)) ws))"
  by (induction ws) (auto simp: worker_items_def)

text \<open>C16: when all workers of an epoch have ended under the recording policy, the queue is empty and
  the items executed on all lanes together are the items of the epoch, each as often as it
  occurs there, and each has left at least one record.\<close>

theorem queue_executes_each_once:
  assumes "epoch_state Q n items s" "\<not> qe_fatal Q" "\<forall>w \<in> set (q_workers s). ended (wk_phase w)"
  shows "q_pending s = [] \<and>
    mset (concat (map (\<lambda>w. map fst (wk_results w)) (q_workers s))) = mset items \<and>
    (\<forall>w \<in> set (q_workers s). \<forall>(item, batch) \<in> set (wk_results w). batch \<noteq> [])"
proof -
  have inv: "queue_inv Q items s" using assms(1) by (rule epoch_inv)
  have fin: "wk_phase w = Finished" if "w \<in> set (q_workers s)" for w
    using inv assms(2,3) that unfolding queue_inv_def worker_ok_def
    by (cases "wk_phase w") (auto simp: ended_def)
  have "q_pending s = []"
    using inv fin epoch_workers[OF assms(1)] unfolding queue_inv_def worker_ok_def
    by (metis list.set_intros(1) neq_Nil_conv)
  moreover have "sum_list (map worker_items (q_workers s)) = mset (concat (map (\<lambda>w. map fst (wk_results w)) (q_workers s)))"
    by (rule sum_list_executed) (simp add: fin)
  ultimately show ?thesis
    using inv unfolding queue_inv_def conserved_def worker_ok_def by simp
qed

definition all_ended :: queue_state where
  "all_ended =
     (let s = finish_step queue_example_env 1 [(''family'', PStr ''b'')] (OneRecord []) (Fin 0)
                (finish_step queue_example_env 0 [(''family'', PStr ''a'')] (OneRecord []) (Fin 0) both_running)
      in check_step 1 (pull_step queue_example_env 1 (check_step 0 (pull_step queue_example_env 0 s))))"

lemma all_ended_reachable: "epoch_state queue_example_env 2 queue_example_items all_ended"
  unfolding all_ended_def Let_def
  by (rule epoch_state.step[OF epoch_state.step[OF epoch_state.step[OF epoch_state.step[OF epoch_state.step[OF
      epoch_state.step[OF both_running_reachable]]]]]];
    (rule queue_step.finish | rule queue_step.pull | rule queue_step.check); code_simp)

theorem queue_executes_each_once_witness:
  "mset (concat (map (\<lambda>w. map fst (wk_results w)) (q_workers all_ended))) = mset queue_example_items"
proof -
  have e: "list_all (\<lambda>w. ended (wk_phase w)) (q_workers all_ended)" by code_simp
  have "\<not> qe_fatal queue_example_env" by code_simp
  then show ?thesis
    using queue_executes_each_once[OF all_ended_reachable] e by (simp add: list_all_iff)
qed

section \<open>Progress\<close>

fun phase_rank :: "phase \<Rightarrow> nat" where
  "phase_rank Pulling = 1"
| "phase_rank Checking = 1"
| "phase_rank (Running _) = 2"
| "phase_rank _ = 0"

definition rank :: "queue_state \<Rightarrow> nat" where
  "rank s = 2 * length (q_pending s) + sum_list (map (phase_rank \<circ> wk_phase) (q_workers s))"

lemma rank_update:
  assumes "i < length (q_workers s)" "q_workers s' = (q_workers s)[i := w]"
  shows "rank s' + phase_rank (wk_phase (q_workers s ! i)) + 2 * length (q_pending s) =
    rank s + phase_rank (wk_phase w) + 2 * length (q_pending s')"
proof -
  have "sum_list (map (phase_rank \<circ> wk_phase) (ws[j := w])) + phase_rank (wk_phase (ws ! j)) =
      sum_list (map (phase_rank \<circ> wk_phase) ws) + phase_rank (wk_phase w)" if "j < length ws" for ws j
    using that by (induction ws arbitrary: j) (auto split: nat.splits)
  from this[OF assms(1)] show ?thesis by (simp add: rank_def assms(2))
qed

lemma rank_set_phase:
  "i < length (q_workers s) \<Longrightarrow>
   rank (set_phase i p s) + phase_rank (wk_phase (q_workers s ! i)) = rank s + phase_rank p"
  using rank_update[of i s "set_phase i p s" "(q_workers s ! i)\<lparr>wk_phase := p\<rparr>"] by (simp add: set_phase_def)

lemma rank_finish:
  assumes "i < length (q_workers s)" "wk_phase (q_workers s ! i) = Running item"
  shows "rank (finish_step Q i item outcome d s) < rank s"
proof -
  have "\<exists>w. q_workers (finish_step Q i item outcome d s) = (q_workers s)[i := w] \<and> phase_rank (wk_phase w) \<le> 1"
    by (auto simp: finish_step_def set_phase_def Let_def split: sum.splits)
  moreover have "q_pending (finish_step Q i item outcome d s) = q_pending s"
    by (auto simp: finish_step_def set_phase_def Let_def split: sum.splits)
  ultimately show ?thesis using rank_update[OF assms(1)] assms(2) by fastforce
qed

lemma rank_pull_None:
  assumes "i < length (q_workers s)" "wk_phase (q_workers s ! i) = Pulling"
    and "pull_next (item_keys Q) (q_in_flight s) (q_pending s) = None"
  shows "pull_step Q i s = set_phase i Checking s" "rank (pull_step Q i s) = rank s"
  using rank_set_phase[OF assms(1), of Checking] assms(2,3) by (simp_all add: pull_step_def)

lemma rank_pull_Some:
  assumes "i < length (q_workers s)" "wk_phase (q_workers s ! i) = Pulling"
    and p: "pull_next (item_keys Q) (q_in_flight s) (q_pending s) = Some (x, rest)"
  shows "rank (pull_step Q i s) < rank s"
proof -
  have "length (q_pending s) = Suc (length rest)"
    using pull_next_Some[OF p] by (metis size_add_mset size_mset)
  moreover have "q_workers (pull_step Q i s) = (q_workers s)[i := (q_workers s ! i)\<lparr>wk_phase := Running x\<rparr>]"
    "q_pending (pull_step Q i s) = rest" by (simp_all add: pull_step_def p set_phase_def)
  ultimately show ?thesis using rank_update[OF assms(1)] assms(2) by fastforce
qed

lemma rank_check:
  assumes "i < length (q_workers s)" "wk_phase (q_workers s ! i) = Checking"
  shows "rank (check_step i s) = (if q_pending s = [] then rank s - 1 else rank s)"
    and "q_pending s = [] \<Longrightarrow> rank (check_step i s) < rank s"
  using rank_set_phase[OF assms(1), of "if q_pending s = [] then Finished else Pulling"] assms(2)
  by (auto simp: check_step_def)

lemma queue_step_rank: "queue_step Q s s' \<Longrightarrow> rank s' \<le> rank s"
proof (erule queue_step_cases)
  fix i assume "s' = pull_step Q i s" "i < length (q_workers s)" "wk_phase (q_workers s ! i) = Pulling"
  then show ?thesis
    using rank_pull_None(2) rank_pull_Some
    by (cases "pull_next (item_keys Q) (q_in_flight s) (q_pending s)") (auto simp: less_imp_le)
qed (auto simp: rank_check less_imp_le[OF rank_finish])

text \<open>A worker that is not running at a moment when nothing is in flight soon lowers the rank.\<close>

lemma idle_progress:
  assumes i: "i < length (q_workers s)" "wk_phase (q_workers s ! i) = Pulling"
    and free: "q_in_flight s = {}"
  shows "\<exists>s'. (queue_step Q)\<^sup>+\<^sup>+ s s' \<and> rank s' < rank s"
proof (cases "q_pending s")
  case Nil
  then have n: "pull_next (item_keys Q) (q_in_flight s) (q_pending s) = None" by simp
  let ?t = "pull_step Q i s"
  have t: "?t = set_phase i Checking s" "rank ?t = rank s" using rank_pull_None[OF i n] .
  then have "i < length (q_workers ?t)" "wk_phase (q_workers ?t ! i) = Checking" "q_pending ?t = []"
    using i Nil by (simp_all add: set_phase_def)
  then have "queue_step Q ?t (check_step i ?t)" "rank (check_step i ?t) < rank s"
    using rank_check(2)[of i ?t] t(2) by (auto intro: queue_step.check)
  with queue_step.pull[OF i] show ?thesis by (meson tranclp.simps)
next
  case (Cons x xs)
  have "pull_next (item_keys Q) (q_in_flight s) (q_pending s) = Some (x, xs)"
    unfolding free Cons by (rule pull_next_free)
  from rank_pull_Some[OF i this] queue_step.pull[OF i] show ?thesis by blast
qed

lemma worker_progress:
  assumes s: "epoch_state Q n items s" and i: "i < length (q_workers s)" "\<not> ended (wk_phase (q_workers s ! i))"
  shows "\<exists>s'. (queue_step Q)\<^sup>+\<^sup>+ s s' \<and> rank s' < rank s"
proof (cases "\<exists>j < length (q_workers s). \<exists>x. wk_phase (q_workers s ! j) = Running x")
  case True
  then show ?thesis using rank_finish queue_step.finish by (metis tranclp.r_into_trancl)
next
  case False
  have "worker_keys Q s j = {}" if "j < length (q_workers s)" for j
    using False that by (cases "wk_phase (q_workers s ! j)") auto
  then have free: "q_in_flight s = {}"
    using epoch_inv[OF s] by (auto simp: queue_inv_def exclusive_def)
  consider "wk_phase (q_workers s ! i) = Pulling" | "wk_phase (q_workers s ! i) = Checking"
    using i False by (cases "wk_phase (q_workers s ! i)") (auto simp: ended_def)
  then show ?thesis
  proof cases
    case 1
    with i free show ?thesis by (intro idle_progress)
  next
    case 2
    note step = queue_step.check[OF i(1) 2, of Q] and rank = rank_check[OF i(1) 2]
    show ?thesis
    proof (cases "q_pending s = []")
      case True
      with step rank(2) show ?thesis by blast
    next
      case False
      have "\<exists>s'. (queue_step Q)\<^sup>+\<^sup>+ (check_step i s) s' \<and> rank s' < rank (check_step i s)"
        using i False free by (intro idle_progress[where i = i]) (auto simp: check_step_def set_phase_def)
      with step rank(1) False show ?thesis by (metis tranclp_into_tranclp2)
    qed
  qed
qed

text \<open>C17: the queue does not deadlock.  No step raises the rank of the state (twice the pending items
  plus the work of the workers), and from every state of an epoch the workers can run to a state
  in which all have ended.\<close>

theorem queue_can_end:
  assumes "epoch_state Q n items s"
  shows "(\<forall>s'. queue_step Q s s' \<longrightarrow> rank s' \<le> rank s) \<and>
    (\<exists>s'. (queue_step Q)\<^sup>*\<^sup>* s s' \<and> (\<forall>w \<in> set (q_workers s'). ended (wk_phase w)))"
proof
  show "\<forall>s'. queue_step Q s s' \<longrightarrow> rank s' \<le> rank s" by (blast intro: queue_step_rank)
  have reach: "epoch_state Q n items t" if "(queue_step Q)\<^sup>+\<^sup>+ u t" "epoch_state Q n items u" for u t
    using that by (induction rule: tranclp_induct) (auto intro: epoch_state.step)
  show "\<exists>s'. (queue_step Q)\<^sup>*\<^sup>* s s' \<and> (\<forall>w \<in> set (q_workers s'). ended (wk_phase w))"
    using assms
  proof (induction "rank s" arbitrary: s rule: less_induct)
    case less
    show ?case
    proof (cases "\<forall>w \<in> set (q_workers s). ended (wk_phase w)")
      case False
      then obtain i where "i < length (q_workers s)" "\<not> ended (wk_phase (q_workers s ! i))"
        by (auto simp: in_set_conv_nth)
      from worker_progress[OF less.prems this] obtain t where t: "(queue_step Q)\<^sup>+\<^sup>+ s t" "rank t < rank s" by blast
      from less.hyps[OF t(2) reach[OF t(1) less.prems]] t(1) show ?thesis
        by (meson rtranclp_trans tranclp_into_rtranclp)
    qed blast
  qed
qed

theorem queue_can_end_witness:
  "\<exists>s'. (queue_step queue_example_env)\<^sup>*\<^sup>* both_running s' \<and> (\<forall>w \<in> set (q_workers s'). ended (wk_phase w))"
  using queue_can_end[OF both_running_reachable] by blast

section \<open>Termination\<close>

text \<open>A polling step: a worker finds no item whose keys are free, or sees that items are still
  pending and sleeps.  Every other step takes, finishes or ends something.\<close>

inductive polling_step :: "queue_env \<Rightarrow> queue_state \<Rightarrow> queue_state \<Rightarrow> bool" for Q where
  blocked: "i < length (q_workers s) \<Longrightarrow> wk_phase (q_workers s ! i) = Pulling \<Longrightarrow>
    pull_next (item_keys Q) (q_in_flight s) (q_pending s) = None \<Longrightarrow> polling_step Q s (pull_step Q i s)"
| sleeping: "i < length (q_workers s) \<Longrightarrow> wk_phase (q_workers s ! i) = Checking \<Longrightarrow>
    q_pending s \<noteq> [] \<Longrightarrow> polling_step Q s (check_step i s)"

lemma working_step_rank:
  assumes "queue_step Q s s'" "\<not> polling_step Q s s'"
  shows "rank s' < rank s"
  using assms
proof (cases rule: queue_step.cases)
  case (pull i)
  with assms(2) obtain x rest where "pull_next (item_keys Q) (q_in_flight s) (q_pending s) = Some (x, rest)"
    using polling_step.blocked by (cases "pull_next (item_keys Q) (q_in_flight s) (q_pending s)") auto
  with pull show ?thesis using rank_pull_Some by blast
next
  case (check i)
  with assms(2) have "q_pending s = []" using polling_step.sleeping by blast
  with check show ?thesis using rank_check(2) by simp
next
  case finish
  then show ?thesis using rank_finish by simp
qed

lemma count_drops:
  fixes f :: "nat \<Rightarrow> nat"
  assumes "\<forall>k < N. f (Suc k) \<le> f k" "\<forall>k < N. P k \<longrightarrow> f (Suc k) < f k"
  shows "card {k. k < N \<and> P k} + f N \<le> f 0"
  using assms
proof (induction N)
  case (Suc N)
  let ?A = "{k. k < N \<and> P k}"
  have "{k. k < Suc N \<and> P k} = (if P N then insert N ?A else ?A)"
    by (auto simp: less_Suc_eq)
  then have "card {k. k < Suc N \<and> P k} = (if P N then Suc (card ?A) else card ?A)" by simp
  moreover have "card {k. k < N \<and> P k} + f N \<le> f 0" "f (Suc N) \<le> f N" "P N \<longrightarrow> f (Suc N) < f N"
    using Suc by auto
  ultimately show ?case by (simp split: if_splits)
qed simp

lemma rank_init: "rank (queue_init n items) = 2 * length items + nat (thread_count n items)"
  by (simp add: rank_def queue_init_def sum_list_replicate)

text \<open>C22: the work of an epoch is bounded.  However the workers are scheduled and however long a run
  is, at most two of its steps per item and one per worker are not polls: a run that never stops
  polls from some point on.\<close>

theorem queue_work_bounded:
  assumes "run 0 = queue_init n items" "\<forall>k < N. queue_step Q (run k) (run (Suc k))"
  shows "card {k. k < N \<and> \<not> polling_step Q (run k) (run (Suc k))} \<le> 2 * length items + nat (thread_count n items)"
proof -
  have "card {k. k < N \<and> \<not> polling_step Q (run k) (run (Suc k))} + rank (run N) \<le> rank (run 0)"
    using assms(2) by (intro count_drops[of N "rank \<circ> run", unfolded comp_def])
      (auto intro: queue_step_rank working_step_rank)
  then show ?thesis by (simp add: assms(1) rank_init)
qed

definition example_run :: "nat \<Rightarrow> queue_state" where
  "example_run k = (if k = 0 then queue_init 2 queue_example_items
     else if k = 1 then pull_step queue_example_env 0 (queue_init 2 queue_example_items) else both_running)"

theorem queue_work_bounded_witness:
  "card {k. k < 2 \<and> \<not> polling_step queue_example_env (example_run k) (example_run (Suc k))} \<le> 6"
proof -
  have p: "queue_step queue_example_env (example_run 0) (example_run 1)"
    "queue_step queue_example_env (example_run 1) (example_run 2)"
    unfolding example_run_def both_running_def
    by (simp_all, (rule queue_step.pull; code_simp)+)
  have "\<forall>k < 2. queue_step queue_example_env (example_run k) (example_run (Suc k))"
    using p by (metis One_nat_def Suc_1 less_2_cases)
  from queue_work_bounded[OF _ this, of 2 queue_example_items]
  show ?thesis by (simp add: example_run_def thread_count_def queue_example_items_def)
qed

section \<open>Policies and error records\<close>

text \<open>A normalised policy is one of the two, and normalising it again changes nothing.\<close>

lemma normalized_policy:
  assumes "normalize_item_failure_policy str_of v = Inr policy"
  shows "policy \<in> {''record'', ''fatal''}"
    and "normalize_item_failure_policy str_of (PolicyValue (PStr policy)) = Inr policy"
proof -
  have "ItemFailurePolicy_value m \<in> {''record'', ''fatal''}" for m by (cases m) auto
  with assms show p: "policy \<in> {''record'', ''fatal''}"
    by (auto simp: normalize_item_failure_policy_def Let_def split: policy_argument.splits if_splits)
  have "case normalize_item_failure_policy (\<lambda>_. []) (PolicyValue (PStr ''record'')) of Inr p \<Rightarrow> p = ''record'' | _ \<Rightarrow> False"
    "case normalize_item_failure_policy (\<lambda>_. []) (PolicyValue (PStr ''fatal'')) of Inr p \<Rightarrow> p = ''fatal'' | _ \<Rightarrow> False"
    by code_simp+
  moreover have "normalize_item_failure_policy str_of (PolicyValue (PStr s)) =
      normalize_item_failure_policy (\<lambda>_. []) (PolicyValue (PStr s))" for s
    by (simp add: normalize_item_failure_policy_def py_or_def py_text_def)
  ultimately show "normalize_item_failure_policy str_of (PolicyValue (PStr policy)) = Inr policy"
    using p by (auto split: sum.splits)
qed

text \<open>The record of a failed item is marked as an adapter error that is not accepted, and lasts at least
  the minimal duration.\<close>

lemma adapter_error_record_marks:
  "get (adapter_error_record F item e d) ''execution_status'' = PStr ''adapter_error''"
  "get (adapter_error_record F item e d) ''accepted'' = PBool False"
  "\<exists>m. get (adapter_error_record F item e d) ''duration_minutes'' = PFloat m \<and> \<not> fless m MIN_DURATION_MINUTES"
proof -
  have "\<not> fless x x" for x by (cases x) auto
  moreover have "fless x y \<Longrightarrow> \<not> fless y x" for x y by (cases x; cases y) auto
  ultimately show "\<exists>m. get (adapter_error_record F item e d) ''duration_minutes'' = PFloat m \<and> \<not> fless m MIN_DURATION_MINUTES"
    by (auto simp: adapter_error_record_def get_def)
qed (simp_all add: adapter_error_record_def get_def)

end
