(* ===== verification/Turn_Transaction.thy ===== *)
theory Turn_Transaction
  imports Py_Object
begin

text \<open>
  \<open>src/loopx/control_plane/turn_driver/transaction.py\<close>: the result kinds of a turn, the
  classification of public executions, and the validation of a host's receipt against its
  transaction plan, with the settlement identity of \<open>src/loopx/control_plane/effect_program.py\<close>.

  Payloads are dynamically typed values.  \<open>str(x)\<close> on a value that is no text is the parameter
  \<open>str_of\<close>.  An identity with a request subject is verified by the settlement runtime, a TypeScript
  process; that call is the parameter \<open>request_binding\<close>, which gives the binding id of the verified
  identity or what the verification raises.  The planning of a transaction (canonical JSON,
  SHA-256 and the runtime's plan payload) is not modelled.
\<close>

section \<open>Result kinds and phases\<close>

datatype LoopXTurnResultKind =
    VALIDATED_PROGRESS | VALIDATED_COMPLETION | REPAIR_REQUIRED | REPLAN_REQUIRED
  | USER_ACTION_REQUIRED | WAIT | ITERATION_FAILED | HOST_FAILURE | VALIDATION_FAILED
  | WRITEBACK_FAILED | QUOTA_SPEND_FAILED | TERMINAL_CLOSEOUT_FAILED

fun LoopXTurnResultKind_value :: "LoopXTurnResultKind \<Rightarrow> string" where
  "LoopXTurnResultKind_value VALIDATED_PROGRESS = ''validated_progress''"
| "LoopXTurnResultKind_value VALIDATED_COMPLETION = ''validated_completion''"
| "LoopXTurnResultKind_value REPAIR_REQUIRED = ''repair_required''"
| "LoopXTurnResultKind_value REPLAN_REQUIRED = ''replan_required''"
| "LoopXTurnResultKind_value USER_ACTION_REQUIRED = ''user_action_required''"
| "LoopXTurnResultKind_value WAIT = ''wait''"
| "LoopXTurnResultKind_value ITERATION_FAILED = ''iteration_failed''"
| "LoopXTurnResultKind_value HOST_FAILURE = ''host_failure''"
| "LoopXTurnResultKind_value VALIDATION_FAILED = ''validation_failed''"
| "LoopXTurnResultKind_value WRITEBACK_FAILED = ''writeback_failed''"
| "LoopXTurnResultKind_value QUOTA_SPEND_FAILED = ''quota_spend_failed''"
| "LoopXTurnResultKind_value TERMINAL_CLOSEOUT_FAILED = ''terminal_closeout_failed''"

definition result_kinds :: "LoopXTurnResultKind list" where
  "result_kinds = [VALIDATED_PROGRESS, VALIDATED_COMPLETION, REPAIR_REQUIRED, REPLAN_REQUIRED,
     USER_ACTION_REQUIRED, WAIT, ITERATION_FAILED, HOST_FAILURE, VALIDATION_FAILED, WRITEBACK_FAILED,
     QUOTA_SPEND_FAILED, TERMINAL_CLOSEOUT_FAILED]"

definition TRANSACTION_PHASES :: "string list" where
  "TRANSACTION_PHASES = [''host_execute'', ''typed_result'', ''validation'', ''durable_writeback'',
     ''quota_spend'', ''scheduler_apply'', ''scheduler_ack'']"

definition MATERIAL_RESULT_KINDS :: "LoopXTurnResultKind set" where
  "MATERIAL_RESULT_KINDS = {VALIDATED_PROGRESS, VALIDATED_COMPLETION, REPAIR_REQUIRED, REPLAN_REQUIRED}"

definition NO_SPEND_RESULT_KINDS :: "LoopXTurnResultKind set" where
  "NO_SPEND_RESULT_KINDS = {USER_ACTION_REQUIRED, WAIT, ITERATION_FAILED, HOST_FAILURE,
     VALIDATION_FAILED, WRITEBACK_FAILED, QUOTA_SPEND_FAILED}"

definition STOP_RESULT_KINDS :: "LoopXTurnResultKind set" where
  "STOP_RESULT_KINDS = {USER_ACTION_REQUIRED, WAIT, ITERATION_FAILED}"

fun FAILURE_PHASES :: "LoopXTurnResultKind \<Rightarrow> string option" where
  "FAILURE_PHASES HOST_FAILURE = Some ''host_execute''"
| "FAILURE_PHASES VALIDATION_FAILED = Some ''validation''"
| "FAILURE_PHASES WRITEBACK_FAILED = Some ''durable_writeback''"
| "FAILURE_PHASES QUOTA_SPEND_FAILED = Some ''quota_spend''"
| "FAILURE_PHASES TERMINAL_CLOSEOUT_FAILED = Some ''terminal_closeout''"
| "FAILURE_PHASES _ = None"

section \<open>Public executions\<close>

definition mapping :: "pyval \<Rightarrow> (pykey \<times> pyval) list" where
  "mapping v = (case v of PMap m \<Rightarrow> m | _ \<Rightarrow> [])"

text \<open>\<open>value in {texts}\<close>: membership in a set hashes the value, and a list or dictionary cannot be
  hashed.\<close>

fun hashable :: "pyval \<Rightarrow> bool" where
  "hashable (PMap _) = False"
| "hashable (PList _) = False"
| "hashable (PTuple xs) = list_all hashable xs"
| "hashable _ = True"

definition in_texts :: "pyval \<Rightarrow> string set \<Rightarrow> bool res" where
  "in_texts v texts =
     (if hashable v then Inr (\<exists>t \<in> texts. v = PStr t) else Inl (TypeError ''unhashable type''))"

text \<open>\<open>and\<close> and \<open>or\<close> evaluate the right side only if needed.\<close>

definition and_then :: "bool \<Rightarrow> bool res \<Rightarrow> bool res" where
  "and_then b r = (if b then r else Inr False)"

definition or_else :: "bool \<Rightarrow> bool res \<Rightarrow> bool res" where
  "or_else b r = (if b then Inr True else r)"

definition loopx_turn_execution_committed :: "(pykey \<times> pyval) list \<Rightarrow> bool res" where
  "loopx_turn_execution_committed execution =
     (let validation = mapping (map_get execution ''validation'');
          receipt = mapping (map_get execution ''receipt'');
          effects = mapping (map_get execution ''effects'')
      in and_then (map_get execution ''status'' = PStr ''committed'' \<and> map_get receipt ''status'' = PStr ''committed'')
           (rbind (in_texts (map_get validation ''status'') {''passed'', ''progress''}) (\<lambda>passed.
            Inr (passed \<and> map_get effects ''state_written'' = PBool True \<and>
                 map_get effects ''quota_spent'' = PBool True))))"

definition loopx_turn_execution_recovery_required :: "(pykey \<times> pyval) list \<Rightarrow> bool res" where
  "loopx_turn_execution_recovery_required execution =
     (let validation = mapping (map_get execution ''validation'');
          receipt = mapping (map_get execution ''receipt'');
          recovery_kind = py_or (py_or (map_get validation ''recovery_kind'') (map_get receipt ''result_kind''))
                            (map_get execution ''result_kind'')
      in rbind (in_texts recovery_kind {''repair_required'', ''replan_required''}) (\<lambda>recovers.
         and_then recovers
           (or_else (map_get validation ''status'' = PStr ''failed'' \<or> truthy (map_get receipt ''failed_phase''))
             (in_texts (map_get execution ''status'') {''failed'', ''validation_failed''}))))"

definition loopx_turn_execution_has_durable_effects :: "(pykey \<times> pyval) list \<Rightarrow> bool" where
  "loopx_turn_execution_has_durable_effects execution =
     (let effects = mapping (map_get execution ''effects'')
      in map_get effects ''state_written'' = PBool True \<or> map_get effects ''quota_spent'' = PBool True)"

section \<open>Receipt validation\<close>

text \<open>The functions that append to \<open>errors\<close> return their value and the messages they append.\<close>

definition result_kind :: "(pyval \<Rightarrow> string) \<Rightarrow> pyval \<Rightarrow> LoopXTurnResultKind option \<times> string list" where
  "result_kind str_of v =
     (case find (\<lambda>k. LoopXTurnResultKind_value k = text_or_empty str_of v) result_kinds of
        Some k \<Rightarrow> (Some k, [])
      | None \<Rightarrow> (None, [''unsupported execution result kind'']))"

definition completed_phases :: "(pyval \<Rightarrow> string) \<Rightarrow> pyval \<Rightarrow> string list \<times> string list" where
  "completed_phases str_of v =
     (case v of
        PList items \<Rightarrow>
          let phases = map (py_text str_of) items;
              expected = take (length phases) TRANSACTION_PHASES
          in (phases, if phases \<noteq> expected
                      then [''completed_phases must be an ordered transaction prefix''] else [])
      | _ \<Rightarrow> ([], [''completed_phases must be a list'']))"

text \<open>What the decoder \<open>SettlementIdentity.from_runtime_payload\<close> gives: the binding id of a verified
  request, or the todo and replan obligation ids, of which exactly one is there.\<close>

datatype parsed_identity =
    RequestIdentity string
  | BoundIdentity "string option" "string option"

definition text_or_None :: "string \<Rightarrow> string option" where
  "text_or_None s = (if s = [] then None else Some s)"

definition identity_mismatch :: exn where
  "identity_mismatch = RuntimeError ''TypeScript settlement identity shape mismatch''"

definition from_runtime_payload ::
  "(pyval \<Rightarrow> string) \<Rightarrow> ((pykey \<times> pyval) list \<Rightarrow> string res) \<Rightarrow> (pykey \<times> pyval) list \<Rightarrow> parsed_identity res" where
  "from_runtime_payload str_of request_binding payload =
     (let schema_version = map_get payload ''schema_version'';
          required = (\<lambda>key. case map_get payload key of PStr s \<Rightarrow> strip s \<noteq> [] | _ \<Rightarrow> False);
          todo_id = text_or_None (strip (text_or_empty str_of (map_get payload ''todo_id'')));
          replan_obligation_id = text_or_None (strip (text_or_empty str_of (map_get payload ''replan_obligation_id'')))
      in
      rbind (in_texts schema_version {''quota_settlement_identity_v0'', ''quota_settlement_identity_v1''}) (\<lambda>known.
      rbind (check known identity_mismatch) (\<lambda>_.
      rbind (check (list_all required [''effect_id'', ''goal_id'', ''agent_id'', ''turn_instance_id'']) identity_mismatch) (\<lambda>_.
      if map_get payload ''request_subject'' \<noteq> PNone
      then rbind (request_binding payload) (\<lambda>b. Inr (RequestIdentity b))
      else
        rbind (check ((todo_id = None) \<noteq> (replan_obligation_id = None)) identity_mismatch) (\<lambda>_.
        let binding_kind = (if todo_id \<noteq> None then ''todo'' else ''autonomous_replan'');
            binding_id = (case todo_id of Some t \<Rightarrow> t | None \<Rightarrow> the replan_obligation_id)
        in
        rbind (check (schema_version = PStr ''quota_settlement_identity_v1'' \<longrightarrow>
                 map_get payload ''binding_kind'' = PStr binding_kind \<and>
                 map_get payload ''binding_id'' = PStr binding_id) identity_mismatch) (\<lambda>_.
        Inr (BoundIdentity todo_id replan_obligation_id)))))))"

record turn_lineage =
  tl_goal_id :: string
  tl_agent_id :: string
  tl_todo_id :: string
  tl_effect_id :: string
  tl_replan_obligation_id :: "string option"
  tl_request_binding_id :: "string option"

definition missing_identity :: string where
  "missing_identity = ''transaction plan is missing its typed settlement identity''"

definition settlement_identity ::
  "(pyval \<Rightarrow> string) \<Rightarrow> ((pykey \<times> pyval) list \<Rightarrow> string res) \<Rightarrow> (pykey \<times> pyval) list \<Rightarrow>
   (turn_lineage \<times> string list) res" where
  "settlement_identity str_of request_binding plan =
     (let identity = mapping (map_get (mapping (map_get plan ''settlement_plan'')) ''identity'');
          text = (\<lambda>key. text_or_empty str_of (map_get identity key));
          normalized = \<lparr>tl_goal_id = text ''goal_id'', tl_agent_id = text ''agent_id'',
            tl_todo_id = text ''todo_id'', tl_effect_id = text ''effect_id'',
            tl_replan_obligation_id = None, tl_request_binding_id = None\<rparr>
      in
      if map_get identity ''replan_obligation_id'' \<noteq> PNone \<or> map_get identity ''request_subject'' \<noteq> PNone
      then (case from_runtime_payload str_of request_binding identity of
              Inl (RuntimeError _) \<Rightarrow> Inr (normalized, [missing_identity])
            | Inl e \<Rightarrow> Inl e
            | Inr (RequestIdentity b) \<Rightarrow> Inr (normalized\<lparr>tl_request_binding_id := Some b\<rparr>, [])
            | Inr (BoundIdentity _ replan) \<Rightarrow>
                Inr (normalized\<lparr>tl_replan_obligation_id :=
                       Some (case replan of Some r \<Rightarrow> r | None \<Rightarrow> ''None'')\<rparr>, []))
      else Inr (normalized,
             if list_all (\<lambda>key. text key \<noteq> []) [''goal_id'', ''agent_id'', ''todo_id'', ''effect_id'']
             then [] else [missing_identity]))"

record receipt_validation =
  rv_ok :: bool
  rv_turn_key :: "string option"
  rv_lineage :: turn_lineage
  rv_settlement_effect_id :: "string option"
  rv_result_kind :: "LoopXTurnResultKind option"
  rv_completed_phases :: "string list"
  rv_failed_phase :: "string option"
  rv_status :: string
  rv_next_phase :: "string option"
  rv_writeback :: bool
  rv_quota_spend :: bool
  rv_scheduler_ack :: bool
  rv_errors :: "string list"

definition expected_next :: "string list \<Rightarrow> string option" where
  "expected_next completed =
     (let next_index = min (length completed) (length TRANSACTION_PHASES)
      in if next_index < length TRANSACTION_PHASES then Some (TRANSACTION_PHASES ! next_index) else None)"

definition error_if :: "bool \<Rightarrow> string \<Rightarrow> string list" where
  "error_if b message = (if b then [message] else [])"

definition phase_errors :: "LoopXTurnResultKind option \<Rightarrow> string list \<Rightarrow> string option \<Rightarrow> string list" where
  "phase_errors kind completed failed_phase =
     (let terminal_closeout_failure = (failed_phase = Some ''terminal_closeout'' \<and>
            kind = Some TERMINAL_CLOSEOUT_FAILED \<and> completed = take 5 TRANSACTION_PHASES);
          failure_phase = (case kind of Some k \<Rightarrow> FAILURE_PHASES k | None \<Rightarrow> None)
      in error_if (failed_phase \<noteq> None \<and> failed_phase \<noteq> expected_next completed \<and> \<not> terminal_closeout_failure)
           ''failed_phase must be the next uncompleted transaction phase'' @
         error_if (failed_phase \<noteq> None \<and> failure_phase = None)
           ''failed_phase is only valid for a typed failure result'' @
         error_if (failure_phase \<noteq> None \<and> failed_phase \<noteq> failure_phase)
           (LoopXTurnResultKind_value (the kind) @ '' must declare failed_phase='' @ the failure_phase) @
         error_if ((\<exists>k \<in> MATERIAL_RESULT_KINDS. kind = Some k) \<and> ''validation'' \<notin> set completed)
           ''material result requires completed validation'' @
         error_if ((\<exists>k \<in> NO_SPEND_RESULT_KINDS. kind = Some k) \<and> ''quota_spend'' \<in> set completed)
           (LoopXTurnResultKind_value (the kind) @ '' cannot spend quota''))"

definition receipt_status :: "bool \<Rightarrow> LoopXTurnResultKind option \<Rightarrow> string list \<Rightarrow> string" where
  "receipt_status ok kind completed =
     (if \<not> ok then ''invalid''
      else if Option.bind kind FAILURE_PHASES \<noteq> None then ''failed''
      else if \<exists>k \<in> STOP_RESULT_KINDS. kind = Some k then ''stopped''
      else if completed = TRANSACTION_PHASES then ''committed''
      else if ''validation'' \<in> set completed then ''validated''
      else ''in_progress'')"

definition validate_loopx_turn_receipt ::
  "(pyval \<Rightarrow> string) \<Rightarrow> ((pykey \<times> pyval) list \<Rightarrow> string res) \<Rightarrow> pyval \<Rightarrow> pyval \<Rightarrow> receipt_validation res" where
  "validate_loopx_turn_receipt str_of request_binding transaction_plan execution_result =
     (let plan = mapping transaction_plan;
          result = mapping execution_result;
          turn_key = text_or_empty str_of (map_get plan ''turn_key'');
          header_errors =
            error_if (map_get plan ''schema_version'' \<noteq> PStr ''loopx_turn_transaction_plan_v0'')
              ''unsupported transaction plan schema'' @
            error_if (map_get plan ''status'' \<noteq> PStr ''planned'') ''transaction plan is not executable'' @
            error_if (map_get result ''schema_version'' \<noteq> PStr ''loopx_turn_result_v0'')
              ''unsupported execution result schema'' @
            error_if (turn_key = [] \<or> text_or_empty str_of (map_get result ''turn_key'') \<noteq> turn_key)
              ''execution result turn_key does not match the transaction plan''
      in
      rbind (settlement_identity str_of request_binding plan) (\<lambda>(lineage, identity_errors).
      let (kind, kind_errors) = result_kind str_of (map_get result ''result_kind'');
          (completed, completed_errors) = completed_phases str_of (map_get result ''completed_phases'');
          failed_phase = text_or_None (text_or_empty str_of (map_get result ''failed_phase''));
          errors = header_errors @ identity_errors @ kind_errors @ completed_errors @
            phase_errors kind completed failed_phase;
          ok = (errors = []);
          fully_committed = (completed = TRANSACTION_PHASES);
          stopped = (\<exists>k \<in> STOP_RESULT_KINDS. kind = Some k);
          material = (\<exists>k \<in> MATERIAL_RESULT_KINDS. kind = Some k)
      in Inr \<lparr>rv_ok = ok,
           rv_turn_key = text_or_None turn_key,
           rv_lineage = lineage\<lparr>tl_request_binding_id := Option.bind (tl_request_binding_id lineage) text_or_None\<rparr>,
           rv_settlement_effect_id = text_or_None (tl_effect_id lineage),
           rv_result_kind = kind,
           rv_completed_phases = completed,
           rv_failed_phase = failed_phase,
           rv_status = receipt_status ok kind completed,
           rv_next_phase =
             (if fully_committed \<or> ok \<and> stopped then None
              else if failed_phase \<noteq> None then failed_phase else expected_next completed),
           rv_writeback = (ok \<and> material \<and> ''validation'' \<in> set completed),
           rv_quota_spend = (ok \<and> material \<and> ''durable_writeback'' \<in> set completed),
           rv_scheduler_ack = (ok \<and> ''scheduler_apply'' \<in> set completed),
           rv_errors = errors\<rparr>))"

section \<open>The outcome of a completed turn\<close>

record completion_outcome =
  co_todo_id :: string
  co_continuation :: string
  co_successor_todo_ids :: "string list option"

definition successor_text :: "pyval \<Rightarrow> string res" where
  "successor_text v =
     (case v of
        PStr s \<Rightarrow> if s \<noteq> [] then Inr s else Inl (ValueError ''successor completion requires successor Todo ids'')
      | _ \<Rightarrow> Inl (ValueError ''successor completion requires successor Todo ids''))"

definition require_loopx_turn_completion_outcome ::
  "(pyval \<Rightarrow> string) \<Rightarrow> pyval \<Rightarrow> string \<Rightarrow> completion_outcome res" where
  "require_loopx_turn_completion_outcome str_of completion expected_todo_id =
     (case completion of
        PMap m \<Rightarrow>
          let todo_id = text_or_empty str_of (map_get m ''todo_id'');
              continuation = text_or_empty str_of (map_get m ''continuation'')
          in
          rbind (check (expected_todo_id \<noteq> [] \<and> todo_id = expected_todo_id)
                   (ValueError ''validated completion is missing its durable Todo outcome'')) (\<lambda>_.
          rbind (check (continuation \<in> {''successor'', ''active_goal'', ''no_followup''})
                   (ValueError ''validated completion has an invalid continuation outcome'')) (\<lambda>_.
          if continuation = ''successor''
          then (case map_get m ''successor_todo_ids'' of
                  PList items \<Rightarrow>
                    rbind (rmap successor_text items) (\<lambda>ids.
                    rbind (check (ids \<noteq> []) (ValueError ''successor completion requires successor Todo ids'')) (\<lambda>_.
                    Inr \<lparr>co_todo_id = todo_id, co_continuation = continuation, co_successor_todo_ids = Some ids\<rparr>))
                | _ \<Rightarrow> Inl (ValueError ''successor completion requires successor Todo ids''))
          else Inr \<lparr>co_todo_id = todo_id, co_continuation = continuation, co_successor_todo_ids = None\<rparr>))
      | _ \<Rightarrow> Inl (TypeError ''validated completion is missing its durable Todo outcome''))"

end
