(* ===== verification/Turn_Properties.thy ===== *)
theory Turn_Properties
  imports Turn_Transaction
begin

text \<open>
  What a validated turn receipt guarantees: the phases completed are a prefix of the transaction, a
  failure report names the next phase, only material results become eligible to spend quota, and
  the status determines the result.
\<close>

section \<open>Executions\<close>

text \<open>A committed execution has written state and spent quota, and does not ask for recovery unless it
  reports a recovery kind together with a failed phase.\<close>

lemma committed_has_durable_effects:
  "loopx_turn_execution_committed execution = Inr True \<Longrightarrow> loopx_turn_execution_has_durable_effects execution"
  by (auto simp: loopx_turn_execution_committed_def loopx_turn_execution_has_durable_effects_def Let_def
      and_then_def res_iff split: if_splits)

lemma committed_recovery:
  assumes "loopx_turn_execution_committed execution = Inr True"
    and "loopx_turn_execution_recovery_required execution = Inr True"
  shows "truthy (map_get (mapping (map_get execution ''receipt'')) ''failed_phase'')"
  using assms
  by (auto simp: loopx_turn_execution_committed_def loopx_turn_execution_recovery_required_def Let_def
      and_then_def or_else_def in_texts_def res_iff split: if_splits)

section \<open>Receipts\<close>

definition failure_prefix :: "string \<Rightarrow> string list" where
  "failure_prefix phase =
     (if phase = ''terminal_closeout'' then take 5 TRANSACTION_PHASES
      else takeWhile (\<lambda>p. p \<noteq> phase) TRANSACTION_PHASES)"

text \<open>What the phases of an accepted receipt look like for each kind of result.\<close>

definition receipt_shape :: "LoopXTurnResultKind \<Rightarrow> string list \<Rightarrow> string option \<Rightarrow> bool" where
  "receipt_shape k completed failed_phase \<longleftrightarrow>
     (\<exists>n \<le> 7. completed = take n TRANSACTION_PHASES) \<and>
     (case FAILURE_PHASES k of
        Some phase \<Rightarrow> failed_phase = Some phase \<and> completed = failure_prefix phase
      | None \<Rightarrow> failed_phase = None) \<and>
     (k \<in> MATERIAL_RESULT_KINDS \<longrightarrow> ''validation'' \<in> set completed) \<and>
     (k \<in> STOP_RESULT_KINDS \<longrightarrow> ''quota_spend'' \<notin> set completed)"

lemma error_if_Nil [simp]: "error_if b m = [] \<longleftrightarrow> \<not> b"
  by (simp add: error_if_def)

lemma seven_cases: "n \<le> (7::nat) \<Longrightarrow> n = 0 \<or> n = 1 \<or> n = 2 \<or> n = 3 \<or> n = 4 \<or> n = 5 \<or> n = 6 \<or> n = 7"
  by linarith

lemmas receipt_kinds = MATERIAL_RESULT_KINDS_def NO_SPEND_RESULT_KINDS_def STOP_RESULT_KINDS_def

text \<open>A prefix of the transaction is its length.\<close>

lemma prefix_facts:
  assumes "n \<le> 7"
  shows "''validation'' \<in> set (take n TRANSACTION_PHASES) \<longleftrightarrow> 2 < n"
    "''durable_writeback'' \<in> set (take n TRANSACTION_PHASES) \<longleftrightarrow> 3 < n"
    "''quota_spend'' \<in> set (take n TRANSACTION_PHASES) \<longleftrightarrow> 4 < n"
    "''scheduler_apply'' \<in> set (take n TRANSACTION_PHASES) \<longleftrightarrow> 5 < n"
    "expected_next (take n TRANSACTION_PHASES) = Some ''host_execute'' \<longleftrightarrow> n = 0"
    "expected_next (take n TRANSACTION_PHASES) = Some ''validation'' \<longleftrightarrow> n = 2"
    "expected_next (take n TRANSACTION_PHASES) = Some ''durable_writeback'' \<longleftrightarrow> n = 3"
    "expected_next (take n TRANSACTION_PHASES) = Some ''quota_spend'' \<longleftrightarrow> n = 4"
    "expected_next (take n TRANSACTION_PHASES) \<noteq> Some ''terminal_closeout''"
  using seven_cases[OF assms] by (auto simp: TRANSACTION_PHASES_def expected_next_def)

lemma take_phases_eq: "m \<le> 7 \<Longrightarrow> n \<le> 7 \<Longrightarrow> take m TRANSACTION_PHASES = take n TRANSACTION_PHASES \<longleftrightarrow> m = n"
proof -
  assume m: "m \<le> 7" and n: "n \<le> 7"
  have "length (take k TRANSACTION_PHASES) = k" if "k \<le> 7" for k
    using that by (simp add: TRANSACTION_PHASES_def)
  from this[OF m] this[OF n] show ?thesis by metis
qed

lemma failure_prefix_simps:
  "failure_prefix ''host_execute'' = take 0 TRANSACTION_PHASES"
  "failure_prefix ''validation'' = take 2 TRANSACTION_PHASES"
  "failure_prefix ''durable_writeback'' = take 3 TRANSACTION_PHASES"
  "failure_prefix ''quota_spend'' = take 4 TRANSACTION_PHASES"
  "failure_prefix ''terminal_closeout'' = take 5 TRANSACTION_PHASES"
  by (simp_all add: failure_prefix_def TRANSACTION_PHASES_def)

lemma phase_errors_Nil:
  assumes n: "n \<le> 7"
  shows "phase_errors (Some k) (take n TRANSACTION_PHASES) f = [] \<longleftrightarrow> receipt_shape k (take n TRANSACTION_PHASES) f"
proof -
  have m: "\<exists>m \<le> 7. take n TRANSACTION_PHASES = take m TRANSACTION_PHASES" using n by blast
  have e: "expected_next [] = Some ''host_execute''" "expected_next (take 2 TRANSACTION_PHASES) = Some ''validation''"
    "expected_next (take 3 TRANSACTION_PHASES) = Some ''durable_writeback''"
    "expected_next (take 4 TRANSACTION_PHASES) = Some ''quota_spend''"
    by (simp_all add: expected_next_def TRANSACTION_PHASES_def)
  note p = prefix_facts[OF n, unfolded eq_commute[of "expected_next _"]]
  show ?thesis
    unfolding phase_errors_def receipt_shape_def Let_def
    by (cases k; simp only: receipt_kinds FAILURE_PHASES.simps option.case failure_prefix_simps append_is_Nil_conv
          error_if_Nil m prefix_facts[OF n] take_phases_eq[OF n]; cases f; auto simp: take_phases_eq[OF n] p e simp del: take_eq_Nil)
qed


lemma result_kind_ok: "result_kind str_of v = (kind, []) \<Longrightarrow> \<exists>k. kind = Some k"
  by (cases "find (\<lambda>k. LoopXTurnResultKind_value k = text_or_empty str_of v) result_kinds")
    (auto simp: result_kind_def)

lemma completed_phases_ok:
  assumes "completed_phases str_of v = (completed, [])"
  shows "\<exists>n \<le> 7. completed = take n TRANSACTION_PHASES"
proof -
  from assms obtain items where i: "completed = map (py_text str_of) items"
    and "map (py_text str_of) items = take (length items) TRANSACTION_PHASES"
    by (auto simp: completed_phases_def Let_def split: pyval.splits if_splits)
  then have t: "completed = take (length completed) TRANSACTION_PHASES" by (metis length_map)
  then have "length completed = min (length TRANSACTION_PHASES) (length completed)" by (metis length_take)
  then have "length completed \<le> 7" by (simp add: TRANSACTION_PHASES_def)
  with t show ?thesis by blast
qed

lemma receipt_ok_shape:
  assumes "validate_loopx_turn_receipt str_of rb plan result = Inr v" "rv_ok v"
  shows "\<exists>k. rv_result_kind v = Some k \<and> receipt_shape k (rv_completed_phases v) (rv_failed_phase v)"
proof -
  obtain kind ke where k: "result_kind str_of (map_get (mapping result) ''result_kind'') = (kind, ke)" by fastforce
  obtain completed ce where c: "completed_phases str_of (map_get (mapping result) ''completed_phases'') = (completed, ce)" by fastforce
  from assms have v: "ke = []" "ce = []" "phase_errors kind completed (rv_failed_phase v) = []"
    "rv_result_kind v = kind" "rv_completed_phases v = completed"
    by (auto simp: validate_loopx_turn_receipt_def Let_def res_iff k c)
  from result_kind_ok[OF k[unfolded v]] obtain r where r: "kind = Some r" by blast
  from completed_phases_ok[OF c[unfolded v]] obtain n where "n \<le> 7" "completed = take n TRANSACTION_PHASES" by blast
  with v r show ?thesis using phase_errors_Nil by auto
qed

lemma receipt_fields:
  assumes "validate_loopx_turn_receipt str_of rb plan result = Inr v"
  shows "rv_status v = receipt_status (rv_ok v) (rv_result_kind v) (rv_completed_phases v)"
    "rv_writeback v \<longleftrightarrow> rv_ok v \<and> (\<exists>k \<in> MATERIAL_RESULT_KINDS. rv_result_kind v = Some k) \<and> ''validation'' \<in> set (rv_completed_phases v)"
    "rv_quota_spend v \<longleftrightarrow> rv_ok v \<and> (\<exists>k \<in> MATERIAL_RESULT_KINDS. rv_result_kind v = Some k) \<and> ''durable_writeback'' \<in> set (rv_completed_phases v)"
    "rv_ok v \<longleftrightarrow> rv_errors v = []"
proof -
  obtain kind ke where k: "result_kind str_of (map_get (mapping result) ''result_kind'') = (kind, ke)" by fastforce
  obtain completed ce where c: "completed_phases str_of (map_get (mapping result) ''completed_phases'') = (completed, ce)" by fastforce
  obtain l le where "settlement_identity str_of rb (mapping plan) = Inr (l, le)"
    using assms by (auto simp: validate_loopx_turn_receipt_def Let_def res_iff)
  note v = assms[unfolded validate_loopx_turn_receipt_def Let_def k c this prod.case rbind_simps sum.inject, symmetric]
  show "rv_status v = receipt_status (rv_ok v) (rv_result_kind v) (rv_completed_phases v)"
    "rv_writeback v \<longleftrightarrow> rv_ok v \<and> (\<exists>k \<in> MATERIAL_RESULT_KINDS. rv_result_kind v = Some k) \<and> ''validation'' \<in> set (rv_completed_phases v)"
    "rv_quota_spend v \<longleftrightarrow> rv_ok v \<and> (\<exists>k \<in> MATERIAL_RESULT_KINDS. rv_result_kind v = Some k) \<and> ''durable_writeback'' \<in> set (rv_completed_phases v)"
    "rv_ok v \<longleftrightarrow> rv_errors v = []"
    by (simp_all only: v receipt_validation.select_convs)
qed

text \<open>C21: a validated receipt keeps the transaction's order.  It is accepted only for a known kind of
  result and a prefix of the phases; a failure report names the phase after that prefix; a stop
  never spent quota.  It is committed exactly if an accepted material result completed every
  phase, and quota may be spent exactly for an accepted material result whose host execution,
  typed result, validation and durable writeback are complete, which also permits the writeback.\<close>

theorem receipt_contract:
  assumes "validate_loopx_turn_receipt str_of rb plan result = Inr v"
  shows "(rv_ok v \<longrightarrow> (\<exists>k. rv_result_kind v = Some k \<and> receipt_shape k (rv_completed_phases v) (rv_failed_phase v))) \<and>
    (rv_status v = ''committed'' \<longleftrightarrow> rv_ok v \<and> rv_completed_phases v = TRANSACTION_PHASES \<and>
       (\<exists>k \<in> MATERIAL_RESULT_KINDS. rv_result_kind v = Some k)) \<and>
    (rv_quota_spend v \<longleftrightarrow> rv_ok v \<and> (\<exists>k \<in> MATERIAL_RESULT_KINDS. rv_result_kind v = Some k) \<and>
       (\<exists>n \<in> {4..7}. rv_completed_phases v = take n TRANSACTION_PHASES)) \<and>
    (rv_quota_spend v \<longrightarrow> rv_writeback v)"
proof (cases "rv_ok v")
  case False
  then show ?thesis using receipt_fields[OF assms] by (simp add: receipt_status_def)
next
  case True
  from receipt_ok_shape[OF assms True] obtain k where k: "rv_result_kind v = Some k"
    and shape: "receipt_shape k (rv_completed_phases v) (rv_failed_phase v)" by blast
  then obtain n where n: "n \<le> 7" "rv_completed_phases v = take n TRANSACTION_PHASES"
    by (auto simp: receipt_shape_def)
  have all: "TRANSACTION_PHASES = take 7 TRANSACTION_PHASES" by (simp add: TRANSACTION_PHASES_def)
  have "(\<exists>m \<in> {4..7}. take n TRANSACTION_PHASES = take m TRANSACTION_PHASES) \<longleftrightarrow> 3 < n"
    using n(1) take_phases_eq[OF n(1)] by force
  moreover have "take n TRANSACTION_PHASES = TRANSACTION_PHASES \<longleftrightarrow> n = 7"
    using take_phases_eq[OF n(1), of 7] all by simp
  moreover have "FAILURE_PHASES k \<noteq> None \<Longrightarrow> n \<noteq> 7"
    using shape unfolding receipt_shape_def n(2)
    by (cases k; simp only: FAILURE_PHASES.simps option.case failure_prefix_simps take_phases_eq[OF n(1)]; simp add: take_phases_eq[OF n(1)])
  moreover have "k \<in> STOP_RESULT_KINDS \<Longrightarrow> n \<noteq> 7"
    using shape prefix_facts(3)[OF n(1)] unfolding receipt_shape_def n(2) by simp
  moreover have "FAILURE_PHASES k = None \<Longrightarrow> k \<notin> STOP_RESULT_KINDS \<Longrightarrow> k \<in> MATERIAL_RESULT_KINDS"
    by (cases k) (auto simp: receipt_kinds)
  moreover have "k \<in> MATERIAL_RESULT_KINDS \<Longrightarrow> FAILURE_PHASES k = None \<and> k \<notin> STOP_RESULT_KINDS"
    by (cases k) (auto simp: receipt_kinds)
  ultimately show ?thesis
    using receipt_fields[OF assms] k shape True
    by (auto simp: n(2) receipt_status_def prefix_facts[OF n(1)])
qed


definition example_plan :: pyval where
  "example_plan = PMap
     [(KStr ''schema_version'', PStr ''loopx_turn_transaction_plan_v0''), (KStr ''status'', PStr ''planned''),
      (KStr ''turn_key'', PStr ''k''),
      (KStr ''settlement_plan'', PMap [(KStr ''identity'', PMap
         [(KStr ''goal_id'', PStr ''g''), (KStr ''agent_id'', PStr ''a''), (KStr ''todo_id'', PStr ''t''),
          (KStr ''effect_id'', PStr ''e'')])])]"

definition example_result :: pyval where
  "example_result = PMap
     [(KStr ''schema_version'', PStr ''loopx_turn_result_v0''), (KStr ''turn_key'', PStr ''k''),
      (KStr ''result_kind'', PStr ''validated_progress''),
      (KStr ''completed_phases'', PList (map PStr (take 4 TRANSACTION_PHASES)))]"

theorem receipt_contract_witness:
  "\<exists>v. validate_loopx_turn_receipt (\<lambda>_. []) (\<lambda>_. Inr []) example_plan example_result = Inr v \<and>
     rv_quota_spend v \<and> rv_writeback v"
proof -
  have "case validate_loopx_turn_receipt (\<lambda>_. []) (\<lambda>_. Inr []) example_plan example_result of
      Inl _ \<Rightarrow> False | Inr v \<Rightarrow> rv_quota_spend v" by code_simp
  then obtain v where v: "validate_loopx_turn_receipt (\<lambda>_. []) (\<lambda>_. Inr []) example_plan example_result = Inr v"
    and q: "rv_quota_spend v" by (auto split: sum.splits)
  from receipt_contract[OF v] q have "rv_writeback v" by blast
  with v q show ?thesis by blast
qed

lemma successor_texts: "rmap successor_text items = Inr ids \<longleftrightarrow> items = map PStr ids \<and> [] \<notin> set ids"
proof -
  have "successor_text v = Inr s \<longleftrightarrow> v = PStr s \<and> s \<noteq> []" for v s
    by (auto simp: successor_text_def split: pyval.splits)
  then have "rmap successor_text items = Inr ids \<longleftrightarrow> list_all2 (\<lambda>v s. v = PStr s \<and> s \<noteq> []) items ids"
    by (simp add: rmap_Inr)
  also have "\<dots> \<longleftrightarrow> items = map PStr ids \<and> [] \<notin> set ids"
    by (induction ids arbitrary: items) (auto simp: list_all2_Cons2)
  finally show ?thesis .
qed

lemma successor_case:
  assumes "text_or_empty str_of (map_get m ''continuation'') = ''successor''"
  shows "require_loopx_turn_completion_outcome str_of (PMap m) expected = Inr outcome \<longleftrightarrow>
    (expected \<noteq> [] \<and> text_or_empty str_of (map_get m ''todo_id'') = expected) \<and>
    (\<exists>ids. map_get m ''successor_todo_ids'' = PList (map PStr ids) \<and> [] \<notin> set ids \<and> ids \<noteq> [] \<and>
       outcome = \<lparr>co_todo_id = expected, co_continuation = ''successor'', co_successor_todo_ids = Some ids\<rparr>)"
    (is "?l \<longleftrightarrow> ?r")
proof (cases "map_get m ''successor_todo_ids''")
  case (PList items)
  have "?l \<longleftrightarrow> (expected \<noteq> [] \<and> text_or_empty str_of (map_get m ''todo_id'') = expected) \<and>
      (\<exists>ids. rmap successor_text items = Inr ids \<and> ids \<noteq> [] \<and>
       \<lparr>co_todo_id = text_or_empty str_of (map_get m ''todo_id''), co_continuation = ''successor'', co_successor_todo_ids = Some ids\<rparr> = outcome)"
    by (simp add: require_loopx_turn_completion_outcome_def Let_def assms PList res_iff)
  also have "\<dots> \<longleftrightarrow> ?r" unfolding successor_texts PList by blast
  finally show ?thesis .
qed (simp_all add: require_loopx_turn_completion_outcome_def Let_def assms res_iff)

lemma other_case:
  assumes "text_or_empty str_of (map_get m ''continuation'') = c" "c \<noteq> ''successor''"
  shows "require_loopx_turn_completion_outcome str_of (PMap m) expected = Inr outcome \<longleftrightarrow>
    (expected \<noteq> [] \<and> text_or_empty str_of (map_get m ''todo_id'') = expected) \<and>
    c \<in> {''active_goal'', ''no_followup''} \<and>
    outcome = \<lparr>co_todo_id = expected, co_continuation = c, co_successor_todo_ids = None\<rparr>"
proof -
  have "require_loopx_turn_completion_outcome str_of (PMap m) expected = Inr outcome \<longleftrightarrow>
    (expected \<noteq> [] \<and> text_or_empty str_of (map_get m ''todo_id'') = expected) \<and>
    c \<in> {''successor'', ''active_goal'', ''no_followup''} \<and>
    \<lparr>co_todo_id = text_or_empty str_of (map_get m ''todo_id''), co_continuation = c, co_successor_todo_ids = None\<rparr> = outcome"
    using assms(2) by (simp add: require_loopx_turn_completion_outcome_def Let_def assms(1) res_iff)
  then show ?thesis using assms(2) by blast
qed

text \<open>The outcome of a completed turn is accepted exactly if it is a mapping for the expected,
  non-empty todo id with a known continuation, and a successor continuation lists at least one
  successor, all non-empty texts; the outcome carries exactly these.\<close>

theorem completion_outcome_spec:
  "require_loopx_turn_completion_outcome str_of completion expected = Inr outcome \<longleftrightarrow>
   (\<exists>m c. completion = PMap m \<and> text_or_empty str_of (map_get m ''continuation'') = c \<and>
      (expected \<noteq> [] \<and> text_or_empty str_of (map_get m ''todo_id'') = expected) \<and>
      (c \<in> {''active_goal'', ''no_followup''} \<and>
         outcome = \<lparr>co_todo_id = expected, co_continuation = c, co_successor_todo_ids = None\<rparr> \<or>
       c = ''successor'' \<and>
         (\<exists>ids. map_get m ''successor_todo_ids'' = PList (map PStr ids) \<and> [] \<notin> set ids \<and> ids \<noteq> [] \<and>
            outcome = \<lparr>co_todo_id = expected, co_continuation = c, co_successor_todo_ids = Some ids\<rparr>)))"
proof (cases completion)
  case (PMap m)
  show ?thesis
  proof (cases "text_or_empty str_of (map_get m ''continuation'') = ''successor''")
    case True
    show ?thesis unfolding PMap successor_case[OF True] using True by simp
  next
    case False
    show ?thesis unfolding PMap other_case[OF refl False] using False by simp
  qed
qed (simp_all add: require_loopx_turn_completion_outcome_def)


text \<open>An identity that binds a todo and carries a blank replan obligation is accepted, and its lineage
  then names the replan obligation \<open>None\<close>: the text of the missing id.\<close>

definition blank_replan_plan :: "(pykey \<times> pyval) list" where
  "blank_replan_plan =
     [(KStr ''settlement_plan'', PMap [(KStr ''identity'', PMap
         [(KStr ''schema_version'', PStr ''quota_settlement_identity_v0''),
          (KStr ''goal_id'', PStr ''g''), (KStr ''agent_id'', PStr ''a''), (KStr ''todo_id'', PStr ''t''),
          (KStr ''turn_instance_id'', PStr ''i''), (KStr ''effect_id'', PStr ''e''),
          (KStr ''replan_obligation_id'', PStr [])])])]"

lemma blank_replan_named_None:
  "\<exists>lineage. settlement_identity (\<lambda>_. []) (\<lambda>_. Inr []) blank_replan_plan = Inr (lineage, []) \<and>
     tl_replan_obligation_id lineage = Some ''None''"
proof -
  have "case settlement_identity (\<lambda>_. []) (\<lambda>_. Inr []) blank_replan_plan of
      Inl _ \<Rightarrow> False | Inr (lineage, errors) \<Rightarrow> errors = [] \<and> tl_replan_obligation_id lineage = Some ''None''"
    by code_simp
  then show ?thesis by (auto split: sum.splits)
qed

end
