(* ===== verification/Py_Number.thy ===== *)
theory Py_Number
  imports Py_Object
begin

text \<open>
  The conversions \<open>int(value)\<close> and \<open>float(value)\<close> of a dynamically typed value, with the texts
  they read (surrounding white space, a sign, digits with single underscores between them, for
  a float also a fraction, an exponent, or the names of infinity and not-a-number), and Python's
  \<open>==\<close> across numbers, texts and containers.  Texts are Latin-1, whose only decimal digits are
  the ASCII ones.  The values are those a JSON document can hold; an object of a class of its own
  has no conversion and is equal to none of them.
\<close>

definition is_digit :: "char \<Rightarrow> bool" where
  "is_digit c = (let n = (of_char c :: nat) in 48 \<le> n \<and> n \<le> 57)"

definition digits_value :: "string \<Rightarrow> nat" where
  "digits_value ds = foldl (\<lambda>a c. 10 * a + (of_char c - 48)) 0 ds"

text \<open>Underscores are allowed between two digits and dropped.\<close>

fun drop_underscores :: "char \<Rightarrow> string \<Rightarrow> string option" where
  "drop_underscores prev [] = (if prev = CHR ''_'' then None else Some [])"
| "drop_underscores prev (c # r) =
     (if c = CHR ''_'' then (if is_digit prev then drop_underscores c r else None)
      else if prev = CHR ''_'' \<and> \<not> is_digit c then None
      else map_option (Cons c) (drop_underscores c r))"

definition plain_digits :: "string \<Rightarrow> string option" where
  "plain_digits s = drop_underscores (char_of (0 :: nat)) s"

text \<open>The sign at the front of a text, and the rest.\<close>

definition split_sign :: "string \<Rightarrow> bool \<times> string" where
  "split_sign s = (case s of
     c # r \<Rightarrow> if c = CHR ''-'' then (True, r) else if c = CHR ''+'' then (False, r) else (False, s)
   | [] \<Rightarrow> (False, s))"

text \<open>The interpreter's limit on the digits of an integer text.\<close>

definition INT_MAX_STR_DIGITS :: nat where
  "INT_MAX_STR_DIGITS = 4300"

definition parse_int :: "string \<Rightarrow> int option" where
  "parse_int s = (let (neg, body) = split_sign (strip s) in
     case plain_digits body of
       None \<Rightarrow> None
     | Some ds \<Rightarrow>
         if ds = [] \<or> \<not> list_all is_digit ds \<or> INT_MAX_STR_DIGITS < length ds then None
         else Some (if neg then - int (digits_value ds) else int (digits_value ds)))"

text \<open>An exponent at the end of a number: absent, or a letter \<open>e\<close>, a sign and digits.\<close>

definition parse_exponent :: "string \<Rightarrow> int option" where
  "parse_exponent s = (case s of
     [] \<Rightarrow> Some 0
   | c # r \<Rightarrow>
       if lower_char c \<noteq> CHR ''e'' then None
       else (let (neg, ds) = split_sign r in
         if ds = [] \<or> \<not> list_all is_digit ds then None
         else Some (if neg then - int (digits_value ds) else int (digits_value ds))))"

text \<open>The exact value of an unsigned decimal number.\<close>

definition parse_decimal :: "string \<Rightarrow> rat option" where
  "parse_decimal s =
     (let whole = takeWhile is_digit s; r = dropWhile is_digit s;
          (fraction, e) = (case r of
             c # r' \<Rightarrow> if c = CHR ''.'' then (takeWhile is_digit r', dropWhile is_digit r') else ([], r)
           | [] \<Rightarrow> ([], []))
      in if whole = [] \<and> fraction = [] then None
         else map_option (\<lambda>x. of_nat (digits_value (whole @ fraction)) * 10 powi (x - int (length fraction)))
                (parse_exponent e))"

definition parse_float :: "string \<Rightarrow> pyfloat option" where
  "parse_float s = (case plain_digits (strip s) of
     None \<Rightarrow> None
   | Some t \<Rightarrow>
       let (neg, body) = split_sign t; name = lower body in
       if name = ''inf'' \<or> name = ''infinity'' then Some (if neg then NInf else PInf)
       else if name = ''nan'' then Some NaN
       else map_option (\<lambda>q. rnd (if neg then - q else q)) (parse_decimal body))"

text \<open>\<open>int(value)\<close>: a float is truncated towards zero.\<close>

definition truncate :: "rat \<Rightarrow> int" where
  "truncate q = (if q < 0 then - \<lfloor>- q\<rfloor> else \<lfloor>q\<rfloor>)"

fun to_int :: "pyval \<Rightarrow> int res" where
  "to_int (PInt i) = Inr i"
| "to_int (PBool b) = Inr (if b then 1 else 0)"
| "to_int (PFloat x) = (case x of
     Fin q \<Rightarrow> Inr (truncate q)
   | NaN \<Rightarrow> Inl (ValueError ''cannot convert float NaN to integer'')
   | _ \<Rightarrow> Inl (OverflowError ''cannot convert float infinity to integer''))"
| "to_int (PStr s) = (case parse_int s of
     Some i \<Rightarrow> Inr i
   | None \<Rightarrow> Inl (ValueError ''invalid literal for int() with base 10''))"
| "to_int _ = Inl (TypeError ''int() argument must be a string, a bytes-like object or a real number'')"

text \<open>\<open>float(value)\<close>: an integer is rounded to the nearest float, unless it is too large.\<close>

fun to_float :: "pyval \<Rightarrow> pyfloat res" where
  "to_float (PFloat x) = Inr x"
| "to_float (PInt i) =
     (if isfinite (of_pyint i) then Inr (of_pyint i)
      else Inl (OverflowError ''int too large to convert to float''))"
| "to_float (PBool b) = Inr (Fin (if b then 1 else 0))"
| "to_float (PStr s) = (case parse_float s of
     Some x \<Rightarrow> Inr x
   | None \<Rightarrow> Inl (ValueError ''could not convert string to float''))"
| "to_float _ = Inl (TypeError ''float() argument must be a string or a real number'')"

text \<open>\<open>==\<close>: numbers by their exact value whatever their type, mappings by their entries.\<close>

fun number_value :: "pyval \<Rightarrow> pyfloat option" where
  "number_value (PBool b) = Some (Fin (if b then 1 else 0))"
| "number_value (PInt i) = Some (Fin (of_int i))"
| "number_value (PFloat x) = Some x"
| "number_value _ = None"

function py_eq :: "pyval \<Rightarrow> pyval \<Rightarrow> bool"
  and seq_eq :: "pyval list \<Rightarrow> pyval list \<Rightarrow> bool"
  and entries_eq :: "(pykey \<times> pyval) list \<Rightarrow> (pykey \<times> pyval) list \<Rightarrow> bool" where
  "py_eq v w = (case (v, w) of
     (PNone, PNone) \<Rightarrow> True
   | (PStr s, PStr t) \<Rightarrow> s = t
   | (PList xs, PList ys) \<Rightarrow> seq_eq xs ys
   | (PTuple xs, PTuple ys) \<Rightarrow> seq_eq xs ys
   | (PMap m, PMap n) \<Rightarrow> length m = length n \<and> entries_eq m n
   | _ \<Rightarrow> (case (number_value v, number_value w) of (Some x, Some y) \<Rightarrow> feq x y | _ \<Rightarrow> False))"
| "seq_eq [] ys = (ys = [])"
| "seq_eq (x # xs) ys = (case ys of [] \<Rightarrow> False | y # ys' \<Rightarrow> py_eq x y \<and> seq_eq xs ys')"
| "entries_eq [] n = True"
| "entries_eq ((k, v) # m) n =
     ((case map_of n k of None \<Rightarrow> False | Some w \<Rightarrow> py_eq v w) \<and> entries_eq m n)"
  by pat_completeness auto
termination
  by (relation "measure (\<lambda>x. case x of
        Inl (v, _) \<Rightarrow> size v
      | Inr (Inl (xs, _)) \<Rightarrow> size_list size xs
      | Inr (Inr (m, _)) \<Rightarrow> size_list (size_prod (\<lambda>_. 0) size) m)")
    (auto simp: size_list_conv_sum_list)

section \<open>Laws\<close>

lemma is_digit_underscore [simp]: "\<not> is_digit (CHR ''_'')"
  by code_simp

lemma drop_underscores_digits:
  "list_all is_digit ds \<Longrightarrow> prev \<noteq> CHR ''_'' \<Longrightarrow> drop_underscores prev ds = Some ds"
proof (induction ds arbitrary: prev)
  case (Cons c ds)
  then have "c \<noteq> CHR ''_''" using is_digit_underscore by (metis list.pred_inject(2))
  with Cons show ?case by (simp only: drop_underscores.simps list.pred_inject if_False simp_thms option.map)
qed simp

end
