(* ===== verification/Json_Disk.thy ===== *)
theory Json_Disk
  imports Py_Number
begin

text \<open>
  JSON documents and the files the exploration harness keeps them in.

  \<open>jsonify\<close> is \<open>json.loads(json.dumps(value))\<close>: tuples come back as lists, an object that is no
  JSON value raises, and a key that is no text becomes one or raises.  As values with such keys do
  not record which object the key is, what \<open>dumps\<close> makes of it is the parameter \<open>key_text\<close>.
  Integers have fewer digits than the interpreter's limit.

  A file holds a complete document, a text that is not JSON (among them every text cut off in the
  middle of writing), or cannot be read.  Each operating-system call may fail with \<open>OSError\<close>; the
  list of faults decides.  The files after every single call are recorded, because a process that
  is killed leaves the files of one of these moments.
\<close>

section \<open>Documents\<close>

type_synonym pymap = "(pykey \<times> pyval) list"

text \<open>A dictionary from its items: a repeated key keeps its first place and takes the last value.\<close>

definition dict_of :: "('k \<times> 'v) list \<Rightarrow> ('k \<times> 'v) list" where
  "dict_of items = fold (\<lambda>(k, v) d. AList.update k v d) items []"

definition not_serializable :: exn where
  "not_serializable = TypeError ''Object is not JSON serializable''"

fun json_key :: "string option \<Rightarrow> pykey \<Rightarrow> pykey res" where
  "json_key key_text (KStr k) = Inr (KStr k)"
| "json_key key_text KOther = (case key_text of
     Some t \<Rightarrow> Inr (KStr t)
   | None \<Rightarrow> Inl (TypeError ''keys must be str, int, float, bool or None''))"

fun jsonify :: "string option \<Rightarrow> pyval \<Rightarrow> pyval res"
  and json_seq :: "string option \<Rightarrow> pyval list \<Rightarrow> pyval list res"
  and json_entries :: "string option \<Rightarrow> pymap \<Rightarrow> pymap res" where
  "jsonify kt PNone = Inr PNone"
| "jsonify kt (PBool b) = Inr (PBool b)"
| "jsonify kt (PInt i) = Inr (PInt i)"
| "jsonify kt (PFloat x) = Inr (PFloat x)"
| "jsonify kt (PStr s) = Inr (PStr s)"
| "jsonify kt PBinary = Inl not_serializable"
| "jsonify kt PPath = Inl not_serializable"
| "jsonify kt POther = Inl not_serializable"
| "jsonify kt (PMap m) = rbind (json_entries kt m) (\<lambda>es. Inr (PMap (dict_of es)))"
| "jsonify kt (PList xs) = rbind (json_seq kt xs) (\<lambda>ys. Inr (PList ys))"
| "jsonify kt (PTuple xs) = rbind (json_seq kt xs) (\<lambda>ys. Inr (PList ys))"
| "json_seq kt [] = Inr []"
| "json_seq kt (v # r) = rbind (jsonify kt v) (\<lambda>v'. rbind (json_seq kt r) (\<lambda>r'. Inr (v' # r')))"
| "json_entries kt [] = Inr []"
| "json_entries kt ((k, v) # r) =
     rbind (json_key kt k) (\<lambda>k'. rbind (jsonify kt v) (\<lambda>v'. rbind (json_entries kt r) (\<lambda>r'. Inr ((k', v') # r'))))"

section \<open>Files\<close>

text \<open>A path: the parts of its parent, and its name.\<close>

type_synonym file_path = "string list \<times> string"

datatype content = Document pyval | NotJson | Unreadable

type_synonym files = "file_path \<Rightarrow> content option"

record disk =
  dk_files :: files
  dk_faults :: "bool list"
  dk_seen :: "files list"

definition OSError :: exn where
  "OSError = ForeignError ''OSError''"

text \<open>One call that changes the files, or fails and leaves them as they are.\<close>

definition io :: "(files \<Rightarrow> files) \<Rightarrow> (disk, unit) act" where
  "io f d =
     (let fault = (dk_faults d \<noteq> [] \<and> hd (dk_faults d));
          files = (if fault then dk_files d else f (dk_files d))
      in (if fault then Inl OSError else Inr (),
          d\<lparr>dk_files := files, dk_faults := tl (dk_faults d), dk_seen := dk_seen d @ [files]\<rparr>))"

definition mkdir_parents :: "file_path \<Rightarrow> (disk, unit) act" where
  "mkdir_parents p = io (\<lambda>fs. fs)"

text \<open>\<open>path.write_text(json.dumps(v))\<close>: the text is made first, then the file is opened, which empties
  it, then the text is written.\<close>

definition write_document :: "string option \<Rightarrow> file_path \<Rightarrow> pyval \<Rightarrow> (disk, unit) act" where
  "write_document kt p v =
     bnd (of_res (jsonify kt v)) (\<lambda>doc.
     seq (io (\<lambda>fs. fs(p \<mapsto> NotJson)))
         (io (\<lambda>fs. fs(p \<mapsto> Document doc))))"

definition replace_file :: "file_path \<Rightarrow> file_path \<Rightarrow> (disk, unit) act" where
  "replace_file p q = io (\<lambda>fs. (fs(q := fs p))(p := None))"

definition unlink_file :: "file_path \<Rightarrow> (disk, unit) act" where
  "unlink_file p = io (\<lambda>fs. fs(p := None))"

text \<open>\<open>path.with_name(name)\<close>\<close>

definition with_name :: "file_path \<Rightarrow> string \<Rightarrow> file_path res" where
  "with_name p name = (if snd p = [] then Inl (ValueError ''path has an empty name'') else Inr (fst p, name))"

definition write_json :: "string option \<Rightarrow> file_path \<Rightarrow> pyval \<Rightarrow> (disk, unit) act" where
  "write_json kt p v = seq (mkdir_parents p) (write_document kt p v)"

definition read_json :: "files \<Rightarrow> file_path \<Rightarrow> pyval res" where
  "read_json fs p = (case fs p of
     None \<Rightarrow> Inr PNone
   | Some (Document v) \<Rightarrow> Inr v
   | Some NotJson \<Rightarrow> Inr PNone
   | Some Unreadable \<Rightarrow> Inl OSError)"

section \<open>Laws of documents\<close>

lemma dict_of_distinct: "distinct (map fst items) \<Longrightarrow> dict_of items = items"
proof -
  have new: "k \<notin> fst ` set d \<Longrightarrow> AList.update k v d = d @ [(k, v)]" for k v and d :: "('a \<times> 'b) list"
    by (induction d) auto
  have "distinct (map fst (d @ items)) \<Longrightarrow> fold (\<lambda>(k, v) d. AList.update k v d) items d = d @ items" for d
    by (induction items arbitrary: d) (auto simp: new)
  from this[of "[]"] show "distinct (map fst items) \<Longrightarrow> dict_of items = items" by (simp add: dict_of_def)
qed

lemma distinct_dict_of: "distinct (map fst (dict_of items))"
proof -
  have "distinct (map fst d) \<Longrightarrow> distinct (map fst (fold (\<lambda>(k, v) d. AList.update k v d) items d))" for d
    by (induction items arbitrary: d) (auto simp: AList.distinct_update)
  from this[of "[]"] show ?thesis by (simp add: dict_of_def)
qed

lemma json_seq_rmap: "json_seq kt xs = rmap (jsonify kt) xs"
  by (induction xs) (auto simp: rbind_def)

text \<open>A JSON value: no tuples, text keys, no key twice.\<close>

fun is_json :: "pyval \<Rightarrow> bool" where
  "is_json (PMap m) = (distinct (map fst m) \<and> (\<forall>(k, v) \<in> set m. k \<noteq> KOther \<and> is_json v))"
| "is_json (PList xs) = (\<forall>v \<in> set xs. is_json v)"
| "is_json (PTuple xs) = False"
| "is_json PBinary = False"
| "is_json PPath = False"
| "is_json POther = False"
| "is_json v = True"

lemma set_dict_of: "set (dict_of items) \<subseteq> set items"
proof -
  have up: "set (AList.update k v d) \<subseteq> insert (k, v) (set d)" for k v and d :: "('a \<times> 'b) list"
    by (induction d) auto
  have "set (fold (\<lambda>(k, v) d. AList.update k v d) items d) \<subseteq> set d \<union> set items" for d
  proof (induction items arbitrary: d)
    case (Cons x items)
    show ?case using Cons[of "AList.update (fst x) (snd x) d"] up[of "fst x" "snd x" d]
      by (auto simp: case_prod_beta)
  qed simp
  from this[of "[]"] show ?thesis by (simp add: dict_of_def)
qed

lemma json_key_text: "json_key kt k = Inr k' \<Longrightarrow> k' \<noteq> KOther"
  by (cases k) (auto split: option.splits)

text \<open>What is read back is a JSON value, and a JSON value is read back unchanged.\<close>

lemma jsonify_is_json:
  "jsonify kt v = Inr w \<Longrightarrow> is_json w"
  "json_seq kt xs = Inr ys \<Longrightarrow> \<forall>y \<in> set ys. is_json y"
  "json_entries kt m = Inr es \<Longrightarrow> \<forall>(k, v) \<in> set es. k \<noteq> KOther \<and> is_json v"
proof (induction kt v and kt xs and kt m arbitrary: w and ys and es rule: jsonify_json_seq_json_entries.induct)
  case (9 kt m)
  then obtain es where es: "json_entries kt m = Inr es" "w = PMap (dict_of es)" by (auto simp: res_iff)
  from 9(1)[OF es(1)] es(2) set_dict_of[of es] distinct_dict_of[of es] show ?case by auto
next
  case (15 kt k v r)
  then obtain k' v' r' where "json_key kt k = Inr k'" "jsonify kt v = Inr v'" "json_entries kt r = Inr r'" "es = (k', v') # r'"
    by (auto simp: res_iff)
  with 15 json_key_text[of kt k k'] show ?case by auto
qed (auto simp: res_iff not_serializable_def)

lemma jsonify_fixed:
  "is_json v \<Longrightarrow> jsonify kt v = Inr v"
  "(\<forall>x \<in> set xs. is_json x) \<Longrightarrow> json_seq kt xs = Inr xs"
  "(\<forall>(k, v) \<in> set m. k \<noteq> KOther \<and> is_json v) \<Longrightarrow> json_entries kt m = Inr m"
proof (induction kt v and kt xs and kt m rule: jsonify_json_seq_json_entries.induct)
  case (9 kt m)
  then show ?case by (auto simp: dict_of_distinct)
next
  case (15 kt k v r)
  then show ?case by (cases k) auto
qed auto

lemma jsonify_idem: "jsonify kt v = Inr w \<Longrightarrow> jsonify kt w = Inr w"
  using jsonify_is_json(1) jsonify_fixed(1) by blast

section \<open>Laws of files\<close>

lemma wp_io [wp_simps, simp]:
  "wp (io f) Q E d =
     (let fault = (dk_faults d \<noteq> [] \<and> hd (dk_faults d));
          files = (if fault then dk_files d else f (dk_files d));
          d' = d\<lparr>dk_files := files, dk_faults := tl (dk_faults d), dk_seen := dk_seen d @ [files]\<rparr>
      in if fault then E OSError d' else Q () d')"
  by (simp add: wp_def io_def Let_def)

text \<open>A write that succeeds is read back; without faults it does.\<close>

lemma write_read_json:
  assumes "jsonify kt v = Inr doc" "dk_faults d = []"
  shows "\<exists>d'. write_json kt p v d = (Inr (), d') \<and> dk_files d' = (dk_files d)(p \<mapsto> Document doc) \<and>
    dk_faults d' = [] \<and> read_json (dk_files d') p = Inr doc"
  using assms
  by (simp add: write_json_def write_document_def mkdir_parents_def seq_def bnd_def of_res_def io_def read_json_def Let_def)

end
