(* ===== verification/Harness_Checkpoint.thy ===== *)
theory Harness_Checkpoint
  imports Json_Disk "HOL-Library.List_Lexorder" "HOL-Library.Char_ord"
begin

text \<open>
  \<open>src/loopx/capabilities/explore/harness_checkpoint.py\<close>: the restart contract of an exploration arm,
  and the places of \<open>harness_runtime.py\<close> that write it at the end of an epoch and resume from
  it.  The progress of an arm is a record of the local variables of \<open>run_budget_arm\<close> the contract
  covers.  \<open>str\<close>, \<open>repr\<close> and the text of a path are parameters: they only enter messages, except
  where the code converts an \<open>arm_key\<close> or an id that is no text.
\<close>

record texts =
  tx_str :: "pyval \<Rightarrow> string"
  tx_repr :: "pyval \<Rightarrow> string"
  tx_path :: "file_path \<Rightarrow> string"

definition HARNESS_CHECKPOINT_SCHEMA_VERSION :: string where
  "HARNESS_CHECKPOINT_SCHEMA_VERSION = ''loopx_explore_harness_checkpoint_v0''"

section \<open>Writing\<close>

definition write_arm_checkpoint :: "string option \<Rightarrow> file_path \<Rightarrow> pyval dict \<Rightarrow> (disk, unit) act" where
  "write_arm_checkpoint kt path payload =
     seq (mkdir_parents path)
     (bnd (of_res (with_name path (''.'' @ snd path @ ''.tmp''))) (\<lambda>temporary.
      finally_do
        (seq (write_document kt temporary (map_value payload)) (replace_file temporary path))
        (unlink_file temporary)))"

section \<open>Loading\<close>

text \<open>\<open>except (TypeError, ValueError)\<close> around a conversion, raised again with a message.\<close>

definition numeric_or :: "string \<Rightarrow> 'a res \<Rightarrow> 'a res" where
  "numeric_or msg r = (case r of
     Inl (ValueError _) \<Rightarrow> Inl (ValueError msg)
   | Inl (TypeError _) \<Rightarrow> Inl (ValueError msg)
   | _ \<Rightarrow> r)"

fun is_map :: "pyval \<Rightarrow> bool" where
  "is_map (PMap _) = True"
| "is_map _ = False"

fun is_list :: "pyval \<Rightarrow> bool" where
  "is_list (PList _) = True"
| "is_list _ = False"

fun is_text :: "pyval \<Rightarrow> bool" where
  "is_text (PStr _) = True"
| "is_text _ = False"

text \<open>The entries of a dictionary and of a list whose type has been checked.\<close>

fun entries_of :: "pyval \<Rightarrow> pymap" where
  "entries_of (PMap m) = m"
| "entries_of _ = []"

fun items_of :: "pyval \<Rightarrow> pyval list" where
  "items_of (PList xs) = xs"
| "items_of _ = []"

definition is_router_state :: "(pyval \<Rightarrow> string) \<Rightarrow> pyval \<Rightarrow> bool" where
  "is_router_state str_of v =
     (is_map v \<and> starts_with ''loopx_explore_router_state'' (text_or_empty str_of (map_get (entries_of v) ''schema_version'')))"

fun join :: "string \<Rightarrow> string list \<Rightarrow> string" where
  "join sep [] = []"
| "join sep [t] = t"
| "join sep (t # ts) = t @ sep @ join sep ts"

definition signature_mismatches :: "pymap \<Rightarrow> pyval dict \<Rightarrow> string list" where
  "signature_mismatches signature expected_signature =
     map fst (filter (\<lambda>(key, expected). \<not> py_eq (map_get signature key) expected) expected_signature)"

text \<open>The document is one of this arm and of the same runtime.\<close>

definition check_identity :: "texts \<Rightarrow> pymap \<Rightarrow> pyval dict \<Rightarrow> unit res" where
  "check_identity T payload expected_signature =
     rbind (check (py_eq (map_get payload ''schema_version'') (PStr HARNESS_CHECKPOINT_SCHEMA_VERSION))
       (ValueError (''resume checkpoint schema is incompatible: expected '' @
          tx_repr T (PStr HARNESS_CHECKPOINT_SCHEMA_VERSION) @ '', got '' @ tx_repr T (map_get payload ''schema_version'')))) (\<lambda>_.
     let expected_arm = text_or_empty (tx_str T) (get expected_signature ''arm_key'') in
     rbind (check (text_or_empty (tx_str T) (map_get payload ''arm_key'') = expected_arm)
       (ValueError (''resume checkpoint arm_key is incompatible: expected '' @
          tx_repr T (PStr expected_arm) @ '', got '' @ tx_repr T (map_get payload ''arm_key'')))) (\<lambda>_.
     rbind (check (is_map (map_get payload ''runtime_signature''))
       (ValueError ''resume checkpoint is missing runtime_signature'')) (\<lambda>_.
     let signature = entries_of (map_get payload ''runtime_signature'');
         mismatches = signature_mismatches signature expected_signature in
     check (mismatches = [])
       (ValueError (''resume checkpoint runtime is incompatible: '' @ join '', ''
          (map (\<lambda>key. key @ ''='' @ tx_repr T (map_get signature key) @ '' (expected '' @
                  tx_repr T (get expected_signature key) @ '')'') mismatches))))))"

text \<open>The fields of the state have their types.\<close>

definition LIST_FIELDS :: "string list" where
  "LIST_FIELDS = [''epochs'', ''checkpoints'', ''novelty_seen'', ''catalog_consumed'']"

definition check_state_fields :: "pymap \<Rightarrow> unit res" where
  "check_state_fields state =
     rbind (rmap (\<lambda>field. check (is_list (map_get state field))
       (ValueError (''resume checkpoint state.'' @ field @ '' must be a list''))) LIST_FIELDS) (\<lambda>_.
     rbind (check (list_all is_map (items_of (map_get state ''epochs'')))
       (ValueError ''resume checkpoint state.epochs must contain objects'')) (\<lambda>_.
     rbind (check (list_all is_map (items_of (map_get state ''checkpoints'')))
       (ValueError ''resume checkpoint state.checkpoints must contain objects'')) (\<lambda>_.
     rbind (check (list_all is_text (items_of (map_get state ''novelty_seen'')))
       (ValueError ''resume checkpoint state.novelty_seen must contain strings'')) (\<lambda>_.
     rbind (check (list_all is_text (items_of (map_get state ''catalog_consumed'')))
       (ValueError ''resume checkpoint state.catalog_consumed must contain strings'')) (\<lambda>_.
     rbind (check (is_map (map_get state ''coverage_first_seen''))
       (ValueError ''resume checkpoint state.coverage_first_seen must be an object'')) (\<lambda>_.
     rbind (numeric_or ''resume checkpoint state.coverage_first_seen values must be numeric''
       (rmap (\<lambda>(_, minutes). to_float minutes) (entries_of (map_get state ''coverage_first_seen'')))) (\<lambda>_.
     check (map_get state ''load_profile'' = PNone \<or> is_map (map_get state ''load_profile''))
       (ValueError ''resume checkpoint state.load_profile must be an object or null''))))))))"

text \<open>\<open>int(value or 0)\<close> and \<open>float(value or 0.0)\<close>\<close>

definition int_or_zero :: "pyval \<Rightarrow> int res" where
  "int_or_zero v = to_int (py_or v (PInt 0))"

definition float_or_zero :: "pyval \<Rightarrow> pyfloat res" where
  "float_or_zero v = to_float (py_or v (PFloat (Fin 0)))"

definition epoch_ids :: "pyval list \<Rightarrow> int list res" where
  "epoch_ids = rmap (\<lambda>e. int_or_zero (map_get (entries_of e) ''epoch''))"

text \<open>The epoch history is complete, from epoch 1 to the one before the next.\<close>

definition check_history :: "pymap \<Rightarrow> pymap \<Rightarrow> unit res" where
  "check_history payload state =
     rbind (numeric_or ''resume checkpoint completed_epochs must be an integer''
       (int_or_zero (map_get payload ''completed_epochs''))) (\<lambda>completed_epochs.
     let epochs = items_of (map_get state ''epochs''); checkpoints = items_of (map_get state ''checkpoints'') in
     rbind (check (completed_epochs = int (length epochs))
       (ValueError ''resume checkpoint completed_epochs does not match epoch history'')) (\<lambda>_.
     rbind (check (int (length checkpoints) = completed_epochs)
       (ValueError ''resume checkpoint anytime history does not match completed_epochs'')) (\<lambda>_.
     let expected_epochs = [1..completed_epochs] in
     rbind (numeric_or ''resume checkpoint epoch history must use integer epoch ids''
       (rbind (epoch_ids epochs) (\<lambda>ns. rbind (epoch_ids checkpoints) (\<lambda>cs. Inr (ns, cs))))) (\<lambda>(epoch_numbers, checkpoint_epochs).
     rbind (check (epoch_numbers = expected_epochs \<and> checkpoint_epochs = expected_epochs)
       (ValueError ''resume checkpoint epoch history is not contiguous from epoch 1'')) (\<lambda>_.
     rbind (numeric_or ''resume checkpoint state.next_epoch must be an integer''
       (int_or_zero (map_get state ''next_epoch''))) (\<lambda>next_epoch.
     check (next_epoch = completed_epochs + 1)
       (ValueError (''resume checkpoint next_epoch is inconsistent: expected '' @ decimal (completed_epochs + 1) @
          '', got '' @ decimal next_epoch))))))))"

definition TOTAL_FIELDS :: "string list" where
  "TOTAL_FIELDS = [''elapsed_minutes'', ''raw_value_total'', ''novel_value_total'', ''variant_records_total'']"

definition check_totals :: "texts \<Rightarrow> pymap \<Rightarrow> pyval dict \<Rightarrow> unit res" where
  "check_totals T state expected_signature =
     rbind (check (truthy (get expected_signature ''use_router'') \<longrightarrow>
         is_router_state (tx_str T) (map_get state ''router_state''))
       (ValueError ''resume checkpoint has an invalid router_state for a router arm'')) (\<lambda>_.
     rbind (rmap (\<lambda>field. numeric_or (''resume checkpoint state.'' @ field @ '' must be numeric'')
       (float_or_zero (map_get state field))) TOTAL_FIELDS) (\<lambda>_. Inr ()))"

definition read_payload :: "texts \<Rightarrow> files \<Rightarrow> file_path \<Rightarrow> pymap res" where
  "read_payload T fs path = (case fs path of
     None \<Rightarrow> Inl (ValueError (''resume checkpoint does not exist: '' @ tx_path T path))
   | Some (Document (PMap payload)) \<Rightarrow> Inr payload
   | Some (Document _) \<Rightarrow> Inl (ValueError ''resume checkpoint must be a JSON object'')
   | Some _ \<Rightarrow> Inl (ValueError (''resume checkpoint is unreadable or invalid JSON: '' @ tx_path T path)))"

definition load_arm_checkpoint :: "texts \<Rightarrow> files \<Rightarrow> file_path \<Rightarrow> pyval dict \<Rightarrow> pymap res" where
  "load_arm_checkpoint T fs path expected_signature =
     rbind (read_payload T fs path) (\<lambda>payload.
     rbind (check_identity T payload expected_signature) (\<lambda>_.
     rbind (check (is_map (map_get payload ''state'')) (ValueError ''resume checkpoint is missing state'')) (\<lambda>_.
     let state = entries_of (map_get payload ''state'') in
     rbind (check_state_fields state) (\<lambda>_.
     rbind (check_history payload state) (\<lambda>_.
     rbind (check_totals T state expected_signature) (\<lambda>_. Inr state))))))"

section \<open>The progress of an arm\<close>

record arm_progress =
  ap_next_epoch :: int
  ap_elapsed_minutes :: pyfloat
  ap_epochs :: "pymap list"
  ap_checkpoints :: "pymap list"
  ap_seen :: "string set"
  ap_router_state :: "pymap option"
  ap_load_profile :: "pymap option"
  ap_consumed :: "string set option"
  ap_coverage_first_seen :: "pyfloat dict"
  ap_raw_value :: pyfloat
  ap_novel_value :: pyfloat
  ap_variant_records :: int

text \<open>\<open>sorted(...)\<close> of a set of texts.\<close>

definition sorted_texts :: "string set \<Rightarrow> string list" where
  "sorted_texts A = sorted_list_of_set A"

definition optional_map :: "pymap option \<Rightarrow> pyval" where
  "optional_map m = (case m of None \<Rightarrow> PNone | Some es \<Rightarrow> PMap es)"

definition build_arm_checkpoint ::
    "string \<Rightarrow> pyval dict \<Rightarrow> int \<Rightarrow> pyfloat \<Rightarrow> pymap list \<Rightarrow> pymap list \<Rightarrow> string list \<Rightarrow> pymap option \<Rightarrow> pymap option \<Rightarrow>
     string list \<Rightarrow> pyfloat dict \<Rightarrow> pyfloat \<Rightarrow> pyfloat \<Rightarrow> int \<Rightarrow> pyval dict" where
  "build_arm_checkpoint arm_key runtime_signature next_epoch elapsed_minutes epochs checkpoints novelty_seen router_state
     load_profile catalog_consumed coverage_first_seen raw_value_total novel_value_total variant_records_total =
     [(''schema_version'', PStr HARNESS_CHECKPOINT_SCHEMA_VERSION),
      (''arm_key'', PStr arm_key),
      (''completed_epochs'', PInt (int (length epochs))),
      (''runtime_signature'', map_value runtime_signature),
      (''state'', map_value
        [(''next_epoch'', PInt next_epoch),
         (''elapsed_minutes'', PFloat (round_decimals elapsed_minutes 6)),
         (''epochs'', PList (map PMap epochs)),
         (''checkpoints'', PList (map PMap checkpoints)),
         (''novelty_seen'', PList (map PStr (sort novelty_seen))),
         (''router_state'', optional_map router_state),
         (''load_profile'', optional_map load_profile),
         (''catalog_consumed'', PList (map PStr (sort catalog_consumed))),
         (''coverage_first_seen'', map_value (map (\<lambda>(k, x). (k, PFloat x)) coverage_first_seen)),
         (''raw_value_total'', PFloat (round_decimals raw_value_total 6)),
         (''novel_value_total'', PFloat (round_decimals novel_value_total 6)),
         (''variant_records_total'', PInt variant_records_total)])]"

text \<open>The call at the end of an epoch.\<close>

definition checkpoint_of :: "string \<Rightarrow> pyval dict \<Rightarrow> arm_progress \<Rightarrow> pyval dict" where
  "checkpoint_of arm_key runtime_signature p =
     build_arm_checkpoint arm_key runtime_signature (ap_next_epoch p) (ap_elapsed_minutes p) (ap_epochs p) (ap_checkpoints p)
       (sorted_texts (ap_seen p)) (ap_router_state p) (ap_load_profile p)
       (case ap_consumed p of None \<Rightarrow> [] | Some c \<Rightarrow> sorted_texts c)
       (ap_coverage_first_seen p) (ap_raw_value p) (ap_novel_value p) (ap_variant_records p)"

definition arm_runtime_signature ::
    "string \<Rightarrow> string \<Rightarrow> int \<Rightarrow> bool \<Rightarrow> int \<Rightarrow> bool \<Rightarrow> string \<Rightarrow> string \<Rightarrow> string \<Rightarrow> string option \<Rightarrow> pyval dict" where
  "arm_runtime_signature arm_key adapter_type worker_count use_router frontier_max_lanes variant_catalog_enabled
     goal_id agent_id item_failure_policy episode_mode =
     [(''arm_key'', PStr arm_key),
      (''adapter_type'', PStr adapter_type),
      (''worker_count'', PInt (max 1 worker_count)),
      (''use_router'', PBool use_router),
      (''frontier_max_lanes'', PInt (max 0 frontier_max_lanes)),
      (''variant_catalog_enabled'', PBool variant_catalog_enabled),
      (''goal_id'', PStr goal_id),
      (''agent_id'', PStr agent_id),
      (''item_failure_policy'', PStr item_failure_policy),
      (''episode_mode'', py_opt_str episode_mode)]"

section \<open>Resuming\<close>

text \<open>\<open>str(key)\<close> of a key, and \<open>dict(value)\<close> of a mapping or nothing.\<close>

definition key_str :: "(pyval \<Rightarrow> string) \<Rightarrow> pykey \<Rightarrow> string" where
  "key_str str_of k = (case k of KStr s \<Rightarrow> s | KOther \<Rightarrow> str_of POther)"

definition map_or_none :: "pyval \<Rightarrow> pymap option" where
  "map_or_none v = (case v of PMap m \<Rightarrow> Some m | _ \<Rightarrow> None)"

definition restore_consumed :: "(pyval \<Rightarrow> string) \<Rightarrow> pyval list \<Rightarrow> string set" where
  "restore_consumed str_of spec_ids = {t \<in> set (map (py_text str_of) spec_ids). strip t \<noteq> []}"

text \<open>The local variables restored from an accepted state.  The catalog is present or not.\<close>

definition restore_progress :: "texts \<Rightarrow> bool \<Rightarrow> pymap \<Rightarrow> arm_progress res" where
  "restore_progress T has_catalog state =
     rbind (rmap (\<lambda>(family, minutes). rbind (to_float minutes) (\<lambda>x. Inr (key_str (tx_str T) family, x)))
       (entries_of (map_get state ''coverage_first_seen''))) (\<lambda>coverage.
     rbind (float_or_zero (map_get state ''raw_value_total'')) (\<lambda>raw.
     rbind (float_or_zero (map_get state ''novel_value_total'')) (\<lambda>novel.
     rbind (int_or_zero (map_get state ''variant_records_total'')) (\<lambda>variants.
     rbind (to_int (map_get state ''next_epoch'')) (\<lambda>next_epoch.
     rbind (float_or_zero (map_get state ''elapsed_minutes'')) (\<lambda>elapsed.
     Inr \<lparr>ap_next_epoch = next_epoch, ap_elapsed_minutes = elapsed,
          ap_epochs = map entries_of (items_of (map_get state ''epochs'')),
          ap_checkpoints = map entries_of (items_of (map_get state ''checkpoints'')),
          ap_seen = set (map (py_text (tx_str T)) (items_of (map_get state ''novelty_seen''))),
          ap_router_state = map_or_none (map_get state ''router_state''),
          ap_load_profile = map_or_none (map_get state ''load_profile''),
          ap_consumed = (if has_catalog
            then Some (restore_consumed (tx_str T) (items_of (map_get state ''catalog_consumed''))) else None),
          ap_coverage_first_seen = dict_of coverage,
          ap_raw_value = raw, ap_novel_value = novel, ap_variant_records = variants\<rparr>))))))"

definition resume_arm :: "texts \<Rightarrow> files \<Rightarrow> file_path \<Rightarrow> pyval dict \<Rightarrow> bool \<Rightarrow> arm_progress res" where
  "resume_arm T fs path runtime_signature has_catalog =
     rbind (load_arm_checkpoint T fs path runtime_signature) (restore_progress T has_catalog)"

end
