(* ===== verification/Checkpoint_Properties.thy ===== *)
theory Checkpoint_Properties
  imports Harness_Checkpoint
begin

text \<open>
  The restart contract: replacing a checkpoint is atomic for every process that may read it, an arm
  that resumes has the progress that was written, and what an accepted checkpoint guarantees.
\<close>

section \<open>Atomic replacement\<close>

definition temporary_path :: "file_path \<Rightarrow> file_path" where
  "temporary_path path = (fst path, ''.'' @ snd path @ ''.tmp'')"

lemma temporary_path_neq [simp]: "temporary_path path \<noteq> path" "path \<noteq> temporary_path path"
proof -
  have "length (snd (temporary_path path)) > length (snd path)" by (simp add: temporary_path_def)
  then show "temporary_path path \<noteq> path" "path \<noteq> temporary_path path" by auto
qed

text \<open>Files in which the checkpoint is the previous one or the complete new document, and in which
  nothing else but the temporary file differs.\<close>

definition old_or_new :: "string option \<Rightarrow> file_path \<Rightarrow> pyval dict \<Rightarrow> files \<Rightarrow> files \<Rightarrow> bool" where
  "old_or_new kt path payload old fs \<longleftrightarrow>
     (fs path = old path \<or> (\<exists>doc. jsonify kt (map_value payload) = Inr doc \<and> fs path = Some (Document doc))) \<and>
     (\<forall>q. q \<noteq> path \<longrightarrow> q \<noteq> temporary_path path \<longrightarrow> fs q = old q)"

definition atomic_so_far :: "string option \<Rightarrow> file_path \<Rightarrow> pyval dict \<Rightarrow> disk \<Rightarrow> disk \<Rightarrow> bool" where
  "atomic_so_far kt path payload d0 d \<longleftrightarrow>
     old_or_new kt path payload (dk_files d0) (dk_files d) \<and>
     (\<exists>new. dk_seen d = dk_seen d0 @ new \<and> list_all (old_or_new kt path payload (dk_files d0)) new)"

lemma keeps_io [keeps_intros]:
  assumes "\<And>fs. old_or_new kt path payload (dk_files d0) fs \<Longrightarrow> old_or_new kt path payload (dk_files d0) (f fs)"
  shows "keeps (atomic_so_far kt path payload d0) (io f)"
  using assms unfolding keeps_wp atomic_so_far_def by (auto simp: Let_def)

lemma temporary_update: "old_or_new kt path payload old fs \<Longrightarrow> old_or_new kt path payload old (fs(temporary_path path := c))"
  unfolding old_or_new_def by auto

lemma keeps_unlink [keeps_intros]:
  "keeps (atomic_so_far kt path payload d0) (unlink_file (temporary_path path))"
  unfolding unlink_file_def by (intro keeps_intros temporary_update)

lemma atomic_io:
  assumes "atomic_so_far kt path payload d0 d" "old_or_new kt path payload (dk_files d0) (f (dk_files d))"
  shows "wp (io f) (\<lambda>_ d'. atomic_so_far kt path payload d0 d' \<and> dk_files d' = f (dk_files d))
    (\<lambda>_. atomic_so_far kt path payload d0) d"
  using assms unfolding atomic_so_far_def by (auto simp: Let_def)

lemma atomic_temporary:
  assumes "atomic_so_far kt path payload d0 d"
  shows "wp (io (\<lambda>fs. fs(temporary_path path := c)))
    (\<lambda>_ d'. atomic_so_far kt path payload d0 d' \<and> dk_files d' = (dk_files d)(temporary_path path := c))
    (\<lambda>_. atomic_so_far kt path payload d0) d"
  using assms by (intro atomic_io temporary_update) (auto simp: atomic_so_far_def)

lemma atomic_replace:
  assumes d: "atomic_so_far kt path payload d0 d" "dk_files d (temporary_path path) = Some (Document doc)"
    and "jsonify kt (map_value payload) = Inr doc"
  shows "wp (replace_file (temporary_path path) path)
    (\<lambda>_ d'. atomic_so_far kt path payload d0 d' \<and> dk_files d' path = Some (Document doc))
    (\<lambda>_. atomic_so_far kt path payload d0) d"
proof -
  let ?f = "\<lambda>fs :: files. (fs(path := fs (temporary_path path)))(temporary_path path := None)"
  have "old_or_new kt path payload (dk_files d0) (?f (dk_files d))"
    using assms unfolding atomic_so_far_def old_or_new_def by auto
  from atomic_io[OF d(1), where f = ?f, OF this] show ?thesis
    unfolding replace_file_def by (rule wp_mono) (use d(2) in auto)
qed

text \<open>The replacement happens only with the complete document in the temporary file.\<close>

lemma publish_atomic:
  assumes I: "atomic_so_far kt path payload d0 d" and doc: "jsonify kt (map_value payload) = Inr doc"
  shows "wp (seq (write_document kt (temporary_path path) (map_value payload)) (replace_file (temporary_path path) path))
     (\<lambda>_ d'. atomic_so_far kt path payload d0 d' \<and> dk_files d' path = Some (Document doc))
     (\<lambda>_. atomic_so_far kt path payload d0) d"
proof -
  let ?I = "atomic_so_far kt path payload d0" and ?t = "temporary_path path"
  let ?Q = "\<lambda>_ d'. ?I d' \<and> dk_files d' path = Some (Document doc)" and ?E = "\<lambda>_. ?I"
  have w: "wp (io (\<lambda>fs. fs(?t \<mapsto> Document doc))) (\<lambda>_. wp (replace_file ?t path) ?Q ?E) ?E e" if "?I e" for e
    using atomic_temporary[OF that] by (rule wp_mono) (use atomic_replace[OF _ _ doc] in auto)
  have "wp (io (\<lambda>fs. fs(?t \<mapsto> NotJson))) (\<lambda>_. wp (io (\<lambda>fs. fs(?t \<mapsto> Document doc))) (\<lambda>_. wp (replace_file ?t path) ?Q ?E) ?E) ?E d"
    using atomic_temporary[OF I] by (rule wp_mono) (use w in auto)
  then show ?thesis
    unfolding write_document_def by (simp only: wp_seq wp_bnd wp_of_res doc sum.case)
qed

lemma unlink_keeps_checkpoint:
  assumes "atomic_so_far kt path payload d0 d" "dk_files d path = c"
  shows "wp (unlink_file (temporary_path path))
    (\<lambda>_ d'. atomic_so_far kt path payload d0 d' \<and> dk_files d' path = c \<and> dk_files d' (temporary_path path) = None)
    (\<lambda>_. atomic_so_far kt path payload d0) d"
  unfolding unlink_file_def using atomic_temporary[OF assms(1)] by (rule wp_mono) (use assms(2) in auto)

lemma write_arm_checkpoint_wp:
  "wp (write_arm_checkpoint kt path payload)
     (\<lambda>_ d'. atomic_so_far kt path payload d d' \<and> dk_files d' (temporary_path path) = None \<and>
        (\<exists>doc. jsonify kt (map_value payload) = Inr doc \<and> dk_files d' path = Some (Document doc)))
     (\<lambda>_. atomic_so_far kt path payload d) d"
proof -
  let ?I = "atomic_so_far kt path payload d" and ?t = "temporary_path path"
  let ?Q = "\<lambda>_ d'. ?I d' \<and> dk_files d' ?t = None \<and>
      (\<exists>doc. jsonify kt (map_value payload) = Inr doc \<and> dk_files d' path = Some (Document doc))"
  let ?work = "seq (write_document kt ?t (map_value payload)) (replace_file ?t path)"
  have start: "?I d" by (simp add: atomic_so_far_def old_or_new_def)
  have fin: "wp (finally_do ?work (unlink_file ?t)) ?Q (\<lambda>_. ?I) e" if e: "?I e" for e
  proof (cases "jsonify kt (map_value payload)")
    case (Inl x)
    have "wp (unlink_file ?t) (\<lambda>_. ?I) (\<lambda>_. ?I) e" using keeps_unlink e by (rule keepsD)
    with Inl show ?thesis by (simp add: write_document_def)
  next
    case (Inr doc)
    have q: "wp (unlink_file ?t) ?Q (\<lambda>_. ?I) f" if "?I f" "dk_files f path = Some (Document doc)" for f
      using unlink_keeps_checkpoint[OF that] by (rule wp_mono) (use Inr in auto)
    show ?thesis
      unfolding wp_finally_do
      using publish_atomic[OF e Inr] by (rule wp_mono) (use q keepsD[OF keeps_unlink] in auto)
  qed
  have "keeps ?I (mkdir_parents path)" unfolding mkdir_parents_def by (intro keeps_intros)
  from keepsD[OF this start] show ?thesis
    unfolding write_arm_checkpoint_def wp_seq wp_bnd wp_of_res
    by (rule wp_mono) (use fin in \<open>auto simp: with_name_def temporary_path_def\<close>)
qed

lemma load_depends: "fs path = fs' path \<Longrightarrow> load_arm_checkpoint T fs path sig = load_arm_checkpoint T fs' path sig"
  by (simp add: load_arm_checkpoint_def read_payload_def)

lemma old_or_new_load:
  assumes "old_or_new kt path payload old fs"
  shows "load_arm_checkpoint T fs path sig = load_arm_checkpoint T old path sig \<or>
    (\<exists>doc. jsonify kt (map_value payload) = Inr doc \<and>
       load_arm_checkpoint T fs path sig = load_arm_checkpoint T (old(path \<mapsto> Document doc)) path sig)"
  using assms unfolding old_or_new_def by (metis fun_upd_same load_depends)

text \<open>C23: a checkpoint is replaced atomically.  Whatever calls of the operating system fail, and after
  whichever call the process is killed, a process that loads the checkpoint gets what it got
  before the write, or what the complete new document gives; no torn document is ever under its
  name.  When the write returns, the new document is there, the temporary file is gone and
  no other file has changed.\<close>

theorem checkpoint_write_atomic:
  assumes w: "write_arm_checkpoint kt path payload d = (r, d')"
  shows "\<exists>new. dk_seen d' = dk_seen d @ new \<and>
    (\<forall>fs \<in> insert (dk_files d') (set new).
       load_arm_checkpoint T fs path sig = load_arm_checkpoint T (dk_files d) path sig \<or>
       (\<exists>doc. jsonify kt (map_value payload) = Inr doc \<and>
          load_arm_checkpoint T fs path sig = load_arm_checkpoint T ((dk_files d)(path \<mapsto> Document doc)) path sig)) \<and>
    (r = Inr () \<longrightarrow> (\<exists>doc. jsonify kt (map_value payload) = Inr doc \<and>
       dk_files d' = (dk_files d)(path \<mapsto> Document doc, temporary_path path := None)))"
proof -
  note wp = write_arm_checkpoint_wp[of kt path payload d]
  have at: "atomic_so_far kt path payload d d'"
    using wp w by (cases r) (auto simp: wp_def)
  then obtain new where new: "dk_seen d' = dk_seen d @ new" "list_all (old_or_new kt path payload (dk_files d)) new"
    and last: "old_or_new kt path payload (dk_files d) (dk_files d')"
    unfolding atomic_so_far_def by blast
  have "\<exists>doc. jsonify kt (map_value payload) = Inr doc \<and>
      dk_files d' = (dk_files d)(path \<mapsto> Document doc, temporary_path path := None)" if ok: "r = Inr ()"
  proof -
    obtain doc where doc: "jsonify kt (map_value payload) = Inr doc" "dk_files d' path = Some (Document doc)"
      "dk_files d' (temporary_path path) = None"
      using wp_valueD[OF wp w[unfolded ok]] by blast
    have "dk_files d' q = ((dk_files d)(path \<mapsto> Document doc, temporary_path path := None)) q" for q
      using last doc unfolding old_or_new_def by (cases q) auto
    with doc(1) show ?thesis by blast
  qed
  moreover have "\<forall>fs \<in> insert (dk_files d') (set new). old_or_new kt path payload (dk_files d) fs"
    using new(2) last by (auto simp: list_all_iff)
  ultimately show ?thesis using new(1) old_or_new_load by (intro exI[of _ new]) blast
qed

definition torn_disk :: disk where
  "torn_disk = \<lparr>dk_files = [([''run''], ''arm.json'') \<mapsto> Document (PMap [])], dk_faults = [False, False, True], dk_seen = []\<rparr>"

definition plain_texts :: texts where
  "plain_texts = \<lparr>tx_str = (\<lambda>_. []), tx_repr = (\<lambda>_. []), tx_path = (\<lambda>_. [])\<rparr>"

definition arm_path :: file_path where
  "arm_path = ([''run''], ''arm.json'')"

text \<open>The write of the temporary file fails half way.\<close>

theorem checkpoint_write_atomic_witness:
  "fst (write_arm_checkpoint None arm_path [(''k'', PInt 1)] torn_disk) = Inl OSError \<and>
   list_all (\<lambda>fs.
      load_arm_checkpoint plain_texts fs arm_path [] = load_arm_checkpoint plain_texts (dk_files torn_disk) arm_path [] \<or>
      load_arm_checkpoint plain_texts fs arm_path [] =
        load_arm_checkpoint plain_texts ((dk_files torn_disk)(arm_path \<mapsto> Document (PMap [(KStr ''k'', PInt 1)]))) arm_path [])
     (dk_seen (snd (write_arm_checkpoint None arm_path [(''k'', PInt 1)] torn_disk)))"
proof -
  let ?w = "write_arm_checkpoint None arm_path [(''k'', PInt 1)] torn_disk"
  obtain r d' where w: "?w = (r, d')" by (cases ?w)
  have r: "fst ?w = Inl OSError" by code_simp
  have j: "jsonify None (map_value [(''k'', PInt 1)]) = Inr (PMap [(KStr ''k'', PInt 1)])" by code_simp
  have "dk_seen torn_disk = []" by code_simp
  with checkpoint_write_atomic[OF w, of plain_texts "[]"] j r show ?thesis
    unfolding w by (auto simp: list_all_iff)
qed

section \<open>Round trip\<close>

text \<open>The progress of an arm as a document holds it, before the totals are rounded.\<close>

definition json_map :: "string option \<Rightarrow> pymap \<Rightarrow> pymap res" where
  "json_map kt m = rbind (json_entries kt m) (\<lambda>es. Inr (dict_of es))"

definition stored_progress :: "string option \<Rightarrow> arm_progress \<Rightarrow> arm_progress res" where
  "stored_progress kt p =
     rbind (rmap (json_map kt) (ap_epochs p)) (\<lambda>es.
     rbind (rmap (json_map kt) (ap_checkpoints p)) (\<lambda>cs.
     rbind (ropt (json_map kt) (ap_router_state p)) (\<lambda>rs.
     rbind (ropt (json_map kt) (ap_load_profile p)) (\<lambda>lp.
     Inr (p\<lparr>ap_epochs := es, ap_checkpoints := cs, ap_router_state := rs, ap_load_profile := lp\<rparr>)))))"

text \<open>The history of an arm between two epochs.\<close>

definition history_ok :: "arm_progress \<Rightarrow> bool" where
  "history_ok p \<longleftrightarrow>
     ap_next_epoch p = int (length (ap_epochs p)) + 1 \<and> length (ap_checkpoints p) = length (ap_epochs p) \<and>
     epoch_ids (map PMap (ap_epochs p)) = Inr [1..int (length (ap_epochs p))] \<and>
     epoch_ids (map PMap (ap_checkpoints p)) = Inr [1..int (length (ap_epochs p))]"

definition router_ok :: "texts \<Rightarrow> bool \<Rightarrow> arm_progress \<Rightarrow> bool" where
  "router_ok T use_router p \<longleftrightarrow> (use_router \<longrightarrow> is_router_state (tx_str T) (optional_map (ap_router_state p)))"

definition data_ok :: "arm_progress \<Rightarrow> bool" where
  "data_ok p \<longleftrightarrow> finite (ap_seen p) \<and> (\<forall>c. ap_consumed p = Some c \<longrightarrow> finite c) \<and>
     dict_wf (ap_coverage_first_seen p) \<and> isfinite (of_pyint (ap_variant_records p))"

text \<open>What the document keeps of it: totals to six decimals, and only ids that are not blank.\<close>

definition rounded :: "arm_progress \<Rightarrow> arm_progress" where
  "rounded p = p\<lparr>ap_elapsed_minutes := round_decimals (ap_elapsed_minutes p) 6,
     ap_raw_value := round_decimals (ap_raw_value p) 6, ap_novel_value := round_decimals (ap_novel_value p) 6,
     ap_consumed := map_option (\<lambda>c. {t \<in> c. strip t \<noteq> []}) (ap_consumed p)\<rparr>"

lemma jsonify_PMap: "jsonify kt (PMap m) = rbind (json_map kt m) (\<lambda>es. Inr (PMap es))"
  by (simp add: json_map_def rbind_def split: sum.splits)

lemma json_seq_maps: "rmap (json_map kt) ms = Inr es \<Longrightarrow> json_seq kt (map PMap ms) = Inr (map PMap es)"
  by (induction ms arbitrary: es) (auto simp: jsonify_PMap rbind_def split: sum.splits simp del: jsonify.simps(9))

lemma json_seq_texts [simp]: "json_seq kt (map PStr xs) = Inr (map PStr xs)"
  by (induction xs) auto

lemma jsonify_optional_map:
  "ropt (json_map kt) m = Inr m' \<Longrightarrow> jsonify kt (optional_map m) = Inr (optional_map m')"
  by (cases m) (auto simp: optional_map_def jsonify_PMap res_iff simp del: jsonify.simps(9))

lemma json_entries_coverage [simp]:
  "json_entries kt (map ((\<lambda>(k, v). (KStr k, v)) \<circ> (\<lambda>(k, x). (k, PFloat x))) c) =
   Inr (map ((\<lambda>(k, v). (KStr k, v)) \<circ> (\<lambda>(k, x). (k, PFloat x))) c)"
  by (induction c) auto

lemma coverage_keys:
  "dict_wf c \<Longrightarrow> distinct (map fst (map ((\<lambda>(k, v). (KStr k, v)) \<circ> (\<lambda>(k, x). (k, PFloat x))) c))"
  by (induction c) force+

abbreviation arm_signature where
  "arm_signature a ty w r l v g ag f e \<equiv> arm_runtime_signature a ty w r l v g ag f e"

lemma jsonify_signature:
  "jsonify kt (map_value (arm_signature a ty w r l v g ag f e)) = Inr (map_value (arm_signature a ty w r l v g ag f e))"
  by (rule jsonify_fixed(1)) (cases e; simp add: arm_runtime_signature_def map_value_def)

lemma jsonify_checkpoint:
  assumes "stored_progress kt p = Inr q" "dict_wf (ap_coverage_first_seen p)"
    and "jsonify kt (map_value sig) = Inr (map_value sig)"
  shows "jsonify kt (map_value (checkpoint_of a sig p)) = Inr (map_value (checkpoint_of a sig q))"
proof -
  obtain es cs rs lp where parts: "rmap (json_map kt) (ap_epochs p) = Inr es" "rmap (json_map kt) (ap_checkpoints p) = Inr cs"
      "ropt (json_map kt) (ap_router_state p) = Inr rs" "ropt (json_map kt) (ap_load_profile p) = Inr lp"
    and q: "q = p\<lparr>ap_epochs := es, ap_checkpoints := cs, ap_router_state := rs, ap_load_profile := lp\<rparr>"
    using assms(1) by (auto simp: stored_progress_def res_iff)
  have len: "length es = length (ap_epochs p)" using parts(1) by (rule rmap_Inr_length)
  show ?thesis
    using json_seq_maps[OF parts(1)] json_seq_maps[OF parts(2)] jsonify_optional_map[OF parts(3)]
      jsonify_optional_map[OF parts(4)] dict_of_distinct[OF coverage_keys[OF assms(2)]] assms(3)
    by (simp add: q checkpoint_of_def build_arm_checkpoint_def map_value_def dict_of_distinct len)
qed

text \<open>The entries of the state of a written checkpoint.\<close>

definition state_entries :: "arm_progress \<Rightarrow> pymap" where
  "state_entries q = entries_of (get (checkpoint_of [] [] q) ''state'')"

lemma checkpoint_fields [simp]:
  "map_get (entries_of (map_value (checkpoint_of a sig q))) ''schema_version'' = PStr HARNESS_CHECKPOINT_SCHEMA_VERSION"
  "map_get (entries_of (map_value (checkpoint_of a sig q))) ''arm_key'' = PStr a"
  "map_get (entries_of (map_value (checkpoint_of a sig q))) ''completed_epochs'' = PInt (int (length (ap_epochs q)))"
  "map_get (entries_of (map_value (checkpoint_of a sig q))) ''runtime_signature'' = map_value sig"
  "map_get (entries_of (map_value (checkpoint_of a sig q))) ''state'' = PMap (state_entries q)"
  by (simp_all add: checkpoint_of_def build_arm_checkpoint_def state_entries_def map_value_def map_get_def get_def)

lemma state_fields [simp]:
  "map_get (state_entries q) ''next_epoch'' = PInt (ap_next_epoch q)"
  "map_get (state_entries q) ''elapsed_minutes'' = PFloat (round_decimals (ap_elapsed_minutes q) 6)"
  "map_get (state_entries q) ''epochs'' = PList (map PMap (ap_epochs q))"
  "map_get (state_entries q) ''checkpoints'' = PList (map PMap (ap_checkpoints q))"
  "map_get (state_entries q) ''novelty_seen'' = PList (map PStr (sorted_texts (ap_seen q)))"
  "map_get (state_entries q) ''router_state'' = optional_map (ap_router_state q)"
  "map_get (state_entries q) ''load_profile'' = optional_map (ap_load_profile q)"
  "map_get (state_entries q) ''catalog_consumed'' =
     PList (map PStr (case ap_consumed q of None \<Rightarrow> [] | Some c \<Rightarrow> sorted_texts c))"
  "map_get (state_entries q) ''coverage_first_seen'' = map_value (map (\<lambda>(k, x). (k, PFloat x)) (ap_coverage_first_seen q))"
  "map_get (state_entries q) ''raw_value_total'' = PFloat (round_decimals (ap_raw_value q) 6)"
  "map_get (state_entries q) ''novel_value_total'' = PFloat (round_decimals (ap_novel_value q) 6)"
  "map_get (state_entries q) ''variant_records_total'' = PInt (ap_variant_records q)"
  by (simp_all add: checkpoint_of_def build_arm_checkpoint_def state_entries_def map_value_def map_get_def get_def
      sorted_texts_def sorted_sort_id split: option.splits)

lemma py_eq_scalars [simp]:
  "py_eq (PStr s) (PStr t) = (s = t)" "py_eq (PInt i) (PInt j) = (i = j)" "py_eq (PBool b) (PBool c) = (b = c)" "py_eq PNone PNone"
  by (auto simp: py_eq.simps)

lemma signature_matches:
  "signature_mismatches (entries_of (map_value (arm_signature a ty w r l v g ag f e))) (arm_signature a ty w r l v g ag f e) = []"
  by (cases e) (simp_all add: signature_mismatches_def arm_runtime_signature_def map_value_def map_get_def)

lemma check_identity_own:
  "check_identity T (entries_of (map_value (checkpoint_of a (arm_signature a ty w r l v g ag f e) q)))
     (arm_signature a ty w r l v g ag f e) = Inr ()"
proof -
  have "get (arm_signature a ty w r l v g ag f e) ''arm_key'' = PStr a" by (simp add: arm_runtime_signature_def get_def)
  moreover have "is_map (map_value d)" for d by (simp add: map_value_def)
  ultimately show ?thesis by (simp add: check_identity_def signature_matches Let_def)
qed

lemma numeric_or_Inr [simp]: "numeric_or msg (Inr x) = Inr x"
  by (simp add: numeric_or_def)

lemma rmap_coverage:
  "rmap (\<lambda>(_, minutes). to_float minutes) (map ((\<lambda>(k, v). (KStr k, v)) \<circ> (\<lambda>(k, x). (k, PFloat x))) c) = Inr (map snd c)"
  "rmap (\<lambda>(family, minutes). rbind (to_float minutes) (\<lambda>x. Inr (key_str str_of family, x)))
     (map ((\<lambda>(k, v). (KStr k, v)) \<circ> (\<lambda>(k, x). (k, PFloat x))) c) = Inr c"
  by (induction c) (auto simp: key_str_def)

lemma check_state_fields_own: "check_state_fields (state_entries q) = Inr ()"
proof -
  have "optional_map m = PNone \<or> is_map (optional_map m)" for m by (cases m) (simp_all add: optional_map_def)
  then show ?thesis
    by (simp add: check_state_fields_def LIST_FIELDS_def list_all_iff rmap_coverage map_value_def)
qed

lemma zero_or_not [simp]:
  "py_or (PInt i) (PInt 0) = PInt i"
  "to_float (py_or (PFloat x) (PFloat (Fin 0))) = Inr x"
  by (auto simp: py_or_def elim: feq.elims)

lemma check_history_own: "history_ok q \<Longrightarrow> check_history (entries_of (map_value (checkpoint_of a sig q))) (state_entries q) = Inr ()"
  by (simp add: check_history_def history_ok_def int_or_zero_def Let_def)

lemma check_totals_own:
  assumes "router_ok T r q" "isfinite (of_pyint (ap_variant_records q))"
  shows "check_totals T (state_entries q) (arm_signature a ty w r l v g ag f e) = Inr ()"
proof -
  have "truthy (get (arm_signature a ty w r l v g ag f e) ''use_router'') = r"
    by (simp add: arm_runtime_signature_def get_def)
  moreover have "to_float (py_or (PInt i) (PFloat (Fin 0))) = Inr (of_pyint i)" if "isfinite (of_pyint i)" for i
    using that by (simp add: py_or_def of_pyint_def)
  ultimately show ?thesis
    using assms by (simp add: check_totals_def TOTAL_FIELDS_def router_ok_def float_or_zero_def)
qed

lemma restore_own:
  assumes "data_ok q"
  shows "restore_progress T (ap_consumed q \<noteq> None) (state_entries q) = Inr (rounded q)"
proof -
  have "map_or_none (optional_map m) = m" for m by (cases m) (simp_all add: map_or_none_def optional_map_def)
  moreover have "dict_of (ap_coverage_first_seen q) = ap_coverage_first_seen q"
    using assms by (simp add: data_ok_def dict_of_distinct)
  moreover have "set (sorted_texts A) = A" if "finite A" for A using that by (simp add: sorted_texts_def)
  moreover have "map (entries_of \<circ> PMap) ms = ms" for ms by (induction ms) auto
  ultimately show ?thesis
    using assms
    by (cases "ap_consumed q")
      (auto simp: restore_progress_def rounded_def data_ok_def float_or_zero_def int_or_zero_def rmap_coverage map_value_def
        restore_consumed_def py_text_def image_image)
qed

text \<open>C24: a checkpoint restores the progress it was made from.  When the history of an arm is
  contiguous and its records can be written as JSON, the write at the end of an epoch succeeds if no
  call fails, and an arm with the same signature that resumes has this progress again: the same
  next epoch, history, seen keys, router state, load profile, coverage and variant count, with
  tuples read back as lists, the totals rounded to six decimals and blank consumed ids dropped.\<close>

theorem checkpoint_roundtrip:
  assumes "snd path \<noteq> []" "dk_faults d = []"
    and q: "stored_progress kt p = Inr q" "history_ok q" "router_ok T r q" "data_ok q"
  shows "\<exists>d'. write_arm_checkpoint kt path (checkpoint_of a (arm_runtime_signature a ty w r l v g ag f e) p) d = (Inr (), d') \<and>
    resume_arm T (dk_files d') path (arm_runtime_signature a ty w r l v g ag f e) (ap_consumed p \<noteq> None) = Inr (rounded q)"
proof -
  let ?sig = "arm_runtime_signature a ty w r l v g ag f e"
  let ?doc = "map_value (checkpoint_of a ?sig q)"
  have same: "ap_consumed p = ap_consumed q" "dict_wf (ap_coverage_first_seen p)"
    using q(1,4) by (auto simp: stored_progress_def res_iff data_ok_def)
  have doc: "jsonify kt (map_value (checkpoint_of a ?sig p)) = Inr ?doc"
    by (rule jsonify_checkpoint[OF q(1) same(2) jsonify_signature])
  have "\<exists>d'. write_arm_checkpoint kt path (checkpoint_of a ?sig p) d = (Inr (), d') \<and> dk_files d' path = Some (Document ?doc)"
  proof -
    obtain d' where w: "write_arm_checkpoint kt path (checkpoint_of a ?sig p) d = (Inr (), d')"
      using assms(1,2) doc
      by (auto simp: write_arm_checkpoint_def write_document_def mkdir_parents_def replace_file_def unlink_file_def
          with_name_def seq_def bnd_def of_res_def io_def finally_do_def attempt_def Let_def)
    from wp_valueD[OF write_arm_checkpoint_wp w] doc w show ?thesis by auto
  qed
  then obtain d' where d': "write_arm_checkpoint kt path (checkpoint_of a ?sig p) d = (Inr (), d')"
    "dk_files d' path = Some (Document (PMap (entries_of ?doc)))" by (auto simp: map_value_def)
  have "load_arm_checkpoint T (dk_files d') path ?sig = Inr (state_entries q)"
    using q(4) check_identity_own check_state_fields_own check_history_own[OF q(2)] check_totals_own[OF q(3)]
    by (simp add: load_arm_checkpoint_def read_payload_def d'(2) data_ok_def Let_def)
  then show ?thesis
    using d'(1) restore_own[OF q(4), of T] unfolding same(1) resume_arm_def by simp
qed

definition example_progress :: arm_progress where
  "example_progress =
     \<lparr>ap_next_epoch = 2, ap_elapsed_minutes = Fin 0, ap_epochs = [[(KStr ''epoch'', PInt 1), (KStr ''lanes'', PTuple [])]],
      ap_checkpoints = [[(KStr ''epoch'', PInt 1)]], ap_seen = {''k''}, ap_router_state = None, ap_load_profile = None,
      ap_consumed = Some {''v1''}, ap_coverage_first_seen = [(''family'', Fin 0)], ap_raw_value = Fin 0,
      ap_novel_value = Fin 0, ap_variant_records = 0\<rparr>"

definition empty_disk :: disk where
  "empty_disk = \<lparr>dk_files = Map.empty, dk_faults = [], dk_seen = []\<rparr>"

theorem checkpoint_roundtrip_witness:
  "\<exists>d'. write_arm_checkpoint None arm_path
      (checkpoint_of ''arm'' (arm_runtime_signature ''arm'' ''A'' 2 False 1 True ''goal'' ''agent'' ''record'' None) example_progress)
      empty_disk = (Inr (), d') \<and>
    resume_arm plain_texts (dk_files d') arm_path
      (arm_runtime_signature ''arm'' ''A'' 2 False 1 True ''goal'' ''agent'' ''record'' None) True =
      Inr (rounded (example_progress\<lparr>ap_epochs := [[(KStr ''epoch'', PInt 1), (KStr ''lanes'', PList [])]]\<rparr>))"
proof -
  let ?q = "example_progress\<lparr>ap_epochs := [[(KStr ''epoch'', PInt 1), (KStr ''lanes'', PList [])]]\<rparr>"
  have 1: "snd arm_path \<noteq> []" "dk_faults empty_disk = []" by (simp_all add: arm_path_def empty_disk_def)
  have 2: "stored_progress None example_progress = Inr ?q"
    by (simp add: stored_progress_def example_progress_def json_map_def dict_of_def)
  have 3: "history_ok ?q" "router_ok plain_texts False ?q" "data_ok ?q"
    by (simp_all add: history_ok_def router_ok_def data_ok_def example_progress_def epoch_ids_def int_or_zero_def
        map_get_def py_or_def of_pyint_def)
  have 4: "(ap_consumed example_progress \<noteq> None) = True" by (simp add: example_progress_def)
  from checkpoint_roundtrip[OF 1 2 3] show ?thesis unfolding 4 by blast
qed

section \<open>What an accepted checkpoint guarantees\<close>

text \<open>The text and number of the values that were checked.\<close>

lemma numeric_or_Inr_iff [res_iff]: "numeric_or msg r = Inr x \<longleftrightarrow> r = Inr x"
  by (auto simp: numeric_or_def split: sum.splits exn.splits)

lemma load_Inr:
  assumes "load_arm_checkpoint T fs path sig = Inr state"
  obtains payload where "fs path = Some (Document (PMap payload))" "check_identity T payload sig = Inr ()"
    "check_state_fields state = Inr ()" "check_history payload state = Inr ()" "check_totals T state sig = Inr ()"
  using assms
  by (auto simp: load_arm_checkpoint_def read_payload_def res_iff Let_def split: option.splits content.splits pyval.splits)

text \<open>A history that passed is the one of a progress between epochs.\<close>

lemma epoch_ids_entries: "list_all is_map vs \<Longrightarrow> map PMap (map entries_of vs) = vs"
proof (induction vs)
  case (Cons v vs)
  then show ?case by (cases v) auto
qed simp

lemma state_fields_lists:
  assumes "check_state_fields state = Inr ()"
  shows "list_all is_map (items_of (map_get state ''epochs''))" "list_all is_map (items_of (map_get state ''checkpoints''))"
    and "\<exists>xs. rmap (\<lambda>(_, minutes). to_float minutes) (entries_of (map_get state ''coverage_first_seen'')) = Inr xs"
  using assms by (auto simp: check_state_fields_def res_iff)

lemma resume_keeps_history:
  assumes "load_arm_checkpoint T fs path sig = Inr state" "restore_progress T has_catalog state = Inr p"
  shows "history_ok p"
proof -
  from assms(1) obtain payload where
    f: "check_state_fields state = Inr ()" and h: "check_history payload state = Inr ()" by (rule load_Inr)
  let ?es = "items_of (map_get state ''epochs'')" and ?cs = "items_of (map_get state ''checkpoints'')"
  have maps: "map PMap (map entries_of ?es) = ?es" "map PMap (map entries_of ?cs) = ?cs"
    using state_fields_lists[OF f] by (blast intro: epoch_ids_entries)+
  have ids: "epoch_ids ?es = Inr [1..int (length ?es)]" "epoch_ids ?cs = Inr [1..int (length ?es)]"
    "length ?cs = length ?es" "int_or_zero (map_get state ''next_epoch'') = Inr (int (length ?es) + 1)"
    using h by (auto simp: check_history_def res_iff Let_def)
  have "to_int (map_get state ''next_epoch'') = Inr (int (length ?es) + 1)"
    using ids(4) by (auto simp: int_or_zero_def py_or_def split: if_splits)
  then show ?thesis
    using assms(2) ids maps by (auto simp: restore_progress_def res_iff history_ok_def)
qed

lemma resume_keeps_router:
  assumes "check_totals T state sig = Inr ()" "restore_progress T has_catalog state = Inr p"
  shows "router_ok T (truthy (get sig ''use_router'')) p"
proof -
  have "optional_map (map_or_none v) = v" if "is_map v" for v
    using that by (cases v) (simp_all add: map_or_none_def optional_map_def)
  moreover have "ap_router_state p = map_or_none (map_get state ''router_state'')"
    using assms(2) by (auto simp: restore_progress_def res_iff)
  moreover have "is_map v" if "is_router_state s v" for s v using that by (simp add: is_router_state_def)
  ultimately show ?thesis
    using assms(1) by (auto simp: router_ok_def check_totals_def res_iff)
qed

lemma identity_signature:
  assumes "check_identity T payload sig = Inr ()"
  shows "\<forall>(key, expected) \<in> set sig. py_eq (map_get (entries_of (map_get payload ''runtime_signature'')) key) expected"
  using assms by (auto simp: check_identity_def signature_mismatches_def res_iff Let_def filter_empty_conv)

text \<open>An arm resumes only from a checkpoint of its own kind.  The stored runtime signature agrees
  with the arm's in every key, the epochs and checkpoints are numbered from 1 without a gap, the next
  epoch is the one after them, and a router arm gets a router state.\<close>

theorem resume_sound:
  assumes "resume_arm T fs path sig has_catalog = Inr p"
  shows "history_ok p \<and> router_ok T (truthy (get sig ''use_router'')) p \<and>
    (\<exists>payload. fs path = Some (Document (PMap payload)) \<and>
      (\<forall>(key, expected) \<in> set sig. py_eq (map_get (entries_of (map_get payload ''runtime_signature'')) key) expected))"
proof -
  obtain state where s: "load_arm_checkpoint T fs path sig = Inr state" "restore_progress T has_catalog state = Inr p"
    using assms by (auto simp: resume_arm_def res_iff)
  from s(1) obtain payload where "fs path = Some (Document (PMap payload))" "check_identity T payload sig = Inr ()"
    "check_totals T state sig = Inr ()" by (rule load_Inr)
  then show ?thesis
    using resume_keeps_history[OF s] resume_keeps_router[OF _ s(2)] identity_signature by blast
qed

definition stored_files :: "pyval \<Rightarrow> files" where
  "stored_files variant_records_total = [arm_path \<mapsto> Document (map_value
     [(''schema_version'', PStr HARNESS_CHECKPOINT_SCHEMA_VERSION), (''arm_key'', PStr ''arm''), (''completed_epochs'', PInt 1),
      (''runtime_signature'', map_value [(''arm_key'', PStr ''arm'')]),
      (''state'', map_value
        [(''next_epoch'', PInt 2), (''epochs'', PList [map_value [(''epoch'', PInt 1)]]),
         (''checkpoints'', PList [map_value [(''epoch'', PInt 1)]]), (''novelty_seen'', PList [PStr ''k'']),
         (''catalog_consumed'', PList []), (''coverage_first_seen'', PMap []),
         (''variant_records_total'', variant_records_total)])])]"

abbreviation stored_state :: "pyval \<Rightarrow> pymap" where
  "stored_state v \<equiv> (case load_arm_checkpoint plain_texts (stored_files v) arm_path [(''arm_key'', PStr ''arm'')] of
     Inl e \<Rightarrow> [] | Inr state \<Rightarrow> state)"

theorem resume_sound_witness:
  "\<exists>p. resume_arm plain_texts (stored_files (PInt 0)) arm_path [(''arm_key'', PStr ''arm'')] False = Inr p \<and>
     ap_next_epoch p = 2 \<and> history_ok p"
proof -
  let ?r = "resume_arm plain_texts (stored_files (PInt 0)) arm_path [(''arm_key'', PStr ''arm'')] False"
  have "case ?r of Inl e \<Rightarrow> False | Inr p \<Rightarrow> ap_next_epoch p = 2" by code_simp
  then obtain p where p: "?r = Inr p" "ap_next_epoch p = 2" by (auto split: sum.splits)
  with resume_sound[OF p(1)] show ?thesis by blast
qed

text \<open>After the loader has accepted a state, resuming fails only in one place: when the count of
  variant records has no integer value, which the loader does not check.\<close>

theorem resume_fails_iff:
  assumes "load_arm_checkpoint T fs path sig = Inr state"
  shows "restore_progress T has_catalog state = Inl e \<longleftrightarrow> int_or_zero (map_get state ''variant_records_total'') = Inl e"
proof -
  from assms obtain payload where f: "check_state_fields state = Inr ()" and h: "check_history payload state = Inr ()"
    and t: "check_totals T state sig = Inr ()" by (rule load_Inr)
  obtain xs where xs: "rmap (\<lambda>(_, minutes). to_float minutes) (entries_of (map_get state ''coverage_first_seen'')) = Inr xs"
    using state_fields_lists(3)[OF f] by blast
  have "\<exists>c. rmap (\<lambda>(family, minutes). rbind (to_float minutes) (\<lambda>x. Inr (key_str (tx_str T) family, x)))
      (entries_of (map_get state ''coverage_first_seen'')) = Inr c"
  proof (rule rmap_total)
    fix entry assume "entry \<in> set (entries_of (map_get state ''coverage_first_seen''))"
    from rmap_Inr_each[OF xs this]
    show "\<exists>y. (case entry of (family, minutes) \<Rightarrow> rbind (to_float minutes) (\<lambda>x. Inr (key_str (tx_str T) family, x))) = Inr y"
      by (cases entry) auto
  qed
  moreover have "\<exists>x. float_or_zero (map_get state k) = Inr x" if "k \<in> set TOTAL_FIELDS" for k
  proof -
    from t obtain ys where ys: "rmap (\<lambda>field. numeric_or (''resume checkpoint state.'' @ field @ '' must be numeric'')
       (float_or_zero (map_get state field))) TOTAL_FIELDS = Inr ys" by (auto simp: check_totals_def res_iff)
    from rmap_Inr_each[OF this that] show ?thesis by (auto simp: res_iff)
  qed
  moreover have "\<exists>n. to_int (map_get state ''next_epoch'') = Inr n"
    using h by (auto simp: check_history_def res_iff Let_def int_or_zero_def py_or_def split: if_splits)
  ultimately obtain c raw novel elapsed n where
    "rmap (\<lambda>(family, minutes). rbind (to_float minutes) (\<lambda>x. Inr (key_str (tx_str T) family, x)))
      (entries_of (map_get state ''coverage_first_seen'')) = Inr c"
    "float_or_zero (map_get state ''raw_value_total'') = Inr raw" "float_or_zero (map_get state ''novel_value_total'') = Inr novel"
    "float_or_zero (map_get state ''elapsed_minutes'') = Inr elapsed" "to_int (map_get state ''next_epoch'') = Inr n"
    by (force simp: TOTAL_FIELDS_def)
  then show ?thesis
    by (simp add: restore_progress_def rbind_def split: sum.splits)
qed

theorem resume_fails_iff_witness:
  "load_arm_checkpoint plain_texts (stored_files (PFloat NaN)) arm_path [(''arm_key'', PStr ''arm'')] =
     Inr (stored_state (PFloat NaN)) \<and>
   restore_progress plain_texts False (stored_state (PFloat NaN)) = Inl (ValueError ''cannot convert float NaN to integer'')"
proof -
  let ?l = "load_arm_checkpoint plain_texts (stored_files (PFloat NaN)) arm_path [(''arm_key'', PStr ''arm'')]"
  have l: "case ?l of Inl e \<Rightarrow> False | Inr state \<Rightarrow>
      int_or_zero (map_get state ''variant_records_total'') = Inl (ValueError ''cannot convert float NaN to integer'')"
    by code_simp
  then obtain state where s: "?l = Inr state" by (auto split: sum.splits)
  then show ?thesis using resume_fails_iff[OF s, of False] l by simp
qed

text \<open>The errors of the conversions.\<close>

definition load_error :: "exn \<Rightarrow> bool" where
  "load_error e = (case e of ValueError _ \<Rightarrow> True | OverflowError _ \<Rightarrow> True | _ \<Rightarrow> False)"

definition converts :: "'a res \<Rightarrow> bool" where
  "converts r = (case r of Inr _ \<Rightarrow> True | Inl e \<Rightarrow> load_error e \<or> (\<exists>m. e = TypeError m))"

lemma to_int_converts: "converts (to_int v)" and to_float_converts: "converts (to_float v)"
  by (cases v; auto simp: converts_def load_error_def split: option.splits pyfloat.splits)+

lemma converts_rmap: "(\<And>x. converts (f x)) \<Longrightarrow> converts (rmap f xs)"
proof (cases "rmap f xs")
  case (Inl e)
  assume f: "converts (f x)" for x
  from rmap_Inl[OF Inl] obtain x where "f x = Inl e" by blast
  with Inl f[of x] show ?thesis by (simp add: converts_def)
qed (simp add: converts_def)

lemma converts_rbind: "converts r \<Longrightarrow> (\<And>x. converts (f x)) \<Longrightarrow> converts (rbind r f)"
  by (cases r) (auto simp: converts_def)

lemma numeric_or_Inl: "numeric_or msg r = Inl e \<Longrightarrow> converts r \<Longrightarrow> load_error e"
  by (auto simp: numeric_or_def converts_def load_error_def split: sum.splits exn.splits)

lemma load_error_ValueError [simp]: "load_error (ValueError m)"
  by (simp add: load_error_def)

lemma check_identity_errors: "check_identity T payload sig = Inl e \<Longrightarrow> load_error e"
  by (auto simp: check_identity_def rbind_Inl check_Inl Let_def)

lemma check_state_fields_errors: "check_state_fields state = Inl e \<Longrightarrow> load_error e"
  unfolding check_state_fields_def
  by (auto simp: rbind_Inl check_Inl dest!: rmap_Inl
      intro: numeric_or_Inl[OF _ converts_rmap] simp: to_float_converts split: prod.splits)

lemma check_history_errors: "check_history payload state = Inl e \<Longrightarrow> load_error e"
proof -
  have n: "converts (int_or_zero v)" for v by (simp add: int_or_zero_def to_int_converts)
  have ids: "converts (epoch_ids vs)" for vs unfolding epoch_ids_def by (intro converts_rmap n)
  have pair: "converts (rbind (epoch_ids es) (\<lambda>ns. rbind (epoch_ids cs) (\<lambda>cs. Inr (ns, cs))))" for es cs
    by (intro converts_rbind ids) (simp add: converts_def)
  show "check_history payload state = Inl e \<Longrightarrow> load_error e"
    unfolding check_history_def
    by (auto simp: rbind_Inl check_Inl Let_def dest: numeric_or_Inl[OF _ n] numeric_or_Inl[OF _ pair] split: prod.splits)
qed

lemma check_totals_errors: "check_totals T state sig = Inl e \<Longrightarrow> load_error e"
proof -
  have n: "converts (float_or_zero v)" for v by (simp add: float_or_zero_def to_float_converts)
  show "check_totals T state sig = Inl e \<Longrightarrow> load_error e"
    unfolding check_totals_def by (auto simp: rbind_Inl check_Inl dest!: rmap_Inl dest: numeric_or_Inl[OF _ n])
qed

text \<open>A checkpoint that cannot be resumed from is refused with a \<open>ValueError\<close> that says why, or
  with the \<open>OverflowError\<close> of a number too large to convert, which the loader does not catch.\<close>

theorem load_error_classes:
  assumes "load_arm_checkpoint T fs path sig = Inl e"
  shows "(\<exists>m. e = ValueError m) \<or> (\<exists>m. e = OverflowError m)"
proof -
  have "load_error x" if "read_payload T fs path = Inl x" for x
    using that by (auto simp: read_payload_def split: option.splits content.splits pyval.splits)
  then have "load_error e"
    using assms unfolding load_arm_checkpoint_def
    by (auto simp: rbind_Inl check_Inl Let_def dest: check_identity_errors check_state_fields_errors check_history_errors check_totals_errors)
  then show ?thesis by (auto simp: load_error_def split: exn.splits)
qed

definition endless_files :: files where
  "endless_files = [arm_path \<mapsto> Document (map_value
     [(''schema_version'', PStr HARNESS_CHECKPOINT_SCHEMA_VERSION), (''completed_epochs'', PFloat PInf),
      (''runtime_signature'', PMap []),
      (''state'', map_value
        [(''epochs'', PList []), (''checkpoints'', PList []), (''novelty_seen'', PList []),
         (''catalog_consumed'', PList []), (''coverage_first_seen'', PMap [])])])]"

theorem load_error_classes_witness:
  "\<exists>e. load_arm_checkpoint plain_texts endless_files arm_path [] = Inl e \<and> (\<forall>m. e \<noteq> ValueError m) \<and>
     (\<exists>m. e = OverflowError m)"
proof -
  have l: "load_arm_checkpoint plain_texts endless_files arm_path [] =
      Inl (OverflowError ''cannot convert float infinity to integer'')" by code_simp
  from load_error_classes[OF l] l show ?thesis by blast
qed

end
