(* ===== verification/Harness_Frontier.thy ===== *)
theory Harness_Frontier
  imports Harness_Checkpoint Py_Sort
begin

text \<open>
  \<open>src/loopx/capabilities/explore/harness_runtime.py\<close>: the novelty ledger that credits first-seen
  observations, the catalog of variant specs with its consumption file, the choice of the frontier
  work of an epoch, the requests published for the experiment agent, and the two planners of the
  queue.

  The ledger is its set of seen keys.  The consumption file and the catalog file are files of the
  disk of \<open>Json_Disk\<close>; the catalog object is its two paths and the set \<open>consumed\<close>, which
  holds texts.  Parameters: the SHA-1 prefix of a family, \<open>compile_variant\<close> of the adapter, which
  only computes the item, and the plan of the worker-branch planner, of which the no-prune planner
  uses the order only.  Priorities and gains are not NaN, so that they order.
\<close>

section \<open>The novelty ledger\<close>

definition DEFAULT_OBSERVATION_WEIGHT :: pyfloat where
  "DEFAULT_OBSERVATION_WEIGHT = Fin 1"

text \<open>Iterating over a value, and the items of a mapping.\<close>

fun py_iter :: "pyval \<Rightarrow> pyval list res" where
  "py_iter (PList xs) = Inr xs"
| "py_iter (PTuple xs) = Inr xs"
| "py_iter (PStr s) = Inr (map (\<lambda>c. PStr [c]) s)"
| "py_iter (PMap m) = Inr (map (\<lambda>(k, _). case k of KStr s \<Rightarrow> PStr s | KOther \<Rightarrow> POther) m)"
| "py_iter _ = Inl (TypeError ''object is not iterable'')"

fun as_map :: "pyval \<Rightarrow> pymap res" where
  "as_map (PMap m) = Inr m"
| "as_map _ = Inl (AttributeError ''object has no such attribute'')"

definition iter_or_empty :: "pyval \<Rightarrow> pyval list res" where
  "iter_or_empty v = py_iter (py_or v (PList []))"

definition map_or_empty :: "pyval \<Rightarrow> pymap res" where
  "map_or_empty v = as_map (py_or v (PMap []))"

text \<open>One key or flag: credited with its weight unless it has been seen.\<close>

definition credit_key :: "string \<Rightarrow> pyfloat \<times> int \<Rightarrow> (string set, pyfloat \<times> int) act" where
  "credit_key key acc = (\<lambda>seen.
     if key \<in> seen then (Inr acc, seen)
     else (Inr (fadd (fst acc) DEFAULT_OBSERVATION_WEIGHT, snd acc + 1), insert key seen))"

text \<open>The flag is marked as seen before its weight is converted.\<close>

definition credit_flag :: "string \<Rightarrow> pyval \<Rightarrow> pyfloat \<times> int \<Rightarrow> (string set, pyfloat \<times> int) act" where
  "credit_flag pseudo weight acc = (\<lambda>seen.
     if pseudo \<in> seen then (Inr acc, seen)
     else (rbind (to_float weight) (\<lambda>w. Inr (fadd (fst acc) w, snd acc)), insert pseudo seen))"

fun fold_act :: "('x \<Rightarrow> 'a \<Rightarrow> ('s, 'a) act) \<Rightarrow> 'x list \<Rightarrow> 'a \<Rightarrow> ('s, 'a) act" where
  "fold_act f [] acc = ret acc"
| "fold_act f (x # xs) acc = bnd (f x acc) (fold_act f xs)"

definition text_or :: "(pyval \<Rightarrow> string) \<Rightarrow> pyval \<Rightarrow> string \<Rightarrow> string" where
  "text_or str_of v fallback = py_text str_of (py_or v (PStr fallback))"

definition flag_key :: "string \<Rightarrow> string \<Rightarrow> string" where
  "flag_key family flag = ''flag:'' @ family @ '':'' @ flag"

text \<open>Returns the novel value and the number of novel observation keys.\<close>

definition credit :: "(pyval \<Rightarrow> string) \<Rightarrow> pyval dict \<Rightarrow> (string set, pyfloat \<times> int) act" where
  "credit str_of record =
     (let family = text_or str_of (get record ''family'') ''general'' in
      bnd (of_res (iter_or_empty (get record ''observation_keys''))) (\<lambda>keys.
      bnd (fold_act (\<lambda>key. credit_key (py_text str_of key)) keys (Fin 0, 0)) (\<lambda>acc.
      bnd (of_res (map_or_empty (get record ''weighted_flags''))) (\<lambda>flags.
      fold_act (\<lambda>(flag, weight). credit_flag (flag_key family (key_str str_of flag)) weight) flags acc))))"

section \<open>Frontier gain\<close>

definition ends_with :: "string \<Rightarrow> string \<Rightarrow> bool" where
  "ends_with suffix s = (length suffix \<le> length s \<and> drop (length s - length suffix) s = suffix)"

definition family_stats :: "(pyval \<Rightarrow> string) \<Rightarrow> pyval \<Rightarrow> string \<Rightarrow> pymap" where
  "family_stats str_of router_state family =
     (case (case router_state of PMap m \<Rightarrow> map_get m ''families'' | _ \<Rightarrow> PNone) of
       PMap families \<Rightarrow>
         (case map_get families family of
            PMap exact \<Rightarrow> exact
          | _ \<Rightarrow> (case find (\<lambda>(key, value). is_map value \<and> ends_with (''/'' @ family) (key_str str_of key)) families of
                  Some (_, value) \<Rightarrow> entries_of value
                | None \<Rightarrow> []))
     | _ \<Rightarrow> [])"

text \<open>\<open>min(a, x)\<close>: the first argument unless the second is less.\<close>

definition fmin_first :: "pyfloat \<Rightarrow> pyfloat \<Rightarrow> pyfloat" where
  "fmin_first a x = (if fless x a then x else a)"

definition frontier_gain :: "(pyval \<Rightarrow> string) \<Rightarrow> pyval \<Rightarrow> string \<Rightarrow> int \<Rightarrow> pyfloat res" where
  "frontier_gain str_of router_state family epoch =
     (let stats = family_stats str_of router_state family in
      rbind (float_or_zero (map_get stats ''runs'')) (\<lambda>runs.
      rbind (if fle runs (Fin 0) then Inr (fadd (Fin 1) (Fin (5 / 4)))
             else
               rbind (if map_get stats ''novelty_rate'' = PNone then Inr (Fin 1)
                      else rbind (to_float (map_get stats ''novelty_rate'')) (\<lambda>rate.
                        Inr (fadd (Fin 1) (fmin_first (Fin (5 / 4)) (fmul (fmax0 rate) (Fin (5 / 4))))))) (\<lambda>score.
               if map_get stats ''accept_rate_ema'' = PNone then Inr score
               else rbind (to_float (map_get stats ''accept_rate_ema'')) (\<lambda>rate.
                 Inr (if fle rate (Fin (1 / 2)) then fadd score (Fin (1 / 4)) else score)))) (\<lambda>score.
      rbind (to_float (PInt (max 0 (epoch - 1)))) (\<lambda>age.
      Inr (round_decimals (fadd score (fmin_first (Fin (1 / 2)) (fmul age (rnd (3 / 100))))) 4)))))"

section \<open>The variant catalog\<close>

record VariantCatalog =
  vc_catalog_path :: file_path
  vc_consumption_path :: file_path
  vc_consumed :: "string set"

text \<open>The catalog object and the disk its methods read and write.\<close>

type_synonym catalog_state = "VariantCatalog \<times> disk"

definition on_disk :: "(disk, 'a) act \<Rightarrow> (catalog_state, 'a) act" where
  "on_disk m = (\<lambda>(c, d). case m d of (r, d') \<Rightarrow> (r, (c, d')))"

definition spec_text :: "(pyval \<Rightarrow> string) \<Rightarrow> pymap \<Rightarrow> string" where
  "spec_text str_of spec = py_text str_of (map_get spec ''spec_id'')"

definition specs :: "VariantCatalog \<Rightarrow> files \<Rightarrow> pymap list res" where
  "specs c fs =
     rbind (read_json fs (vc_catalog_path c)) (\<lambda>payload.
     rbind (iter_or_empty (case payload of PMap m \<Rightarrow> map_get m ''specs'' | _ \<Rightarrow> PNone)) (\<lambda>raw.
     rbind (rmap as_map raw) (\<lambda>ms.
     Inr (filter (\<lambda>spec. truthy (map_get spec ''spec_id'')) ms))))"

definition pending_for :: "(pyval \<Rightarrow> string) \<Rightarrow> string \<Rightarrow> catalog_state \<Rightarrow> pymap list res" where
  "pending_for str_of family = (\<lambda>(c, d).
     rbind (specs c (dk_files d)) (\<lambda>ss.
     Inr (filter (\<lambda>spec. text_or_empty str_of (map_get spec ''seed_family'') = family \<and>
                         spec_text str_of spec \<notin> vc_consumed c) ss)))"

definition pending_count :: "(pyval \<Rightarrow> string) \<Rightarrow> catalog_state \<Rightarrow> int res" where
  "pending_count str_of = (\<lambda>(c, d).
     rbind (specs c (dk_files d)) (\<lambda>ss.
     Inr (int (length (filter (\<lambda>spec. spec_text str_of spec \<notin> vc_consumed c) ss)))))"

definition text_list :: "string set \<Rightarrow> pyval" where
  "text_list A = PList (map PStr (sorted_texts A))"

text \<open>Write the consumption file as the set now is.\<close>

definition write_consumed :: "(catalog_state, unit) act" where
  "write_consumed = (\<lambda>(c, d). on_disk (write_json None (vc_consumption_path c) (text_list (vc_consumed c))) (c, d))"

definition consume :: "string \<Rightarrow> (catalog_state, unit) act" where
  "consume spec_id =
     seq (modify (\<lambda>(c, d). (c\<lparr>vc_consumed := insert spec_id (vc_consumed c)\<rparr>, d))) write_consumed"

definition catalog_restore :: "(pyval \<Rightarrow> string) \<Rightarrow> pyval list \<Rightarrow> (catalog_state, unit) act" where
  "catalog_restore str_of spec_ids =
     seq (modify (\<lambda>(c, d). (c\<lparr>vc_consumed := restore_consumed str_of spec_ids\<rparr>, d))) write_consumed"

section \<open>Choosing frontier work\<close>

record frontier_env =
  fe_str_of :: "pyval \<Rightarrow> string"
  fe_hash :: "string \<Rightarrow> int"
  fe_compile_variant :: "pymap \<Rightarrow> pyval dict \<Rightarrow> pyval dict res"

text \<open>The first seed item of each family, in order.\<close>

definition by_family :: "(pyval \<Rightarrow> string) \<Rightarrow> pyval dict list \<Rightarrow> (string \<times> pyval dict) list" where
  "by_family str_of seed_items =
     fold (\<lambda>item d. let family = text_or_empty str_of (get item ''family'') in
             if family \<noteq> [] \<and> family \<notin> fst ` set d then d @ [(family, item)] else d) seed_items []"

text \<open>The sort keys: tuples are compared at the first place where they differ.\<close>

fun rank_less :: "pyfloat \<times> int \<times> string \<Rightarrow> pyfloat \<times> int \<times> string \<Rightarrow> bool" where
  "rank_less (g, h, f) (g', h', f') =
     (if \<not> feq g g' then fless g g' else if h \<noteq> h' then h < h' else f < f')"

fun priority_less :: "pyfloat \<times> string \<Rightarrow> pyfloat \<times> string \<Rightarrow> bool" where
  "priority_less (p, i) (q, j) = (if \<not> feq p q then fless p q else i < j)"

definition sort_on :: "('k \<Rightarrow> 'k \<Rightarrow> bool) \<Rightarrow> ('a \<Rightarrow> 'k res) \<Rightarrow> 'a list \<Rightarrow> 'a list res" where
  "sort_on lt key xs =
     rbind (rmap (\<lambda>x. rbind (key x) (\<lambda>k. Inr (k, x))) xs) (\<lambda>keyed.
     Inr (map snd (stable_sort (\<lambda>a b. lt (fst a) (fst b)) keyed)))"

definition ranked_families ::
    "frontier_env \<Rightarrow> pyval \<Rightarrow> int \<Rightarrow> pyval dict list \<Rightarrow> (string \<times> pyval dict) list res" where
  "ranked_families F router_state epoch seed_items =
     sort_on rank_less
       (\<lambda>(family, _). rbind (frontier_gain (fe_str_of F) router_state family epoch) (\<lambda>gain.
          Inr (fneg gain, (fe_hash F family * (2 * epoch + 1)) mod 1000003, family)))
       (by_family (fe_str_of F) seed_items)"

definition pending_order :: "(pyval \<Rightarrow> string) \<Rightarrow> pymap list \<Rightarrow> pymap list res" where
  "pending_order str_of =
     sort_on priority_less (\<lambda>spec. rbind (float_or_zero (map_get spec ''priority'')) (\<lambda>priority.
       Inr (fneg priority, spec_text str_of spec)))"

text \<open>The defaults the harness gives to the item the adapter compiled.\<close>

definition variant_item :: "(pyval \<Rightarrow> string) \<Rightarrow> string \<Rightarrow> pymap \<Rightarrow> pyval dict \<Rightarrow> pyval dict \<Rightarrow> pyval dict" where
  "variant_item str_of family spec seed item =
     dict_setdefault ''concurrency_key'' (PStr (family @ '':variant:'' @ spec_text str_of spec))
     (dict_setdefault ''seed_item_id'' (get seed ''item_id'')
     (dict_setdefault ''family'' (PStr family)
     (dict_setdefault ''variant_spec'' (PMap spec)
     (dict_setdefault ''is_variant'' (PBool True) item))))"

record audit_spec =
  au_spec_id :: pyval
  au_seed_family :: string
  au_intent :: pyval
  au_gain :: pyfloat

fun admit_specs ::
    "frontier_env \<Rightarrow> pyval \<Rightarrow> int \<Rightarrow> int \<Rightarrow> (string \<times> pyval dict) list \<Rightarrow> pyval dict list \<Rightarrow> audit_spec list \<Rightarrow>
     (catalog_state, pyval dict list \<times> audit_spec list) act" where
  "admit_specs F router_state epoch max_lanes [] selected audit = ret (selected, audit)"
| "admit_specs F router_state epoch max_lanes ((family, seed) # ranked) selected audit =
     (if max 0 max_lanes \<le> int (length selected) then ret (selected, audit)
      else
        bnd (gets (pending_for (fe_str_of F) family)) (\<lambda>r.
        bnd (of_res r) (\<lambda>unordered.
        bnd (of_res (pending_order (fe_str_of F) unordered)) (\<lambda>pending.
        case pending of
          [] \<Rightarrow> admit_specs F router_state epoch max_lanes ranked selected audit
        | spec # _ \<Rightarrow>
            bnd (of_res (fe_compile_variant F spec seed)) (\<lambda>item.
            seq (consume (spec_text (fe_str_of F) spec))
            (bnd (of_res (frontier_gain (fe_str_of F) router_state family epoch)) (\<lambda>gain.
             admit_specs F router_state epoch max_lanes ranked
               (selected @ [variant_item (fe_str_of F) family spec seed item])
               (audit @ [\<lparr>au_spec_id = map_get spec ''spec_id'', au_seed_family = family,
                          au_intent = map_get spec ''intent'', au_gain = gain\<rparr>]))))))))"

record frontier_audit =
  fa_requested_lanes :: int
  fa_admitted :: int
  fa_catalog_pending_after :: int
  fa_specs :: "audit_spec list"

definition select_frontier_work ::
    "frontier_env \<Rightarrow> pyval dict list \<Rightarrow> pyval \<Rightarrow> int \<Rightarrow> int \<Rightarrow> (catalog_state, pyval dict list \<times> frontier_audit) act" where
  "select_frontier_work F seed_items router_state epoch max_lanes =
     bnd (of_res (ranked_families F router_state epoch seed_items)) (\<lambda>ranked.
     bnd (admit_specs F router_state epoch max_lanes ranked [] []) (\<lambda>(selected, audit_specs).
     bnd (gets (pending_count (fe_str_of F))) (\<lambda>r.
     bnd (of_res r) (\<lambda>pending_after.
     ret (selected, \<lparr>fa_requested_lanes = max_lanes, fa_admitted = int (length selected),
                     fa_catalog_pending_after = pending_after, fa_specs = audit_specs\<rparr>)))))"

section \<open>Requests for the experiment agent\<close>

definition FRONTIER_REQUESTS_SCHEMA_VERSION :: string where
  "FRONTIER_REQUESTS_SCHEMA_VERSION = ''loopx_explore_frontier_requests_v0''"

definition seen_sample :: "string set \<Rightarrow> string \<Rightarrow> int \<Rightarrow> string list" where
  "seen_sample seen family per_family_key_cap =
     take (nat (max 1 per_family_key_cap))
       (sorted_texts {key \<in> seen. \<not> starts_with ''flag:'' key \<or> starts_with (''flag:'' @ family @ '':'') key})"

record family_request =
  fq_family :: string
  fq_seed_item_id :: pyval
  fq_seed_text :: pyval
  fq_pending_spec_count :: int
  fq_frontier_gain :: pyfloat
  fq_seen_keys_sample :: "string list"

definition family_request_of ::
    "frontier_env \<Rightarrow> string set \<Rightarrow> pyval \<Rightarrow> int \<Rightarrow> int \<Rightarrow> catalog_state \<Rightarrow> string \<times> pyval dict \<Rightarrow> family_request res" where
  "family_request_of F seen router_state epoch cap st = (\<lambda>(family, item).
     rbind (pending_for (fe_str_of F) family st) (\<lambda>pending.
     rbind (frontier_gain (fe_str_of F) router_state family epoch) (\<lambda>gain.
     Inr \<lparr>fq_family = family, fq_seed_item_id = get item ''item_id'', fq_seed_text = get item ''text'',
          fq_pending_spec_count = int (length pending), fq_frontier_gain = gain,
          fq_seen_keys_sample = seen_sample seen family cap\<rparr>)))"

definition request_value :: "family_request \<Rightarrow> pyval" where
  "request_value q = map_value
     [(''family'', PStr (fq_family q)), (''seed_item_id'', fq_seed_item_id q), (''seed_text'', fq_seed_text q),
      (''pending_spec_count'', PInt (fq_pending_spec_count q)), (''frontier_gain'', PFloat (fq_frontier_gain q)),
      (''seen_keys_sample'', PList (map PStr (fq_seen_keys_sample q)))]"

definition HOW_TO_RESPOND :: string where
  "HOW_TO_RESPOND = ''Append specs to the variant catalog file: {spec_id, seed_family, '' @
     ''intent, ops (adapter-defined), key_prefix, priority}. The harness '' @
     ''schedules them by frontier gain; it never invents specs.''"

definition emit_frontier_requests ::
    "frontier_env \<Rightarrow> string option \<Rightarrow> file_path \<Rightarrow> string \<Rightarrow> int \<Rightarrow> pyval dict list \<Rightarrow> string set \<Rightarrow> pyval \<Rightarrow> int \<Rightarrow> (catalog_state, unit) act" where
  "emit_frontier_requests F kt path arm_key epoch seed_items seen router_state cap =
     bnd (gets (\<lambda>st. rmap (family_request_of F seen router_state epoch cap st) (by_family (fe_str_of F) seed_items))) (\<lambda>r.
     bnd (of_res r) (\<lambda>families.
     bnd (gets (pending_count (fe_str_of F))) (\<lambda>r.
     bnd (of_res r) (\<lambda>pending_total.
     on_disk (write_json kt path (map_value
       [(''schema_version'', PStr FRONTIER_REQUESTS_SCHEMA_VERSION), (''arm'', PStr arm_key), (''epoch'', PInt epoch),
        (''total_seen_keys'', PInt (int (card seen))), (''catalog_pending_total'', PInt pending_total),
        (''families'', PList (map request_value
           (stable_sort (\<lambda>a b. fless (fneg (fq_frontier_gain a)) (fneg (fq_frontier_gain b))) families))),
        (''how_to_respond'', PStr HOW_TO_RESPOND)]))))))"

section \<open>Planning the queue\<close>

definition plan_round_robin :: "pyval dict list \<Rightarrow> pyval dict list" where
  "plan_round_robin seed_items = seed_items"

text \<open>The items by their id, and the items whose id is taken.\<close>

definition split_duplicates ::
    "(pyval \<Rightarrow> string) \<Rightarrow> pyval dict list \<Rightarrow> (string \<times> pyval dict) list \<times> pyval dict list" where
  "split_duplicates str_of seed_items =
     fold (\<lambda>item (by_id, duplicates). let item_id = py_text str_of (get item ''item_id'') in
             if item_id \<in> fst ` set by_id then (by_id, duplicates @ [item]) else (by_id @ [(item_id, item)], duplicates))
       seed_items ([], [])"

definition item_todo :: "(pyval \<Rightarrow> string) \<Rightarrow> nat \<Rightarrow> string \<times> pyval dict \<Rightarrow> pyval dict" where
  "item_todo str_of index = (\<lambda>(item_id, item).
     [(''todo_id'', PStr item_id),
      (''text'', PStr (py_text str_of (py_or (get item ''text'') (get item ''item_id'')))),
      (''status'', PStr ''open''),
      (''task_class'', PStr ''advancement_task''),
      (''required_write_scopes'', PList [PStr (''artifacts/'' @ py_text str_of (get item ''family'') @ ''/**'')]),
      (''index'', PInt (int index))])"

text \<open>The ids of the branches of a plan, in order.\<close>

definition branch_ids :: "(pyval \<Rightarrow> string) \<Rightarrow> pymap \<Rightarrow> string \<Rightarrow> string list res" where
  "branch_ids str_of plan field =
     rbind (iter_or_empty (map_get plan field)) (\<lambda>branches.
     rbind (rmap (\<lambda>branch. rbind (as_map branch) (\<lambda>b. iter_or_empty (map_get b ''todo_ids''))) branches) (\<lambda>ids.
     Inr (map (py_text str_of) (concat ids))))"

text \<open>Take the named items that are known and not yet used.\<close>

definition take_ids ::
    "(string \<times> pyval dict) list \<Rightarrow> string list \<Rightarrow> pyval dict list \<times> string set \<Rightarrow> pyval dict list \<times> string set" where
  "take_ids by_id ids acc = fold (\<lambda>i (ordered, used).
     case map_of by_id i of
       Some item \<Rightarrow> if i \<in> used then (ordered, used) else (ordered @ [item], insert i used)
     | None \<Rightarrow> (ordered, used)) ids acc"

definition plan_router_no_prune ::
    "(pyval \<Rightarrow> string) \<Rightarrow> (pyval dict list \<Rightarrow> pymap res) \<Rightarrow> pyval dict list \<Rightarrow> pyval dict list res" where
  "plan_router_no_prune str_of build_plan seed_items =
     (let (by_id, duplicate_items) = split_duplicates str_of seed_items;
          todos = map (\<lambda>(index, entry). item_todo str_of index entry) (enumerate 0 by_id) in
      rbind (build_plan todos) (\<lambda>plan.
      rbind (branch_ids str_of plan ''selected_worker_branches'') (\<lambda>selected.
      rbind (branch_ids str_of plan ''rejected_worker_branches'') (\<lambda>rejected.
      let (ordered, used) = take_ids by_id (map fst by_id) (take_ids by_id rejected (take_ids by_id selected ([], {}))) in
      Inr (ordered @ duplicate_items)))))"

end
