(* ===== verification/Frontier_Properties.thy ===== *)
theory Frontier_Properties
  imports Harness_Frontier
begin

text \<open>
  The no-prune planner permutes its seeds, the novelty ledger credits every key once, and frontier
  work comes from pending specs only, each consumed when it is admitted.
\<close>

section \<open>Ordering without pruning\<close>

lemma split_duplicates_laws:
  assumes "split_duplicates str_of seed_items = (by_id, duplicates)"
  shows "distinct (map fst by_id)" "mset (map snd by_id) + mset duplicates = mset seed_items"
proof -
  have "distinct (map fst by_id) \<and> mset (map snd by_id) + mset duplicates = mset (map snd b) + mset ds + mset xs"
    if "distinct (map fst b)"
      and "fold (\<lambda>item (by_id, duplicates). let item_id = py_text str_of (get item ''item_id'') in
             if item_id \<in> fst ` set by_id then (by_id, duplicates @ [item]) else (by_id @ [(item_id, item)], duplicates))
            xs (b, ds) = (by_id, duplicates)" for xs b ds
    using that
  proof (induction xs arbitrary: b ds)
    case (Cons x xs)
    show ?case
    proof (cases "py_text str_of (get x ''item_id'') \<in> fst ` set b")
      case True
      with Cons.prems Cons.IH[of b "ds @ [x]"] show ?thesis by (simp add: ac_simps)
    next
      case False
      with Cons.prems Cons.IH[of "b @ [(py_text str_of (get x ''item_id''), x)]" ds] show ?thesis by (simp add: ac_simps)
    qed
  qed simp
  from this[of "[]" seed_items "[]"] assms
  show "distinct (map fst by_id)" "mset (map snd by_id) + mset duplicates = mset seed_items"
    by (simp_all add: split_duplicates_def)
qed

lemma filter_insert_key:
  assumes "distinct (map fst l)" "(i, x) \<in> set l" "i \<notin> U"
  shows "mset (filter (\<lambda>e. fst e \<in> insert i U) l) = add_mset (i, x) (mset (filter (\<lambda>e. fst e \<in> U) l))"
  using assms
proof (induction l)
  case (Cons e l)
  show ?case
  proof (cases "e = (i, x)")
    case True
    with Cons.prems have "i \<notin> fst ` set l" by auto
    then have "filter (\<lambda>e. fst e \<in> insert i U) l = filter (\<lambda>e. fst e \<in> U) l"
      by (intro filter_cong) auto
    with True Cons.prems show ?thesis by simp
  next
    case False
    with Cons.prems have "fst e \<noteq> i" by (auto simp: image_iff)
    with False Cons show ?thesis by auto
  qed
qed simp

text \<open>The items taken so far are those whose ids are used, each once.\<close>

definition taken :: "(string \<times> pyval dict) list \<Rightarrow> pyval dict list \<times> string set \<Rightarrow> bool" where
  "taken by_id acc \<longleftrightarrow> mset (fst acc) = mset (map snd (filter (\<lambda>e. fst e \<in> snd acc) by_id))"

lemma take_ids_laws:
  assumes "distinct (map fst by_id)" "taken by_id acc"
  shows "taken by_id (take_ids by_id ids acc) \<and> snd (take_ids by_id ids acc) = snd acc \<union> (set ids \<inter> fst ` set by_id)"
  using assms(2)
proof (induction ids arbitrary: acc)
  case Nil
  then show ?case by (simp add: take_ids_def)
next
  case (Cons i ids)
  obtain ordered used where acc: "acc = (ordered, used)" by (cases acc)
  define step where "step = (case map_of by_id i of
      Some item \<Rightarrow> if i \<in> used then (ordered, used) else (ordered @ [item], insert i used) | None \<Rightarrow> (ordered, used))"
  have "take_ids by_id (i # ids) acc = take_ids by_id ids step"
    by (simp add: take_ids_def acc step_def)
  moreover have "taken by_id step \<and> snd step = used \<union> ({i} \<inter> fst ` set by_id)"
  proof (cases "map_of by_id i")
    case None
    then have "i \<notin> fst ` set by_id" by (simp add: map_of_eq_None_iff)
    with None Cons.prems show ?thesis by (simp add: step_def acc)
  next
    case (Some item)
    then have mem: "(i, item) \<in> set by_id" by (rule map_of_SomeD)
    show ?thesis
    proof (cases "i \<in> used")
      case False
      have "mset (map snd (filter (\<lambda>e. fst e \<in> insert i used) by_id)) =
          add_mset item (mset (map snd (filter (\<lambda>e. fst e \<in> used) by_id)))"
        by (simp only: mset_map filter_insert_key[OF assms(1) mem False] image_mset_add_mset snd_conv)
      moreover have "i \<in> fst ` set by_id" using mem by force
      ultimately show ?thesis using Some False Cons.prems by (simp add: step_def acc taken_def insert_commute)
    next
      case True
      with Some Cons.prems show ?thesis by (auto simp: step_def acc)
    qed
  qed
  ultimately show ?case using Cons.IH[of step] by (auto simp: acc)
qed

text \<open>C25: sorting without pruning.  Whatever plan the worker-branch planner returns, and whatever ids
  it selects, rejects, repeats or invents, the queue is a permutation of the seed items: none is
  lost and none is doubled, malformed duplicates included.\<close>

theorem no_prune_permutation:
  assumes "plan_router_no_prune str_of build_plan seed_items = Inr ordered"
  shows "mset ordered = mset seed_items"
proof -
  obtain by_id duplicates where sd: "split_duplicates str_of seed_items = (by_id, duplicates)"
    by (cases "split_duplicates str_of seed_items")
  note laws = split_duplicates_laws[OF sd]
  obtain selected rejected where
    o: "ordered = fst (take_ids by_id (map fst by_id) (take_ids by_id rejected (take_ids by_id selected ([], {})))) @ duplicates"
    using assms by (auto simp: plan_router_no_prune_def sd res_iff Let_def case_prod_beta)
  have "taken by_id ([], {})" by (simp add: taken_def)
  then have t: "taken by_id (take_ids by_id rejected (take_ids by_id selected ([], {})))"
    using take_ids_laws[OF laws(1)] by blast
  let ?all = "take_ids by_id (map fst by_id) (take_ids by_id rejected (take_ids by_id selected ([], {})))"
  have "taken by_id ?all" "fst ` set by_id \<subseteq> snd ?all"
    using take_ids_laws[OF laws(1) t, of "map fst by_id"] by auto
  then have "filter (\<lambda>e. fst e \<in> snd ?all) by_id = by_id" by (intro filter_True) auto
  with \<open>taken by_id ?all\<close> have "mset (fst ?all) = mset (map snd by_id)" by (simp add: taken_def)
  then show ?thesis unfolding o using laws(2) by simp
qed

definition example_seeds :: "pyval dict list" where
  "example_seeds = [[(''item_id'', PStr ''a'')], [(''item_id'', PStr ''b'')], [(''item_id'', PStr ''a''), (''family'', PStr ''f'')]]"

definition example_plan :: pymap where
  "example_plan = [(KStr ''selected_worker_branches'', PList [PMap [(KStr ''todo_ids'', PList [PStr ''b'', PStr ''x'', PStr ''b''])]])]"

theorem no_prune_permutation_witness:
  "plan_router_no_prune (\<lambda>_. []) (\<lambda>_. Inr example_plan) example_seeds =
     Inr [[(''item_id'', PStr ''b'')], [(''item_id'', PStr ''a'')], [(''item_id'', PStr ''a''), (''family'', PStr ''f'')]] \<and>
   mset [[(''item_id'', PStr ''b'')], [(''item_id'', PStr ''a'')], [(''item_id'', PStr ''a''), (''family'', PStr ''f'')]] =
     mset example_seeds"
proof -
  have p: "plan_router_no_prune (\<lambda>_. []) (\<lambda>_. Inr example_plan) example_seeds =
     Inr [[(''item_id'', PStr ''b'')], [(''item_id'', PStr ''a'')], [(''item_id'', PStr ''a''), (''family'', PStr ''f'')]]"
    by code_simp
  with no_prune_permutation[OF p] show ?thesis by blast
qed

section \<open>Crediting novelty\<close>

text \<open>The keys and flags of a record, as the ledger names them.\<close>

definition observed :: "(pyval \<Rightarrow> string) \<Rightarrow> pyval dict \<Rightarrow> string set" where
  "observed str_of record = (case iter_or_empty (get record ''observation_keys'') of
     Inl _ \<Rightarrow> {} | Inr keys \<Rightarrow> set (map (py_text str_of) keys))"

definition flagged :: "(pyval \<Rightarrow> string) \<Rightarrow> pyval dict \<Rightarrow> string set" where
  "flagged str_of record = (case map_or_empty (get record ''weighted_flags'') of
     Inl _ \<Rightarrow> {} | Inr flags \<Rightarrow>
       set (map (\<lambda>(flag, _). flag_key (text_or str_of (get record ''family'') ''general'') (key_str str_of flag)) flags))"

lemma credit_key_steps:
  "key \<in> seen \<Longrightarrow> credit_key key acc seen = (Inr acc, seen)"
  "key \<notin> seen \<Longrightarrow> credit_key key acc seen = (Inr (fadd (fst acc) DEFAULT_OBSERVATION_WEIGHT, snd acc + 1), insert key seen)"
  by (simp_all add: credit_key_def)

lemma credit_flag_steps:
  "key \<in> seen \<Longrightarrow> credit_flag key weight acc seen = (Inr acc, seen)"
  "key \<notin> seen \<Longrightarrow> credit_flag key weight acc seen = (rbind (to_float weight) (\<lambda>w. Inr (fadd (fst acc) w, snd acc)), insert key seen)"
  by (simp_all add: credit_flag_def)

lemma credit_keys:
  "fold_act (\<lambda>key. credit_key (py_text str_of key)) keys (v, n) seen = (r, seen') \<Longrightarrow>
   seen' = seen \<union> set (map (py_text str_of) keys) \<and>
   (\<exists>v'. r = Inr (v', n + int (card (set (map (py_text str_of) keys) - seen))) \<and>
      (set (map (py_text str_of) keys) \<subseteq> seen \<longrightarrow> v' = v))"
proof (induction keys arbitrary: v n seen r)
  case Nil
  then show ?case by (simp add: ret_def)
next
  case (Cons k keys)
  let ?k = "py_text str_of k" and ?K = "set (map (py_text str_of) keys)"
  show ?case
  proof (cases "?k \<in> seen")
    case True
    with Cons.prems have "fold_act (\<lambda>key. credit_key (py_text str_of key)) keys (v, n) seen = (r, seen')"
      by (simp add: bnd_def credit_key_steps)
    from Cons.IH[OF this] True show ?thesis by (auto simp: insert_absorb)
  next
    case False
    with Cons.prems have "fold_act (\<lambda>key. credit_key (py_text str_of key)) keys
        (fadd v DEFAULT_OBSERVATION_WEIGHT, n + 1) (insert ?k seen) = (r, seen')"
      by (simp add: bnd_def credit_key_steps)
    note ih = Cons.IH[OF this]
    have "insert ?k ?K - seen = insert ?k (?K - insert ?k seen)" using False by auto
    then have "card (insert ?k ?K - seen) = Suc (card (?K - insert ?k seen))" by simp
    with ih False show ?thesis by auto
  qed
qed

lemma credit_flags:
  "fold_act (\<lambda>(flag, weight). credit_flag (name flag) weight) flags (v, n) seen = (Inr x, seen') \<Longrightarrow>
   seen' = seen \<union> set (map (\<lambda>(flag, _). name flag) flags) \<and> snd x = n \<and>
   (set (map (\<lambda>(flag, _). name flag) flags) \<subseteq> seen \<longrightarrow> x = (v, n))"
proof (induction flags arbitrary: v seen)
  case Nil
  then show ?case by (auto simp: ret_def)
next
  case (Cons f flags)
  obtain flag weight where f: "f = (flag, weight)" by (cases f)
  show ?case
  proof (cases "name flag \<in> seen")
    case True
    with Cons.prems have "fold_act (\<lambda>(flag, weight). credit_flag (name flag) weight) flags (v, n) seen = (Inr x, seen')"
      by (simp add: bnd_def credit_flag_steps f)
    from Cons.IH[OF this] True show ?thesis by (auto simp: f)
  next
    case False
    with Cons.prems obtain w where
      "fold_act (\<lambda>(flag, weight). credit_flag (name flag) weight) flags (fadd v w, n) (insert (name flag) seen) = (Inr x, seen')"
      by (cases "to_float weight") (auto simp: bnd_def credit_flag_steps f)
    from Cons.IH[OF this] False show ?thesis by (auto simp: f)
  qed
qed

lemma credit_flags_seen:
  "set (map (\<lambda>(flag, _). name flag) flags) \<subseteq> seen \<Longrightarrow>
   fold_act (\<lambda>(flag, weight). credit_flag (name flag) weight) flags acc seen = (Inr acc, seen)"
  by (induction flags) (auto simp: ret_def bnd_def credit_flag_steps)

lemma credit_result:
  assumes "credit str_of record seen = (Inr (v, n), seen')"
  shows "seen' = seen \<union> observed str_of record \<union> flagged str_of record \<and> n = int (card (observed str_of record - seen))"
proof -
  obtain keys where keys: "iter_or_empty (get record ''observation_keys'') = Inr keys"
    using assms by (cases "iter_or_empty (get record ''observation_keys'')") (auto simp: credit_def Let_def bnd_def of_res_def)
  obtain r1 seen1 where c1: "fold_act (\<lambda>key. credit_key (py_text str_of key)) keys (Fin 0, 0) seen = (r1, seen1)"
    by (cases "fold_act (\<lambda>key. credit_key (py_text str_of key)) keys (Fin 0, 0) seen")
  note k = credit_keys[OF c1]
  then obtain v1 where r1: "r1 = Inr (v1, int (card (observed str_of record - seen)))"
    by (auto simp: observed_def keys)
  obtain flags where flags: "map_or_empty (get record ''weighted_flags'') = Inr flags"
    using assms keys c1 r1 by (cases "map_or_empty (get record ''weighted_flags'')") (auto simp: credit_def Let_def bnd_def of_res_def)
  have "fold_act (\<lambda>(flag, weight). credit_flag (flag_key (text_or str_of (get record ''family'') ''general'') (key_str str_of flag)) weight)
      flags (v1, int (card (observed str_of record - seen))) seen1 = (Inr (v, n), seen')"
    using assms keys c1 r1 flags by (simp add: credit_def Let_def bnd_def of_res_def)
  from credit_flags[OF this] k show ?thesis by (simp add: observed_def flagged_def keys flags)
qed

lemma credit_seen:
  assumes "iter_or_empty (get record ''observation_keys'') = Inr keys" "map_or_empty (get record ''weighted_flags'') = Inr flags"
    and "observed str_of record \<subseteq> seen" "flagged str_of record \<subseteq> seen"
  shows "credit str_of record seen = (Inr (Fin 0, 0), seen)"
proof -
  obtain r1 seen1 where c1: "fold_act (\<lambda>key. credit_key (py_text str_of key)) keys (Fin 0, 0) seen = (r1, seen1)"
    by (cases "fold_act (\<lambda>key. credit_key (py_text str_of key)) keys (Fin 0, 0) seen")
  have obs: "set (map (py_text str_of) keys) \<subseteq> seen" using assms(1,3) by (simp add: observed_def)
  have "r1 = Inr (Fin 0, 0)" "seen1 = seen" using credit_keys[OF c1] obs by (auto simp: Diff_eq_empty_iff[THEN iffD2])
  then show ?thesis
    using assms credit_flags_seen[of _ flags seen "(Fin 0, 0)"] c1
    by (simp add: credit_def Let_def bnd_def of_res_def flagged_def)
qed


definition example_record :: "pyval dict" where
  "example_record = [(''family'', PStr ''f''), (''observation_keys'', PList [PStr ''k'', PStr ''k'']),
     (''weighted_flags'', PMap [(KStr ''crash'', PFloat (Fin 0))])]"


section \<open>Admitting frontier work\<close>

lemma wp_write_json:
  "wp (write_json kt p v)
     (\<lambda>_ d'. \<exists>doc. jsonify kt v = Inr doc \<and> dk_files d' = (dk_files d)(p \<mapsto> Document doc)) (\<lambda>_ _. True) d"
  by (cases "jsonify kt v") (auto simp: write_json_def write_document_def mkdir_parents_def Let_def)

lemma jsonify_text_list [simp]: "jsonify kt (text_list A) = Inr (text_list A)"
  by (rule jsonify_fixed(1)) (auto simp: text_list_def)

lemma wp_on_disk: "wp (on_disk m) Q E (c, d) = wp m (\<lambda>x d'. Q x (c, d')) (\<lambda>e d'. E e (c, d')) d"
  by (simp add: wp_def on_disk_def split: prod.splits)

text \<open>Consuming adds the id, to the set and to the consumption file.\<close>

lemma wp_consume:
  "wp (consume i)
     (\<lambda>_ st'. \<exists>d'. st' = (c\<lparr>vc_consumed := insert i (vc_consumed c)\<rparr>, d') \<and>
        dk_files d' = (dk_files d)(vc_consumption_path c \<mapsto> Document (text_list (insert i (vc_consumed c)))))
     (\<lambda>_ _. True) (c, d)"
proof -
  let ?c = "c\<lparr>vc_consumed := insert i (vc_consumed c)\<rparr>"
  have "wp write_consumed (\<lambda>_ st'. \<exists>d'. st' = (?c, d') \<and>
      dk_files d' = (dk_files d)(vc_consumption_path c \<mapsto> Document (text_list (insert i (vc_consumed c))))) (\<lambda>_ _. True) (?c, d)"
    unfolding write_consumed_def
    using wp_write_json[of None "vc_consumption_path c" "text_list (insert i (vc_consumed c))" d]
    by (simp add: wp_def on_disk_def split: prod.splits sum.splits)
  then show ?thesis by (simp add: consume_def)
qed

lemma rmap_keyed_snd: "rmap (\<lambda>x. rbind (key x) (\<lambda>k. Inr (k, x))) xs = Inr keyed \<Longrightarrow> map snd keyed = xs"
  by (induction xs arbitrary: keyed) (auto simp: res_iff rbind_def split: sum.splits)

lemma sort_on_mset: "sort_on lt key xs = Inr ys \<Longrightarrow> mset ys = mset xs"
  unfolding sort_on_def by (auto simp: res_iff mset_map dest!: rmap_keyed_snd)

lemma by_family_distinct: "distinct (map fst (by_family str_of seed_items))"
proof -
  have "distinct (map fst d) \<Longrightarrow> distinct (map fst (fold (\<lambda>item d. let family = text_or_empty str_of (get item ''family'') in
             if family \<noteq> [] \<and> family \<notin> fst ` set d then d @ [(family, item)] else d) xs d))" for xs d
    by (induction xs arbitrary: d) (auto simp: Let_def)
  from this[of "[]"] show ?thesis by (simp add: by_family_def)
qed

lemma ranked_distinct: "ranked_families F rs epoch seed_items = Inr ranked \<Longrightarrow> distinct (map fst ranked)"
proof -
  assume "ranked_families F rs epoch seed_items = Inr ranked"
  then have "mset ranked = mset (by_family (fe_str_of F) seed_items)"
    unfolding ranked_families_def by (rule sort_on_mset)
  then have "mset (map fst ranked) = mset (map fst (by_family (fe_str_of F) seed_items))" by (metis mset_map)
  then show ?thesis using by_family_distinct by (metis mset_eq_imp_distinct_iff)
qed

definition audit_ids :: "(pyval \<Rightarrow> string) \<Rightarrow> audit_spec list \<Rightarrow> string list" where
  "audit_ids str_of audit = map (\<lambda>a. py_text str_of (au_spec_id a)) audit"

text \<open>An audit entry names a spec of the catalog that had not been consumed before the epoch.\<close>

definition audited :: "(pyval \<Rightarrow> string) \<Rightarrow> pymap list \<Rightarrow> audit_spec \<Rightarrow> bool" where
  "audited str_of ss a \<longleftrightarrow> (\<exists>spec \<in> set ss. au_spec_id a = map_get spec ''spec_id'' \<and> au_intent a = map_get spec ''intent'' \<and>
     text_or_empty str_of (map_get spec ''seed_family'') = au_seed_family a)"

definition admitted :: "(pyval \<Rightarrow> string) \<Rightarrow> VariantCatalog \<Rightarrow> pymap list \<Rightarrow> int \<Rightarrow> pyval dict list \<Rightarrow> audit_spec list \<Rightarrow> catalog_state \<Rightarrow> bool" where
  "admitted str_of c0 ss max_lanes selected audit st \<longleftrightarrow>
     length audit = length selected \<and> int (length selected) \<le> max 0 max_lanes \<and>
     distinct (audit_ids str_of audit) \<and> set (audit_ids str_of audit) \<inter> vc_consumed c0 = {} \<and>
     (\<forall>a \<in> set audit. audited str_of ss a) \<and>
     fst st = c0\<lparr>vc_consumed := vc_consumed c0 \<union> set (audit_ids str_of audit)\<rparr> \<and>
     specs (fst st) (dk_files (snd st)) = Inr ss \<and>
     (audit \<noteq> [] \<longrightarrow> dk_files (snd st) (vc_consumption_path c0) =
        Some (Document (text_list (vc_consumed c0 \<union> set (audit_ids str_of audit)))))"

lemma specs_same: "fs (vc_catalog_path c) = fs' (vc_catalog_path c') \<Longrightarrow> vc_catalog_path c = vc_catalog_path c' \<Longrightarrow> specs c fs = specs c' fs'"
  by (simp add: specs_def read_json_def)

lemma consume_admits:
  assumes "admitted str_of c0 ss lanes selected audit st" "int (length selected) < max 0 lanes"
    and "vc_catalog_path c0 \<noteq> vc_consumption_path c0" "spec \<in> set ss" "spec_text str_of spec \<notin> vc_consumed (fst st)"
    and "text_or_empty str_of (map_get spec ''seed_family'') = family"
  shows "wp (consume (spec_text str_of spec))
    (\<lambda>_. admitted str_of c0 ss lanes (selected @ [item])
       (audit @ [\<lparr>au_spec_id = map_get spec ''spec_id'', au_seed_family = family, au_intent = map_get spec ''intent'', au_gain = gain\<rparr>]))
    (\<lambda>_ _. True) st"
proof -
  obtain c d where st: "st = (c, d)" by (cases st)
  let ?a = "\<lparr>au_spec_id = map_get spec ''spec_id'', au_seed_family = family, au_intent = map_get spec ''intent'', au_gain = gain\<rparr>"
  have c: "c = c0\<lparr>vc_consumed := vc_consumed c0 \<union> set (audit_ids str_of audit)\<rparr>" "specs c (dk_files d) = Inr ss"
    using assms(1) unfolding admitted_def st fst_conv snd_conv by blast+
  have new: "admitted str_of c0 ss lanes (selected @ [item]) (audit @ [?a]) (c\<lparr>vc_consumed := insert (spec_text str_of spec) (vc_consumed c)\<rparr>, d')"
    if "dk_files d' = (dk_files d)(vc_consumption_path c \<mapsto> Document (text_list (insert (spec_text str_of spec) (vc_consumed c))))" for d'
  proof -
    have "specs (c\<lparr>vc_consumed := insert (spec_text str_of spec) (vc_consumed c)\<rparr>) (dk_files d') = specs c (dk_files d)"
      using assms(3) by (intro specs_same) (simp_all add: that c(1))
    moreover have "audited str_of ss ?a" using assms(4,6) by (auto simp: audited_def)
    ultimately show ?thesis
      using assms(1,2,5) that c by (auto simp: admitted_def audit_ids_def spec_text_def st insert_commute)
  qed
  show ?thesis
    unfolding st by (rule wp_mono[OF wp_consume]) (use new in blast)+
qed

lemma admit_specs_wp:
  assumes "vc_catalog_path c0 \<noteq> vc_consumption_path c0"
  shows "admitted (fe_str_of F) c0 ss lanes selected audit st \<Longrightarrow> distinct (map au_seed_family audit @ map fst ranked) \<Longrightarrow>
    wp (admit_specs F rs epoch lanes ranked selected audit)
      (\<lambda>(sel, aud) st'. admitted (fe_str_of F) c0 ss lanes sel aud st' \<and> distinct (map au_seed_family aud)) (\<lambda>_ _. True) st"
proof (induction ranked arbitrary: selected audit st)
  case Nil
  then show ?case by simp
next
  case (Cons fam ranked)
  obtain family seed where fam: "fam = (family, seed)" by (cases fam)
  obtain c d where st: "st = (c, d)" by (cases st)
  have dist: "distinct (map au_seed_family audit @ map fst ranked)" using Cons.prems(2) by auto
  show ?case
  proof (cases "max 0 lanes \<le> int (length selected)")
    case True
    with Cons.prems show ?thesis by (simp add: fam)
  next
    case False
    define unordered where "unordered = filter (\<lambda>spec. text_or_empty (fe_str_of F) (map_get spec ''seed_family'') = family \<and>
        spec_text (fe_str_of F) spec \<notin> vc_consumed c) ss"
    have pend: "pending_for (fe_str_of F) family st = Inr unordered"
    proof -
      have "specs c (dk_files d) = Inr ss" using Cons.prems(1) unfolding admitted_def st fst_conv snd_conv by blast
      then show ?thesis by (simp add: pending_for_def st unordered_def)
    qed
    show ?thesis
    proof (cases "pending_order (fe_str_of F) unordered")
      case (Inl e)
      with False pend show ?thesis by (simp add: fam)
    next
      case (Inr pending)
      show ?thesis
      proof (cases pending)
        case Nil
        with False pend Inr Cons.IH[OF Cons.prems(1) dist] show ?thesis by (simp add: fam)
      next
        case (Cons spec rest)
        then have "spec \<in> set unordered"
          using sort_on_mset[OF Inr[unfolded pending_order_def]] by (metis list.set_intros(1) mset_eq_setD)
        then have spec: "spec \<in> set ss" "spec_text (fe_str_of F) spec \<notin> vc_consumed (fst st)"
          "text_or_empty (fe_str_of F) (map_get spec ''seed_family'') = family" by (auto simp: unordered_def st)
        have next_wp: "wp (consume (spec_text (fe_str_of F) spec))
            (\<lambda>_. wp (admit_specs F rs epoch lanes ranked (selected @ [item])
                (audit @ [\<lparr>au_spec_id = map_get spec ''spec_id'', au_seed_family = family, au_intent = map_get spec ''intent'', au_gain = gain\<rparr>]))
              (\<lambda>(sel, aud) st'. admitted (fe_str_of F) c0 ss lanes sel aud st' \<and> distinct (map au_seed_family aud)) (\<lambda>_ _. True))
            (\<lambda>_ _. True) st" for item gain
          using consume_admits[OF Cons.prems(1) _ assms spec, of item gain] False
          by (rule_tac wp_mono, simp) (use Cons.IH Cons.prems(2) in \<open>auto simp: fam\<close>)
        show ?thesis
          using False pend Inr Cons next_wp
          by (cases "frontier_gain (fe_str_of F) rs family epoch") (auto simp: fam wp_any split: sum.splits)
      qed
    qed
  qed
qed

text \<open>C27: frontier work is admitted within its lanes and from pending specs only.  At most the
  requested number of specs is chosen, at most one of each family; every one is a spec of the
  catalog for that family, none had been consumed before and none is chosen twice; all are consumed
  afterwards, in the object and in the consumption file.\<close>

theorem frontier_admission:
  assumes "select_frontier_work F seed_items rs epoch lanes (c, d) = (Inr (selected, audit), (c', d'))"
    and "vc_catalog_path c \<noteq> vc_consumption_path c" "specs c (dk_files d) = Inr ss"
  defines "ids \<equiv> map (\<lambda>a. py_text (fe_str_of F) (au_spec_id a)) (fa_specs audit)"
  shows "length (fa_specs audit) = length selected \<and> int (length selected) \<le> max 0 lanes \<and>
    distinct (map au_seed_family (fa_specs audit)) \<and> distinct ids \<and> set ids \<inter> vc_consumed c = {} \<and>
    (\<forall>a \<in> set (fa_specs audit). \<exists>spec \<in> set ss. au_spec_id a = map_get spec ''spec_id'' \<and>
       text_or_empty (fe_str_of F) (map_get spec ''seed_family'') = au_seed_family a) \<and>
    vc_consumed c' = vc_consumed c \<union> set ids \<and>
    (selected \<noteq> [] \<longrightarrow> dk_files d' (vc_consumption_path c) = Some (Document (text_list (vc_consumed c'))))"
proof -
  obtain ranked where ranked: "ranked_families F rs epoch seed_items = Inr ranked"
    using assms(1) by (cases "ranked_families F rs epoch seed_items") (auto simp: select_frontier_work_def bnd_def of_res_def)
  have start: "admitted (fe_str_of F) c ss lanes [] [] (c, d)" using assms(3) by (simp add: admitted_def audit_ids_def)
  have "wp (select_frontier_work F seed_items rs epoch lanes)
      (\<lambda>(sel, a) st. admitted (fe_str_of F) c ss lanes sel (fa_specs a) st \<and> distinct (map au_seed_family (fa_specs a))) (\<lambda>_ _. True) (c, d)"
    unfolding select_frontier_work_def wp_bnd wp_of_res ranked sum.case
    using admit_specs_wp[OF assms(2) start, of ranked rs epoch] ranked_distinct[OF ranked]
    by (rule_tac wp_mono, simp) (auto split: sum.splits)
  from wp_valueD[OF this assms(1)]
  have a: "admitted (fe_str_of F) c ss lanes selected (fa_specs audit) (c', d')" "distinct (map au_seed_family (fa_specs audit))"
    by auto
  have ids: "ids = audit_ids (fe_str_of F) (fa_specs audit)" by (simp add: ids_def audit_ids_def)
  have "\<exists>spec \<in> set ss. au_spec_id x = map_get spec ''spec_id'' \<and>
      text_or_empty (fe_str_of F) (map_get spec ''seed_family'') = au_seed_family x" if "audited (fe_str_of F) ss x" for x
    using that by (auto simp: audited_def)
  moreover have parts: "length (fa_specs audit) = length selected" "int (length selected) \<le> max 0 lanes" "distinct ids"
    "set ids \<inter> vc_consumed c = {}" "\<forall>x \<in> set (fa_specs audit). audited (fe_str_of F) ss x"
    "c' = c\<lparr>vc_consumed := vc_consumed c \<union> set ids\<rparr>"
    "fa_specs audit \<noteq> [] \<longrightarrow> dk_files d' (vc_consumption_path c) = Some (Document (text_list (vc_consumed c \<union> set ids)))"
    using a(1) unfolding admitted_def fst_conv snd_conv ids by blast+
  moreover have "vc_consumed c' = vc_consumed c \<union> set ids" using parts(6) by simp
  moreover have "selected \<noteq> [] \<Longrightarrow> fa_specs audit \<noteq> []" using parts(1) by auto
  ultimately show ?thesis using a(2) by simp
qed

text \<open>Two specs of the family of the only seed, one of them consumed in an earlier epoch.\<close>

definition example_catalog :: VariantCatalog where
  "example_catalog = \<lparr>vc_catalog_path = ([], ''catalog.json''), vc_consumption_path = ([], ''used.json''), vc_consumed = {''v1''}\<rparr>"

definition example_specs :: "pymap list" where
  "example_specs = [[(KStr ''spec_id'', PStr ''v1''), (KStr ''seed_family'', PStr ''f'')],
     [(KStr ''spec_id'', PStr ''v2''), (KStr ''seed_family'', PStr ''f'')]]"

definition example_catalog_disk :: disk where
  "example_catalog_disk = \<lparr>dk_files = [([], ''catalog.json'') \<mapsto> Document (PMap [(KStr ''specs'', PList (map PMap example_specs))])],
     dk_faults = [], dk_seen = []\<rparr>"

definition example_frontier :: frontier_env where
  "example_frontier = \<lparr>fe_str_of = (\<lambda>_. []), fe_hash = (\<lambda>_. 0), fe_compile_variant = (\<lambda>spec seed. Inr [])\<rparr>"

lemma example_selection:
  "\<exists>item gain c' d'. select_frontier_work example_frontier [[(''family'', PStr ''f'')]] PNone 1 2
       (example_catalog, example_catalog_disk) =
     (Inr ([item], \<lparr>fa_requested_lanes = 2, fa_admitted = 1, fa_catalog_pending_after = 0,
        fa_specs = [\<lparr>au_spec_id = PStr ''v2'', au_seed_family = ''f'', au_intent = PNone, au_gain = gain\<rparr>]\<rparr>), (c', d'))"
proof -
  obtain g where g: "frontier_gain (\<lambda>_. []) PNone ''f'' 1 = Inr g"
    by (auto simp: frontier_gain_def family_stats_def map_get_def float_or_zero_def py_or_def of_pyint_def fle_def)
  have ranked: "ranked_families example_frontier PNone 1 [[(''family'', PStr ''f'')]] = Inr [(''f'', [(''family'', PStr ''f'')])]"
    by (simp add: ranked_families_def sort_on_def by_family_def text_or_empty_def py_text_def py_or_def get_def g example_frontier_def Let_def)
  have specs: "specs c fs = Inr example_specs"
    if "vc_catalog_path c = ([], ''catalog.json'')" "fs ([], ''catalog.json'') = Some (Document (PMap [(KStr ''specs'', PList (map PMap example_specs))]))" for c fs
    using that by (simp add: specs_def read_json_def iter_or_empty_def py_or_def map_get_def example_specs_def)
  let ?c = "example_catalog\<lparr>vc_consumed := insert ''v2'' {''v1''}\<rparr>"
  have pend: "pending_for (\<lambda>_. []) ''f'' (example_catalog, example_catalog_disk) = Inr [example_specs ! 1]"
    using specs[of example_catalog "dk_files example_catalog_disk"]
    by (simp add: pending_for_def example_catalog_def example_catalog_disk_def)
      (simp add: example_specs_def text_or_empty_def py_text_def py_or_def map_get_def spec_text_def)
  have order: "pending_order (\<lambda>_. []) [example_specs ! 1] = Inr [example_specs ! 1]"
    by (simp add: pending_order_def sort_on_def example_specs_def float_or_zero_def map_get_def py_or_def)
  obtain d' where consume: "consume ''v2'' (example_catalog, example_catalog_disk) = (Inr (), (?c, d'))"
      "dk_files d' = (dk_files example_catalog_disk)(([], ''used.json'') \<mapsto> Document (text_list (insert ''v2'' {''v1''})))"
    using write_read_json[of None "text_list (insert ''v2'' {''v1''})" "text_list (insert ''v2'' {''v1''})" example_catalog_disk "([], ''used.json'')"]
    by (auto simp: consume_def seq_def modify_def write_consumed_def on_disk_def example_catalog_def example_catalog_disk_def bnd_def)
  have count: "pending_count (\<lambda>_. []) (?c, d') = Inr 0"
    using specs[of ?c "dk_files d'"] consume(2)
    by (simp add: pending_count_def example_catalog_def example_catalog_disk_def)
      (simp add: example_specs_def py_text_def map_get_def spec_text_def)
  have id: "spec_text (\<lambda>_. []) (example_specs ! 1) = ''v2''" "map_get (example_specs ! 1) ''spec_id'' = PStr ''v2''"
    "map_get (example_specs ! 1) ''intent'' = PNone"
    by (simp_all add: example_specs_def spec_text_def py_text_def map_get_def)
  show ?thesis
    using g ranked pend order consume(1) count id
    by (simp add: select_frontier_work_def bnd_def of_res_def gets_def ret_def seq_def) (simp add: example_frontier_def)
qed

theorem frontier_admission_witness:
  "\<exists>selected audit c' d'. select_frontier_work example_frontier [[(''family'', PStr ''f'')]] PNone 1 2
       (example_catalog, example_catalog_disk) = (Inr (selected, audit), (c', d')) \<and>
     length selected = 1 \<and> vc_consumed c' = {''v1'', ''v2''}"
proof -
  from example_selection obtain item gain c' d' where s: "select_frontier_work example_frontier [[(''family'', PStr ''f'')]] PNone 1 2
       (example_catalog, example_catalog_disk) =
     (Inr ([item], \<lparr>fa_requested_lanes = 2, fa_admitted = 1, fa_catalog_pending_after = 0,
        fa_specs = [\<lparr>au_spec_id = PStr ''v2'', au_seed_family = ''f'', au_intent = PNone, au_gain = gain\<rparr>]\<rparr>), (c', d'))" by blast
  have "vc_catalog_path example_catalog \<noteq> vc_consumption_path example_catalog"
    "specs example_catalog (dk_files example_catalog_disk) = Inr example_specs" by code_simp+
  from frontier_admission[OF s this] s show ?thesis
    by (auto simp: example_catalog_def py_text_def)
qed

end
