(* ===== verification/Speculative_Scheduler.thy ===== *)
theory Speculative_Scheduler
  imports Harness_Checkpoint
begin

text \<open>
  \<open>src/loopx/capabilities/explore/speculative_scheduler.py\<close>: the throughput curve and its calibration,
  the branches a failed dependency invalidates, the verification prefix of a chain of branches, the
  sizing of a bundle, and the number of independent worker lanes.

  Candidates and branches are dictionaries.  The numeric arguments have the types of the signatures.
  \<open>n ** 1.18\<close> is the \<open>pow\<close> of the C library and a parameter \<open>pow118\<close>.  The dictionaries a
  scheduler returns are records of the fields that vary; the schema version, the strategy and the
  descriptive texts are constant.  Dependencies are JSON values.
\<close>

section \<open>Throughput\<close>

definition pymax :: "pyfloat \<Rightarrow> pyfloat \<Rightarrow> pyfloat" where
  "pymax a b = (if fless a b then b else a)"

definition pymin :: "pyfloat \<Rightarrow> pyfloat \<Rightarrow> pyfloat" where
  "pymin a b = (if fless b a then b else a)"

definition clamp :: "pyfloat \<Rightarrow> pyfloat \<Rightarrow> pyfloat \<Rightarrow> pyfloat" where
  "clamp v low high = pymax low (pymin high v)"

abbreviation clamp01 :: "pyfloat \<Rightarrow> pyfloat" where
  "clamp01 v \<equiv> clamp v (Fin 0) (Fin 1)"

definition step_throughput :: "(int \<Rightarrow> pyfloat res) \<Rightarrow> int \<Rightarrow> pyfloat \<Rightarrow> pyfloat res" where
  "step_throughput pow118 batch_size load_factor =
     rbind (pow118 (max 0 (max 1 batch_size - 1))) (\<lambda>p.
     fdiv (Fin 1) (fadd (Fin 1) (fmul (clamp01 load_factor) p)))"

record load_profile =
  lp_source :: string
  lp_branch_count :: "int option"
  lp_measured :: "(pyfloat \<times> pyfloat \<times> pyfloat \<times> pyfloat \<times> pyfloat) option"
  lp_load_factor :: pyfloat
  lp_fallback_load_factor :: pyfloat

text \<open>The middle component holds the parallel wall minutes, the longest branch, the overhead ratio, the measured
  load and its weight, when there was enough to measure.\<close>

definition calibrate_load_factor ::
    "(pyval \<Rightarrow> string) \<Rightarrow> (int \<Rightarrow> pyfloat res) \<Rightarrow> pyval \<Rightarrow> pyfloat \<Rightarrow> load_profile res" where
  "calibrate_load_factor str_of pow118 profile fallback_load_factor =
     (let fallback = clamp01 fallback_load_factor in
      case profile of
        PMap m \<Rightarrow>
          rbind (to_float (py_or (map_get m ''parallel_wall_minutes'') (py_or (map_get m ''wall_minutes'') (PFloat (Fin 0))))) (\<lambda>wall.
          rbind (float_or_zero (map_get m ''max_branch_minutes'')) (\<lambda>max_branch.
          rbind (to_int (py_or (map_get m ''branch_count'') (PInt 1))) (\<lambda>count.
          let branch_count = max 1 count in
          if branch_count \<le> 1 \<or> fle wall (Fin 0) \<or> fle max_branch (Fin 0)
          then Inr \<lparr>lp_source = ''fallback_insufficient_profile'', lp_branch_count = Some branch_count, lp_measured = None,
                    lp_load_factor = round_decimals fallback 4, lp_fallback_load_factor = round_decimals fallback 4\<rparr>
          else
            rbind (fdiv wall max_branch) (\<lambda>ratio.
            let overhead_ratio = fmax0 (fsub ratio (Fin 1)) in
            rbind (pow118 (branch_count - 1)) (\<lambda>p.
            rbind (fdiv overhead_ratio (pymax (Fin 1) p)) (\<lambda>share.
            let measured = clamp01 share in
            rbind (to_float (PInt branch_count)) (\<lambda>n.
            rbind (fdiv n (Fin 10)) (\<lambda>tenth.
            let measurement_weight = pymin (rnd (45 / 100)) (pymax (rnd (15 / 100)) tenth);
                load_factor = fadd (fmul (fsub (Fin 1) measurement_weight) fallback) (fmul measurement_weight measured) in
            Inr \<lparr>lp_source = py_text str_of (py_or (map_get m ''source'') (PStr ''observed_parallel_profile'')),
                 lp_branch_count = Some branch_count,
                 lp_measured = Some (round_decimals wall 4, round_decimals max_branch 4, round_decimals overhead_ratio 4,
                    round_decimals measured 4, round_decimals measurement_weight 4),
                 lp_load_factor = round_decimals load_factor 4, lp_fallback_load_factor = round_decimals fallback 4\<rparr>))))))))
      | _ \<Rightarrow> Inr \<lparr>lp_source = ''fallback'', lp_branch_count = None, lp_measured = None,
                 lp_load_factor = round_decimals fallback 4, lp_fallback_load_factor = round_decimals fallback 4\<rparr>)"

section \<open>Invalidated successors\<close>

fun split_on :: "char \<Rightarrow> string \<Rightarrow> string list" where
  "split_on c [] = [[]]"
| "split_on c (x # xs) = (if x = c then [] # split_on c xs
     else case split_on c xs of [] \<Rightarrow> [[x]] | w # ws \<Rightarrow> (x # w) # ws)"

definition normalize_dependency_ids :: "(pyval \<Rightarrow> string) \<Rightarrow> pyval \<Rightarrow> string list" where
  "normalize_dependency_ids str_of v = (case v of
     PStr s \<Rightarrow> filter (\<lambda>part. part \<noteq> [])
       (map strip (split_on (CHR '','') (map (\<lambda>c. if c = CHR '';'' then CHR '','' else c) s)))
   | PList xs \<Rightarrow> filter (\<lambda>part. part \<noteq> []) (map (\<lambda>x. strip (py_text str_of x)) xs)
   | PTuple xs \<Rightarrow> filter (\<lambda>part. part \<noteq> []) (map (\<lambda>x. strip (py_text str_of x)) xs)
   | _ \<Rightarrow> [])"

definition ACCEPT_REJECT_EVENT_SCHEMA_VERSION :: string where
  "ACCEPT_REJECT_EVENT_SCHEMA_VERSION = ''loopx_explore_accept_reject_event_v0''"

definition build_accept_reject_event :: "string \<Rightarrow> string \<Rightarrow> string \<Rightarrow> string \<Rightarrow> int \<Rightarrow> pyval dict \<Rightarrow> pyval dict" where
  "build_accept_reject_event lane event_type todo_id reason verification_wave payload =
     fold (\<lambda>(k, v) event. dict_set k v event) payload
       [(''schema_version'', PStr ACCEPT_REJECT_EVENT_SCHEMA_VERSION), (''lane'', PStr lane), (''event_type'', PStr event_type),
        (''todo_id'', PStr todo_id), (''verification_wave'', PInt verification_wave), (''reason'', PStr reason)]"

definition branch_todo_id :: "(pyval \<Rightarrow> string) \<Rightarrow> pyval dict \<Rightarrow> string" where
  "branch_todo_id str_of branch = text_or_empty str_of (get branch ''todo_id'')"

definition branch_dependencies :: "(pyval \<Rightarrow> string) \<Rightarrow> pyval dict \<Rightarrow> string list" where
  "branch_dependencies str_of branch = normalize_dependency_ids str_of
     (py_or (py_or (get branch ''depends_on'') (get branch ''dependency_todo_ids'')) (get branch ''blocked_by_todo_ids''))"

text \<open>The reason against a branch, if there is one.\<close>

definition invalidation_reason :: "string set \<Rightarrow> string set \<Rightarrow> string set \<Rightarrow> string list \<Rightarrow> string option" where
  "invalidation_reason selected accepted rejected deps =
     (let missing = filter (\<lambda>dep. dep \<notin> selected) deps;
          failed = filter (\<lambda>dep. dep \<in> rejected) deps;
          not_yet_accepted = filter (\<lambda>dep. dep \<in> selected \<and> dep \<notin> accepted) deps in
      if missing \<noteq> [] \<or> failed \<noteq> [] \<or> not_yet_accepted \<noteq> []
      then Some (if missing \<noteq> [] then ''dependency_not_selected:'' @ join '','' missing
                 else if failed \<noteq> [] then ''dependency_rejected:'' @ join '','' failed
                 else ''dependency_not_accepted:'' @ join '','' not_yet_accepted)
      else None)"

definition selected_set :: "(pyval \<Rightarrow> string) \<Rightarrow> pyval dict list \<Rightarrow> string list \<Rightarrow> string set" where
  "selected_set str_of branches selected_ids =
     (if selected_ids = [] then set (map (branch_todo_id str_of) (filter (\<lambda>b. truthy (get b ''todo_id'')) branches))
      else set selected_ids)"

definition accepted_set :: "string set \<Rightarrow> string list \<Rightarrow> string set" where
  "accepted_set selected accepted_ids = (if accepted_ids = [] then selected else set accepted_ids)"

definition partition_invalidated_successors ::
    "(pyval \<Rightarrow> string) \<Rightarrow> pyval dict list \<Rightarrow> string list \<Rightarrow> string list \<Rightarrow> string list \<Rightarrow> string \<Rightarrow>
     pyval dict list \<times> pyval dict list \<times> pyval dict list" where
  "partition_invalidated_successors str_of branches selected_ids accepted_ids rejected_ids lane =
     (let selected = selected_set str_of branches selected_ids;
          accepted = accepted_set selected accepted_ids;
          rejected = set rejected_ids in
      fold (\<lambda>branch (valid, invalidated, events).
        let deps = branch_dependencies str_of branch in
        case invalidation_reason selected accepted rejected deps of
          Some reason \<Rightarrow>
            (valid,
             invalidated @ [dict_set ''invalidation_reason'' (PStr reason) (dict_set ''selection_status'' (PStr ''invalidated_dependency'') branch)],
             events @ [build_accept_reject_event lane ''invalidated'' (branch_todo_id str_of branch) reason 0
               [(''depends_on'', PList (map PStr deps))]])
        | None \<Rightarrow> (valid @ [branch], invalidated, events)) branches ([], [], []))"

section \<open>Serial chains\<close>

definition conditional_branch_confidence :: "pyfloat \<Rightarrow> pyfloat \<Rightarrow> pyfloat" where
  "conditional_branch_confidence raw_confidence previous_confidence =
     round_decimals (fadd (fmul (rnd (82 / 100)) (clamp01 raw_confidence)) (fmul (rnd (18 / 100)) (clamp01 previous_confidence))) 3"

definition expected_evidence_units :: "pyval dict \<Rightarrow> pyfloat res" where
  "expected_evidence_units candidate =
     (if get candidate ''expected_evidence_units'' = PNone then Inr (Fin 1) else to_float (get candidate ''expected_evidence_units''))"

definition candidate_confidence :: "pyval dict \<Rightarrow> pyfloat res" where
  "candidate_confidence candidate = to_float (py_or (get candidate ''confidence'') (PFloat (rnd (5 / 100))))"

record metrics =
  pm_prefix_length :: int
  pm_expected_evidence :: pyfloat
  pm_theta :: pyfloat
  pm_step_throughput :: pyfloat
  pm_prefix_survival :: pyfloat

text \<open>The survival, the evidence and the last confidence along a prefix.\<close>

definition chain_step :: "pyval dict \<Rightarrow> pyfloat \<times> pyfloat \<times> pyfloat \<Rightarrow> (pyfloat \<times> pyfloat \<times> pyfloat) res" where
  "chain_step candidate = (\<lambda>(survival, evidence, previous).
     rbind (candidate_confidence candidate) (\<lambda>raw.
     let confidence = conditional_branch_confidence raw previous; survival' = fmul survival confidence in
     rbind (expected_evidence_units candidate) (\<lambda>units.
     Inr (survival', fadd evidence (fmul survival' units), confidence))))"

definition prefix_metrics :: "(int \<Rightarrow> pyfloat res) \<Rightarrow> pyval dict list \<Rightarrow> int \<Rightarrow> pyfloat \<Rightarrow> metrics res" where
  "prefix_metrics pow118 candidates prefix_length load_factor =
     (let limit = max 0 (min (int (length candidates)) prefix_length) in
      if limit = 0
      then Inr \<lparr>pm_prefix_length = 0, pm_expected_evidence = Fin 0, pm_theta = Fin 0, pm_step_throughput = Fin 0, pm_prefix_survival = Fin 0\<rparr>
      else
        rbind (rfold chain_step (take (nat limit) candidates) (Fin 1, Fin 0, Fin 1)) (\<lambda>(survival, expected_evidence, _).
        rbind (step_throughput pow118 limit load_factor) (\<lambda>throughput.
        Inr \<lparr>pm_prefix_length = limit, pm_expected_evidence = round_decimals expected_evidence 3,
             pm_theta = round_decimals (fmul expected_evidence throughput) 3,
             pm_step_throughput = round_decimals throughput 3, pm_prefix_survival = round_decimals survival 3\<rparr>)))"

record prefix_step =
  ps_prefix_length :: int
  ps_todo_id :: pyval
  ps_raw_confidence :: pyfloat
  ps_conditional_confidence :: pyfloat
  ps_prefix_survival :: pyfloat
  ps_expected_evidence_units :: pyfloat
  ps_step_throughput :: pyfloat
  ps_expected_evidence :: pyfloat
  ps_theta :: pyfloat

text \<open>The variables of the loop; \<open>pl_index\<close> counts the candidates done.\<close>

record prefix_loop =
  pl_index :: int
  pl_survival :: pyfloat
  pl_evidence :: pyfloat
  pl_previous :: pyfloat
  pl_best_theta :: pyfloat
  pl_best_budget :: int
  pl_steps :: "prefix_step list"

definition schedule_step :: "(int \<Rightarrow> pyfloat res) \<Rightarrow> pyfloat \<Rightarrow> pyval dict \<Rightarrow> prefix_loop \<Rightarrow> prefix_loop res" where
  "schedule_step pow118 load_factor candidate l =
     (let index = pl_index l + 1 in
      rbind (candidate_confidence candidate) (\<lambda>c.
      let raw_confidence = clamp01 c;
          confidence = conditional_branch_confidence raw_confidence (pl_previous l);
          survival = fmul (pl_survival l) confidence in
      rbind (expected_evidence_units candidate) (\<lambda>units.
      let evidence = fadd (pl_evidence l) (fmul survival units) in
      rbind (step_throughput pow118 index load_factor) (\<lambda>throughput.
      let theta = fmul evidence throughput in
      Inr \<lparr>pl_index = index, pl_survival = survival, pl_evidence = evidence, pl_previous = confidence,
           pl_best_theta = (if fless (pl_best_theta l) theta then theta else pl_best_theta l),
           pl_best_budget = (if fless (pl_best_theta l) theta then index else pl_best_budget l),
           pl_steps = pl_steps l @
             [\<lparr>ps_prefix_length = index, ps_todo_id = get candidate ''todo_id'',
               ps_raw_confidence = round_decimals raw_confidence 3, ps_conditional_confidence = confidence,
               ps_prefix_survival = round_decimals survival 3, ps_expected_evidence_units = round_decimals units 3,
               ps_step_throughput = round_decimals throughput 3, ps_expected_evidence = round_decimals evidence 3,
               ps_theta = round_decimals theta 3\<rparr>]\<rparr>))))"

definition schedule_start :: "pyval dict list \<Rightarrow> prefix_loop" where
  "schedule_start candidates =
     \<lparr>pl_index = 0, pl_survival = Fin 1, pl_evidence = Fin 0, pl_previous = Fin 1, pl_best_theta = Fin 0,
      pl_best_budget = (if candidates = [] then 0 else 1), pl_steps = []\<rparr>"

record prefix_schedule =
  sc_load_factor :: pyfloat
  sc_max_width :: int
  sc_selected_prefix_length :: int
  sc_baseline_theta :: pyfloat
  sc_best_theta :: pyfloat
  sc_estimated_speedup :: pyfloat
  sc_steps :: "prefix_step list"
  sc_baseline_serial :: metrics
  sc_selected :: metrics

definition schedule_confidence_prefix ::
    "(int \<Rightarrow> pyfloat res) \<Rightarrow> pyval dict list \<Rightarrow> int \<Rightarrow> int \<Rightarrow> pyfloat \<Rightarrow> prefix_schedule res" where
  "schedule_confidence_prefix pow118 candidates max_width max_branch_width load_factor =
     (let budget_limit = max 1 (min max_branch_width (if max_width = 0 then 1 else max_width));
          safe_candidates = take (nat budget_limit) candidates in
      rbind (rfold (schedule_step pow118 load_factor) safe_candidates (schedule_start safe_candidates)) (\<lambda>l.
      rbind (prefix_metrics pow118 safe_candidates 1 load_factor) (\<lambda>baseline.
      rbind (prefix_metrics pow118 safe_candidates (pl_best_budget l) load_factor) (\<lambda>selected.
      rbind (fdiv (pl_best_theta l) (pymax (rnd (1 / 1000)) (pm_theta baseline))) (\<lambda>speedup.
      Inr \<lparr>sc_load_factor = round_decimals (clamp01 load_factor) 3, sc_max_width = budget_limit,
           sc_selected_prefix_length = pl_best_budget l, sc_baseline_theta = pm_theta baseline,
           sc_best_theta = round_decimals (pl_best_theta l) 3, sc_estimated_speedup = round_decimals speedup 3,
           sc_steps = pl_steps l, sc_baseline_serial = baseline, sc_selected = selected\<rparr>)))))"

section \<open>Bundles\<close>

text \<open>The loop that returns the first index below the threshold.\<close>

fun first_below :: "pyfloat \<Rightarrow> pyfloat list \<Rightarrow> int \<Rightarrow> int" where
  "first_below threshold [] index = index"
| "first_below threshold (c # cs) index = (if fless (clamp01 c) threshold then index else first_below threshold cs (index + 1))"

definition confident_bundle_prefix_length :: "pyfloat list \<Rightarrow> pyfloat \<Rightarrow> int \<Rightarrow> int" where
  "confident_bundle_prefix_length confidences threshold max_length =
     (let cutoff = min (max 0 max_length) (int (length confidences)) in
      if fle threshold (Fin 0) then cutoff else first_below threshold (take (nat cutoff) confidences) 0)"

section \<open>Independent lanes\<close>

record lane_step =
  ls_lane_index :: int
  ls_todo_id :: pyval
  ls_confidence :: pyfloat
  ls_expected_evidence_units :: pyfloat
  ls_expected_evidence :: pyfloat
  ls_lane_value :: pyfloat
  ls_step_throughput :: pyfloat
  ls_theta :: pyfloat
  ls_marginal_theta :: pyfloat

record lane_loop =
  ll_index :: int
  ll_evidence :: pyfloat
  ll_best_theta :: pyfloat
  ll_best_budget :: int
  ll_previous_theta :: pyfloat
  ll_steps :: "lane_step list"

definition lane_loop_step :: "(int \<Rightarrow> pyfloat res) \<Rightarrow> pyfloat \<Rightarrow> pyval dict \<Rightarrow> lane_loop \<Rightarrow> lane_loop res" where
  "lane_loop_step pow118 load candidate l =
     (let index = ll_index l + 1 in
      rbind (candidate_confidence candidate) (\<lambda>c.
      let confidence = clamp01 c in
      rbind (expected_evidence_units candidate) (\<lambda>units.
      let evidence = fadd (ll_evidence l) (fmul confidence units) in
      rbind (step_throughput pow118 index load) (\<lambda>throughput.
      let lane_value = fmul (fmul confidence units) throughput;
          theta = fmul evidence throughput;
          marginal_theta = fsub theta (ll_previous_theta l) in
      Inr \<lparr>ll_index = index, ll_evidence = evidence,
           ll_best_theta = (if fless (ll_best_theta l) theta then theta else ll_best_theta l),
           ll_best_budget = (if fless (ll_best_theta l) theta then index else ll_best_budget l),
           ll_previous_theta = theta,
           ll_steps = ll_steps l @
             [\<lparr>ls_lane_index = index, ls_todo_id = get candidate ''todo_id'', ls_confidence = round_decimals confidence 3,
               ls_expected_evidence_units = round_decimals units 3, ls_expected_evidence = round_decimals evidence 3,
               ls_lane_value = round_decimals lane_value 4, ls_step_throughput = round_decimals throughput 3,
               ls_theta = round_decimals theta 3, ls_marginal_theta = round_decimals marginal_theta 4\<rparr>]\<rparr>))))"

definition lane_loop_start :: "pyval dict list \<Rightarrow> lane_loop" where
  "lane_loop_start candidates =
     \<lparr>ll_index = 0, ll_evidence = Fin 0, ll_best_theta = Fin 0, ll_best_budget = (if candidates = [] then 0 else 1),
      ll_previous_theta = Fin 0, ll_steps = []\<rparr>"

text \<open>Lanes beyond the core are admitted until one is worth less than the floor.\<close>

fun expand_budget :: "pyfloat \<Rightarrow> lane_step list \<Rightarrow> int \<Rightarrow> int" where
  "expand_budget value_floor [] budget = budget"
| "expand_budget value_floor (s # ss) budget =
     (if fless (ls_lane_value s) value_floor then budget
      else expand_budget value_floor ss (if ls_lane_index s = 0 then budget else ls_lane_index s))"

definition refusal_reason :: "int \<Rightarrow> pyfloat \<Rightarrow> pyfloat \<Rightarrow> lane_step \<Rightarrow> string" where
  "refusal_reason target_budget value_floor min_marginal_theta s =
     (if ls_lane_index s \<le> target_budget \<and> fless (ls_lane_value s) value_floor then ''opportunistic_lane_value_below_floor''
      else if fle (ls_marginal_theta s) min_marginal_theta then ''interference_marginal_theta_nonpositive''
      else if ls_lane_index s > target_budget then ''beyond_opportunistic_target''
      else ''beyond_theta_peak'')"

record refusal =
  rf_todo_id :: pyval
  rf_lane_index :: int
  rf_reason :: string
  rf_marginal_theta :: pyfloat
  rf_lane_value :: pyfloat

record lane_schedule =
  sl_load_factor :: pyfloat
  sl_max_width :: int
  sl_min_marginal_theta :: pyfloat
  sl_selected_prefix_length :: int
  sl_core_selected_prefix_length :: int
  sl_baseline_theta :: pyfloat
  sl_best_theta :: pyfloat
  sl_estimated_speedup :: pyfloat
  sl_steps :: "lane_step list"
  sl_queue_exhausted :: bool
  sl_target_lane_count :: int
  sl_utilization_floor :: pyfloat
  sl_lane_value_floor :: pyfloat
  sl_lane_value_ratio :: pyfloat
  sl_refusals :: "refusal list"

definition lane_target :: "int \<Rightarrow> nat \<Rightarrow> pyfloat \<Rightarrow> int res" where
  "lane_target budget_limit available target_utilization =
     rbind (to_float (PInt budget_limit)) (\<lambda>b.
     rbind (to_int (PFloat (fadd (fmul b target_utilization) (rnd (999 / 1000))))) (\<lambda>n.
     Inr (min (min (int available) budget_limit) n)))"

definition value_floor_of :: "lane_step list \<Rightarrow> pyfloat \<Rightarrow> pyfloat \<Rightarrow> pyfloat" where
  "value_floor_of steps lane_value_floor lane_value_ratio =
     (let first_lane_value = (case steps of [] \<Rightarrow> Fin 0 | s # _ \<Rightarrow> ls_lane_value s) in
      pymax (pymax (Fin 0) lane_value_floor) (fmul first_lane_value (clamp01 lane_value_ratio)))"

definition lane_budget :: "int \<Rightarrow> int \<Rightarrow> pyfloat \<Rightarrow> lane_step list \<Rightarrow> int" where
  "lane_budget core_budget target_budget value_floor steps =
     max core_budget
       (if target_budget > core_budget \<and> fless (Fin 0) value_floor
        then expand_budget value_floor (take (nat (target_budget - core_budget)) (drop (nat core_budget) steps)) core_budget
        else core_budget)"

definition lane_refusals :: "int \<Rightarrow> pyfloat \<Rightarrow> pyfloat \<Rightarrow> lane_step list \<Rightarrow> refusal list" where
  "lane_refusals target_budget value_floor min_marginal_theta steps =
     map (\<lambda>s. \<lparr>rf_todo_id = ls_todo_id s, rf_lane_index = ls_lane_index s,
        rf_reason = refusal_reason target_budget value_floor min_marginal_theta s,
        rf_marginal_theta = ls_marginal_theta s, rf_lane_value = ls_lane_value s\<rparr>) steps"

definition schedule_independent_lanes ::
    "(int \<Rightarrow> pyfloat res) \<Rightarrow> pyval dict list \<Rightarrow> int \<Rightarrow> pyfloat \<Rightarrow> pyfloat \<Rightarrow> pyfloat \<Rightarrow> pyfloat \<Rightarrow> pyfloat \<Rightarrow> lane_schedule res" where
  "schedule_independent_lanes pow118 candidates max_width load_factor min_marginal_theta utilization_floor
     lane_value_floor lane_value_ratio =
     (let budget_limit = max 1 (if max_width = 0 then 1 else max_width);
          safe_candidates = take (nat budget_limit) candidates;
          load = clamp01 load_factor in
      rbind (rfold (lane_loop_step pow118 load) safe_candidates (lane_loop_start safe_candidates)) (\<lambda>l.
      let steps = ll_steps l; core_budget = ll_best_budget l; target_utilization = clamp01 utilization_floor in
      rbind (lane_target budget_limit (length safe_candidates) target_utilization) (\<lambda>target_budget.
      let value_floor = value_floor_of steps lane_value_floor lane_value_ratio;
          best_budget = lane_budget core_budget target_budget value_floor steps;
          refusals = lane_refusals target_budget value_floor min_marginal_theta (drop (nat best_budget) steps);
          single_lane_theta = (case steps of [] \<Rightarrow> Fin 0 | s # _ \<Rightarrow> ls_theta s) in
      rbind (fdiv (ll_best_theta l) (pymax (rnd (1 / 1000)) single_lane_theta)) (\<lambda>speedup.
      Inr \<lparr>sl_load_factor = round_decimals load 4, sl_max_width = budget_limit,
           sl_min_marginal_theta = round_decimals min_marginal_theta 4,
           sl_selected_prefix_length = best_budget, sl_core_selected_prefix_length = core_budget,
           sl_baseline_theta = round_decimals single_lane_theta 3, sl_best_theta = round_decimals (ll_best_theta l) 3,
           sl_estimated_speedup = round_decimals speedup 3, sl_steps = steps,
           sl_queue_exhausted = (int (length safe_candidates) < budget_limit), sl_target_lane_count = target_budget,
           sl_utilization_floor = round_decimals target_utilization 3, sl_lane_value_floor = round_decimals value_floor 4,
           sl_lane_value_ratio = round_decimals lane_value_ratio 3, sl_refusals = refusals\<rparr>))))"

end
