(* ===== verification/Scheduler_Properties.thy ===== *)
theory Scheduler_Properties
  imports Speculative_Scheduler "HOL-Library.Sublist"
begin

text \<open>
  The schedulers: which branches survive their dependencies, the bundle of a lane, and that the loops
  over growing prefixes pick the first width with the best estimate.
\<close>

section \<open>Dependencies\<close>

definition dependencies_ok :: "(pyval \<Rightarrow> string) \<Rightarrow> string set \<Rightarrow> string set \<Rightarrow> string set \<Rightarrow> pyval dict \<Rightarrow> bool" where
  "dependencies_ok str_of selected accepted rejected branch \<longleftrightarrow>
     (\<forall>dep \<in> set (branch_dependencies str_of branch). dep \<in> selected \<and> dep \<in> accepted \<and> dep \<notin> rejected)"

lemma invalidation_reason_None:
  "invalidation_reason selected accepted rejected (branch_dependencies str_of b) = None \<longleftrightarrow> dependencies_ok str_of selected accepted rejected b"
  by (auto simp: invalidation_reason_def dependencies_ok_def Let_def filter_empty_conv)

text \<open>The branches are divided by their dependencies.  With the selected, accepted and rejected ids
  (all branches when none is selected, all selected when none is accepted), the valid branches are, in
  order and unchanged, those all of whose dependencies are selected, accepted and not rejected;
  every other branch is marked invalid with a reason and has one event with the same reason.\<close>

theorem partition_by_dependencies:
  assumes "partition_invalidated_successors str_of branches selected_ids accepted_ids rejected_ids lane = (valid, invalidated, events)"
  defines "ok \<equiv> dependencies_ok str_of (selected_set str_of branches selected_ids)
      (accepted_set (selected_set str_of branches selected_ids) accepted_ids) (set rejected_ids)"
  defines "bad \<equiv> filter (\<lambda>b. \<not> ok b) branches"
  shows "valid = filter ok branches \<and>
    (\<exists>reasons. length reasons = length bad \<and>
       invalidated = map2 (\<lambda>b r. dict_set ''invalidation_reason'' (PStr r)
          (dict_set ''selection_status'' (PStr ''invalidated_dependency'') b)) bad reasons \<and>
       events = map2 (\<lambda>b r. build_accept_reject_event lane ''invalidated'' (branch_todo_id str_of b) r 0
          [(''depends_on'', PList (map PStr (branch_dependencies str_of b)))]) bad reasons)"
proof -
  let ?sel = "selected_set str_of branches selected_ids"
  let ?reason = "\<lambda>b. invalidation_reason ?sel (accepted_set ?sel accepted_ids) (set rejected_ids) (branch_dependencies str_of b)"
  let ?mark = "\<lambda>b r. dict_set ''invalidation_reason'' (PStr r) (dict_set ''selection_status'' (PStr ''invalidated_dependency'') b)"
  let ?event = "\<lambda>b r. build_accept_reject_event lane ''invalidated'' (branch_todo_id str_of b) r 0
      [(''depends_on'', PList (map PStr (branch_dependencies str_of b)))]"
  let ?step = "\<lambda>branch (valid, invalidated, events).
      case ?reason branch of
        Some reason \<Rightarrow> (valid, invalidated @ [?mark branch reason], events @ [?event branch reason])
      | None \<Rightarrow> (valid @ [branch], invalidated, events)"
  have none: "?reason b = None \<longleftrightarrow> ok b" for b unfolding ok_def by (rule invalidation_reason_None)
  have "fold ?step bs (v, i, e) =
      (v @ filter ok bs, i @ map (\<lambda>b. ?mark b (the (?reason b))) (filter (\<lambda>b. \<not> ok b) bs),
       e @ map (\<lambda>b. ?event b (the (?reason b))) (filter (\<lambda>b. \<not> ok b) bs))" for bs v i e
  proof (induction bs arbitrary: v i e)
    case (Cons b bs)
    show ?case
      using none[of b] by (cases "?reason b") (simp_all add: Cons.IH)
  qed simp
  from this[of branches "[]" "[]" "[]"] assms(1)
  have "valid = filter ok branches" "invalidated = map (\<lambda>b. ?mark b (the (?reason b))) bad" "events = map (\<lambda>b. ?event b (the (?reason b))) bad"
    unfolding partition_invalidated_successors_def Let_def bad_def by auto
  then show ?thesis
    by (intro conjI exI[of _ "map (\<lambda>b. the (?reason b)) bad"]) (simp_all add: zip_map2 zip_same_conv_map)
qed

definition example_branches :: "pyval dict list" where
  "example_branches = [[(''todo_id'', PStr ''a'')], [(''todo_id'', PStr ''b''), (''depends_on'', PStr ''a; x'')]]"

theorem partition_by_dependencies_witness:
  "fst (partition_invalidated_successors (\<lambda>_. []) example_branches [] [] [] ''lane'') = [[(''todo_id'', PStr ''a'')]] \<and>
   filter (dependencies_ok (\<lambda>_. []) (selected_set (\<lambda>_. []) example_branches [])
     (accepted_set (selected_set (\<lambda>_. []) example_branches []) []) (set [])) example_branches = [[(''todo_id'', PStr ''a'')]]"
proof -
  let ?p = "partition_invalidated_successors (\<lambda>_. []) example_branches [] [] [] ''lane''"
  obtain valid invalidated events where p: "?p = (valid, invalidated, events)" by (cases ?p)
  have v: "fst ?p = [[(''todo_id'', PStr ''a'')]]" by code_simp
  with partition_by_dependencies[OF p] p show ?thesis by simp
qed

section \<open>Bundles\<close>

text \<open>A bundle is the longest prefix of at most the given length whose confidences reach the
  threshold; with a threshold of zero or less it is that whole prefix.\<close>

theorem bundle_prefix_spec:
  "confident_bundle_prefix_length confidences threshold max_length =
     int (length (takeWhile (\<lambda>c. fle threshold (Fin 0) \<or> \<not> fless (clamp01 c) threshold) (take (nat max_length) confidences)))"
proof -
  have below: "first_below threshold cs i = i + int (length (takeWhile (\<lambda>c. \<not> fless (clamp01 c) threshold) cs))" for cs i
    by (induction cs arbitrary: i) auto
  have "take (nat (min (max 0 max_length) (int (length confidences)))) confidences = take (nat max_length) confidences"
    by (cases "max_length \<le> int (length confidences)") (auto simp: min_def max_def)
  moreover have [simp]: "takeWhile (\<lambda>c. True) cs = cs" for cs :: "pyfloat list" by (induction cs) auto
  ultimately show ?thesis
    by (cases "fle threshold (Fin 0)") (auto simp: confident_bundle_prefix_length_def below Let_def min_def max_def)
qed

section \<open>The first best width\<close>

text \<open>After the estimates \<open>thetas\<close>, the loop has kept the best one that is positive, and the first place
  where it occurs; without a positive one it has kept zero and the initial width.\<close>

definition best_ok :: "int \<Rightarrow> pyfloat list \<Rightarrow> pyfloat \<Rightarrow> int \<Rightarrow> bool" where
  "best_ok start thetas best budget \<longleftrightarrow>
     (\<forall>t \<in> set thetas. \<not> fless best t) \<and>
     (if fless (Fin 0) best
      then 1 \<le> budget \<and> budget \<le> int (length thetas) \<and> thetas ! nat (budget - 1) = best \<and>
        (\<forall>k. int k < budget - 1 \<longrightarrow> \<not> fle best (thetas ! k))
      else best = Fin 0 \<and> budget = start)"

lemma fless_fle_trans: "fless a b \<Longrightarrow> fle b c \<Longrightarrow> fless a c"
  by (cases a; cases b; cases c) (auto simp: fle_def)

lemma best_ok_snoc:
  assumes "best_ok start thetas best budget"
  shows "best_ok start (thetas @ [t]) (if fless best t then t else best) (if fless best t then int (length thetas) + 1 else budget)"
proof (cases "fless best t")
  case True
  have pos: "fless (Fin 0) t" using assms True unfolding best_ok_def
    by (metis fle_def fless_fle_trans)
  have "\<not> fless t u" if "u \<in> set thetas" for u
    using assms that True fless_fle_trans unfolding best_ok_def fle_def by metis
  moreover have "\<not> fless t t" by (cases t) auto
  moreover have "\<not> fle t (thetas ! k)" if "k < length thetas" for k
    using assms that True fless_fle_trans nth_mem unfolding best_ok_def by metis
  ultimately show ?thesis using True pos by (auto simp: best_ok_def nth_append)
next
  case False
  then show ?thesis using assms by (auto simp: best_ok_def nth_append)
qed

text \<open>A loop that keeps the best estimate seen so far.\<close>

locale argmax_loop =
  fixes step :: "'c \<Rightarrow> 'l \<Rightarrow> 'l res" and index :: "'l \<Rightarrow> int" and best :: "'l \<Rightarrow> pyfloat"
    and budget :: "'l \<Rightarrow> int" and theta :: "'l \<Rightarrow> pyfloat"
  assumes step_index: "step x l = Inr l' \<Longrightarrow> index l' = index l + 1"
    and step_best: "step x l = Inr l' \<Longrightarrow> best l' = (if fless (best l) (theta l') then theta l' else best l)"
    and step_budget: "step x l = Inr l' \<Longrightarrow> budget l' = (if fless (best l) (theta l') then index l' else budget l)"
begin

lemma loop_index: "rfold step xs l0 = Inr l \<Longrightarrow> index l = index l0 + int (length xs)"
  by (induction xs arbitrary: l rule: rev_induct) (auto simp: rfold_snoc res_iff dest: step_index)

lemma loop_best:
  assumes "index l0 = 0" "best l0 = Fin 0" "budget l0 = start" "rfold step xs l0 = Inr l"
  shows "\<exists>thetas. length thetas = length xs \<and>
    (\<forall>k < length xs. \<exists>lk. rfold step (take (Suc k) xs) l0 = Inr lk \<and> theta lk = thetas ! k) \<and>
    best_ok start thetas (best l) (budget l)"
  using assms(4)
proof (induction xs arbitrary: l rule: rev_induct)
  case Nil
  then show ?case using assms by (auto simp: best_ok_def)
next
  case (snoc x xs)
  then obtain m where m: "rfold step xs l0 = Inr m" "step x m = Inr l" by (auto simp: rfold_snoc res_iff)
  from snoc.IH[OF m(1)] obtain thetas where th: "length thetas = length xs"
    "\<forall>k < length xs. \<exists>lk. rfold step (take (Suc k) xs) l0 = Inr lk \<and> theta lk = thetas ! k"
    "best_ok start thetas (best m) (budget m)" by blast
  have "index l = int (length thetas) + 1" using loop_index[OF m(1)] step_index[OF m(2)] assms(1) th(1) by simp
  then have "best_ok start (thetas @ [theta l]) (best l) (budget l)"
    using best_ok_snoc[OF th(3), of "theta l"] step_best[OF m(2)] step_budget[OF m(2)] by (simp split: if_splits)
  moreover have "\<exists>lk. rfold step (take (Suc k) (xs @ [x])) l0 = Inr lk \<and> theta lk = (thetas @ [theta l]) ! k"
    if "k < length (xs @ [x])" for k
  proof (cases "k < length xs")
    case True
    then show ?thesis using th by (auto simp: nth_append)
  next
    case False
    with that have "k = length xs" by simp
    then show ?thesis using snoc.prems th(1) by (simp add: nth_append)
  qed
  ultimately show ?case using th(1) by (intro exI[of _ "thetas @ [theta l]"]) auto
qed

end

definition prefix_theta :: "(int \<Rightarrow> pyfloat res) \<Rightarrow> pyfloat \<Rightarrow> prefix_loop \<Rightarrow> pyfloat" where
  "prefix_theta pow118 load l = (case step_throughput pow118 (pl_index l) load of Inr t \<Rightarrow> fmul (pl_evidence l) t | Inl _ \<Rightarrow> Fin 0)"

interpretation prefix_argmax: argmax_loop "schedule_step pow118 load" pl_index pl_best_theta pl_best_budget "prefix_theta pow118 load"
  for pow118 load
  by unfold_locales (auto simp: schedule_step_def prefix_theta_def res_iff Let_def)

interpretation lane_argmax: argmax_loop "lane_loop_step pow118 load" ll_index ll_best_theta ll_best_budget ll_previous_theta
  for pow118 load
  by unfold_locales (auto simp: lane_loop_step_def res_iff Let_def)

text \<open>The estimate of a prefix, computed from the start.\<close>

definition chain_theta :: "(int \<Rightarrow> pyfloat res) \<Rightarrow> pyfloat \<Rightarrow> pyval dict list \<Rightarrow> pyfloat res" where
  "chain_theta pow118 load cs =
     rbind (rfold chain_step cs (Fin 1, Fin 0, Fin 1)) (\<lambda>(_, evidence, _).
     rbind (step_throughput pow118 (int (length cs)) load) (\<lambda>t. Inr (fmul evidence t)))"

definition lane_theta :: "(int \<Rightarrow> pyfloat res) \<Rightarrow> pyfloat \<Rightarrow> pyval dict list \<Rightarrow> pyfloat res" where
  "lane_theta pow118 load cs =
     rbind (rfold (\<lambda>c e. rbind (candidate_confidence c) (\<lambda>x. rbind (expected_evidence_units c) (\<lambda>u.
       Inr (fadd e (fmul (clamp01 x) u))))) cs (Fin 0)) (\<lambda>evidence.
     rbind (step_throughput pow118 (int (length cs)) load) (\<lambda>t. Inr (fmul evidence t)))"

lemma clamp01_idem: "clamp01 (clamp01 x) = clamp01 x"
  by (cases x) (auto simp: clamp_def pymax_def pymin_def)

lemma conditional_clamped [simp]: "conditional_branch_confidence (clamp01 x) y = conditional_branch_confidence x y"
  by (simp add: conditional_branch_confidence_def clamp01_idem)

lemma prefix_loop_chain:
  "rfold (schedule_step pow118 load) xs (schedule_start ys) = Inr l \<Longrightarrow>
   pl_index l = int (length xs) \<and> rfold chain_step xs (Fin 1, Fin 0, Fin 1) = Inr (pl_survival l, pl_evidence l, pl_previous l)"
proof (induction xs arbitrary: l rule: rev_induct)
  case Nil
  then show ?case by (auto simp: schedule_start_def)
next
  case (snoc x xs)
  then obtain m where m: "rfold (schedule_step pow118 load) xs (schedule_start ys) = Inr m" "schedule_step pow118 load x m = Inr l"
    by (auto simp: rfold_snoc res_iff)
  from snoc.IH[OF m(1)] m(2) show ?case
    by (auto simp: rfold_snoc chain_step_def schedule_step_def res_iff Let_def)
qed

lemma prefix_loop_theta:
  assumes "rfold (schedule_step pow118 load) xs (schedule_start ys) = Inr l" "xs \<noteq> []"
  shows "chain_theta pow118 load xs = Inr (prefix_theta pow118 load l)"
proof -
  obtain zs z where xs: "xs = zs @ [z]" using assms(2) by (metis rev_exhaust)
  then obtain m where "schedule_step pow118 load z m = Inr l" using assms(1) by (auto simp: rfold_snoc res_iff)
  then obtain t where "step_throughput pow118 (pl_index l) load = Inr t" by (auto simp: schedule_step_def res_iff Let_def)
  with prefix_loop_chain[OF assms(1)] show ?thesis by (simp add: chain_theta_def prefix_theta_def)
qed

lemma lane_loop_theta:
  "rfold (lane_loop_step pow118 load) xs (lane_loop_start ys) = Inr l \<Longrightarrow>
   (xs \<noteq> [] \<longrightarrow> lane_theta pow118 load xs = Inr (ll_previous_theta l)) \<and> ll_index l = int (length xs) \<and>
   rfold (\<lambda>c e. rbind (candidate_confidence c) (\<lambda>x. rbind (expected_evidence_units c) (\<lambda>u.
       Inr (fadd e (fmul (clamp01 x) u))))) xs (Fin 0) = Inr (ll_evidence l) \<and>
   length (ll_steps l) = length xs \<and> map ls_lane_index (ll_steps l) = [1..int (length xs)]"
proof (induction xs arbitrary: l rule: rev_induct)
  case Nil
  then show ?case by (auto simp: lane_loop_start_def)
next
  case (snoc x xs)
  then obtain m where m: "rfold (lane_loop_step pow118 load) xs (lane_loop_start ys) = Inr m" "lane_loop_step pow118 load x m = Inr l"
    by (auto simp: rfold_snoc res_iff)
  have "[1..int (length xs) + 1] = [1..int (length xs)] @ [int (length xs) + 1]" by (subst upto_rec2) auto
  with snoc.IH[OF m(1)] m(2) show ?case
    by (auto simp: rfold_snoc lane_theta_def lane_loop_step_def res_iff Let_def algebra_simps)
qed

text \<open>A width is the first best one: no prefix has a better estimate, no shorter one an estimate as
  good, and it is 1 when no estimate is positive.\<close>

definition first_best :: "(pyval dict list \<Rightarrow> pyfloat res) \<Rightarrow> pyval dict list \<Rightarrow> pyfloat \<Rightarrow> int \<Rightarrow> bool" where
  "first_best theta cs best n \<longleftrightarrow>
     1 \<le> n \<and> n \<le> int (length cs) \<and>
     (\<forall>k \<in> {1..length cs}. \<exists>t. theta (take k cs) = Inr t \<and> \<not> fless best t \<and> (int k < n \<longrightarrow> \<not> fle best t)) \<and>
     (if fless (Fin 0) best then theta (take (nat n) cs) = Inr best else best = Fin 0 \<and> n = 1)"

lemma first_bestI:
  assumes "best_ok 1 thetas best n" "length thetas = length cs" "cs \<noteq> []"
    and th: "\<forall>k < length cs. theta (take (Suc k) cs) = Inr (thetas ! k)"
  shows "first_best theta cs best n"
proof -
  have n: "1 \<le> n" "n \<le> int (length cs)" using assms(1-3) unfolding best_ok_def by (auto split: if_splits simp: Suc_le_eq)
  have "\<exists>t. theta (take k cs) = Inr t \<and> \<not> fless best t \<and> (int k < n \<longrightarrow> \<not> fle best t)" if k: "k \<in> {1..length cs}" for k
  proof -
    have i: "k - 1 < length cs" "Suc (k - 1) = k" using k by auto
    then have "thetas ! (k - 1) \<in> set thetas" using assms(2) by simp
    then have "\<not> fless best (thetas ! (k - 1))" using assms(1) by (simp add: best_ok_def)
    moreover have "\<not> fle best (thetas ! (k - 1))" if "int k < n"
    proof -
      have "int (k - 1) < n - 1" using that i by simp
      moreover have "1 < n" using that k by simp
      ultimately show ?thesis using assms(1) unfolding best_ok_def by (auto split: if_splits)
    qed
    ultimately show ?thesis using th i by metis
  qed
  moreover have "theta (take (nat n) cs) = Inr best" if "fless (Fin 0) best"
  proof -
    have "nat (n - 1) < length cs" "Suc (nat (n - 1)) = nat n" using n by auto
    moreover have "thetas ! nat (n - 1) = best" using assms(1) that by (simp add: best_ok_def)
    ultimately show ?thesis using th by metis
  qed
  moreover have "\<not> fless (Fin 0) best \<longrightarrow> best = Fin 0 \<and> n = 1" using assms(1) by (auto simp: best_ok_def split: if_splits)
  ultimately show ?thesis using n unfolding first_best_def by auto
qed

lemma prefix_loop_best:
  assumes "rfold (schedule_step pow118 load) cs (schedule_start cs) = Inr l" "cs \<noteq> []"
  shows "first_best (chain_theta pow118 load) cs (pl_best_theta l) (pl_best_budget l)"
proof -
  have "pl_index (schedule_start cs) = 0" "pl_best_theta (schedule_start cs) = Fin 0" "pl_best_budget (schedule_start cs) = 1"
    using assms(2) by (simp_all add: schedule_start_def)
  from prefix_argmax.loop_best[OF this assms(1)] obtain thetas where th: "length thetas = length cs"
    "\<forall>k < length cs. \<exists>lk. rfold (schedule_step pow118 load) (take (Suc k) cs) (schedule_start cs) = Inr lk \<and> prefix_theta pow118 load lk = thetas ! k"
    "best_ok 1 thetas (pl_best_theta l) (pl_best_budget l)" by blast
  have "chain_theta pow118 load (take (Suc k) cs) = Inr (thetas ! k)" if "k < length cs" for k
  proof -
    from th(2) that obtain lk where "rfold (schedule_step pow118 load) (take (Suc k) cs) (schedule_start cs) = Inr lk"
      "prefix_theta pow118 load lk = thetas ! k" by blast
    with prefix_loop_theta[OF this(1)] assms(2) show ?thesis by (metis take_eq_Nil2 nat.distinct(1))
  qed
  with th assms(2) show ?thesis by (intro first_bestI) auto
qed

lemma lane_loop_best:
  assumes "rfold (lane_loop_step pow118 load) cs (lane_loop_start cs) = Inr l" "cs \<noteq> []"
  shows "first_best (lane_theta pow118 load) cs (ll_best_theta l) (ll_best_budget l)"
proof -
  have "ll_index (lane_loop_start cs) = 0" "ll_best_theta (lane_loop_start cs) = Fin 0" "ll_best_budget (lane_loop_start cs) = 1"
    using assms(2) by (simp_all add: lane_loop_start_def)
  from lane_argmax.loop_best[OF this assms(1)] obtain thetas where th: "length thetas = length cs"
    "\<forall>k < length cs. \<exists>lk. rfold (lane_loop_step pow118 load) (take (Suc k) cs) (lane_loop_start cs) = Inr lk \<and> ll_previous_theta lk = thetas ! k"
    "best_ok 1 thetas (ll_best_theta l) (ll_best_budget l)" by blast
  have "lane_theta pow118 load (take (Suc k) cs) = Inr (thetas ! k)" if "k < length cs" for k
  proof -
    from th(2) that obtain lk where "rfold (lane_loop_step pow118 load) (take (Suc k) cs) (lane_loop_start cs) = Inr lk"
      "ll_previous_theta lk = thetas ! k" by blast
    with lane_loop_theta[OF this(1)] assms(2) show ?thesis by (metis take_eq_Nil2 nat.distinct(1))
  qed
  with th assms(2) show ?thesis by (intro first_bestI) auto
qed

lemma prefix_metrics_theta:
  assumes "chain_theta pow118 load (take (nat n) cs) = Inr best" "1 \<le> n" "n \<le> int (length cs)" "prefix_metrics pow118 cs n load = Inr m"
  shows "pm_theta m = round_decimals best 3"
proof -
  have "max 0 (min (int (length cs)) n) = n" "int (min (length cs) (nat n)) = n" using assms(2,3) by auto
  then show ?thesis
    using assms by (auto simp: prefix_metrics_def chain_theta_def res_iff Let_def split: prod.splits if_splits)
qed

text \<open>C28: the scheduler of a serial chain returns the first best width.  Among the candidates within the
  width, no prefix has a better estimate than the selected one, computed from the start, and no
  shorter one an estimate as good; when no estimate is positive one branch is scheduled.  The
  metrics reported for the selected prefix are those of the best estimate.\<close>

theorem chain_schedule_first_best:
  assumes "schedule_confidence_prefix pow118 candidates max_width max_branch_width load = Inr s"
  defines "cs \<equiv> take (nat (max 1 (min max_branch_width (if max_width = 0 then 1 else max_width)))) candidates"
  shows "if cs = [] then sc_selected_prefix_length s = 0
    else \<exists>best. first_best (chain_theta pow118 load) cs best (sc_selected_prefix_length s) \<and>
      sc_best_theta s = round_decimals best 3 \<and> (fless (Fin 0) best \<longrightarrow> pm_theta (sc_selected s) = sc_best_theta s)"
proof -
  obtain l selected where l: "rfold (schedule_step pow118 load) cs (schedule_start cs) = Inr l"
    "prefix_metrics pow118 cs (pl_best_budget l) load = Inr selected"
    "sc_selected_prefix_length s = pl_best_budget l" "sc_best_theta s = round_decimals (pl_best_theta l) 3" "sc_selected s = selected"
    using assms(1) unfolding cs_def schedule_confidence_prefix_def Let_def by (auto simp: res_iff)
  show ?thesis
  proof (cases "cs = []")
    case True
    then show ?thesis using l(1,3) by (auto simp: schedule_start_def)
  next
    case False
    have fb: "first_best (chain_theta pow118 load) cs (pl_best_theta l) (pl_best_budget l)" using l(1) False by (rule prefix_loop_best)
    then have "pm_theta selected = round_decimals (pl_best_theta l) 3" if "fless (Fin 0) (pl_best_theta l)"
      using that l(2) by (auto simp: first_best_def intro: prefix_metrics_theta)
    with fb False l(3-5) show ?thesis by auto
  qed
qed

text \<open>A candidate with certain success and no interference between lanes.\<close>

abbreviation sure :: "pyval dict" where
  "sure \<equiv> [(''confidence'', PFloat (Fin 1))]"

abbreviation flat_pow :: "int \<Rightarrow> pyfloat res" where
  "flat_pow n \<equiv> Inr (Fin 0)"

lemma sure_values [simp]:
  "candidate_confidence sure = Inr (Fin 1)" "expected_evidence_units sure = Inr (Fin 1)"
  "step_throughput flat_pow n (Fin 0) = Inr (Fin 1)"
  by (simp_all add: candidate_confidence_def expected_evidence_units_def step_throughput_def get_def py_or_def clamp_def pymax_def pymin_def)

lemma small_positive: "fless (Fin 0) (rnd (1 / 1000))"
  by code_simp

lemma fdiv_pymax: "fless (Fin 0) a \<Longrightarrow> \<exists>z. fdiv x (pymax a y) = Inr z"
  by (cases x; cases a; cases y) (auto simp: pymax_def)

lemma chain_example: "\<exists>s. schedule_confidence_prefix flat_pow [sure] 2 2 (Fin 0) = Inr s"
  using fdiv_pymax[OF small_positive]
  by (simp add: schedule_confidence_prefix_def schedule_step_def schedule_start_def prefix_metrics_def chain_step_def Let_def)
    (metis rbind_simps(2))

theorem chain_schedule_first_best_witness:
  "\<exists>s best. schedule_confidence_prefix flat_pow [sure] 2 2 (Fin 0) = Inr s \<and>
     first_best (chain_theta flat_pow (Fin 0)) [sure] best (sc_selected_prefix_length s)"
proof -
  from chain_example obtain s where s: "schedule_confidence_prefix flat_pow [sure] 2 2 (Fin 0) = Inr s" by blast
  from chain_schedule_first_best[OF s] show ?thesis by (auto simp: s split: if_splits)
qed

text \<open>The lanes an expansion admits: every one is worth the floor.\<close>

lemma expand_budget_spec:
  "map ls_lane_index ss = [b + 1..b + int (length ss)] \<Longrightarrow> 0 \<le> b \<Longrightarrow>
   expand_budget v ss b = b + int (length (takeWhile (\<lambda>s. \<not> fless (ls_lane_value s) v) ss))"
proof (induction ss arbitrary: b)
  case (Cons s ss)
  have "ls_lane_index s = b + 1" "map ls_lane_index ss = [b + 1 + 1..b + 1 + int (length ss)]"
    using Cons.prems(1) by (subst (asm) upto_rec1; simp add: algebra_simps)+
  with Cons.IH[of "b + 1"] Cons.prems(2) show ?case by simp
qed simp

lemma upto_drop_take:
  "0 \<le> c \<Longrightarrow> c \<le> n \<Longrightarrow> drop (nat c) [1..n] = [c + 1..n]"
  "c \<le> t \<Longrightarrow> t \<le> n \<Longrightarrow> take (nat (t - c)) [c + 1..n] = [c + 1..t]"
  by (auto intro!: nth_equalityI simp: nth_upto)

text \<open>The parts of a lane schedule.\<close>

lemma lane_schedule_parts:
  assumes "schedule_independent_lanes pow118 candidates max_width load mm uf vf vr = Inr s"
    and cs: "cs = take (nat (max 1 (if max_width = 0 then 1 else max_width))) candidates"
  obtains l v where "rfold (lane_loop_step pow118 (clamp01 load)) cs (lane_loop_start cs) = Inr l"
    "sl_core_selected_prefix_length s = ll_best_budget l" "sl_best_theta s = round_decimals (ll_best_theta l) 3"
    "sl_steps s = ll_steps l" "sl_lane_value_floor s = round_decimals v 4" "sl_target_lane_count s \<le> int (length cs)"
    "sl_selected_prefix_length s = lane_budget (ll_best_budget l) (sl_target_lane_count s) v (ll_steps l)"
    "map rf_lane_index (sl_refusals s) = map ls_lane_index (drop (nat (sl_selected_prefix_length s)) (ll_steps l))"
proof -
  from assms(1) obtain l t sp where l: "rfold (lane_loop_step pow118 (clamp01 load)) cs (lane_loop_start cs) = Inr l"
      "lane_target (max 1 (if max_width = 0 then 1 else max_width)) (length cs) (clamp01 uf) = Inr t"
    and s: "sl_core_selected_prefix_length s = ll_best_budget l" "sl_best_theta s = round_decimals (ll_best_theta l) 3"
    "sl_steps s = ll_steps l" "sl_lane_value_floor s = round_decimals (value_floor_of (ll_steps l) vf vr) 4" "sl_target_lane_count s = t"
    "sl_selected_prefix_length s = lane_budget (ll_best_budget l) t (value_floor_of (ll_steps l) vf vr) (ll_steps l)"
    "sl_refusals s = lane_refusals t (value_floor_of (ll_steps l) vf vr) mm (drop (nat (sl_selected_prefix_length s)) (ll_steps l))"
    unfolding schedule_independent_lanes_def Let_def cs[symmetric] by (auto simp: res_iff)
  have "t \<le> int (length cs)" using l(2) by (auto simp: lane_target_def res_iff)
  with l(1) s show thesis
    by (intro that[of l "value_floor_of (ll_steps l) vf vr"]) (simp_all add: lane_refusals_def)
qed

lemma lane_loop_budget:
  assumes "rfold (lane_loop_step pow118 load) cs (lane_loop_start cs) = Inr l"
  shows "0 \<le> ll_best_budget l" "ll_best_budget l \<le> int (length cs)"
proof -
  have "0 \<le> ll_best_budget l \<and> ll_best_budget l \<le> int (length cs)"
  proof (cases "cs = []")
    case True
    then show ?thesis using assms by (auto simp: lane_loop_start_def)
  next
    case False
    from lane_loop_best[OF assms False] show ?thesis by (simp add: first_best_def)
  qed
  then show "0 \<le> ll_best_budget l" "ll_best_budget l \<le> int (length cs)" by auto
qed

lemma lane_target_example: "\<exists>n. lane_target 2 2 (clamp01 (Fin 0)) = Inr n"
proof -
  have "fle (rnd 0) (rnd (999 / 1000))" "fle (rnd (999 / 1000)) (rnd 1)" by (rule rnd_mono; simp)+
  then obtain q where q: "rnd (999 / 1000) = Fin q" "0 \<le> q" "q \<le> 1" by (cases "rnd (999 / 1000)") (auto simp: fle_def)
  have "fle (rnd 0) (rnd q)" "fle (rnd q) (rnd 1)" by (rule rnd_mono; simp add: q)+
  with q show ?thesis by (cases "rnd q") (auto simp: lane_target_def clamp_def pymax_def pymin_def of_pyint_def)
qed

lemma lane_example: "\<exists>s. schedule_independent_lanes flat_pow [sure, sure] 2 (Fin 0) (Fin 0) (Fin 0) (Fin 0) (Fin 0) = Inr s"
proof -
  have [simp]: "clamp01 (Fin 0) = Fin 0" "clamp01 (Fin 1) = Fin 1" by (simp_all add: clamp_def pymax_def pymin_def)
  obtain l where l: "rfold (lane_loop_step flat_pow (Fin 0)) [sure, sure] (lane_loop_start [sure, sure]) = Inr l"
    by (auto simp: lane_loop_step_def lane_loop_start_def Let_def)
  obtain n where n: "lane_target 2 2 (Fin 0) = Inr n" using lane_target_example by auto
  show ?thesis
    using fdiv_pymax[OF small_positive, of "ll_best_theta l"] l n
    unfolding schedule_independent_lanes_def Let_def by (auto simp: numeral_2_eq_2 rbind_def) (metis sum.case(2))
qed

text \<open>The core width of independent lanes is the first best one for the additive estimate.\<close>

theorem lane_core_first_best:
  assumes "schedule_independent_lanes pow118 candidates max_width load mm uf vf vr = Inr s"
  defines "cs \<equiv> take (nat (max 1 (if max_width = 0 then 1 else max_width))) candidates"
  shows "if cs = [] then sl_core_selected_prefix_length s = 0
    else \<exists>best. first_best (lane_theta pow118 (clamp01 load)) cs best (sl_core_selected_prefix_length s) \<and>
      sl_best_theta s = round_decimals best 3"
proof -
  from assms(1) cs_def[THEN meta_eq_to_obj_eq] obtain l v where l: "rfold (lane_loop_step pow118 (clamp01 load)) cs (lane_loop_start cs) = Inr l"
    "sl_core_selected_prefix_length s = ll_best_budget l" "sl_best_theta s = round_decimals (ll_best_theta l) 3"
    by (rule lane_schedule_parts)
  show ?thesis
  proof (cases "cs = []")
    case True
    then show ?thesis using l by (auto simp: lane_loop_start_def)
  next
    case False
    from lane_loop_best[OF l(1) False] False l(2,3) show ?thesis by auto
  qed
qed

theorem lane_core_first_best_witness:
  "\<exists>s best. schedule_independent_lanes flat_pow [sure, sure] 2 (Fin 0) (Fin 0) (Fin 0) (Fin 0) (Fin 0) = Inr s \<and>
     first_best (lane_theta flat_pow (clamp01 (Fin 0))) [sure, sure] best (sl_core_selected_prefix_length s)"
proof -
  from lane_example obtain s where
    s: "schedule_independent_lanes flat_pow [sure, sure] 2 (Fin 0) (Fin 0) (Fin 0) (Fin 0) (Fin 0) = Inr s" by blast
  from lane_core_first_best[OF s] s show ?thesis by (auto split: if_splits)
qed

text \<open>The expansion, on the lanes from the core to the target.\<close>

lemma expansion_lanes:
  fixes v :: pyfloat
  assumes idx: "map ls_lane_index steps = [1..int (length steps)]"
    and c: "0 \<le> c" "c < t" "t \<le> int (length steps)"
  defines "b \<equiv> expand_budget v (take (nat (t - c)) (drop (nat c) steps)) c"
  shows "c \<le> b" "b \<le> t"
    and "\<And>k. c < k \<Longrightarrow> k \<le> b \<Longrightarrow> \<not> fless (ls_lane_value (steps ! nat (k - 1))) v"
    and "b < t \<Longrightarrow> fless (ls_lane_value (steps ! nat b)) v"
proof -
  let ?ss = "take (nat (t - c)) (drop (nat c) steps)"
  let ?P = "\<lambda>s. \<not> fless (ls_lane_value s) v"
  have len: "int (length ?ss) = t - c" using c by auto
  have "map ls_lane_index ?ss = [c + 1..c + int (length ?ss)]"
    unfolding len take_map[symmetric] drop_map[symmetric] idx using c by (simp add: upto_drop_take)
  from expand_budget_spec[OF this c(1)] have b: "b = c + int (length (takeWhile ?P ?ss))" by (simp add: b_def)
  have m: "length (takeWhile ?P ?ss) \<le> length ?ss" by (rule length_takeWhile_le)
  show "c \<le> b" "b \<le> t" using b m len by linarith+
  have lane: "?ss ! j = steps ! nat (c + int j)" if "j < length ?ss" for j
    using that c by (simp add: nat_add_distrib add.commute)
  show "\<not> fless (ls_lane_value (steps ! nat (k - 1))) v" if k: "c < k" "k \<le> b" for k
  proof -
    let ?j = "nat (k - 1 - c)"
    have j: "?j < length (takeWhile ?P ?ss)" using k b by auto
    then have "?P (?ss ! ?j)" using nth_mem set_takeWhileD takeWhile_nth by metis
    moreover have "?ss ! ?j = steps ! nat (k - 1)"
    proof -
      have "?j < length ?ss" "nat (c + int ?j) = nat (k - 1)" using j m k by linarith+
      with lane[of ?j] show ?thesis by simp
    qed
    ultimately show ?thesis by simp
  qed
  show "fless (ls_lane_value (steps ! nat b)) v" if "b < t"
  proof -
    have "length (takeWhile ?P ?ss) < length ?ss" using that b len by linarith
    from nth_length_takeWhile[OF this] lane[OF this] show ?thesis by (simp add: b)
  qed
qed

text \<open>The lanes beyond the core.  The selected width is at least the core and at most the larger of
  core and target; every lane it adds is worth the floor, which is then positive; when it stops
  before the target, the next lane is worth less.  The refusals are exactly the lanes after it.\<close>

theorem lane_expansion_bounds:
  assumes "schedule_independent_lanes pow118 candidates max_width load mm uf vf vr = Inr s"
  defines "cs \<equiv> take (nat (max 1 (if max_width = 0 then 1 else max_width))) candidates"
    and "core \<equiv> sl_core_selected_prefix_length s" and "sel \<equiv> sl_selected_prefix_length s"
  shows "core \<le> sel \<and> sel \<le> max core (sl_target_lane_count s) \<and> sel \<le> int (length cs) \<and>
    map ls_lane_index (sl_steps s) = [1..int (length cs)] \<and>
    map rf_lane_index (sl_refusals s) = [sel + 1..int (length cs)] \<and>
    (\<exists>v. sl_lane_value_floor s = round_decimals v 4 \<and>
      (\<forall>k. core < k \<longrightarrow> k \<le> sel \<longrightarrow> fless (Fin 0) v \<and> \<not> fless (ls_lane_value (sl_steps s ! nat (k - 1))) v) \<and>
      (fless (Fin 0) v \<longrightarrow> core < sl_target_lane_count s \<longrightarrow> sel < sl_target_lane_count s \<longrightarrow>
         fless (ls_lane_value (sl_steps s ! nat sel)) v))"
proof -
  from assms(1) cs_def[THEN meta_eq_to_obj_eq] obtain l v where l: "rfold (lane_loop_step pow118 (clamp01 load)) cs (lane_loop_start cs) = Inr l"
    "core = ll_best_budget l" "sl_steps s = ll_steps l" "sl_lane_value_floor s = round_decimals v 4"
    "sl_target_lane_count s \<le> int (length cs)"
    "sel = lane_budget (ll_best_budget l) (sl_target_lane_count s) v (ll_steps l)"
    "map rf_lane_index (sl_refusals s) = map ls_lane_index (drop (nat sel) (ll_steps l))"
    unfolding core_def sel_def by (rule lane_schedule_parts)
  have idx: "length (ll_steps l) = length cs" "map ls_lane_index (ll_steps l) = [1..int (length cs)]"
    using lane_loop_theta[OF l(1)] by auto
  have core: "0 \<le> core" "core \<le> int (length cs)" using lane_loop_budget[OF l(1)] by (simp_all add: l(2))
  let ?t = "sl_target_lane_count s"
  have exp: "core \<le> sel \<and> sel \<le> max core ?t \<and>
      (\<forall>k. core < k \<longrightarrow> k \<le> sel \<longrightarrow> fless (Fin 0) v \<and> \<not> fless (ls_lane_value (ll_steps l ! nat (k - 1))) v) \<and>
      (fless (Fin 0) v \<longrightarrow> core < ?t \<longrightarrow> sel < ?t \<longrightarrow> fless (ls_lane_value (ll_steps l ! nat sel)) v)"
  proof (cases "core < ?t \<and> fless (Fin 0) v")
    case True
    have "sel = expand_budget v (take (nat (?t - core)) (drop (nat core) (ll_steps l))) core"
      using True expansion_lanes(1)[where steps = "ll_steps l" and c = core and t = ?t and v = v] idx core(1) l(5,6) by (simp add: l(2) lane_budget_def)
    with True expansion_lanes[where steps = "ll_steps l" and c = core and t = ?t and v = v] idx core(1) l(5) show ?thesis by auto
  next
    case False
    then have "sel = core" using l(6) by (auto simp: l(2) lane_budget_def)
    with False show ?thesis by auto
  qed
  have "sel \<le> int (length cs)" using exp core(2) l(5) by auto
  moreover have "map rf_lane_index (sl_refusals s) = [sel + 1..int (length cs)]"
    unfolding l(7) drop_map[symmetric] idx(2) using exp core(1) calculation by (intro upto_drop_take(1)) auto
  ultimately show ?thesis using exp idx(2) l(3,4) by auto
qed

theorem lane_expansion_bounds_witness:
  "\<exists>s. schedule_independent_lanes flat_pow [sure, sure] 2 (Fin 0) (Fin 0) (Fin 0) (Fin 0) (Fin 0) = Inr s \<and>
     sl_core_selected_prefix_length s \<le> sl_selected_prefix_length s \<and> sl_selected_prefix_length s \<le> 2 \<and>
     map rf_lane_index (sl_refusals s) = [sl_selected_prefix_length s + 1..2]"
proof -
  from lane_example obtain s where
    s: "schedule_independent_lanes flat_pow [sure, sure] 2 (Fin 0) (Fin 0) (Fin 0) (Fin 0) (Fin 0) = Inr s" by blast
  from lane_expansion_bounds[OF s] s show ?thesis by auto
qed

end
