(* ===== verification/Router_State.thy ===== *)
theory Router_State
  imports Harness_Frontier Speculative_Scheduler
begin

text \<open>
  \<open>src/loopx/capabilities/explore/router_state.py\<close>: the state by which an arm orders families of work,
  folded over the probes of an epoch, its bias at the epoch boundary, and the terms read from it.

  A state is the dictionary \<open>initial_router_state\<close> builds and the other functions copy and update, so
  it has all its keys; its families are records.  The configuration stays a dictionary of arbitrary
  values, which the code converts where it uses them.  Parameters: \<open>sum\<close> on floats, whose
  rounding depends on the version of Python, and \<open>math.log\<close> and \<open>math.sqrt\<close>.  An exception leaves
  no trace, because every function works on a copy.
\<close>

section \<open>Configuration and state\<close>

definition ROUTER_STATE_SCHEMA_VERSION :: string where
  "ROUTER_STATE_SCHEMA_VERSION = ''loopx_explore_router_state_v0''"

definition DEFAULT_ROUTER_CONFIG :: "pyval dict" where
  "DEFAULT_ROUTER_CONFIG =
     [(''value_rate_alpha'', PFloat (rnd (3 / 10))), (''duration_alpha'', PFloat (rnd (3 / 10))),
      (''accept_rate_alpha'', PFloat (rnd (3 / 10))), (''infra_alpha'', PFloat (Fin (1 / 2))),
      (''bias_gamma'', PFloat (rnd (1 / 10))), (''bias_decay'', PFloat (rnd (95 / 100))),
      (''bias_clamp'', PFloat (Fin (1 / 2))), (''coverage_horizon_epochs'', PInt 4),
      (''surplus_share_factor'', PFloat (Fin 2)), (''surplus_novelty_ceiling'', PFloat (rnd (1 / 10))),
      (''ucb_coefficient'', PFloat (rnd (6 / 10))), (''ucb_cap'', PFloat (Fin (3 / 2))),
      (''coverage_bonus_cap'', PFloat (Fin (1 / 2))), (''novelty_floor'', PFloat (rnd (5 / 100))),
      (''novelty_debt_threshold'', PFloat (rnd (5 / 100))), (''infra_penalty_weight'', PFloat (Fin (1 / 2))),
      (''cold_start_value_rate'', PFloat (Fin 1)), (''cold_start_duration_minutes'', PFloat (Fin 1)),
      (''cold_start_accept_rate'', PFloat (rnd (8 / 10))), (''routing_multiplier_floor'', PFloat (rnd (5 / 100)))]"

text \<open>Known keys are overridden, others dropped.\<close>

definition merge_config :: "pyval dict \<Rightarrow> pyval dict" where
  "merge_config config = fold (\<lambda>(k, v) merged. if k \<in> fst ` set merged then dict_set k v merged else merged) config DEFAULT_ROUTER_CONFIG"

record family_record =
  fm_value_rate_ema :: "pyfloat option"
  fm_duration_ema :: "pyfloat option"
  fm_accept_rate_ema :: "pyfloat option"
  fm_novelty_rate :: "pyfloat option"
  fm_infra_ema :: pyfloat
  fm_runs :: int
  fm_last_run_epoch :: "int option"
  fm_bias :: pyfloat

definition blank_family :: family_record where
  "blank_family =
     \<lparr>fm_value_rate_ema = None, fm_duration_ema = None, fm_accept_rate_ema = None, fm_novelty_rate = None,
      fm_infra_ema = Fin 0, fm_runs = 0, fm_last_run_epoch = None, fm_bias = Fin 0\<rparr>"

record RouterState =
  rs_config :: "pyval dict"
  rs_updated_epoch :: int
  rs_dispatches :: int
  rs_observed_epochs :: int
  rs_seen :: "string list"
  rs_families :: "family_record dict"
  rs_last_epoch :: int
  rs_last_minutes :: "pyfloat dict"
  rs_last_novel :: "pyfloat dict"

definition initial_router_state :: "pyval dict \<Rightarrow> RouterState" where
  "initial_router_state config =
     \<lparr>rs_config = merge_config config, rs_updated_epoch = 0, rs_dispatches = 0, rs_observed_epochs = 0, rs_seen = [],
      rs_families = [], rs_last_epoch = 0, rs_last_minutes = [], rs_last_novel = []\<rparr>"

definition router_config :: "RouterState \<Rightarrow> string \<Rightarrow> pyval" where
  "router_config s key = get (merge_config (rs_config s)) key"

definition scope_family_key :: "(pyval \<Rightarrow> string) \<Rightarrow> pyval \<Rightarrow> string" where
  "scope_family_key str_of family =
     (let trimmed = strip (text_or_empty str_of family);
          clean = rev (dropWhile (\<lambda>c. c = CHR ''/'') (rev (dropWhile (\<lambda>c. c = CHR ''/'') trimmed))) in
      if clean \<noteq> [] then ''scope:artifacts/'' @ clean else ''topic:general'')"

section \<open>Observing an epoch\<close>

definition ROUTER_MIN_DURATION_MINUTES :: pyfloat where
  "ROUTER_MIN_DURATION_MINUTES = rnd (5 / 100)"

definition OBSERVATION_WEIGHT :: pyfloat where
  "OBSERVATION_WEIGHT = Fin 1"

text \<open>A value used as an operand of float arithmetic: no text.\<close>

definition operand :: "pyval \<Rightarrow> pyfloat res" where
  "operand v = (case v of PStr _ \<Rightarrow> Inl (TypeError ''unsupported operand type'') | _ \<Rightarrow> to_float v)"

definition ema :: "pyfloat option \<Rightarrow> pyfloat \<Rightarrow> pyval \<Rightarrow> pyfloat res" where
  "ema previous sample alpha = (case previous of
     None \<Rightarrow> Inr sample
   | Some p \<Rightarrow> rbind (operand alpha) (\<lambda>a. Inr (fadd (fmul (fsub (Fin 1) a) p) (fmul a sample))))"

record probe_samples =
  sm_value_rate :: "pyfloat list"
  sm_duration :: "pyfloat list"
  sm_novelty :: "pyfloat list"
  sm_accept :: "pyfloat list"
  sm_accept_weight :: "pyfloat list"
  sm_infra :: "pyfloat list"

record epoch_fold =
  ef_seen :: "string set"
  ef_minutes :: "pyfloat dict"
  ef_novel :: "pyfloat dict"
  ef_samples :: "probe_samples dict"

text \<open>The weighted flags of a probe, by name.\<close>

definition true_flags :: "(pyval \<Rightarrow> string) \<Rightarrow> pyval \<Rightarrow> pyfloat dict res" where
  "true_flags str_of weighted = (case weighted of
     PMap m \<Rightarrow> rbind (rmap (\<lambda>(name, weight). rbind (to_float weight) (\<lambda>w. Inr (key_str str_of name, w))) m) (\<lambda>flags. Inr (dict_of flags))
   | _ \<Rightarrow> Inr [])"

text \<open>The value of the names that have not been seen, which then are.\<close>

definition credit_names :: "(string \<times> pyfloat) list \<Rightarrow> pyfloat \<times> string set \<Rightarrow> pyfloat \<times> string set" where
  "credit_names names acc = fold (\<lambda>(name, weight) (value, seen).
     if name \<in> seen then (value, seen) else (fadd value weight, insert name seen)) names acc"

fun is_bool :: "pyval \<Rightarrow> bool" where
  "is_bool (PBool _) = True"
| "is_bool _ = False"

fun is_whole :: "pyfloat \<Rightarrow> bool" where
  "is_whole (Fin q) = (of_int \<lfloor>q\<rfloor> = q)"
| "is_whole _ = False"

text \<open>The acceptance of a probe and its weight: counts when both are valid, else the flag.\<close>

definition acceptance :: "pyval dict \<Rightarrow> (pyfloat \<times> pyfloat) res" where
  "acceptance probe =
     (let flag = Inr (if truthy (get probe ''accepted'') then Fin 1 else Fin 0, Fin 1);
          accepted_count = get probe ''accepted_count''; attempt_count = get probe ''attempt_count'' in
      if accepted_count = PNone \<and> attempt_count = PNone then flag
      else case (to_float accepted_count, to_float attempt_count) of
        (Inr accepted, Inr attempts) \<Rightarrow>
          if \<not> is_bool accepted_count \<and> \<not> is_bool attempt_count \<and> isfinite accepted \<and> isfinite attempts \<and>
             is_whole accepted \<and> is_whole attempts \<and> fless (Fin 0) attempts \<and> fle (Fin 0) accepted \<and> fle accepted attempts
          then rbind (fdiv accepted attempts) (\<lambda>share. Inr (share, attempts))
          else flag
      | _ \<Rightarrow> flag)"

definition no_samples :: probe_samples where
  "no_samples = \<lparr>sm_value_rate = [], sm_duration = [], sm_novelty = [], sm_accept = [], sm_accept_weight = [], sm_infra = []\<rparr>"

definition dict_default :: "'v dict \<Rightarrow> string \<Rightarrow> 'v \<Rightarrow> 'v" where
  "dict_default d k v = (case dict_get d k of None \<Rightarrow> v | Some w \<Rightarrow> w)"

definition probe_family :: "(pyval \<Rightarrow> string) \<Rightarrow> pyval dict \<Rightarrow> string" where
  "probe_family str_of probe = text_or str_of (get probe ''family'') ''topic:general''"

definition observe_probe ::
    "(pyval \<Rightarrow> string) \<Rightarrow> (pyfloat list \<Rightarrow> pyfloat) \<Rightarrow> pyval dict \<Rightarrow> epoch_fold \<Rightarrow> epoch_fold res" where
  "observe_probe str_of sum_floats probe e =
     (let family = probe_family str_of probe in
      rbind (float_or_zero (get probe ''duration_minutes'')) (\<lambda>minutes.
      let duration = pymax ROUTER_MIN_DURATION_MINUTES minutes in
      rbind (iter_or_empty (get probe ''observation_keys'')) (\<lambda>raw_keys.
      let observation_keys = map (py_text str_of) raw_keys in
      rbind (true_flags str_of (get probe ''weighted_flags'')) (\<lambda>flags.
      let raw_value = fadd (fmul (of_pyint (int (length observation_keys))) OBSERVATION_WEIGHT) (sum_floats (map snd flags));
          (novel_value, seen) = credit_names (map (\<lambda>(flag, w). (flag_key family flag, w)) flags)
             (credit_names (map (\<lambda>k. (k, OBSERVATION_WEIGHT)) observation_keys) (Fin 0, ef_seen e));
          samples = dict_default (ef_samples e) family no_samples in
      rbind (fdiv raw_value duration) (\<lambda>rate.
      rbind (if fless (Fin 0) raw_value then fdiv novel_value raw_value else Inr (Fin 0)) (\<lambda>novelty.
      rbind (acceptance probe) (\<lambda>(accept_sample, accept_weight).
      Inr \<lparr>ef_seen = seen,
           ef_minutes = dict_set family (fadd (dict_default (ef_minutes e) family (Fin 0)) duration) (ef_minutes e),
           ef_novel = dict_set family (fadd (dict_default (ef_novel e) family (Fin 0)) novel_value) (ef_novel e),
           ef_samples = dict_set family
             \<lparr>sm_value_rate = sm_value_rate samples @ [rate], sm_duration = sm_duration samples @ [duration],
              sm_novelty = sm_novelty samples @ [novelty], sm_accept = sm_accept samples @ [accept_sample],
              sm_accept_weight = sm_accept_weight samples @ [accept_weight],
              sm_infra = sm_infra samples @ [if truthy (get probe ''retryable_infra_error'') then Fin 1 else Fin 0]\<rparr> (ef_samples e)\<rparr>)))))))"

definition mean :: "(pyfloat list \<Rightarrow> pyfloat) \<Rightarrow> pyfloat list \<Rightarrow> pyfloat res" where
  "mean sum_floats values = fdiv (sum_floats values) (of_pyint (max 1 (int (length values))))"

definition update_family ::
    "(pyfloat list \<Rightarrow> pyfloat) \<Rightarrow> (string \<Rightarrow> pyval) \<Rightarrow> int \<Rightarrow> probe_samples \<Rightarrow> family_record \<Rightarrow> family_record res" where
  "update_family sum_floats config epoch samples r =
     rbind (mean sum_floats (sm_value_rate samples)) (\<lambda>value_rate.
     rbind (ema (fm_value_rate_ema r) value_rate (config ''value_rate_alpha'')) (\<lambda>value_rate_ema.
     rbind (mean sum_floats (sm_duration samples)) (\<lambda>duration.
     rbind (ema (fm_duration_ema r) duration (config ''duration_alpha'')) (\<lambda>duration_ema.
     rbind (fdiv (sum_floats (map2 fmul (sm_accept samples) (sm_accept_weight samples)))
              (pymax (Fin 1) (sum_floats (sm_accept_weight samples)))) (\<lambda>accept_mean.
     rbind (ema (fm_accept_rate_ema r) accept_mean (config ''accept_rate_alpha'')) (\<lambda>accept_rate_ema.
     rbind (mean sum_floats (sm_infra samples)) (\<lambda>infra.
     rbind (ema (Some (fm_infra_ema r)) infra (config ''infra_alpha'')) (\<lambda>infra_ema.
     rbind (mean sum_floats (sm_novelty samples)) (\<lambda>novelty.
     Inr (r\<lparr>fm_value_rate_ema := Some (round_decimals value_rate_ema 4), fm_duration_ema := Some (round_decimals duration_ema 4),
            fm_accept_rate_ema := Some (round_decimals accept_rate_ema 4), fm_novelty_rate := Some (round_decimals novelty 4),
            fm_infra_ema := round_decimals infra_ema 4, fm_runs := fm_runs r + int (length (sm_value_rate samples)),
            fm_last_run_epoch := Some epoch\<rparr>))))))))))"

definition update_families ::
    "(pyfloat list \<Rightarrow> pyfloat) \<Rightarrow> (string \<Rightarrow> pyval) \<Rightarrow> int \<Rightarrow> probe_samples dict \<Rightarrow> family_record dict \<Rightarrow> family_record dict res" where
  "update_families sum_floats config epoch samples families =
     rfold (\<lambda>(family, ss) fams.
       rbind (update_family sum_floats config epoch ss (dict_default fams family blank_family)) (\<lambda>r.
       Inr (dict_set family r fams))) samples families"

definition observe_epoch ::
    "(pyval \<Rightarrow> string) \<Rightarrow> (pyfloat list \<Rightarrow> pyfloat) \<Rightarrow> int \<Rightarrow> pyval dict list \<Rightarrow> RouterState \<Rightarrow> RouterState res" where
  "observe_epoch str_of sum_floats epoch probes s =
     rbind (rfold (observe_probe str_of sum_floats) probes
              \<lparr>ef_seen = set (rs_seen s), ef_minutes = [], ef_novel = [], ef_samples = []\<rparr>) (\<lambda>e.
     rbind (update_families sum_floats (router_config s) epoch (ef_samples e) (rs_families s)) (\<lambda>families.
     Inr (s\<lparr>rs_families := families, rs_dispatches := rs_dispatches s + int (length probes),
            rs_observed_epochs := rs_observed_epochs s + 1, rs_seen := sorted_texts (ef_seen e),
            rs_last_epoch := epoch,
            rs_last_minutes := map (\<lambda>(k, v). (k, round_decimals v 4)) (ef_minutes e),
            rs_last_novel := map (\<lambda>(k, v). (k, round_decimals v 4)) (ef_novel e)\<rparr>)))"

section \<open>The bias at an epoch boundary\<close>

definition predicted_novelty :: "RouterState \<Rightarrow> string \<Rightarrow> pyfloat res" where
  "predicted_novelty s family = (case dict_get (rs_families s) family of
     None \<Rightarrow> Inr (Fin 1)
   | Some r \<Rightarrow> if fm_runs r = 0 then Inr (Fin 1)
       else (case fm_novelty_rate r of
          None \<Rightarrow> Inr (Fin 1)
        | Some rate \<Rightarrow> rbind (to_float (router_config s ''novelty_floor'')) (\<lambda>floor. Inr (pymax floor rate))))"

definition fabs :: "pyfloat \<Rightarrow> pyfloat" where
  "fabs x = (case x of Fin q \<Rightarrow> Fin \<bar>q\<bar> | NInf \<Rightarrow> PInf | _ \<Rightarrow> x)"

text \<open>Debt: eligible, not run for longer than the horizon, and still promising.\<close>

definition family_debt :: "RouterState \<Rightarrow> int \<Rightarrow> int \<Rightarrow> string \<Rightarrow> family_record \<Rightarrow> bool res" where
  "family_debt s epoch horizon family r =
     (let epochs_since = (case fm_last_run_epoch r of Some last_run \<Rightarrow> epoch - last_run | None \<Rightarrow> horizon + 1) in
      if epochs_since > horizon
      then rbind (predicted_novelty s family) (\<lambda>novelty.
           rbind (to_float (router_config s ''novelty_debt_threshold'')) (\<lambda>threshold. Inr (fless threshold novelty)))
      else Inr False)"

text \<open>Surplus: more than its share of the last epoch for hardly anything new.\<close>

definition family_surplus :: "RouterState \<Rightarrow> pyfloat \<Rightarrow> pyfloat \<Rightarrow> family_record \<Rightarrow> bool res" where
  "family_surplus s fair_share spent r =
     (if \<not> fless (Fin 0) fair_share then Inr False
      else rbind (to_float (router_config s ''surplus_share_factor'')) (\<lambda>factor.
        if \<not> fless (fmul factor fair_share) spent then Inr False
        else (case fm_novelty_rate r of
           None \<Rightarrow> Inr False
         | Some novelty \<Rightarrow> rbind (to_float (router_config s ''surplus_novelty_ceiling'')) (\<lambda>ceiling. Inr (fless novelty ceiling)))))"

definition clamp_bias :: "pyfloat \<Rightarrow> pyfloat \<Rightarrow> pyfloat" where
  "clamp_bias limit bias = round_decimals (pymax (fneg limit) (pymin limit bias)) 4"

definition advance_family ::
    "RouterState \<Rightarrow> int \<Rightarrow> string list \<Rightarrow> int \<Rightarrow> pyfloat \<Rightarrow> pyfloat \<Rightarrow> pyfloat \<Rightarrow> pyfloat dict \<Rightarrow> pyfloat \<Rightarrow>
     string \<times> family_record \<Rightarrow> (string \<times> family_record) res" where
  "advance_family s epoch eligible horizon gamma decay limit minutes fair_share = (\<lambda>(family, r).
     rbind (if family \<in> set eligible
            then rbind (family_debt s epoch horizon family r) (\<lambda>debt.
                 rbind (family_surplus s fair_share (dict_default minutes family (Fin 0)) r) (\<lambda>surplus.
                 Inr ((if debt then 1 else 0) - (if surplus then 1 else 0))))
            else Inr 0) (\<lambda>move.
     let bias = fadd (fmul decay (fm_bias r)) (fmul gamma (of_pyint move)) in
     Inr (family, r\<lparr>fm_bias := clamp_bias limit bias\<rparr>)))"

definition advance_epoch ::
    "(pyfloat list \<Rightarrow> pyfloat) \<Rightarrow> int \<Rightarrow> string list \<Rightarrow> RouterState \<Rightarrow> RouterState res" where
  "advance_epoch sum_floats epoch eligible s =
     (let s1 = s\<lparr>rs_families := fold (\<lambda>family fams. dict_setdefault family blank_family fams) eligible (rs_families s)\<rparr>;
          minutes = rs_last_minutes s1 in
      rbind (if eligible = [] then Inr (Fin 0)
             else fdiv (sum_floats (map snd minutes)) (of_pyint (max 1 (int (length eligible))))) (\<lambda>fair_share.
      rbind (to_int (router_config s ''coverage_horizon_epochs'')) (\<lambda>h.
      rbind (to_float (router_config s ''bias_gamma'')) (\<lambda>gamma.
      rbind (to_float (router_config s ''bias_decay'')) (\<lambda>decay.
      rbind (to_float (router_config s ''bias_clamp'')) (\<lambda>c.
      rbind (rmap (advance_family s1 epoch eligible (max 1 h) gamma decay (fabs c) minutes fair_share) (rs_families s1)) (\<lambda>families.
      Inr (s1\<lparr>rs_families := families, rs_updated_epoch := epoch\<rparr>))))))))"

section \<open>Routing terms\<close>

record routing_terms =
  rt_runs :: int
  rt_value_rate :: pyfloat
  rt_novelty :: pyfloat
  rt_expected_value_rate :: pyfloat
  rt_duration_minutes :: pyfloat
  rt_duration_observed :: bool
  rt_accept_rate :: pyfloat
  rt_ucb :: pyfloat
  rt_coverage_bonus :: pyfloat
  rt_bias :: pyfloat
  rt_infra_penalty :: pyfloat
  rt_routing_multiplier :: pyfloat
  rt_routing_value :: pyfloat
  rt_unbiased_routing_value :: pyfloat

definition cold_start_rate :: "(pyfloat list \<Rightarrow> pyfloat) \<Rightarrow> RouterState \<Rightarrow> pyfloat res" where
  "cold_start_rate sum_floats s =
     (let known_rates = List.map_filter (\<lambda>(_, r). fm_value_rate_ema r) (rs_families s) in
      if known_rates \<noteq> [] then fdiv (sum_floats known_rates) (of_pyint (int (length known_rates)))
      else to_float (router_config s ''cold_start_value_rate''))"

definition upper_confidence :: "(pyfloat \<Rightarrow> pyfloat res) \<Rightarrow> (pyfloat \<Rightarrow> pyfloat res) \<Rightarrow> RouterState \<Rightarrow> int \<Rightarrow> pyfloat res" where
  "upper_confidence log_of sqrt_of s runs =
     rbind (to_float (router_config s ''ucb_cap'')) (\<lambda>cap.
     rbind (to_float (router_config s ''ucb_coefficient'')) (\<lambda>coefficient.
     rbind (to_float (PInt (rs_dispatches s))) (\<lambda>total.
     rbind (log_of (fadd (Fin 1) total)) (\<lambda>l.
     rbind (to_float (PInt runs)) (\<lambda>n.
     rbind (fdiv l (fadd n (Fin 1))) (\<lambda>q.
     rbind (sqrt_of q) (\<lambda>root. Inr (pymin cap (fmul coefficient root)))))))))"

definition coverage_bonus_of :: "RouterState \<Rightarrow> family_record \<Rightarrow> pyfloat res" where
  "coverage_bonus_of s r =
     rbind (to_int (router_config s ''coverage_horizon_epochs'')) (\<lambda>h.
     let horizon = max 1 h;
         epochs_since = (case fm_last_run_epoch r of
           Some last_run \<Rightarrow> if fm_runs r \<noteq> 0 then max 0 (rs_updated_epoch s - last_run) else horizon
         | None \<Rightarrow> horizon) in
     rbind (to_float (router_config s ''coverage_bonus_cap'')) (\<lambda>cap.
     rbind (int_div epochs_since horizon) (\<lambda>share. Inr (fmul cap (pymin (Fin 1) share)))))"

definition ema_or_config :: "RouterState \<Rightarrow> pyfloat option \<Rightarrow> string \<Rightarrow> pyfloat res" where
  "ema_or_config s v key = (case v of Some x \<Rightarrow> Inr x | None \<Rightarrow> to_float (router_config s key))"

definition family_routing_terms ::
    "(pyfloat list \<Rightarrow> pyfloat) \<Rightarrow> (pyfloat \<Rightarrow> pyfloat res) \<Rightarrow> (pyfloat \<Rightarrow> pyfloat res) \<Rightarrow> RouterState \<Rightarrow> string \<Rightarrow> routing_terms res" where
  "family_routing_terms sum_floats log_of sqrt_of s family =
     (let r = dict_default (rs_families s) family blank_family in
      rbind (cold_start_rate sum_floats s) (\<lambda>cold.
      let value_rate = (case fm_value_rate_ema r of Some x \<Rightarrow> x | None \<Rightarrow> cold) in
      rbind (predicted_novelty s family) (\<lambda>novelty.
      rbind (upper_confidence log_of sqrt_of s (fm_runs r)) (\<lambda>ucb.
      rbind (coverage_bonus_of s r) (\<lambda>coverage_bonus.
      rbind (to_float (router_config s ''infra_penalty_weight'')) (\<lambda>weight.
      let bias = fm_bias r; infra_penalty = fmul weight (fm_infra_ema r); expected_value_rate = fmul value_rate novelty in
      rbind (to_float (router_config s ''routing_multiplier_floor'')) (\<lambda>floor.
      let unbiased_multiplier = pymax floor (fsub (fadd (fadd (Fin 1) ucb) coverage_bonus) infra_penalty);
          routing_multiplier = pymax floor (fsub (fadd (fadd (fadd (Fin 1) ucb) coverage_bonus) bias) infra_penalty) in
      rbind (ema_or_config s (fm_duration_ema r) ''cold_start_duration_minutes'') (\<lambda>duration.
      rbind (ema_or_config s (fm_accept_rate_ema r) ''cold_start_accept_rate'') (\<lambda>accept_rate.
      Inr \<lparr>rt_runs = fm_runs r, rt_value_rate = round_decimals value_rate 4, rt_novelty = round_decimals novelty 4,
           rt_expected_value_rate = round_decimals expected_value_rate 4, rt_duration_minutes = round_decimals duration 4,
           rt_duration_observed = (fm_duration_ema r \<noteq> None), rt_accept_rate = round_decimals accept_rate 4,
           rt_ucb = round_decimals ucb 4, rt_coverage_bonus = round_decimals coverage_bonus 4, rt_bias = round_decimals bias 4,
           rt_infra_penalty = round_decimals infra_penalty 4, rt_routing_multiplier = round_decimals routing_multiplier 4,
           rt_routing_value = round_decimals (fmul expected_value_rate routing_multiplier) 4,
           rt_unbiased_routing_value = round_decimals (fmul expected_value_rate unbiased_multiplier) 4\<rparr>)))))))))"

end
