(* ===== verification/Episode_Records.thy ===== *)
theory Episode_Records
  imports Episode_Runtime Router_State
begin

text \<open>
  \<open>src/loopx/capabilities/explore/episode_runtime.py\<close>, the part that reads execution records: the
  minutes and counts of an epoch, their combination over epochs, and the probes for the router, in
  which the records of an episode group become one.  The built-in \<open>sum\<close> on floats is a parameter.
\<close>

section \<open>Minutes and counts\<close>

definition duration_of :: "pyval dict \<Rightarrow> pyfloat res" where
  "duration_of record = (case float_or_zero (get record ''duration_minutes'') of
     Inr x \<Rightarrow> Inr (pymax (Fin 0) x)
   | Inl (TypeError _) \<Rightarrow> Inr (Fin 0)
   | Inl (ValueError _) \<Rightarrow> Inr (Fin 0)
   | Inl e \<Rightarrow> Inl e)"

text \<open>\<open>sum\<close> starts with the integer zero, so the sum of no floats is an integer.\<close>

definition py_sum :: "(pyfloat list \<Rightarrow> pyfloat) \<Rightarrow> pyfloat list \<Rightarrow> pyval" where
  "py_sum sum_floats xs = (if xs = [] then PInt 0 else PFloat (sum_floats xs))"

fun round6 :: "pyval \<Rightarrow> pyval" where
  "round6 (PFloat x) = PFloat (round_decimals x 6)"
| "round6 v = v"

record group_minutes =
  gm_prefix :: pyfloat
  gm_attempted :: pyfloat
  gm_successful :: pyfloat

record execution_totals =
  et_prefix :: pyfloat
  et_suffix :: pyfloat
  et_standalone :: pyfloat
  et_groups :: "group_minutes dict"
  et_episodes :: int
  et_errors :: int

definition no_minutes :: group_minutes where
  "no_minutes = \<lparr>gm_prefix = Fin 0, gm_attempted = Fin 0, gm_successful = Fin 0\<rparr>"

definition no_totals :: execution_totals where
  "no_totals = \<lparr>et_prefix = Fin 0, et_suffix = Fin 0, et_standalone = Fin 0, et_groups = [], et_episodes = 0, et_errors = 0\<rparr>"

definition record_kind_of :: "(pyval \<Rightarrow> string) \<Rightarrow> pyval dict \<Rightarrow> string" where
  "record_kind_of str_of record = text_or str_of (get record ''record_kind'') RECORD_KIND_STANDALONE"

definition adapter_failed :: "(pyval \<Rightarrow> string) \<Rightarrow> pyval dict \<Rightarrow> bool" where
  "adapter_failed str_of record \<longleftrightarrow> text_or_empty str_of (get record ''execution_status'') = ''adapter_error''"

definition record_group :: "(pyval \<Rightarrow> string) \<Rightarrow> pyval dict \<Rightarrow> string" where
  "record_group str_of record = strip (text_or_empty str_of (get record ''execution_group_id''))"

definition add_to_group :: "string \<Rightarrow> bool \<Rightarrow> pyfloat \<Rightarrow> group_minutes \<Rightarrow> group_minutes" where
  "add_to_group kind failed duration g =
     (if kind = RECORD_KIND_SHARED_PREFIX then g\<lparr>gm_prefix := fadd (gm_prefix g) duration\<rparr>
      else if kind = RECORD_KIND_EPISODE_SUFFIX then
        g\<lparr>gm_attempted := fadd (gm_attempted g) (Fin 1),
              gm_successful := (if failed then gm_successful g else fadd (gm_successful g) (Fin 1))\<rparr>
      else g)"

definition add_record :: "(pyval \<Rightarrow> string) \<Rightarrow> pyval dict \<Rightarrow> execution_totals \<Rightarrow> execution_totals res" where
  "add_record str_of record t =
     (let kind = record_kind_of str_of record in
      rbind (duration_of record) (\<lambda>duration.
      let failed = adapter_failed str_of record;
          t1 = (if kind = RECORD_KIND_SHARED_PREFIX then t\<lparr>et_prefix := fadd (et_prefix t) duration\<rparr>
                else if kind = RECORD_KIND_EPISODE_SUFFIX then
                  t\<lparr>et_suffix := fadd (et_suffix t) duration, et_episodes := et_episodes t + 1,
                    et_errors := et_errors t + (if failed then 1 else 0)\<rparr>
                else t\<lparr>et_standalone := fadd (et_standalone t) duration\<rparr>);
          group_id = record_group str_of record in
      Inr (if group_id = [] then t1
           else t1\<lparr>et_groups := dict_set group_id
             (add_to_group kind failed duration (dict_default (et_groups t1) group_id no_minutes)) (et_groups t1)\<rparr>)))"

definition avoided_by :: "(group_minutes \<Rightarrow> pyfloat) \<Rightarrow> group_minutes \<Rightarrow> pyfloat" where
  "avoided_by episodes g = fmul (gm_prefix g) (pymax (Fin 0) (fsub (episodes g) (Fin 1)))"

definition summarize_execution_records ::
    "(pyval \<Rightarrow> string) \<Rightarrow> (pyfloat list \<Rightarrow> pyfloat) \<Rightarrow> pyval dict list \<Rightarrow> pyval dict res" where
  "summarize_execution_records str_of sum_floats records =
     rbind (rfold (add_record str_of) records no_totals) (\<lambda>t.
     let groups = map snd (et_groups t);
         effective = fadd (fadd (et_prefix t) (et_suffix t)) (et_standalone t) in
     Inr [(''shared_prefix_compute_minutes'', PFloat (round_decimals (et_prefix t) 6)),
          (''episode_suffix_compute_minutes'', PFloat (round_decimals (et_suffix t) 6)),
          (''standalone_compute_minutes'', PFloat (round_decimals (et_standalone t) 6)),
          (''effective_compute_minutes'', PFloat (round_decimals effective 6)),
          (''avoided_recompute_minutes'', round6 (py_sum sum_floats (map (avoided_by gm_attempted) groups))),
          (''successful_avoided_recompute_minutes'', round6 (py_sum sum_floats (map (avoided_by gm_successful) groups))),
          (''episode_group_count'', PInt (int (length groups))),
          (''episode_count'', PInt (et_episodes t)),
          (''episode_error_count'', PInt (et_errors t))])"

definition EXECUTION_MINUTE_FIELDS :: "string list" where
  "EXECUTION_MINUTE_FIELDS =
     [''shared_prefix_compute_minutes'', ''episode_suffix_compute_minutes'', ''standalone_compute_minutes'',
      ''effective_compute_minutes'', ''avoided_recompute_minutes'', ''successful_avoided_recompute_minutes'']"

definition EXECUTION_COUNT_FIELDS :: "string list" where
  "EXECUTION_COUNT_FIELDS = [''episode_group_count'', ''episode_count'', ''episode_error_count'']"

definition combine_minutes :: "(pyfloat list \<Rightarrow> pyfloat) \<Rightarrow> pyval dict list \<Rightarrow> string \<Rightarrow> (string \<times> pyval) res" where
  "combine_minutes sum_floats metrics field =
     rbind (rmap (\<lambda>part. float_or_zero (get part field)) metrics) (\<lambda>xs. Inr (field, round6 (py_sum sum_floats xs)))"

definition combine_counts :: "pyval dict list \<Rightarrow> string \<Rightarrow> (string \<times> pyval) res" where
  "combine_counts metrics field =
     rbind (rmap (\<lambda>part. int_or_zero (get part field)) metrics) (\<lambda>xs. Inr (field, PInt (sum_list xs)))"

definition combine_execution_metrics :: "(pyfloat list \<Rightarrow> pyfloat) \<Rightarrow> pyval dict list \<Rightarrow> pyval dict res" where
  "combine_execution_metrics sum_floats metrics =
     rbind (rmap (combine_minutes sum_floats metrics) EXECUTION_MINUTE_FIELDS) (\<lambda>minutes.
     rbind (rmap (combine_counts metrics) EXECUTION_COUNT_FIELDS) (\<lambda>counts.
     Inr (minutes @ counts)))"

section \<open>Probes for the router\<close>

datatype probe_entry = Single "pyval dict" | Group string

text \<open>The records in order, those of a group at the place of its first.\<close>

definition collect_record ::
    "(pyval \<Rightarrow> string) \<Rightarrow> pyval dict \<Rightarrow> probe_entry list \<times> pyval dict list dict \<Rightarrow> probe_entry list \<times> pyval dict list dict" where
  "collect_record str_of record = (\<lambda>(ordered, grouped).
     let group_id = record_group str_of record in
     if group_id = [] then (ordered @ [Single record], grouped)
     else (case dict_get grouped group_id of
         None \<Rightarrow> (ordered @ [Group group_id], dict_set group_id [record] grouped)
       | Some siblings \<Rightarrow> (ordered, dict_set group_id (siblings @ [record]) grouped)))"

definition record_probe :: "(pyval \<Rightarrow> string) \<Rightarrow> pyval dict \<Rightarrow> pyval dict" where
  "record_probe str_of record =
     [(''family'', PStr (text_or str_of (get record ''family'') ''general'')),
      (''duration_minutes'', get record ''duration_minutes''),
      (''observation_keys'', py_or (get record ''observation_keys'') (PList [])),
      (''weighted_flags'', py_or (get record ''weighted_flags'') (PMap [])),
      (''accepted'', PBool (truthy (get record ''accepted''))),
      (''retryable_infra_error'', PBool (truthy (get record ''retryable_infra_error'')))]"

definition add_keys :: "string list \<Rightarrow> string list \<Rightarrow> string list" where
  "add_keys new keys = fold (\<lambda>key ks. if key \<in> set ks then ks else ks @ [key]) new keys"

definition raise_flag :: "(pyval \<Rightarrow> string) \<Rightarrow> pykey \<times> pyval \<Rightarrow> pyfloat dict \<Rightarrow> pyfloat dict res" where
  "raise_flag str_of = (\<lambda>(name, weight) flags.
     let normalized_name = key_str str_of name in
     rbind (to_float weight) (\<lambda>w. Inr (dict_set normalized_name (pymax (dict_default flags normalized_name NInf) w) flags)))"

definition fold_sibling ::
    "(pyval \<Rightarrow> string) \<Rightarrow> pyval dict \<Rightarrow> string list \<times> pyfloat dict \<Rightarrow> (string list \<times> pyfloat dict) res" where
  "fold_sibling str_of record = (\<lambda>(keys, flags).
     rbind (iter_or_empty (get record ''observation_keys'')) (\<lambda>raw.
     rbind (case get record ''weighted_flags'' of
              PMap weighted \<Rightarrow> rfold (raise_flag str_of) weighted flags
            | _ \<Rightarrow> Inr flags) (\<lambda>flags'.
     Inr (add_keys (map (py_text str_of) raw) keys, flags'))))"

definition acceptance_records :: "pyval dict list \<Rightarrow> pyval dict list" where
  "acceptance_records siblings =
     (let suffixes = filter (\<lambda>record. get record ''record_kind'' = PStr RECORD_KIND_EPISODE_SUFFIX) siblings in
      if suffixes \<noteq> [] then suffixes else siblings)"

definition group_probe ::
    "(pyval \<Rightarrow> string) \<Rightarrow> (pyfloat list \<Rightarrow> pyfloat) \<Rightarrow> string \<Rightarrow> pyval dict list \<Rightarrow> pyval dict res" where
  "group_probe str_of sum_floats group_id siblings =
     rbind (rfold (fold_sibling str_of) siblings ([], [])) (\<lambda>(keys, flags).
     let records = acceptance_records siblings;
         accepted_count = length (filter (\<lambda>record. truthy (get record ''accepted'')) records);
         attempt_count = length records in
     rbind (rmap duration_of siblings) (\<lambda>durations.
     Inr [(''execution_group_id'', PStr group_id),
          (''family'', PStr (text_or str_of (get (hd siblings) ''family'') ''general'')),
          (''duration_minutes'', py_sum sum_floats durations),
          (''observation_keys'', PList (map PStr keys)),
          (''weighted_flags'', map_value (map (\<lambda>(name, w). (name, PFloat w)) flags)),
          (''accepted'', PBool (accepted_count > 0)),
          (''accepted_count'', PInt (int accepted_count)),
          (''attempt_count'', PInt (int attempt_count)),
          (''retryable_infra_error'', PBool (\<exists>record \<in> set siblings. truthy (get record ''retryable_infra_error'')))]))"

definition build_router_probes ::
    "(pyval \<Rightarrow> string) \<Rightarrow> (pyfloat list \<Rightarrow> pyfloat) \<Rightarrow> pyval dict list \<Rightarrow> pyval dict list res" where
  "build_router_probes str_of sum_floats records =
     (let (ordered, grouped) = fold (collect_record str_of) records ([], []) in
      rmap (\<lambda>entry. case entry of
          Single record \<Rightarrow> Inr (record_probe str_of record)
        | Group group_id \<Rightarrow> group_probe str_of sum_floats group_id (dict_default grouped group_id [])) ordered)"

end
