(* ===== verification/Router_Properties.thy ===== *)
theory Router_Properties
  imports Router_State Frontier_Properties
begin

text \<open>
  The router keeps its promise that bias steers order only: observing an epoch neither reads nor
  writes it, the epoch boundary changes nothing else and keeps it clamped, and the value terms do not
  depend on it.  What a probe adds to the seen keys is said exactly.
\<close>

section \<open>Forgetting the bias\<close>

definition erase :: "family_record \<Rightarrow> family_record" where
  "erase r = r\<lparr>fm_bias := Fin 0\<rparr>"

abbreviation erase_all :: "family_record dict \<Rightarrow> family_record dict" where
  "erase_all fams \<equiv> map (\<lambda>(k, r). (k, erase r)) fams"

definition unbias :: "RouterState \<Rightarrow> RouterState" where
  "unbias s = s\<lparr>rs_families := erase_all (rs_families s)\<rparr>"

definition bias_of :: "RouterState \<Rightarrow> string \<Rightarrow> pyfloat" where
  "bias_of s family = fm_bias (dict_default (rs_families s) family blank_family)"

lemma erase_fields [simp]:
  "fm_value_rate_ema (erase r) = fm_value_rate_ema r" "fm_duration_ema (erase r) = fm_duration_ema r"
  "fm_accept_rate_ema (erase r) = fm_accept_rate_ema r" "fm_novelty_rate (erase r) = fm_novelty_rate r"
  "fm_infra_ema (erase r) = fm_infra_ema r" "fm_runs (erase r) = fm_runs r"
  "fm_last_run_epoch (erase r) = fm_last_run_epoch r" "fm_bias (erase r) = Fin 0"
  by (simp_all add: erase_def)

lemma erase_blank [simp]: "erase blank_family = blank_family"
  by (simp add: erase_def blank_family_def)

lemma erase_all_get: "dict_get (erase_all fams) k = map_option erase (dict_get fams k)"
  by (induction fams) auto

lemma erase_all_default: "dict_default (erase_all fams) k blank_family = erase (dict_default fams k blank_family)"
  by (simp add: dict_default_def erase_all_get split: option.splits)

lemma erase_all_set: "erase_all (dict_set k r fams) = dict_set k (erase r) (erase_all fams)"
  by (induction fams) auto

lemma unbias_fields [simp]:
  "rs_seen (unbias s) = rs_seen s" "rs_config (unbias s) = rs_config s" "rs_dispatches (unbias s) = rs_dispatches s"
  "rs_updated_epoch (unbias s) = rs_updated_epoch s" "rs_last_minutes (unbias s) = rs_last_minutes s"
  "rs_observed_epochs (unbias s) = rs_observed_epochs s" "rs_families (unbias s) = erase_all (rs_families s)"
  by (simp_all add: unbias_def)

lemma router_config_unbias [simp]: "router_config (unbias s) = router_config s"
  by (rule ext) (simp add: router_config_def)

lemma router_config_families [simp]: "router_config (s\<lparr>rs_families := fams\<rparr>) = router_config s"
  by (rule ext) (simp add: router_config_def)

section \<open>Observing\<close>

lemma update_family_erase:
  "update_family sum_floats config epoch samples (erase r) =
   rbind (update_family sum_floats config epoch samples r) (\<lambda>r'. Inr (erase r'))"
  by (simp add: update_family_def rbind_def erase_def split: sum.splits)

lemma update_family_bias: "update_family sum_floats config epoch samples r = Inr r' \<Longrightarrow> fm_bias r' = fm_bias r"
  by (auto simp: update_family_def res_iff)

lemma rbind_assoc: "rbind (rbind m f) g = rbind m (\<lambda>x. rbind (f x) g)"
  by (simp add: rbind_def split: sum.splits)

lemma update_families_erase:
  "update_families sum_floats config epoch samples (erase_all fams) =
   rbind (update_families sum_floats config epoch samples fams) (\<lambda>fams'. Inr (erase_all fams'))"
proof (induction samples arbitrary: fams)
  case Nil
  then show ?case by (simp add: update_families_def)
next
  case (Cons x samples)
  obtain family ss where x: "x = (family, ss)" by (cases x)
  show ?case
    using Cons[unfolded update_families_def]
    by (cases "update_family sum_floats config epoch ss (dict_default fams family blank_family)")
      (simp_all add: update_families_def x erase_all_default update_family_erase flip: erase_all_set)
qed

lemma update_families_bias:
  "update_families sum_floats config epoch samples fams = Inr fams' \<Longrightarrow>
   fm_bias (dict_default fams' k blank_family) = fm_bias (dict_default fams k blank_family)"
proof (induction samples arbitrary: fams)
  case Nil
  then show ?case by (simp add: update_families_def)
next
  case (Cons x samples)
  obtain family ss where x: "x = (family, ss)" by (cases x)
  from Cons.prems obtain r where r: "update_family sum_floats config epoch ss (dict_default fams family blank_family) = Inr r"
    "update_families sum_floats config epoch samples (dict_set family r fams) = Inr fams'"
    by (auto simp: update_families_def x res_iff)
  have "fm_bias (dict_default (dict_set family r fams) k blank_family) = fm_bias (dict_default fams k blank_family)"
    using update_family_bias[OF r(1)] by (simp add: dict_default_def dict_get_set)
  with Cons.IH[OF r(2)] show ?case by simp
qed

text \<open>C29: the value statistics ignore the bias.  Observing an epoch from a state without its biases
  gives what observing gives, without the biases, or the same error; and it leaves the bias of
  every family as it was.\<close>

theorem observe_ignores_bias:
  "observe_epoch str_of sum_floats epoch probes (unbias s) =
     rbind (observe_epoch str_of sum_floats epoch probes s) (\<lambda>s'. Inr (unbias s')) \<and>
   (case observe_epoch str_of sum_floats epoch probes s of Inr s' \<Rightarrow> bias_of s' = bias_of s | Inl _ \<Rightarrow> True)"
proof
  show "observe_epoch str_of sum_floats epoch probes (unbias s) =
     rbind (observe_epoch str_of sum_floats epoch probes s) (\<lambda>s'. Inr (unbias s'))"
    by (simp add: observe_epoch_def rbind_assoc update_families_erase) (cases s; simp add: unbias_def)
  show "case observe_epoch str_of sum_floats epoch probes s of Inr s' \<Rightarrow> bias_of s' = bias_of s | Inl _ \<Rightarrow> True"
    by (auto simp: observe_epoch_def res_iff bias_of_def fun_eq_iff dest: update_families_bias split: sum.split)
qed

section \<open>The epoch boundary\<close>

lemma clamp_bias_bounds:
  assumes "c \<noteq> NaN"
  shows "fle (round_decimals (fneg (fabs c)) 4) (clamp_bias (fabs c) b)" "fle (clamp_bias (fabs c) b) (round_decimals (fabs c) 4)"
proof -
  have "fle (fneg (fabs c)) (pymax (fneg (fabs c)) (pymin (fabs c) b)) \<and> fle (pymax (fneg (fabs c)) (pymin (fabs c) b)) (fabs c)"
    using assms by (cases c; cases b) (auto simp: fabs_def pymax_def pymin_def fle_def)
  then show "fle (round_decimals (fneg (fabs c)) 4) (clamp_bias (fabs c) b)" "fle (clamp_bias (fabs c) b) (round_decimals (fabs c) 4)"
    unfolding clamp_bias_def by (blast intro: round_decimals_mono)+
qed

lemma advance_family_Inr:
  assumes "advance_family s epoch eligible horizon gamma decay limit minutes share entry = Inr entry'"
  obtains b where "entry' = (fst entry, (snd entry)\<lparr>fm_bias := clamp_bias limit b\<rparr>)"
    "fst entry \<notin> set eligible \<Longrightarrow> b = fadd (fmul decay (fm_bias (snd entry))) (fmul gamma (of_pyint 0))"
  using assms by (cases entry) (auto simp: advance_family_def res_iff Let_def split: if_splits)

definition with_eligible :: "string list \<Rightarrow> RouterState \<Rightarrow> RouterState" where
  "with_eligible eligible s = s\<lparr>rs_families := fold (\<lambda>family fams. dict_setdefault family blank_family fams) eligible (rs_families s)\<rparr>"

lemma advance_Inr:
  assumes "advance_epoch sum_floats epoch eligible s = Inr s'"
  obtains h gamma decay c share where "to_float (router_config s ''bias_clamp'') = Inr c"
    "to_float (router_config s ''bias_gamma'') = Inr gamma" "to_float (router_config s ''bias_decay'') = Inr decay"
    "rmap (advance_family (with_eligible eligible s) epoch eligible (max 1 h) gamma decay (fabs c) (rs_last_minutes s) share)
       (rs_families (with_eligible eligible s)) = Inr (rs_families s')"
    "s' = (with_eligible eligible s)\<lparr>rs_families := rs_families s', rs_updated_epoch := epoch\<rparr>"
  using assms unfolding advance_epoch_def Let_def with_eligible_def[symmetric]
  by (auto simp: res_iff with_eligible_def)

text \<open>C30: the epoch boundary moves the bias and nothing else.  Apart from the biases, the new state is the
  old one with blank families for the eligible that were missing and the new epoch; every bias
  lies between the rounded bounds of the clamp; and a family that is not eligible only decays.\<close>

theorem advance_moves_only_bias:
  assumes "advance_epoch sum_floats epoch eligible s = Inr s'"
    and c: "to_float (router_config s ''bias_clamp'') = Inr c" "c \<noteq> NaN"
  shows "unbias s' = (unbias (with_eligible eligible s))\<lparr>rs_updated_epoch := epoch\<rparr> \<and>
    list_all (\<lambda>(family, r). fle (round_decimals (fneg (fabs c)) 4) (fm_bias r) \<and> fle (fm_bias r) (round_decimals (fabs c) 4)) (rs_families s') \<and>
    (\<exists>gamma decay. to_float (router_config s ''bias_gamma'') = Inr gamma \<and> to_float (router_config s ''bias_decay'') = Inr decay \<and>
      list_all2 (\<lambda>(family, r) (family', r'). family' = family \<and>
        (family \<notin> set eligible \<longrightarrow> fm_bias r' = clamp_bias (fabs c) (fadd (fmul decay (fm_bias r)) (fmul gamma (of_pyint 0)))))
      (rs_families (with_eligible eligible s)) (rs_families s'))"
proof -
  let ?t = "with_eligible eligible s"
  from assms(1) obtain h gamma decay c' share where a: "to_float (router_config s ''bias_clamp'') = Inr c'"
    "to_float (router_config s ''bias_gamma'') = Inr gamma" "to_float (router_config s ''bias_decay'') = Inr decay"
    "rmap (advance_family ?t epoch eligible (max 1 h) gamma decay (fabs c') (rs_last_minutes s) share) (rs_families ?t) = Inr (rs_families s')"
    and s': "s' = ?t\<lparr>rs_families := rs_families s', rs_updated_epoch := epoch\<rparr>" by (rule advance_Inr)
  have "c' = c" using a(1) c(1) by simp
  then have step: "list_all2 (\<lambda>x y. advance_family ?t epoch eligible (max 1 h) gamma decay (fabs c) (rs_last_minutes s) share x = Inr y)
      (rs_families ?t) (rs_families s')" using a(4) by (simp add: rmap_Inr)
  let ?P = "\<lambda>(family, r) (family', r'). family' = family \<and> erase r' = erase r \<and>
      fle (round_decimals (fneg (fabs c)) 4) (fm_bias r') \<and> fle (fm_bias r') (round_decimals (fabs c) 4) \<and>
      (family \<notin> set eligible \<longrightarrow> fm_bias r' = clamp_bias (fabs c) (fadd (fmul decay (fm_bias r)) (fmul gamma (of_pyint 0))))"
  have "?P x y" if "advance_family ?t epoch eligible (max 1 h) gamma decay (fabs c) (rs_last_minutes s) share x = Inr y" for x y
    using that by (rule advance_family_Inr) (auto simp: erase_def clamp_bias_bounds[OF c(2)] split: prod.splits)
  with step have all: "list_all2 ?P (rs_families ?t) (rs_families s')" by (auto intro: list_all2_mono)
  then have "erase_all (rs_families s') = erase_all (rs_families ?t)"
    by (induction rule: list_all2_induct) auto
  then have "unbias s' = (unbias ?t)\<lparr>rs_updated_epoch := epoch\<rparr>"
    by (subst s') (simp add: unbias_def)
  moreover have "list_all (\<lambda>(family, r). fle (round_decimals (fneg (fabs c)) 4) (fm_bias r) \<and> fle (fm_bias r) (round_decimals (fabs c) 4)) (rs_families s')"
    using all by (induction rule: list_all2_induct) auto
  moreover have "list_all2 (\<lambda>(family, r) (family', r'). family' = family \<and>
        (family \<notin> set eligible \<longrightarrow> fm_bias r' = clamp_bias (fabs c) (fadd (fmul decay (fm_bias r)) (fmul gamma (of_pyint 0)))))
      (rs_families ?t) (rs_families s')"
    using all by (rule list_all2_mono) auto
  ultimately show ?thesis using a(2,3) by blast
qed

definition fresh_state :: RouterState where
  "fresh_state = (initial_router_state [])\<lparr>rs_config := []\<rparr>"

lemma fresh_config: "router_config fresh_state key = get DEFAULT_ROUTER_CONFIG key"
  by (simp add: router_config_def fresh_state_def merge_config_def)

lemma fresh_advance: "\<exists>s'. advance_epoch (\<lambda>_. Fin 0) 1 [''f''] fresh_state = Inr s'"
proof -
  let ?t = "fresh_state\<lparr>rs_families := [(''f'', blank_family)]\<rparr>"
  have d: "dict_setdefault ''f'' blank_family (rs_families fresh_state) = [(''f'', blank_family)]"
    by (simp add: dict_setdefault_def fresh_state_def initial_router_state_def)
  have "\<exists>b. family_debt ?t 1 4 ''f'' blank_family = Inr b"
    by (simp add: family_debt_def blank_family_def predicted_novelty_def fresh_config DEFAULT_ROUTER_CONFIG_def get_def)
  moreover have "family_surplus ?t (Fin 0) x blank_family = Inr False" for x by (simp add: family_surplus_def)
  ultimately show ?thesis
    by (auto simp: advance_epoch_def d advance_family_def fresh_config DEFAULT_ROUTER_CONFIG_def get_def of_pyint_def Let_def)
qed

theorem advance_moves_only_bias_witness:
  "\<exists>s'. advance_epoch (\<lambda>_. Fin 0) 1 [''f''] fresh_state = Inr s' \<and>
     unbias s' = (unbias (with_eligible [''f''] fresh_state))\<lparr>rs_updated_epoch := 1\<rparr>"
proof -
  obtain s' where s': "advance_epoch (\<lambda>_. Fin 0) 1 [''f''] fresh_state = Inr s'" using fresh_advance by blast
  have "to_float (router_config fresh_state ''bias_clamp'') = Inr (Fin (1 / 2))"
    by (simp add: fresh_config DEFAULT_ROUTER_CONFIG_def get_def)
  from advance_moves_only_bias[OF s' this] s' show ?thesis by blast
qed

section \<open>Routing terms\<close>

text \<open>Apart from the bias itself and the two terms that order by it, the terms are those of the state
  without biases: the value estimates never see it.\<close>

lemma routing_terms_unbiased:
  "family_routing_terms sum_floats log_of sqrt_of s family = Inr t \<Longrightarrow>
   \<exists>t0. family_routing_terms sum_floats log_of sqrt_of (unbias s) family = Inr t0 \<and>
     t = t0\<lparr>rt_bias := rt_bias t, rt_routing_multiplier := rt_routing_multiplier t, rt_routing_value := rt_routing_value t\<rparr>"
proof -
  have rates: "List.map_filter (\<lambda>(_, r). fm_value_rate_ema r) (erase_all fams) = List.map_filter (\<lambda>(_, r). fm_value_rate_ema r) fams" for fams
    by (induction fams) (auto simp: List.map_filter_simps split: option.splits)
  have "cold_start_rate sum_floats (unbias s) = cold_start_rate sum_floats s"
    by (simp add: cold_start_rate_def rates Let_def)
  moreover have "predicted_novelty (unbias s) family = predicted_novelty s family"
    by (simp add: predicted_novelty_def erase_all_get split: option.splits)
  moreover have "upper_confidence log_of sqrt_of (unbias s) n = upper_confidence log_of sqrt_of s n" for n
    by (simp add: upper_confidence_def)
  moreover have "coverage_bonus_of (unbias s) (erase r) = coverage_bonus_of s r" for r
    by (cases "fm_last_run_epoch r"; cases "fm_runs r = 0") (simp_all add: coverage_bonus_of_def Let_def)
  moreover have "ema_or_config (unbias s) v k = ema_or_config s v k" for v k by (cases v) (simp_all add: ema_or_config_def)
  ultimately show "family_routing_terms sum_floats log_of sqrt_of s family = Inr t \<Longrightarrow>
   \<exists>t0. family_routing_terms sum_floats log_of sqrt_of (unbias s) family = Inr t0 \<and>
     t = t0\<lparr>rt_bias := rt_bias t, rt_routing_multiplier := rt_routing_multiplier t, rt_routing_value := rt_routing_value t\<rparr>"
    unfolding family_routing_terms_def Let_def by (auto simp: res_iff erase_all_default)
qed

section \<open>Seen keys\<close>

lemma credit_names_seen: "snd (credit_names names (v, seen)) = seen \<union> fst ` set names"
proof (induction names arbitrary: v seen)
  case (Cons x names)
  obtain name w where x: "x = (name, w)" by (cases x)
  show ?case
    using Cons.IH[of v seen] Cons.IH[of "fadd v w" "insert name seen"]
    by (cases "name \<in> seen") (simp_all add: credit_names_def x insert_absorb)
qed (simp add: credit_names_def)

lemma observe_probe_seen:
  assumes "observe_probe str_of sum_floats probe e = Inr e'"
  obtains raw flags where "iter_or_empty (get probe ''observation_keys'') = Inr raw"
    "true_flags str_of (get probe ''weighted_flags'') = Inr flags"
    "ef_seen e' = ef_seen e \<union> set (map (py_text str_of) raw) \<union> flag_key (probe_family str_of probe) ` fst ` set flags"
proof -
  obtain raw flags where r: "iter_or_empty (get probe ''observation_keys'') = Inr raw"
    "true_flags str_of (get probe ''weighted_flags'') = Inr flags"
    and s: "ef_seen e' = snd (credit_names (map (\<lambda>(flag, w). (flag_key (probe_family str_of probe) flag, w)) flags)
             (credit_names (map (\<lambda>k. (k, OBSERVATION_WEIGHT)) (map (py_text str_of) raw)) (Fin 0, ef_seen e)))"
    using assms unfolding observe_probe_def Let_def case_prod_beta by (auto simp: res_iff case_prod_beta)
  obtain v1 s1 where c: "credit_names (map (\<lambda>k. (k, OBSERVATION_WEIGHT)) (map (py_text str_of) raw)) (Fin 0, ef_seen e) = (v1, s1)"
    by (cases "credit_names (map (\<lambda>k. (k, OBSERVATION_WEIGHT)) (map (py_text str_of) raw)) (Fin 0, ef_seen e)")
  have "s1 = ef_seen e \<union> set (map (py_text str_of) raw)"
    using credit_names_seen[of "map (\<lambda>k. (k, OBSERVATION_WEIGHT)) (map (py_text str_of) raw)" "Fin 0" "ef_seen e"]
    unfolding c by (auto simp: image_image)
  with s show thesis
    unfolding c by (intro that[OF r]) (auto simp: credit_names_seen image_image case_prod_beta)
qed

lemma keys_dict_of: "fst ` set (dict_of items) = fst ` set items"
proof -
  have up: "fst ` set (AList.update k v d) = insert k (fst ` set d)" for k v and d :: "('a \<times> 'b) list"
    by (induction d) auto
  have "fst ` set (fold (\<lambda>(k, v) d. AList.update k v d) items d) = fst ` set d \<union> fst ` set items" for d
    by (induction items arbitrary: d) (simp_all add: up case_prod_beta)
  from this[of "[]"] show ?thesis by (simp add: dict_of_def)
qed

lemma rmap_names:
  "rmap (\<lambda>(name, weight). rbind (to_float weight) (\<lambda>w. Inr (key_str str_of name, w))) m = Inr flags \<Longrightarrow>
   map fst flags = map (\<lambda>(name, _). key_str str_of name) m"
  by (induction m arbitrary: flags) (auto simp: res_iff rbind_def split: sum.splits)

lemma observed_finite:
  assumes "rfold (observe_probe str_of sum_floats) probes e = Inr e'" "finite (ef_seen e)"
  shows "finite (ef_seen e')"
proof -
  have "finite (ef_seen y)" if "observe_probe str_of sum_floats p x = Inr y" "finite (ef_seen x)" for p x y
    using that(1) by (rule observe_probe_seen) (use that(2) in simp)
  then show ?thesis using rfold_invariant[OF assms(1), of "\<lambda>x. finite (ef_seen x)"] assms(2) by auto
qed

end
