(* ===== verification/Records_Properties.thy ===== *)
theory Records_Properties
  imports Episode_Records Router_Properties
begin

text \<open>
  Probes and records: the router, fed the probes of an epoch, sees exactly the keys the ledger saw
  when it credited the records; a group is accepted by its suffixes; and the counts of an epoch add up.
\<close>

section \<open>What a probe shows\<close>

definition flag_names :: "(pyval \<Rightarrow> string) \<Rightarrow> pyval dict \<Rightarrow> string set" where
  "flag_names str_of record = (case get record ''weighted_flags'' of
     PMap m \<Rightarrow> (\<lambda>(name, _). key_str str_of name) ` set m | _ \<Rightarrow> {})"

definition record_family :: "(pyval \<Rightarrow> string) \<Rightarrow> pyval dict \<Rightarrow> string" where
  "record_family str_of record = text_or str_of (get record ''family'') ''general''"

definition shown :: "(pyval \<Rightarrow> string) \<Rightarrow> string \<Rightarrow> pyval dict \<Rightarrow> string set" where
  "shown str_of family record = observed str_of record \<union> flag_key family ` flag_names str_of record"

lemma observe_probe_shown:
  assumes "observe_probe str_of sum_floats probe e = Inr e'"
  shows "ef_seen e' = ef_seen e \<union> shown str_of (probe_family str_of probe) probe"
proof -
  from assms obtain raw flags where o: "iter_or_empty (get probe ''observation_keys'') = Inr raw"
    "true_flags str_of (get probe ''weighted_flags'') = Inr flags"
    "ef_seen e' = ef_seen e \<union> set (map (py_text str_of) raw) \<union> flag_key (probe_family str_of probe) ` fst ` set flags"
    by (rule observe_probe_seen)
  have "fst ` set flags = flag_names str_of probe"
  proof (cases "get probe ''weighted_flags''")
    case (PMap es)
    then obtain fl where "rmap (\<lambda>(name, weight). rbind (to_float weight) (\<lambda>w. Inr (key_str str_of name, w))) es = Inr fl" "flags = dict_of fl"
      using o(2) by (auto simp: true_flags_def res_iff)
    moreover from this(1) have "set (map fst fl) = set (map (\<lambda>(name, _). key_str str_of name) es)" by (simp only: rmap_names)
    ultimately show ?thesis by (simp add: keys_dict_of flag_names_def PMap)
  qed (use o(2) in \<open>auto simp: true_flags_def flag_names_def\<close>)
  then show ?thesis using o(1,3) by (auto simp: shown_def observed_def)
qed

lemma probes_shown:
  "rfold (observe_probe str_of sum_floats) probes e = Inr e' \<Longrightarrow>
   ef_seen e' = ef_seen e \<union> (\<Union>p \<in> set probes. shown str_of (probe_family str_of p) p)"
  by (induction probes arbitrary: e) (auto simp: res_iff dest: observe_probe_shown)

lemma credit_shown:
  assumes "credit str_of record seen = (Inr v, seen')"
  shows "seen' = seen \<union> shown str_of (record_family str_of record) record"
proof -
  obtain m where m: "map_or_empty (get record ''weighted_flags'') = Inr m"
    using assms by (cases "map_or_empty (get record ''weighted_flags'')")
      (auto simp: credit_def Let_def bnd_def of_res_def split: prod.splits sum.splits)
  then have names: "key_str str_of ` fst ` set m = flag_names str_of record"
    by (cases "get record ''weighted_flags''") (auto simp: map_or_empty_def py_or_def flag_names_def image_image case_prod_beta split: if_splits)
  then have "flagged str_of record = flag_key (record_family str_of record) ` flag_names str_of record"
    by (simp add: flagged_def m record_family_def image_image case_prod_beta flip: names)
  moreover have "seen' = seen \<union> observed str_of record \<union> flagged str_of record"
    using credit_result[of str_of "record" seen "fst v" "snd v" seen'] assms by simp
  ultimately show ?thesis by (auto simp: shown_def)
qed

lemma credits_shown:
  "mapA (credit str_of) records seen = (Inr vs, ledger) \<Longrightarrow>
   ledger = seen \<union> (\<Union>r \<in> set records. shown str_of (record_family str_of r) r)"
proof (induction records arbitrary: seen vs)
  case (Cons r records)
  from Cons.prems obtain v n seen1 ws where c: "credit str_of r seen = (Inr (v, n), seen1)"
    "mapA (credit str_of) records seen1 = (Inr ws, ledger)"
    by (auto simp: bnd_def ret_def split: prod.splits sum.splits)
  show ?case using Cons.IH[OF c(2)] credit_shown[OF c(1)] by auto
qed (simp add: ret_def)

section \<open>The probe of a group\<close>

lemma family_text_nonempty: "\<forall>v. str_of v \<noteq> [] \<Longrightarrow> record_family str_of record \<noteq> []"
  by (cases "get record ''family''") (auto simp: record_family_def text_or_def py_or_def py_text_def)

lemma probe_family_given:
  "get probe ''family'' = PStr f \<Longrightarrow> f \<noteq> [] \<Longrightarrow> probe_family str_of probe = f"
  by (simp add: probe_family_def text_or_def py_or_def py_text_def)

lemma record_probe_shown:
  assumes "\<forall>v. str_of v \<noteq> []"
  shows "shown str_of (probe_family str_of (record_probe str_of r)) (record_probe str_of r) = shown str_of (record_family str_of r) r"
proof -
  have g: "get (record_probe str_of r) ''family'' = PStr (record_family str_of r)"
    "get (record_probe str_of r) ''observation_keys'' = py_or (get r ''observation_keys'') (PList [])"
    "get (record_probe str_of r) ''weighted_flags'' = py_or (get r ''weighted_flags'') (PMap [])"
    by (simp_all add: record_probe_def get_def record_family_def)
  have "observed str_of (record_probe str_of r) = observed str_of r"
    by (simp add: observed_def iter_or_empty_def g py_or_def)
  moreover have "flag_names str_of (record_probe str_of r) = flag_names str_of r"
    by (cases "get r ''weighted_flags''") (auto simp: flag_names_def g py_or_def)
  ultimately show ?thesis
    using probe_family_given[OF g(1)] family_text_nonempty[OF assms] by (simp add: shown_def)
qed

lemma add_keys_set: "set (add_keys new keys) = set keys \<union> set new"
  unfolding add_keys_def by (induction new arbitrary: keys) auto

lemma keys_dict_set: "fst ` set (dict_set k v d) = insert k (fst ` set d)"
  by (induction d) auto

lemma raise_flags_keys:
  "rfold (raise_flag str_of) m flags = Inr flags' \<Longrightarrow>
   fst ` set flags' = fst ` set flags \<union> (\<lambda>(name, _). key_str str_of name) ` set m"
proof (induction m arbitrary: flags)
  case (Cons x m)
  obtain name weight where x: "x = (name, weight)" by (cases x)
  from Cons.prems obtain f1 where f1: "raise_flag str_of x flags = Inr f1" "rfold (raise_flag str_of) m f1 = Inr flags'"
    by (auto simp: res_iff)
  have "fst ` set f1 = insert (key_str str_of name) (fst ` set flags)"
  proof -
    obtain v where "f1 = dict_set (key_str str_of name) v flags" using f1(1) by (auto simp: x raise_flag_def Let_def res_iff)
    then show ?thesis by (simp only: keys_dict_set)
  qed
  with Cons.IH[OF f1(2)] show ?case by (simp add: x)
qed simp

lemma fold_sibling_shown:
  assumes "fold_sibling str_of record (keys, flags) = Inr (keys', flags')"
  shows "set keys' = set keys \<union> observed str_of record" "fst ` set flags' = fst ` set flags \<union> flag_names str_of record"
proof -
  obtain raw where raw: "iter_or_empty (get record ''observation_keys'') = Inr raw" "keys' = add_keys (map (py_text str_of) raw) keys"
    using assms by (auto simp: fold_sibling_def res_iff)
  then show "set keys' = set keys \<union> observed str_of record" by (simp add: add_keys_set observed_def)
  show "fst ` set flags' = fst ` set flags \<union> flag_names str_of record"
  proof (cases "get record ''weighted_flags''")
    case (PMap m)
    then have "rfold (raise_flag str_of) m flags = Inr flags'" using assms by (auto simp: fold_sibling_def res_iff)
    with PMap show ?thesis by (simp add: raise_flags_keys flag_names_def)
  qed (use assms in \<open>auto simp: fold_sibling_def flag_names_def res_iff\<close>)
qed

lemma fold_siblings_shown:
  "rfold (fold_sibling str_of) siblings (keys, flags) = Inr (keys', flags') \<Longrightarrow>
   set keys' = set keys \<union> (\<Union>r \<in> set siblings. observed str_of r) \<and>
   fst ` set flags' = fst ` set flags \<union> (\<Union>r \<in> set siblings. flag_names str_of r)"
proof (induction siblings arbitrary: keys flags)
  case (Cons r siblings)
  from Cons.prems obtain k1 f1 where s: "fold_sibling str_of r (keys, flags) = Inr (k1, f1)"
    "rfold (fold_sibling str_of) siblings (k1, f1) = Inr (keys', flags')"
    by (auto simp: res_iff)
  show ?case using Cons.IH[OF s(2)] fold_sibling_shown[OF s(1)] by auto
qed simp

text \<open>The fields of the probe of a group.\<close>

lemma group_probe_fields:
  assumes "group_probe str_of sum_floats gid siblings = Inr probe"
  obtains keys flags where "rfold (fold_sibling str_of) siblings ([], []) = Inr (keys, flags)"
    "get probe ''family'' = PStr (record_family str_of (hd siblings))"
    "get probe ''observation_keys'' = PList (map PStr keys)"
    "get probe ''weighted_flags'' = map_value (map (\<lambda>(name, w). (name, PFloat w)) flags)"
    "get probe ''accepted_count'' = PInt (int (length (filter (\<lambda>r. truthy (get r ''accepted'')) (acceptance_records siblings))))"
    "get probe ''attempt_count'' = PInt (int (length (acceptance_records siblings)))"
  using assms by (auto simp: group_probe_def res_iff Let_def get_def record_family_def)

lemma group_probe_shown:
  assumes "group_probe str_of sum_floats gid siblings = Inr probe" "siblings \<noteq> []" "\<forall>v. str_of v \<noteq> []"
    and same: "\<forall>r \<in> set siblings. record_family str_of r = f"
  shows "shown str_of (probe_family str_of probe) probe = (\<Union>r \<in> set siblings. shown str_of (record_family str_of r) r)"
proof -
  from assms(1) obtain keys flags where p: "rfold (fold_sibling str_of) siblings ([], []) = Inr (keys, flags)"
    "get probe ''family'' = PStr (record_family str_of (hd siblings))"
    "get probe ''observation_keys'' = PList (map PStr keys)"
    "get probe ''weighted_flags'' = map_value (map (\<lambda>(name, w). (name, PFloat w)) flags)"
    by (rule group_probe_fields)
  have "record_family str_of (hd siblings) = f" using same assms(2) by simp
  then have fam: "probe_family str_of probe = f"
    using probe_family_given[OF p(2)] family_text_nonempty[OF assms(3)] by metis
  have "observed str_of probe = set keys"
    by (cases keys) (simp_all add: observed_def iter_or_empty_def p(3) py_or_def py_text_def image_image)
  moreover have "flag_names str_of probe = fst ` set flags"
    by (auto simp: flag_names_def p(4) map_value_def key_str_def image_image case_prod_beta)
  ultimately show ?thesis
    using fold_siblings_shown[OF p(1)] same by (auto simp: shown_def fam)
qed

section \<open>Grouping\<close>

lemma collect_records:
  fixes str_of records
  defines "c \<equiv> fold (collect_record str_of) records ([], [])"
  shows "Single r \<in> set (fst c) \<longleftrightarrow> r \<in> set records \<and> record_group str_of r = []"
    "Group gid \<in> set (fst c) \<longleftrightarrow> gid \<noteq> [] \<and> (\<exists>r \<in> set records. record_group str_of r = gid)"
    "gid \<noteq> [] \<Longrightarrow> dict_default (snd c) gid [] = filter (\<lambda>r. record_group str_of r = gid) records"
proof -
  let ?same = "\<lambda>gid rs. filter (\<lambda>r. record_group str_of r = gid) rs"
  have "(\<forall>r. Single r \<in> set (fst (fold (collect_record str_of) records ([], []))) \<longleftrightarrow> r \<in> set records \<and> record_group str_of r = []) \<and>
    (\<forall>gid. Group gid \<in> set (fst (fold (collect_record str_of) records ([], []))) \<longleftrightarrow> gid \<noteq> [] \<and> ?same gid records \<noteq> []) \<and>
    (\<forall>gid. dict_get (snd (fold (collect_record str_of) records ([], []))) gid =
       (if gid \<noteq> [] \<and> ?same gid records \<noteq> [] then Some (?same gid records) else None))"
  proof (induction records rule: rev_induct)
    case (snoc r records)
    obtain ordered grouped where o: "fold (collect_record str_of) records ([], []) = (ordered, grouped)"
      by (cases "fold (collect_record str_of) records ([], [])")
    have step: "fold (collect_record str_of) (records @ [r]) ([], []) = collect_record str_of r (ordered, grouped)" by (simp add: o)
    have IH: "\<And>r. Single r \<in> set ordered \<longleftrightarrow> r \<in> set records \<and> record_group str_of r = []"
      "\<And>gid. Group gid \<in> set ordered \<longleftrightarrow> gid \<noteq> [] \<and> ?same gid records \<noteq> []"
      "\<And>gid. dict_get grouped gid = (if gid \<noteq> [] \<and> ?same gid records \<noteq> [] then Some (?same gid records) else None)"
      using snoc.IH unfolding o by simp_all
    show ?case
    proof (cases "record_group str_of r = []")
      case True
      then have c: "collect_record str_of r (ordered, grouped) = (ordered @ [Single r], grouped)" by (simp add: collect_record_def)
      have "?same gid (records @ [r]) = ?same gid records" if "gid \<noteq> []" for gid using True that by simp
      then show ?thesis unfolding step c fst_conv snd_conv set_append using True by (simp add: IH) blast
    next
      case False
      define o' where "o' = (if ?same (record_group str_of r) records = [] then ordered @ [Group (record_group str_of r)] else ordered)"
      have c: "collect_record str_of r (ordered, grouped) =
          (o', dict_set (record_group str_of r) (?same (record_group str_of r) records @ [r]) grouped)"
        using False by (simp add: collect_record_def IH o'_def Let_def)
      have "Single r' \<in> set o' \<longleftrightarrow> r' \<in> set (records @ [r]) \<and> record_group str_of r' = []" for r'
        using False by (auto simp: o'_def IH)
      moreover have "Group gid \<in> set o' \<longleftrightarrow> gid \<noteq> [] \<and> ?same gid (records @ [r]) \<noteq> []" for gid
        using False by (cases "gid = record_group str_of r") (simp_all add: o'_def IH)
      moreover have "dict_get (dict_set (record_group str_of r) (?same (record_group str_of r) records @ [r]) grouped) gid =
          (if gid \<noteq> [] \<and> ?same gid (records @ [r]) \<noteq> [] then Some (?same gid (records @ [r])) else None)" for gid
        using False by (cases "gid = record_group str_of r") (simp_all add: dict_get_set IH)
      ultimately show ?thesis unfolding step c fst_conv snd_conv by blast
    qed
  qed simp
  then show "Single r \<in> set (fst c) \<longleftrightarrow> r \<in> set records \<and> record_group str_of r = []"
    "Group gid \<in> set (fst c) \<longleftrightarrow> gid \<noteq> [] \<and> (\<exists>r \<in> set records. record_group str_of r = gid)"
    "gid \<noteq> [] \<Longrightarrow> dict_default (snd c) gid [] = filter (\<lambda>r. record_group str_of r = gid) records"
    by (auto simp: c_def dict_default_def filter_empty_conv)
qed

lemma Union_list_all2: "list_all2 (\<lambda>x y. g y = f x) xs ys \<Longrightarrow> (\<Union>y \<in> set ys. g y) = (\<Union>x \<in> set xs. f x)"
  by (induction rule: list_all2_induct) auto

text \<open>Every record is shown by one entry, with its own family.\<close>

lemma probes_show_records:
  assumes "build_router_probes str_of sum_floats records = Inr probes" "\<forall>v. str_of v \<noteq> []"
    and same: "\<And>r r'. r \<in> set records \<Longrightarrow> r' \<in> set records \<Longrightarrow> record_group str_of r = record_group str_of r' \<Longrightarrow>
      record_group str_of r \<noteq> [] \<Longrightarrow> record_family str_of r = record_family str_of r'"
  shows "(\<Union>p \<in> set probes. shown str_of (probe_family str_of p) p) = (\<Union>r \<in> set records. shown str_of (record_family str_of r) r)"
proof -
  let ?c = "fold (collect_record str_of) records ([], [])"
  let ?siblings = "\<lambda>gid. filter (\<lambda>r. record_group str_of r = gid) records"
  let ?probe = "\<lambda>entry. case entry of Single r \<Rightarrow> Inr (record_probe str_of r)
      | Group gid \<Rightarrow> group_probe str_of sum_floats gid (dict_default (snd ?c) gid [])"
  let ?part = "\<lambda>entry. case entry of Single r \<Rightarrow> {r} | Group gid \<Rightarrow> set (?siblings gid)"
  let ?shown = "\<lambda>r. shown str_of (record_family str_of r) r"
  have rm: "rmap ?probe (fst ?c) = Inr probes" using assms(1) by (simp add: build_router_probes_def case_prod_beta)
  have each: "shown str_of (probe_family str_of p) p = (\<Union>r \<in> ?part entry. ?shown r)"
    if "entry \<in> set (fst ?c)" "?probe entry = Inr p" for entry p
  proof (cases entry)
    case (Single r)
    then have "p = record_probe str_of r" using that(2) by simp
    then show ?thesis using Single record_probe_shown[OF assms(2)] by simp
  next
    case (Group gid)
    then have "Group gid \<in> set (fst ?c)" using that(1) by simp
    then obtain r where r: "gid \<noteq> []" "r \<in> set records" "record_group str_of r = gid"
      unfolding collect_records(2) by blast
    then have f: "\<forall>r' \<in> set (?siblings gid). record_family str_of r' = record_family str_of r"
      by (intro ballI same) simp_all
    have ne: "?siblings gid \<noteq> []" using r by (auto simp: filter_empty_conv)
    have "group_probe str_of sum_floats gid (?siblings gid) = Inr p"
      using that(2) Group collect_records(3)[OF r(1), of str_of records] by simp
    from group_probe_shown[OF this ne assms(2) f] show ?thesis using Group by (simp only: probe_entry.case)
  qed
  have "(\<Union>p \<in> set probes. shown str_of (probe_family str_of p) p) = (\<Union>entry \<in> set (fst ?c). \<Union>r \<in> ?part entry. ?shown r)"
  proof (rule Union_list_all2)
    show "list_all2 (\<lambda>entry p. shown str_of (probe_family str_of p) p = (\<Union>r \<in> ?part entry. ?shown r)) (fst ?c) probes"
      using rm[unfolded rmap_Inr] by (rule list.rel_mono_strong) (rule each)
  qed
  also have "\<dots> = (\<Union>r \<in> (\<Union>entry \<in> set (fst ?c). ?part entry). ?shown r)" by simp
  also have "(\<Union>entry \<in> set (fst ?c). ?part entry) = set records"
  proof -
    have "r \<in> (\<Union>entry \<in> set (fst ?c). ?part entry)" if "r \<in> set records" for r
    proof (cases "record_group str_of r = []")
      case True
      then have "Single r \<in> set (fst ?c)" using that by (simp add: collect_records(1))
      then show ?thesis by force
    next
      case False
      then have "Group (record_group str_of r) \<in> set (fst ?c)" using that by (auto simp: collect_records(2))
      then show ?thesis using that by force
    qed
    then show ?thesis by (auto simp: collect_records(1) split: probe_entry.splits)
  qed
  finally show ?thesis .
qed


text \<open>Two records of one group.\<close>

definition example_records :: "pyval dict list" where
  "example_records =
     [(''execution_group_id'', PStr ''g'') # (''duration_minutes'', PFloat (Fin 1)) # example_record,
      [(''execution_group_id'', PStr ''g''), (''family'', PStr ''f''), (''observation_keys'', PList [PStr ''l''])]]"

definition example_probe :: "pyval dict" where
  "example_probe =
     [(''execution_group_id'', PStr ''g''), (''family'', PStr ''f''), (''duration_minutes'', PFloat (Fin 1)),
      (''observation_keys'', PList [PStr ''k'', PStr ''l'']), (''weighted_flags'', PMap [(KStr ''crash'', PFloat (Fin 0))]),
      (''accepted'', PBool False), (''accepted_count'', PInt 0), (''attempt_count'', PInt 2), (''retryable_infra_error'', PBool False)]"

lemma example_build: "build_router_probes (\<lambda>_. ''x'') (\<lambda>_. Fin 1) example_records = Inr [example_probe]"
  by code_simp

lemma example_duration [simp]: "pymax ROUTER_MIN_DURATION_MINUTES (Fin 1) = Fin 1"
proof -
  have "fle ROUTER_MIN_DURATION_MINUTES (rnd (of_int 1))"
    unfolding ROUTER_MIN_DURATION_MINUTES_def by (rule rnd_mono) simp
  moreover have "pymax x (Fin 1) = Fin 1" if "fle x (Fin 1)" for x
    using that by (cases x) (auto simp: pymax_def)
  ultimately show ?thesis by (simp add: rnd_of_int)
qed

lemma example_observe_probe:
  "observe_probe (\<lambda>_. ''x'') (\<lambda>_. Fin 1) example_probe \<lparr>ef_seen = {}, ef_minutes = [], ef_novel = [], ef_samples = []\<rparr> =
   Inr \<lparr>ef_seen = {''k'', ''l'', ''flag:f:crash''}, ef_minutes = [(''f'', Fin 1)], ef_novel = [(''f'', Fin 2)],
        ef_samples = [(''f'', \<lparr>sm_value_rate = [Fin 3], sm_duration = [Fin 1], sm_novelty = [rnd (2 / 3)],
          sm_accept = [Fin 0], sm_accept_weight = [Fin 2], sm_infra = [Fin 0]\<rparr>)]\<rparr>"
  by (simp add: observe_probe_def example_probe_def get_def Let_def probe_family_def
      true_flags_def credit_names_def flag_key_def acceptance_def no_samples_def dict_default_def
      float_or_zero_def OBSERVATION_WEIGHT_def of_pyint_def
      py_or_def iter_or_empty_def text_or_def py_text_def dict_of_def key_str_def insert_commute)

lemma example_observe: "\<exists>s'. observe_epoch (\<lambda>_. ''x'') (\<lambda>_. Fin 1) 1 [example_probe] fresh_state = Inr s'"
proof -
  let ?config = "router_config fresh_state"
  have start: "rs_seen fresh_state = []" "rs_families fresh_state = []"
    by (simp_all add: fresh_state_def initial_router_state_def)
  have mean1: "mean (\<lambda>_. Fin 1) [x] = Inr (Fin 1)" for x by (simp add: mean_def of_pyint_def)
  obtain y where "ema (Some (Fin 0)) (Fin 1) (?config ''infra_alpha'') = Inr y"
    by (simp add: ema_def fresh_config DEFAULT_ROUTER_CONFIG_def get_def operand_def)
  then have "\<exists>fams. update_families (\<lambda>_. Fin 1) ?config 1 [(''f'', \<lparr>sm_value_rate = [Fin 3], sm_duration = [Fin 1],
      sm_novelty = [rnd (2 / 3)], sm_accept = [Fin 0], sm_accept_weight = [Fin 2], sm_infra = [Fin 0]\<rparr>)] [] = Inr fams"
    by (simp add: update_families_def update_family_def dict_default_def blank_family_def mean1 ema_def pymax_def)
  then show ?thesis by (auto simp: observe_epoch_def start example_observe_probe)
qed

lemma example_credits:
  "\<exists>cs. mapA (credit (\<lambda>_. ''x'')) example_records {} = (Inr cs, {''k'', ''l'', ''flag:f:crash''})"
  by (simp add: example_records_def example_record_def credit_def bnd_def of_res_def ret_def get_def text_or_def py_or_def
      iter_or_empty_def map_or_empty_def credit_key_def credit_flag_def flag_key_def py_text_def key_str_def Let_def
      DEFAULT_OBSERVATION_WEIGHT_def insert_commute)


section \<open>Acceptance of a group\<close>

text \<open>The router weighs the acceptance of a group by its suffixes, or by all its records when it has none.\<close>

lemma group_acceptance:
  assumes "group_probe str_of sum_floats gid siblings = Inr probe" "siblings \<noteq> []" "int (length siblings) < 2 ^ 53"
  defines "rs \<equiv> acceptance_records siblings"
  defines "accepted \<equiv> filter (\<lambda>r. truthy (get r ''accepted'')) rs"
  shows "acceptance probe = rbind (fdiv (Fin (of_nat (length accepted))) (Fin (of_nat (length rs))))
      (\<lambda>share. Inr (share, Fin (of_nat (length rs))))" "length accepted \<le> length rs" "0 < length rs"
proof -
  have counts: "get probe ''accepted_count'' = PInt (int (length accepted))" "get probe ''attempt_count'' = PInt (int (length rs))"
    using assms(1) by (rule group_probe_fields, simp_all add: accepted_def rs_def)+
  show le: "length accepted \<le> length rs" by (simp add: accepted_def)
  have "filter P siblings \<noteq> [] \<or> siblings \<noteq> []" for P using assms(2) by simp
  then show pos: "0 < length rs" by (simp add: rs_def acceptance_records_def Let_def assms(2))
  have "length rs \<le> length siblings" by (simp add: rs_def acceptance_records_def Let_def)
  then have n: "int (length rs) < 2 ^ 53" "int (length accepted) < 2 ^ 53" using assms(3) le by linarith+
  have "of_pyint (int (length rs)) = Fin (of_nat (length rs))" "of_pyint (int (length accepted)) = Fin (of_nat (length accepted))"
    using rnd_of_int[of "int (length rs)"] rnd_of_int[of "int (length accepted)"] n by (simp_all add: of_pyint_def)
  moreover have "of_int \<lfloor>of_nat k :: rat\<rfloor> = (of_nat k :: rat)" for k by simp
  ultimately show "acceptance probe = rbind (fdiv (Fin (of_nat (length accepted))) (Fin (of_nat (length rs))))
      (\<lambda>share. Inr (share, Fin (of_nat (length rs))))"
    using le pos by (simp add: acceptance_def Let_def counts)
qed

section \<open>Counts\<close>

abbreviation suffixes_of :: "(pyval \<Rightarrow> string) \<Rightarrow> pyval dict list \<Rightarrow> pyval dict list" where
  "suffixes_of str_of records \<equiv> filter (\<lambda>r. record_kind_of str_of r = RECORD_KIND_EPISODE_SUFFIX) records"

abbreviation groups_of :: "(pyval \<Rightarrow> string) \<Rightarrow> pyval dict list \<Rightarrow> string set" where
  "groups_of str_of records \<equiv> record_group str_of ` set records - {[]}"

lemma add_record_groups:
  assumes "add_record str_of r t = Inr t'"
  shows "et_groups t' = et_groups t \<and> groups_of str_of [r] = {} \<or>
    (\<exists>g. et_groups t' = dict_set (record_group str_of r) g (et_groups t)) \<and> groups_of str_of [r] = {record_group str_of r}"
  using assms by (cases "record_group str_of r = []") (auto simp: add_record_def res_iff Let_def)

lemma add_record_counts:
  assumes "add_record str_of r t = Inr t'"
  shows "et_episodes t' = et_episodes t + int (length (suffixes_of str_of [r]))"
    "et_errors t' = et_errors t + int (length (filter (adapter_failed str_of) (suffixes_of str_of [r])))"
    "fst ` set (et_groups t') = fst ` set (et_groups t) \<union> groups_of str_of [r]"
    "dict_wf (et_groups t) \<Longrightarrow> dict_wf (et_groups t')"
proof -
  have kinds: "RECORD_KIND_EPISODE_SUFFIX \<noteq> RECORD_KIND_SHARED_PREFIX" by code_simp
  show "et_episodes t' = et_episodes t + int (length (suffixes_of str_of [r]))"
    "et_errors t' = et_errors t + int (length (filter (adapter_failed str_of) (suffixes_of str_of [r])))"
    using assms kinds by (auto simp: add_record_def res_iff Let_def)
  show "fst ` set (et_groups t') = fst ` set (et_groups t) \<union> groups_of str_of [r]"
    using add_record_groups[OF assms] by (elim disjE conjE exE) (simp_all only: keys_dict_set Un_empty_right Un_insert_right)
  show "dict_wf (et_groups t) \<Longrightarrow> dict_wf (et_groups t')"
    using add_record_groups[OF assms] by (elim disjE conjE exE) (simp_all only: dict_wf_set)
qed

lemma add_records_counts:
  "rfold (add_record str_of) records t = Inr t' \<Longrightarrow> dict_wf (et_groups t) \<Longrightarrow>
   et_episodes t' = et_episodes t + int (length (suffixes_of str_of records)) \<and>
   et_errors t' = et_errors t + int (length (filter (adapter_failed str_of) (suffixes_of str_of records))) \<and>
   fst ` set (et_groups t') = fst ` set (et_groups t) \<union> groups_of str_of records \<and> dict_wf (et_groups t')"
proof (induction records arbitrary: t)
  case (Cons r records)
  from Cons.prems obtain t1 where t1: "add_record str_of r t = Inr t1" "rfold (add_record str_of) records t1 = Inr t'"
    by (auto simp: res_iff)
  show ?case using Cons.IH[OF t1(2)] add_record_counts[OF t1(1)] Cons.prems(2) by auto
qed simp

lemma summary_counts:
  assumes "summarize_execution_records str_of sum_floats records = Inr m"
  shows "get m ''episode_count'' = PInt (int (length (suffixes_of str_of records)))"
    "get m ''episode_error_count'' = PInt (int (length (filter (adapter_failed str_of) (suffixes_of str_of records))))"
    "get m ''episode_group_count'' = PInt (int (card (groups_of str_of records)))"
proof -
  obtain t where t: "rfold (add_record str_of) records no_totals = Inr t"
    and m: "get m ''episode_count'' = PInt (et_episodes t)" "get m ''episode_error_count'' = PInt (et_errors t)"
      "get m ''episode_group_count'' = PInt (int (length (et_groups t)))"
    using assms by (auto simp: summarize_execution_records_def res_iff Let_def get_def)
  have c: "et_episodes t = int (length (suffixes_of str_of records))"
    "et_errors t = int (length (filter (adapter_failed str_of) (suffixes_of str_of records)))"
    "fst ` set (et_groups t) = groups_of str_of records" "dict_wf (et_groups t)"
    using add_records_counts[OF t] by (simp_all add: no_totals_def)
  have "length (et_groups t) = card (set (map fst (et_groups t)))" using distinct_card[OF c(4)] by simp
  then show "get m ''episode_count'' = PInt (int (length (suffixes_of str_of records)))"
    "get m ''episode_error_count'' = PInt (int (length (filter (adapter_failed str_of) (suffixes_of str_of records))))"
    "get m ''episode_group_count'' = PInt (int (card (groups_of str_of records)))"
    using c m by simp_all
qed

lemma rmap_fields:
  "rmap f names = Inr d \<Longrightarrow> (\<And>k y. f k = Inr y \<Longrightarrow> fst y = k) \<Longrightarrow>
   dict_get d k = (if k \<in> set names then map_option snd (case f k of Inr y \<Rightarrow> Some y | Inl _ \<Rightarrow> None) else None)"
proof (induction names arbitrary: d)
  case (Cons x names)
  from Cons.prems(1) obtain y ys where y: "f x = Inr y" "rmap f names = Inr ys" "d = y # ys"
    by (auto split: sum.splits)
  have "fst y = x" using Cons.prems(2)[OF y(1)] .
  with Cons.IH[OF y(2) Cons.prems(2)] y(1,3) show ?case by (cases y) simp
qed simp

lemma combined_counts:
  assumes "combine_execution_metrics sum_floats ms = Inr c" "field \<in> set EXECUTION_COUNT_FIELDS"
    and "list_all2 (\<lambda>m n. get m field = PInt n) ms ns"
  shows "get c field = PInt (sum_list ns)"
proof -
  have num: "int_or_zero (PInt n) = Inr n" for n by (simp add: int_or_zero_def py_or_def)
  have "rmap (\<lambda>part. int_or_zero (get part field)) ms = Inr ns"
    using assms(3) unfolding rmap_Inr by (rule list.rel_mono_strong) (simp add: num)
  then have v: "combine_counts ms field = Inr (field, PInt (sum_list ns))" by (simp add: combine_counts_def)
  obtain minutes counts where c: "rmap (combine_minutes sum_floats ms) EXECUTION_MINUTE_FIELDS = Inr minutes"
    "rmap (combine_counts ms) EXECUTION_COUNT_FIELDS = Inr counts" "c = minutes @ counts"
    using assms(1) by (auto simp: combine_execution_metrics_def res_iff)
  have "field \<notin> set EXECUTION_MINUTE_FIELDS"
    using assms(2) by (auto simp: EXECUTION_MINUTE_FIELDS_def EXECUTION_COUNT_FIELDS_def)
  then have "dict_get minutes field = None"
    by (subst rmap_fields[OF c(1)]) (auto simp: combine_minutes_def res_iff)
  moreover have "dict_get counts field = Some (PInt (sum_list ns))"
    by (subst rmap_fields[OF c(2)]) (auto simp: v assms(2), auto simp: combine_counts_def res_iff)
  ultimately show ?thesis by (simp add: get_def c(3) map_add_def)
qed

text \<open>The counts of an arm are the counts of all its records.  When the metrics of an arm combine the
  summaries of its epochs, the episode count is the number of suffix records of all epochs, the
  error count the number of those that failed, and the group count is at least the number of groups.\<close>

theorem execution_counts_add:
  assumes "list_all2 (\<lambda>records m. summarize_execution_records str_of sum_floats records = Inr m) epochs ms"
    and "combine_execution_metrics sum_floats ms = Inr c"
  shows "get c ''episode_count'' = PInt (int (length (suffixes_of str_of (concat epochs)))) \<and>
    get c ''episode_error_count'' = PInt (int (length (filter (adapter_failed str_of) (suffixes_of str_of (concat epochs))))) \<and>
    (\<exists>n. get c ''episode_group_count'' = PInt n \<and> int (card (groups_of str_of (concat epochs))) \<le> n)"
proof -
  have all: "list_all2 (\<lambda>m n. get m field = PInt n) ms (map f epochs)"
    if "\<And>records m. summarize_execution_records str_of sum_floats records = Inr m \<Longrightarrow> get m field = PInt (f records)" for field f
    using assms(1) that by (auto simp: list_all2_conv_all_nth)
  have fields: "''episode_count'' \<in> set EXECUTION_COUNT_FIELDS" "''episode_error_count'' \<in> set EXECUTION_COUNT_FIELDS"
    "''episode_group_count'' \<in> set EXECUTION_COUNT_FIELDS" by (simp_all add: EXECUTION_COUNT_FIELDS_def)
  have lengths: "sum_list (map (\<lambda>rs. int (length (filter P rs))) epochs) = int (length (filter P (concat epochs)))" for P
    by (induction epochs) auto
  have groups: "int (card (groups_of str_of (concat epochs))) \<le> sum_list (map (\<lambda>rs. int (card (groups_of str_of rs))) epochs)"
  proof (induction epochs)
    case (Cons rs epochs)
    have "groups_of str_of (concat (rs # epochs)) = groups_of str_of rs \<union> groups_of str_of (concat epochs)" by auto
    then have "int (card (groups_of str_of (concat (rs # epochs)))) \<le> int (card (groups_of str_of rs)) + int (card (groups_of str_of (concat epochs)))"
      using card_Un_le[of "groups_of str_of rs" "groups_of str_of (concat epochs)"] by (simp only: of_nat_add[symmetric] of_nat_le_iff)
    with Cons.IH show ?case by simp
  qed simp
  note c = combined_counts[OF assms(2) fields(1) all[OF summary_counts(1)]]
    combined_counts[OF assms(2) fields(2) all[OF summary_counts(2)]]
    combined_counts[OF assms(2) fields(3) all[OF summary_counts(3)]]
  from c groups show ?thesis by (simp add: lengths filter_filter)
qed

text \<open>Two epochs, a suffix in each, the second a failure.\<close>

definition example_suffix :: "string \<Rightarrow> pyval dict" where
  "example_suffix status = [(''record_kind'', PStr ''episode_suffix''), (''execution_status'', PStr status)]"

lemma example_summary:
  "\<exists>m. summarize_execution_records (\<lambda>_. ''x'') (\<lambda>_. Fin 1) [example_suffix status] = Inr m \<and>
     list_all (\<lambda>field. \<exists>v. float_or_zero (get m field) = Inr v) EXECUTION_MINUTE_FIELDS"
  by (simp add: summarize_execution_records_def add_record_def example_suffix_def get_def Let_def duration_of_def
      float_or_zero_def py_or_def record_group_def text_or_empty_def py_text_def strip_def EXECUTION_MINUTE_FIELDS_def
      record_kind_of_def text_or_def no_totals_def RECORD_KIND_EPISODE_SUFFIX_def RECORD_KIND_SHARED_PREFIX_def py_sum_def)

lemma combine_total:
  assumes "\<And>m field. m \<in> set ms \<Longrightarrow> field \<in> set EXECUTION_MINUTE_FIELDS \<Longrightarrow> \<exists>v. float_or_zero (get m field) = Inr v"
    and "\<And>m field. m \<in> set ms \<Longrightarrow> field \<in> set EXECUTION_COUNT_FIELDS \<Longrightarrow> \<exists>v. int_or_zero (get m field) = Inr v"
  shows "\<exists>c. combine_execution_metrics sum_floats ms = Inr c"
proof -
  have "\<exists>y. combine_minutes sum_floats ms field = Inr y" if "field \<in> set EXECUTION_MINUTE_FIELDS" for field
    using rmap_total[of ms "\<lambda>part. float_or_zero (get part field)"] assms(1) that by (auto simp: combine_minutes_def)
  moreover have "\<exists>y. combine_counts ms field = Inr y" if "field \<in> set EXECUTION_COUNT_FIELDS" for field
    using rmap_total[of ms "\<lambda>part. int_or_zero (get part field)"] assms(2) that by (auto simp: combine_counts_def)
  ultimately show ?thesis
    using rmap_total[of EXECUTION_MINUTE_FIELDS "combine_minutes sum_floats ms"]
      rmap_total[of EXECUTION_COUNT_FIELDS "combine_counts ms"] by (auto simp: combine_execution_metrics_def)
qed

theorem execution_counts_add_witness:
  "\<exists>m n c. summarize_execution_records (\<lambda>_. ''x'') (\<lambda>_. Fin 1) [example_suffix ''ok''] = Inr m \<and>
     summarize_execution_records (\<lambda>_. ''x'') (\<lambda>_. Fin 1) [example_suffix ''adapter_error''] = Inr n \<and>
     combine_execution_metrics (\<lambda>_. Fin 1) [m, n] = Inr c \<and>
     get c ''episode_count'' = PInt 2 \<and> get c ''episode_error_count'' = PInt 1"
proof -
  obtain m n where m: "summarize_execution_records (\<lambda>_. ''x'') (\<lambda>_. Fin 1) [example_suffix ''ok''] = Inr m"
      "list_all (\<lambda>field. \<exists>v. float_or_zero (get m field) = Inr v) EXECUTION_MINUTE_FIELDS"
    and n: "summarize_execution_records (\<lambda>_. ''x'') (\<lambda>_. Fin 1) [example_suffix ''adapter_error''] = Inr n"
      "list_all (\<lambda>field. \<exists>v. float_or_zero (get n field) = Inr v) EXECUTION_MINUTE_FIELDS"
    using example_summary[of "''ok''"] example_summary[of "''adapter_error''"] by blast
  have k: "\<exists>v. int_or_zero (get d field) = Inr v" if "get d field = PInt k" for d field k
    using that by (simp add: int_or_zero_def py_or_def)
  have "\<exists>v. int_or_zero (get d field) = Inr v" if "d \<in> set [m, n]" "field \<in> set EXECUTION_COUNT_FIELDS" for d field
    using that k[OF summary_counts(1)[OF m(1)]] k[OF summary_counts(2)[OF m(1)]] k[OF summary_counts(3)[OF m(1)]]
      k[OF summary_counts(1)[OF n(1)]] k[OF summary_counts(2)[OF n(1)]] k[OF summary_counts(3)[OF n(1)]]
    unfolding EXECUTION_COUNT_FIELDS_def by auto
  moreover have "\<exists>v. float_or_zero (get d field) = Inr v" if "d \<in> set [m, n]" "field \<in> set EXECUTION_MINUTE_FIELDS" for d field
    using that m(2) n(2) unfolding list_all_iff by auto
  ultimately obtain c where c: "combine_execution_metrics (\<lambda>_. Fin 1) [m, n] = Inr c"
    using combine_total by blast
  have l: "length (suffixes_of (\<lambda>_. ''x'') (concat [[example_suffix ''ok''], [example_suffix ''adapter_error'']])) = 2 \<and>
      length (filter (adapter_failed (\<lambda>_. ''x'')) (suffixes_of (\<lambda>_. ''x'') (concat [[example_suffix ''ok''], [example_suffix ''adapter_error'']]))) = 1"
    by code_simp
  have "list_all2 (\<lambda>records m. summarize_execution_records (\<lambda>_. ''x'') (\<lambda>_. Fin 1) records = Inr m)
      [[example_suffix ''ok''], [example_suffix ''adapter_error'']] [m, n]" using m n by simp
  from execution_counts_add[OF this c] l m n c show ?thesis by auto
qed

end
