(* ===== verification/Resource_Portfolio.thy ===== *)
theory Resource_Portfolio
  imports Harness_Checkpoint
begin

text \<open>
  \<open>src/loopx/capabilities/explore/resource_portfolio.py\<close>: named lanes with capacities and usage, the lane
  an item asks for by a capability, and the slots a selection leaves.

  A portfolio is the dictionary \<open>resolve_resource_portfolio\<close> builds, as a record without its constant
  fields; the selected items stay dictionaries.  Counts are unbounded integers.
\<close>

section \<open>Lane keys\<close>

definition RESOURCE_LANE_CAPABILITY_PREFIX :: string where
  "RESOURCE_LANE_CAPABILITY_PREFIX = ''resource_lane:''"

definition is_lower_letter :: "char \<Rightarrow> bool" where
  "is_lower_letter c = (let n = (of_char c :: nat) in 97 \<le> n \<and> n \<le> 122)"

text \<open>\<open>^[a-z][a-z0-9_]{0,63}$\<close>, on a text that does not end in a line break\<close>

definition RESOURCE_LANE_KEY_PATTERN :: "string \<Rightarrow> bool" where
  "RESOURCE_LANE_KEY_PATTERN key = (case key of
     [] \<Rightarrow> False
   | c # r \<Rightarrow> is_lower_letter c \<and> length r \<le> 63 \<and> list_all (\<lambda>d. is_lower_letter d \<or> is_digit d \<or> d = CHR ''_'') r)"

definition replace_char :: "char \<Rightarrow> char \<Rightarrow> string \<Rightarrow> string" where
  "replace_char a b s = map (\<lambda>c. if c = a then b else c) s"

definition normalize_resource_lane_key :: "(pyval \<Rightarrow> string) \<Rightarrow> pyval \<Rightarrow> string res" where
  "normalize_resource_lane_key str_of v =
     (let key = replace_char (CHR '' '') (CHR ''_'') (replace_char (CHR ''-'') (CHR ''_'') (lower (strip (text_or_empty str_of v)))) in
      if RESOURCE_LANE_KEY_PATTERN key then Inr key
      else Inl (ValueError ''resource lane must start with a letter and contain only lowercase letters, digits, or underscores''))"

section \<open>Counts\<close>

definition parse_count :: "string \<Rightarrow> int dict \<Rightarrow> int dict res" where
  "parse_count value counts =
     (if CHR ''='' \<notin> set value then Inl (ValueError ''expects KEY=N'')
      else let raw_key = takeWhile (\<lambda>c. c \<noteq> CHR ''='') value;
               raw_count = tl (dropWhile (\<lambda>c. c \<noteq> CHR ''='') value) in
        rbind (normalize_resource_lane_key (\<lambda>_. []) (PStr raw_key)) (\<lambda>key.
        if dict_get counts key \<noteq> None then Inl (ValueError ''repeats resource lane'')
        else case parse_int (strip raw_count) of
          None \<Rightarrow> Inl (ValueError ''expects KEY=N with an integer N'')
        | Some count \<Rightarrow>
            if count < 0 then Inl (ValueError ''expects a non-negative N'')
            else Inr (dict_set key count counts)))"

definition parse_resource_counts :: "string list \<Rightarrow> int dict res" where
  "parse_resource_counts values = rfold parse_count values []"

definition key_value :: "pykey \<Rightarrow> pyval" where
  "key_value k = (case k of KStr s \<Rightarrow> PStr s | KOther \<Rightarrow> POther)"

definition is_text :: "pyval \<Rightarrow> bool" where
  "is_text v = (case v of PStr _ \<Rightarrow> True | _ \<Rightarrow> False)"

definition is_boolean :: "pyval \<Rightarrow> bool" where
  "is_boolean v = (case v of PBool _ \<Rightarrow> True | _ \<Rightarrow> False)"

definition normalize_count :: "(pyval \<Rightarrow> string) \<Rightarrow> pykey \<times> pyval \<Rightarrow> int dict \<Rightarrow> int dict res" where
  "normalize_count str_of = (\<lambda>(raw_key, raw_count) counts.
     rbind (normalize_resource_lane_key str_of (key_value raw_key)) (\<lambda>key.
     if dict_get counts key \<noteq> None then Inl (ValueError ''repeats resource lane'')
     else case to_int raw_count of
       Inl _ \<Rightarrow> Inl (ValueError ''must be a non-negative integer'')
     | Inr count \<Rightarrow>
         if is_boolean raw_count \<or> count < 0 \<or> (\<not> is_text raw_count \<and> \<not> py_eq raw_count (PInt count))
         then Inl (ValueError ''must be a non-negative integer'')
         else Inr (dict_set key count counts)))"

definition normalize_resource_counts :: "(pyval \<Rightarrow> string) \<Rightarrow> pymap \<Rightarrow> int dict res" where
  "normalize_resource_counts str_of values =
     rbind (rfold (normalize_count str_of) values []) (\<lambda>counts. Inr (sort_key fst counts))"

section \<open>Portfolios\<close>

record resource_lane =
  ln_capacity :: int
  ln_current_usage :: int
  ln_available_slots :: int
  ln_overcommitted_by :: int

record resource_portfolio =
  pf_enabled :: bool
  pf_capacities :: "int dict"
  pf_usage :: "int dict"
  pf_available_slot_count :: int
  pf_lanes :: "resource_lane dict"

definition usage_of :: "int dict \<Rightarrow> string \<Rightarrow> int" where
  "usage_of usage key = (case dict_get usage key of None \<Rightarrow> 0 | Some n \<Rightarrow> n)"

definition make_lane :: "int \<Rightarrow> int \<Rightarrow> resource_lane" where
  "make_lane capacity usage =
     \<lparr>ln_capacity = capacity, ln_current_usage = usage, ln_available_slots = max 0 (capacity - usage),
      ln_overcommitted_by = max 0 (usage - capacity)\<rparr>"

definition resolve_resource_portfolio :: "(pyval \<Rightarrow> string) \<Rightarrow> pymap \<Rightarrow> pymap \<Rightarrow> resource_portfolio res" where
  "resolve_resource_portfolio str_of capacities usage =
     rbind (normalize_resource_counts str_of capacities) (\<lambda>capacities.
     rbind (normalize_resource_counts str_of usage) (\<lambda>usage.
     if \<exists>key \<in> fst ` set usage. key \<notin> fst ` set capacities
     then Inl (ValueError ''resource_usage requires matching resource_capacities'')
     else
       let lanes = map (\<lambda>(key, capacity). (key, make_lane capacity (usage_of usage key))) capacities in
       Inr \<lparr>pf_enabled = (capacities \<noteq> []), pf_capacities = capacities,
            pf_usage = map (\<lambda>(key, _). (key, usage_of usage key)) capacities,
            pf_available_slot_count = sum_list (map (\<lambda>(_, lane). ln_available_slots lane) lanes),
            pf_lanes = lanes\<rparr>))"

definition add_capability :: "(pyval \<Rightarrow> string) \<Rightarrow> pyval \<Rightarrow> string list \<Rightarrow> string list res" where
  "add_capability str_of capability lanes =
     (let text = lower (strip (text_or_empty str_of capability)) in
      if take (length RESOURCE_LANE_CAPABILITY_PREFIX) text \<noteq> RESOURCE_LANE_CAPABILITY_PREFIX then Inr lanes
      else let key = drop (length RESOURCE_LANE_CAPABILITY_PREFIX) text in
        if key \<noteq> [] \<and> key \<notin> set lanes
        then rbind (normalize_resource_lane_key str_of (PStr key)) (\<lambda>k. Inr (lanes @ [k]))
        else Inr lanes)"

definition resource_lane_from_capabilities :: "(pyval \<Rightarrow> string) \<Rightarrow> pyval list \<Rightarrow> string res" where
  "resource_lane_from_capabilities str_of capabilities =
     rbind (rfold (add_capability str_of) capabilities []) (\<lambda>lanes.
     if 1 < length lanes then Inl (ValueError ''an advancement todo may declare only one resource_lane:<key> capability'')
     else Inr (case lanes of [] \<Rightarrow> [] | lane # _ \<Rightarrow> lane))"

record slot_assignment =
  sa_resource_lane :: string
  sa_slot_ordinal :: int
  sa_capacity :: int
  sa_current_usage :: int

definition resource_assignment :: "resource_portfolio \<Rightarrow> string \<Rightarrow> int \<Rightarrow> slot_assignment option" where
  "resource_assignment portfolio lane_key selected_count =
     (if \<not> pf_enabled portfolio \<or> lane_key = [] then None
      else case dict_get (pf_lanes portfolio) lane_key of
        None \<Rightarrow> None
      | Some lane \<Rightarrow> Some
          \<lparr>sa_resource_lane = lane_key, sa_slot_ordinal = ln_current_usage lane + selected_count,
           sa_capacity = ln_capacity lane, sa_current_usage = ln_current_usage lane\<rparr>)"

record selected_lane = resource_lane +
  ln_selected_slots :: int
  ln_remaining_slots :: int

record portfolio_selection =
  sl_portfolio :: resource_portfolio
  sl_lanes :: "selected_lane dict"
  sl_selected_slot_count :: int
  sl_remaining_slot_count :: int
  sl_unassigned_selected_count :: int

definition selected_in :: "pyval dict list \<Rightarrow> string \<Rightarrow> int" where
  "selected_in selected key = int (length (filter (\<lambda>item. get item ''resource_lane'' = PStr key) selected))"

definition select_lane :: "pyval dict list \<Rightarrow> string \<times> resource_lane \<Rightarrow> string \<times> selected_lane" where
  "select_lane selected = (\<lambda>(key, lane).
     (key, \<lparr>ln_capacity = ln_capacity lane, ln_current_usage = ln_current_usage lane, ln_available_slots = ln_available_slots lane,
            ln_overcommitted_by = ln_overcommitted_by lane, ln_selected_slots = selected_in selected key,
            ln_remaining_slots = max 0 (ln_available_slots lane - selected_in selected key)\<rparr>))"

definition resource_portfolio_with_selection :: "resource_portfolio \<Rightarrow> pyval dict list \<Rightarrow> portfolio_selection" where
  "resource_portfolio_with_selection portfolio selected =
     (let lanes = map (select_lane selected) (pf_lanes portfolio) in
      \<lparr>sl_portfolio = portfolio, sl_lanes = lanes,
       sl_selected_slot_count = sum_list (map (\<lambda>(key, _). selected_in selected key) (pf_lanes portfolio)),
       sl_remaining_slot_count = sum_list (map (\<lambda>(_, lane). ln_remaining_slots lane) lanes),
       sl_unassigned_selected_count = int (length (filter (\<lambda>item. \<not> truthy (get item ''resource_lane'')) selected))\<rparr>)"

end
