(* ===== verification/Portfolio_Properties.thy ===== *)
theory Portfolio_Properties
  imports Resource_Portfolio
begin

text \<open>
  Slots are accounted for exactly, counts given as texts are read back, and a lane declared twice is
  accepted only when its key is written with underscores.
\<close>

section \<open>Slots\<close>

definition counts_ok :: "int dict \<Rightarrow> bool" where
  "counts_ok counts \<longleftrightarrow> dict_wf counts \<and> list_all (\<lambda>(_, n). 0 \<le> n) counts"

lemma counts_ok_set: "counts_ok counts \<Longrightarrow> 0 \<le> n \<Longrightarrow> counts_ok (dict_set k n counts)"
proof -
  have "list_all (\<lambda>(_, n). 0 \<le> n) (dict_set k n d)" if "list_all (\<lambda>(_, n). 0 \<le> n) d" "0 \<le> n" for d :: "int dict"
    using that by (induction d) auto
  then show "counts_ok counts \<Longrightarrow> 0 \<le> n \<Longrightarrow> counts_ok (dict_set k n counts)"
    by (simp add: counts_ok_def dict_wf_set)
qed

lemma normalize_counts_ok:
  assumes "normalize_resource_counts str_of values = Inr counts"
  shows "counts_ok counts" "sorted (map fst counts)"
proof -
  obtain c where c: "rfold (normalize_count str_of) values [] = Inr c" "counts = sort_key fst c"
    using assms by (auto simp: normalize_resource_counts_def res_iff)
  have "counts_ok c"
  proof (rule rfold_invariant[OF c(1)])
    show "counts_ok []" by (simp add: counts_ok_def)
    show "counts_ok d" if "counts_ok b" "normalize_count str_of x b = Inr d" for x b d
      using that by (cases x) (auto simp: normalize_count_def res_iff counts_ok_set split: if_splits sum.splits)
  qed
  then have ok: "dict_wf c" "list_all (\<lambda>(_, n). 0 \<le> n) c" by (simp_all add: counts_ok_def)
  have "distinct (map fst counts)" using ok(1) by (simp add: c(2) distinct_map)
  moreover have "list_all (\<lambda>(_, n). 0 \<le> n) counts" using ok(2) by (simp add: c(2) list_all_iff)
  ultimately show "counts_ok counts" by (simp add: counts_ok_def)
  show "sorted (map fst counts)" by (simp add: c(2))
qed

lemma sum_selected:
  "distinct keys \<Longrightarrow> sum_list (map (selected_in selected) keys) =
   int (length (filter (\<lambda>item. get item ''resource_lane'' \<in> PStr ` set keys) selected))"
proof (induction keys)
  case (Cons k keys)
  have "length (filter (\<lambda>item. get item ''resource_lane'' \<in> PStr ` set (k # keys)) selected) =
      length (filter (\<lambda>item. get item ''resource_lane'' = PStr k) selected) +
      length (filter (\<lambda>item. get item ''resource_lane'' \<in> PStr ` set keys) selected)"
    using Cons.prems by (induction selected) auto
  with Cons show ?case by (simp add: selected_in_def)
qed simp

lemma sum_remaining:
  fixes a s :: "'a \<Rightarrow> int"
  shows "sum_list (map a xs) - sum_list (map s xs) \<le> sum_list (map (\<lambda>x. max 0 (a x - s x)) xs)"
    "sum_list (map (\<lambda>x. max 0 (a x - s x)) xs) = sum_list (map a xs) - sum_list (map s xs) \<longleftrightarrow> list_all (\<lambda>x. s x \<le> a x) xs"
proof -
  show le: "sum_list (map a xs) - sum_list (map s xs) \<le> sum_list (map (\<lambda>x. max 0 (a x - s x)) xs)" for xs
    by (induction xs) auto
  show "sum_list (map (\<lambda>x. max 0 (a x - s x)) xs) = sum_list (map a xs) - sum_list (map s xs) \<longleftrightarrow> list_all (\<lambda>x. s x \<le> a x) xs"
  proof (induction xs)
    case (Cons x xs)
    then show ?case using le[of xs] by (cases "s x \<le> a x") auto
  qed simp
qed

text \<open>C33: a portfolio accounts for its slots.  Lanes are in the order of their distinct keys; in each, free
  slots less overcommitment are capacity less usage, and at most one of the two is positive.  A
  selection occupies one slot for each item that names a lane of the portfolio, and the slots that
  remain are those available less those occupied, exactly when no lane is given more items than it
  has free slots, and more otherwise.\<close>

theorem selection_accounts_for_slots:
  assumes "resolve_resource_portfolio str_of capacities usage = Inr p"
    and q_def: "q = resource_portfolio_with_selection p selected"
  shows "sorted (map fst (pf_lanes p)) \<and> distinct (map fst (pf_lanes p)) \<and>
    list_all (\<lambda>(_, l). 0 \<le> ln_capacity l \<and> 0 \<le> ln_current_usage l \<and> 0 \<le> ln_available_slots l \<and> 0 \<le> ln_overcommitted_by l \<and>
      ln_available_slots l - ln_overcommitted_by l = ln_capacity l - ln_current_usage l \<and>
      (ln_available_slots l = 0 \<or> ln_overcommitted_by l = 0)) (pf_lanes p) \<and>
    sl_selected_slot_count q = int (length (filter (\<lambda>item. get item ''resource_lane'' \<in> PStr ` fst ` set (pf_lanes p)) selected)) \<and>
    pf_available_slot_count p - sl_selected_slot_count q \<le> sl_remaining_slot_count q \<and>
    (sl_remaining_slot_count q = pf_available_slot_count p - sl_selected_slot_count q \<longleftrightarrow>
      list_all (\<lambda>(_, l). ln_selected_slots l \<le> ln_available_slots l) (sl_lanes q))"
proof -
  from assms(1) obtain caps use where c: "normalize_resource_counts str_of capacities = Inr caps"
    "normalize_resource_counts str_of usage = Inr use"
    and lanes: "pf_lanes p = map (\<lambda>(key, capacity). (key, make_lane capacity (usage_of use key))) caps"
    and avail: "pf_available_slot_count p = sum_list (map (\<lambda>(_, lane). ln_available_slots lane) (pf_lanes p))"
    by (auto simp: resolve_resource_portfolio_def res_iff Let_def split: if_splits)
  have keys: "map fst (pf_lanes p) = map fst caps" by (simp add: lanes case_prod_beta comp_def)
  have use: "0 \<le> usage_of use key" for key
    using normalize_counts_ok(1)[OF c(2)] by (auto simp: counts_ok_def usage_of_def list_all_iff split: option.splits dest: map_of_SomeD)
  have "list_all (\<lambda>(_, n). 0 \<le> n) caps" using normalize_counts_ok(1)[OF c(1)] by (simp add: counts_ok_def)
  then have each: "list_all (\<lambda>(_, l). 0 \<le> ln_capacity l \<and> 0 \<le> ln_current_usage l \<and> 0 \<le> ln_available_slots l \<and> 0 \<le> ln_overcommitted_by l \<and>
      ln_available_slots l - ln_overcommitted_by l = ln_capacity l - ln_current_usage l \<and>
      (ln_available_slots l = 0 \<or> ln_overcommitted_by l = 0)) (pf_lanes p)"
    using use by (auto simp: lanes list_all_iff make_lane_def)
  have wf: "sorted (map fst (pf_lanes p))" "distinct (map fst (pf_lanes p))"
    using normalize_counts_ok[OF c(1)] by (simp_all add: keys counts_ok_def)
  let ?a = "\<lambda>(_ :: string, l). ln_available_slots l" and ?s = "\<lambda>(key, _ :: resource_lane). selected_in selected key"
  have q: "sl_selected_slot_count q = sum_list (map ?s (pf_lanes p))"
    "sl_remaining_slot_count q = sum_list (map (\<lambda>x. max 0 (?a x - ?s x)) (pf_lanes p))"
    "list_all (\<lambda>(_, l). ln_selected_slots l \<le> ln_available_slots l) (sl_lanes q) = list_all (\<lambda>x. ?s x \<le> ?a x) (pf_lanes p)"
    by (simp_all add: q_def resource_portfolio_with_selection_def Let_def select_lane_def case_prod_beta comp_def list.pred_map)
  have "sl_selected_slot_count q = int (length (filter (\<lambda>item. get item ''resource_lane'' \<in> PStr ` fst ` set (pf_lanes p)) selected))"
    using sum_selected[OF wf(2), of selected] by (simp add: q(1) case_prod_unfold comp_def)
  with wf each sum_remaining[where a = ?a and s = ?s and xs = "pf_lanes p"] q avail show ?thesis by simp
qed

definition example_capacities :: pymap where
  "example_capacities = [(KStr ''GPU-a'', PInt 2), (KStr ''cpu'', PStr '' 1 '')]"

lemma example_portfolio:
  "resolve_resource_portfolio (\<lambda>_. []) example_capacities [(KStr ''gpu_a'', PInt 1)] = Inr
     \<lparr>pf_enabled = True, pf_capacities = [(''cpu'', 1), (''gpu_a'', 2)], pf_usage = [(''cpu'', 0), (''gpu_a'', 1)],
      pf_available_slot_count = 2, pf_lanes = [(''cpu'', make_lane 1 0), (''gpu_a'', make_lane 2 1)]\<rparr>"
  by code_simp

theorem selection_accounts_for_slots_witness:
  "\<exists>p. resolve_resource_portfolio (\<lambda>_. []) example_capacities [(KStr ''gpu_a'', PInt 1)] = Inr p \<and>
     pf_available_slot_count p = 2 \<and>
     sl_remaining_slot_count (resource_portfolio_with_selection p [[(''resource_lane'', PStr ''cpu'')]]) = 1"
  using selection_accounts_for_slots[OF example_portfolio refl, of "[[(''resource_lane'', PStr ''cpu'')]]"]
  by (auto simp: example_portfolio get_def resource_portfolio_with_selection_def select_lane_def selected_in_def make_lane_def Let_def)

section \<open>Reading counts\<close>

lemma decimal_nat_digits: "list_all is_digit (decimal_nat n)"
proof (induction n rule: decimal_nat.induct)
  case (1 n)
  have digit: "is_digit (char_of (48 + k))" if "k < 10" for k :: nat
    using that by (simp add: is_digit_def of_char_of Let_def)
  show ?case
    by (subst decimal_nat.simps) (use 1 digit in \<open>auto\<close>)
qed

lemma decimal_nat_nonempty: "decimal_nat n \<noteq> []"
  by (subst decimal_nat.simps) simp

lemma digit_not_space: "is_digit c \<Longrightarrow> \<not> is_space c"
  by (auto simp: is_digit_def is_space_def Let_def)

lemma strip_id: "list_all (\<lambda>c. \<not> is_space c) s \<Longrightarrow> strip s = s"
proof -
  have d: "dropWhile is_space r = r" if "list_all (\<lambda>c. \<not> is_space c) r" for r
    using that by (cases r) auto
  show "list_all (\<lambda>c. \<not> is_space c) s \<Longrightarrow> strip s = s"
    unfolding strip_def by (simp add: d list.pred_set)
qed

lemma parse_int_decimal:
  assumes "0 \<le> n" "length (decimal n) \<le> INT_MAX_STR_DIGITS"
  shows "parse_int (decimal n) = Some n"
proof -
  let ?d = "decimal_nat (nat n)"
  have d: "decimal n = ?d" using assms(1) by (simp add: decimal_def)
  have "strip ?d = ?d" using decimal_nat_digits[of "nat n"] by (intro strip_id) (auto simp: list_all_iff digit_not_space)
  moreover have "split_sign ?d = (False, ?d)"
  proof (cases ?d)
    case (Cons c r)
    then have "is_digit c" using decimal_nat_digits[of "nat n"] by simp
    moreover have "\<not> is_digit (CHR ''-'')" "\<not> is_digit (CHR ''+'')" by code_simp+
    ultimately show ?thesis using Cons by (auto simp: split_sign_def)
  qed (simp add: decimal_nat_nonempty)
  moreover have "plain_digits ?d = Some ?d"
    unfolding plain_digits_def by (rule drop_underscores_digits[OF decimal_nat_digits]) code_simp
  moreover have "int (digits_value ?d) = n" using decimal_nat_value[of "nat n"] assms(1) by (simp add: digits_value_def)
  ultimately show ?thesis
    using assms(2) decimal_nat_digits[of "nat n"] decimal_nat_nonempty[of "nat n"]
    by (simp add: parse_int_def d)
qed

text \<open>A key in normal form is left as it is.\<close>

abbreviation lane_char :: "char \<Rightarrow> bool" where
  "lane_char d \<equiv> is_lower_letter d \<or> is_digit d \<or> d = CHR ''_''"

lemma lane_char_plain:
  assumes "lane_char d"
  shows "\<not> is_space d" "lower_char d = d" "d \<noteq> CHR ''-''" "d \<noteq> CHR '' ''" "d \<noteq> CHR ''=''"
proof -
  have u: "\<not> is_space (CHR ''_'')" "lower_char (CHR ''_'') = CHR ''_''" by code_simp+
  have l: "\<not> is_space d" "lower_char d = d" if "is_lower_letter d"
    using that by (auto simp: is_lower_letter_def is_space_def lower_char_def Let_def)
  have n: "\<not> is_space d" "lower_char d = d" if "is_digit d"
    using that by (auto simp: is_digit_def is_space_def lower_char_def Let_def)
  show "\<not> is_space d" "lower_char d = d" using assms u l n by blast+
  have "\<not> lane_char (CHR ''-'')" "\<not> lane_char (CHR '' '')" "\<not> lane_char (CHR ''='')" by code_simp+
  with assms show "d \<noteq> CHR ''-''" "d \<noteq> CHR '' ''" "d \<noteq> CHR ''=''" by blast+
qed

lemma lane_key_plain:
  assumes "RESOURCE_LANE_KEY_PATTERN key"
  shows "key \<noteq> []" "strip key = key" "lower key = key" "CHR ''='' \<notin> set key"
    "replace_char (CHR ''-'') (CHR ''_'') key = key" "replace_char (CHR '' '') (CHR ''_'') key = key"
proof -
  show "key \<noteq> []" using assms by (auto simp: RESOURCE_LANE_KEY_PATTERN_def)
  have ok: "\<forall>d \<in> set key. lane_char d"
    using assms by (cases key) (auto simp: RESOURCE_LANE_KEY_PATTERN_def list_all_iff)
  then show "strip key = key" by (intro strip_id) (simp add: list_all_iff lane_char_plain(1))
  show "lower key = key" unfolding lower_def by (rule map_idI) (use ok lane_char_plain(2) in blast)
  show "CHR ''='' \<notin> set key" using ok lane_char_plain(5) by blast
  show "replace_char (CHR ''-'') (CHR ''_'') key = key" "replace_char (CHR '' '') (CHR ''_'') key = key"
    unfolding replace_char_def using ok lane_char_plain(3,4) by (intro map_idI; metis)+
qed

lemma lane_key_normal:
  assumes "RESOURCE_LANE_KEY_PATTERN key"
  shows "normalize_resource_lane_key str_of (PStr key) = Inr key"
  using assms lane_key_plain[OF assms] by (simp add: normalize_resource_lane_key_def text_or_empty_def py_or_def py_text_def)

text \<open>Counts written as \<open>KEY=N\<close> are read back.  For distinct keys in normal form and non-negative
  counts within the limit on digits, parsing the texts gives exactly the counts, in their order.\<close>

theorem parse_counts_roundtrip:
  assumes "dict_wf counts"
    and "list_all (\<lambda>(key, n). RESOURCE_LANE_KEY_PATTERN key \<and> 0 \<le> n \<and> length (decimal n) \<le> INT_MAX_STR_DIGITS) counts"
  shows "parse_resource_counts (map (\<lambda>(key, n). key @ ''='' @ decimal n) counts) = Inr counts"
  using assms
proof (induction counts rule: rev_induct)
  case (snoc x counts)
  obtain key n where x: "x = (key, n)" by (cases x)
  have key: "RESOURCE_LANE_KEY_PATTERN key" "0 \<le> n" "length (decimal n) \<le> INT_MAX_STR_DIGITS" "key \<notin> fst ` set counts"
    using snoc.prems by (auto simp: x)
  have IH: "rfold parse_count (map (\<lambda>(key, n). key @ ''='' @ decimal n) counts) [] = Inr counts"
    using snoc by (auto simp: parse_resource_counts_def)
  have split: "takeWhile (\<lambda>c. c \<noteq> CHR ''='') (key @ ''='' @ decimal n) = key"
    "dropWhile (\<lambda>c. c \<noteq> CHR ''='') (key @ ''='' @ decimal n) = ''='' @ decimal n"
    using lane_key_plain(4)[OF key(1)] by (auto simp: takeWhile_append dropWhile_append)
  have "strip (decimal n) = decimal n"
    using decimal_nat_digits[of "nat n"] key(2) by (intro strip_id) (auto simp: decimal_def list_all_iff digit_not_space)
  moreover have "dict_get counts key = None" using key(4) by (simp add: map_of_eq_None_iff)
  moreover have "dict_set key n counts = counts @ [(key, n)]" using key(4) by (induction counts) auto
  ultimately have "parse_count (key @ ''='' @ decimal n) counts = Inr (counts @ [(key, n)])"
    using key parse_int_decimal[OF key(2,3)] split lane_key_normal[OF key(1)] by (simp add: parse_count_def)
  with IH show ?case by (simp add: parse_resource_counts_def x rfold_snoc)
qed (simp add: parse_resource_counts_def)

theorem parse_counts_roundtrip_witness:
  "parse_resource_counts (map (\<lambda>(key, n). key @ ''='' @ decimal n) [(''gpu_a'', 12), (''cpu'', 0)]) = Inr [(''gpu_a'', 12), (''cpu'', 0)]"
  by (rule parse_counts_roundtrip) code_simp+

section \<open>Declaring a lane twice\<close>

lemma strip_prefixed:
  assumes "strip key = key" "key \<noteq> []" "\<not> is_space c"
  shows "strip (c # r @ key) = c # r @ key"
proof -
  have e: "rev (dropWhile is_space (rev (dropWhile is_space key))) = key" using assms(1) by (simp add: strip_def)
  then have "dropWhile is_space (rev (dropWhile is_space key)) \<noteq> []" using assms(2) by force
  from hd_dropWhile[OF this] have "\<not> is_space (last key)" using e by (metis last_rev)
  then have "dropWhile is_space (rev key @ r') = rev key @ r'" for r'
    using assms(2) by (cases "rev key") (auto simp: last_rev hd_rev[symmetric])
  then show ?thesis using assms(3) by (simp add: strip_def)
qed

lemma capability_text:
  assumes "strip key = key" "lower key = key" "key \<noteq> []"
  shows "lower (strip (text_or_empty str_of (PStr (RESOURCE_LANE_CAPABILITY_PREFIX @ key)))) = RESOURCE_LANE_CAPABILITY_PREFIX @ key"
proof -
  have p: "RESOURCE_LANE_CAPABILITY_PREFIX = CHR ''r'' # ''esource_lane:''" by (simp add: RESOURCE_LANE_CAPABILITY_PREFIX_def)
  have "\<not> is_space (CHR ''r'')" "lower RESOURCE_LANE_CAPABILITY_PREFIX = RESOURCE_LANE_CAPABILITY_PREFIX" by code_simp+
  then show ?thesis
    using strip_prefixed[OF assms(1,3), of "CHR ''r''" "''esource_lane:''"] assms(2)
    by (simp add: p text_or_empty_def py_or_def py_text_def lower_def)
qed

text \<open>A repeated declaration is an error unless it is written in normal form.  A capability is
  compared with the normalised lanes before it is normalised itself: a lane key whose normal form
  differs from it, for instance by a hyphen, is refused as two lanes when it is declared twice,
  while its normal form declared twice gives the lane.\<close>

theorem repeated_lane_declaration:
  assumes "normalize_resource_lane_key str_of (PStr key) = Inr k" "strip key = key" "lower key = key" "key \<noteq> k"
  shows "resource_lane_from_capabilities str_of
       [PStr (RESOURCE_LANE_CAPABILITY_PREFIX @ key), PStr (RESOURCE_LANE_CAPABILITY_PREFIX @ key)] =
      Inl (ValueError ''an advancement todo may declare only one resource_lane:<key> capability'') \<and>
    resource_lane_from_capabilities str_of
       [PStr (RESOURCE_LANE_CAPABILITY_PREFIX @ k), PStr (RESOURCE_LANE_CAPABILITY_PREFIX @ k)] = Inr k"
proof -
  have k: "RESOURCE_LANE_KEY_PATTERN k" using assms(1) by (auto simp: normalize_resource_lane_key_def Let_def split: if_splits)
  have "key \<noteq> []"
    using assms(1) by (auto simp: normalize_resource_lane_key_def text_or_empty_def py_or_def py_text_def replace_char_def lower_def
        RESOURCE_LANE_KEY_PATTERN_def strip_def Let_def split: if_splits)
  have add: "add_capability str_of (PStr (RESOURCE_LANE_CAPABILITY_PREFIX @ t)) lanes =
      (if t \<notin> set lanes then rbind (normalize_resource_lane_key str_of (PStr t)) (\<lambda>k. Inr (lanes @ [k])) else Inr lanes)"
    if "strip t = t" "lower t = t" "t \<noteq> []" for t lanes
    unfolding add_capability_def capability_text[OF that] Let_def using that(3) by simp
  have "add_capability str_of (PStr (RESOURCE_LANE_CAPABILITY_PREFIX @ key)) lanes =
      (if key \<notin> set lanes then Inr (lanes @ [k]) else Inr lanes)" for lanes
    using add[OF assms(2,3) \<open>key \<noteq> []\<close>] assms(1) by simp
  moreover have "add_capability str_of (PStr (RESOURCE_LANE_CAPABILITY_PREFIX @ k)) lanes =
      (if k \<notin> set lanes then Inr (lanes @ [k]) else Inr lanes)" for lanes
    using add[OF lane_key_plain(2,3,1)[OF k]] lane_key_normal[OF k] by simp
  ultimately show ?thesis using assms(4) by (simp add: resource_lane_from_capabilities_def)
qed

theorem repeated_lane_declaration_witness:
  "resource_lane_from_capabilities (\<lambda>_. []) [PStr ''resource_lane:gpu-a'', PStr ''resource_lane:gpu-a''] =
     Inl (ValueError ''an advancement todo may declare only one resource_lane:<key> capability'')"
proof -
  have "normalize_resource_lane_key (\<lambda>_. []) (PStr ''gpu-a'') = Inr ''gpu_a''" "strip ''gpu-a'' = ''gpu-a''" "lower ''gpu-a'' = ''gpu-a''"
    by code_simp+
  from repeated_lane_declaration[OF this] show ?thesis by (simp add: RESOURCE_LANE_CAPABILITY_PREFIX_def)
qed

end
