(* ===== verification/Orchestration.thy ===== *)
theory Orchestration
  imports Harness_Frontier
begin

text \<open>
  \<open>src/loopx/orchestration.py\<close> and \<open>src/loopx/capabilities/explore/harness_gate.py\<close>: the spawn policy of a goal in
  its compact form, its update by configuration options, and the gate through which a planner may
  suggest work.

  A policy is a mapping of arbitrary values.  The compact form is a record whose optional fields are
  those the code adds only sometimes.  The composition policy comes from the TypeScript runtime and
  is a parameter.  \<open>dict()\<close> of a stored model configuration that is no mapping raises; the code would
  also take a list of pairs, which the registry never holds.
\<close>

section \<open>Policies\<close>

definition DEFAULT_ORCHESTRATION_MODE :: string where
  "DEFAULT_ORCHESTRATION_MODE = ''default''"

definition MULTI_SUBAGENT_ORCHESTRATION_MODE :: string where
  "MULTI_SUBAGENT_ORCHESTRATION_MODE = ''multi_subagent''"

definition VALID_ORCHESTRATION_MODES :: "string list" where
  "VALID_ORCHESTRATION_MODES = [DEFAULT_ORCHESTRATION_MODE, MULTI_SUBAGENT_ORCHESTRATION_MODE]"

definition SUBAGENT_REASONING_EFFORTS :: "string list" where
  "SUBAGENT_REASONING_EFFORTS = [''none'', ''minimal'', ''low'', ''medium'', ''high'', ''xhigh'', ''max'', ''ultra'']"

definition map_has :: "pymap \<Rightarrow> string \<Rightarrow> bool" where
  "map_has m k = (map_of m (KStr k) \<noteq> None)"

definition map_set :: "string \<Rightarrow> pyval \<Rightarrow> pymap \<Rightarrow> pymap" where
  "map_set k v m = AList.update (KStr k) v m"

definition map_pop :: "string \<Rightarrow> pymap \<Rightarrow> pymap" where
  "map_pop k m = filter (\<lambda>(k', _). k' \<noteq> KStr k) m"

definition subscript :: "pymap \<Rightarrow> string \<Rightarrow> pyval res" where
  "subscript m k = (case map_of m (KStr k) of None \<Rightarrow> Inl (KeyError k) | Some v \<Rightarrow> Inr v)"

definition int_number :: "pyval \<Rightarrow> int" where
  "int_number v = (case v of
     PInt i \<Rightarrow> i
   | PFloat _ \<Rightarrow> (case to_int v of Inr i \<Rightarrow> i | Inl _ \<Rightarrow> 0)
   | PStr s \<Rightarrow> (case to_int (PStr (strip s)) of Inr i \<Rightarrow> i | Inl _ \<Rightarrow> 0)
   | _ \<Rightarrow> 0)"

definition policy_spawn_allowed :: "pymap \<Rightarrow> bool" where
  "policy_spawn_allowed policy \<longleftrightarrow> map_get policy ''allowed'' = PBool True \<or> map_get policy ''spawn_allowed'' = PBool True"

definition orchestration_mode_from_spawn_policy :: "(pyval \<Rightarrow> string) \<Rightarrow> pymap \<Rightarrow> string" where
  "orchestration_mode_from_spawn_policy str_of policy =
     (let explicit_mode = strip (py_text str_of
            (py_or (py_or (map_get policy ''mode'') (map_get policy ''orchestration_mode'')) (PStr []))) in
      if explicit_mode \<in> set VALID_ORCHESTRATION_MODES then explicit_mode
      else if policy_spawn_allowed policy \<and> 0 < int_number (map_get policy ''max_children'') then MULTI_SUBAGENT_ORCHESTRATION_MODE
      else DEFAULT_ORCHESTRATION_MODE)"

section \<open>Model and execution preferences\<close>

definition is_alnum :: "char \<Rightarrow> bool" where
  "is_alnum c = (let n = (of_char c :: nat) in (65 \<le> n \<and> n \<le> 90) \<or> (97 \<le> n \<and> n \<le> 122) \<or> (48 \<le> n \<and> n \<le> 57))"

text \<open>\<open>[A-Za-z0-9][A-Za-z0-9._:/-]{0,159}\<close>, the whole text\<close>

definition model_identifier :: "string \<Rightarrow> bool" where
  "model_identifier s = (case s of
     [] \<Rightarrow> False
   | c # r \<Rightarrow> is_alnum c \<and> length r \<le> 159 \<and> list_all (\<lambda>d. is_alnum d \<or> d \<in> set ''._:/-'') r)"

record model_config =
  mc_model :: string
  mc_reasoning_effort :: "string option"

definition validate_subagent_model_config :: "pyval \<Rightarrow> model_config res" where
  "validate_subagent_model_config value = (case value of
     PMap m \<Rightarrow>
       if \<not> list_all (\<lambda>(k, _). k = KStr ''model'' \<or> k = KStr ''reasoning_effort'') m
       then Inl (ValueError ''subagent model config requires model and optional reasoning_effort'')
       else (case map_get m ''model'' of
         PStr model \<Rightarrow>
           if \<not> model_identifier model then Inl (ValueError ''subagent model must be a non-empty model identifier'')
           else if \<not> map_has m ''reasoning_effort'' then Inr \<lparr>mc_model = model, mc_reasoning_effort = None\<rparr>
           else (case map_get m ''reasoning_effort'' of
             PStr effort \<Rightarrow>
               if effort \<in> set SUBAGENT_REASONING_EFFORTS then Inr \<lparr>mc_model = model, mc_reasoning_effort = Some effort\<rparr>
               else Inl (ValueError ''unsupported subagent reasoning effort'')
           | _ \<Rightarrow> Inl (ValueError ''unsupported subagent reasoning effort''))
       | _ \<Rightarrow> Inl (ValueError ''subagent model must be a non-empty model identifier''))
   | _ \<Rightarrow> Inl (ValueError ''subagent model config requires model and optional reasoning_effort''))"

text \<open>The parts of a relative POSIX path; empty parts and single dots are dropped.\<close>

fun split_slash :: "string \<Rightarrow> string list" where
  "split_slash [] = [[]]"
| "split_slash (c # r) = (if c = CHR ''/'' then [] # split_slash r
     else case split_slash r of [] \<Rightarrow> [[c]] | p # ps \<Rightarrow> (c # p) # ps)"

definition path_parts :: "string \<Rightarrow> string list" where
  "path_parts text = filter (\<lambda>p. p \<noteq> [] \<and> p \<noteq> ''.'') (split_slash text)"

fun join_slash :: "string list \<Rightarrow> string" where
  "join_slash [] = []"
| "join_slash [p] = p"
| "join_slash (p # q # ps) = p @ ''/'' @ join_slash (q # ps)"

definition json_suffix :: "string \<Rightarrow> bool" where
  "json_suffix name \<longleftrightarrow> 5 < length name \<and> drop (length name - 5) name = ''.json''"

definition config_path :: "string list \<Rightarrow> bool" where
  "config_path parts \<longleftrightarrow> ''..'' \<notin> set parts \<and> 3 \<le> length parts \<and> take 2 parts = [''.loopx'', ''config''] \<and> json_suffix (last parts)"

definition normalize_subagent_execution_config :: "(pyval \<Rightarrow> string) \<Rightarrow> pyval \<Rightarrow> string res" where
  "normalize_subagent_execution_config str_of v =
     (let text = map (\<lambda>c. if c = CHR 0x5C then CHR ''/'' else c) (strip (text_or_empty str_of v)) in
      if text = [] \<or> hd text = CHR ''/'' \<or> \<not> config_path (path_parts text)
      then Inl (ValueError ''subagent execution config must be a repo-relative JSON path under .loopx/config/'')
      else Inr (join_slash (path_parts text)))"

section \<open>The compact form\<close>

record compact_harness =
  ch_enabled :: bool
  ch_profile :: "string option"
  ch_composition_mode :: "pyval option"
  ch_composition_scope_id :: "pyval option"

definition compact_explore_harness_policy ::
    "(pyval \<Rightarrow> string) \<Rightarrow> (pymap \<Rightarrow> pymap res) \<Rightarrow> pymap \<Rightarrow> compact_harness res" where
  "compact_explore_harness_policy str_of composition_policy harness =
     (let profile = strip (text_or_empty str_of (map_get harness ''profile''));
          compact = \<lparr>ch_enabled = (map_get harness ''enabled'' = PBool True),
            ch_profile = (if profile = [] then None else Some profile), ch_composition_mode = None, ch_composition_scope_id = None\<rparr> in
      if map_has harness ''composition_mode'' \<or> map_has harness ''composition_scope_id''
      then rbind (composition_policy harness) (\<lambda>policy.
           rbind (subscript policy ''mode'') (\<lambda>mode.
           rbind (subscript policy ''coverage_scope_id'') (\<lambda>scope.
           Inr (compact\<lparr>ch_composition_mode := Some mode, ch_composition_scope_id := (if scope = PNone then None else Some scope)\<rparr>))))
      else Inr compact)"

record compact_policy =
  cp_mode :: string
  cp_spawn_allowed :: bool
  cp_max_children :: int
  cp_model_config :: "model_config option"
  cp_execution_config :: "string option"
  cp_allowed_domains :: "string list"
  cp_explore_harness :: "compact_harness option"

definition optionally :: "bool \<Rightarrow> 'a res \<Rightarrow> 'a option res" where
  "optionally b r = (if b then rbind r (\<lambda>x. Inr (Some x)) else Inr None)"

definition compact_orchestration_policy ::
    "(pyval \<Rightarrow> string) \<Rightarrow> (pymap \<Rightarrow> pymap res) \<Rightarrow> pymap \<Rightarrow> compact_policy res" where
  "compact_orchestration_policy str_of composition_policy policy =
     rbind (optionally (map_has policy ''model_config'') (validate_subagent_model_config (map_get policy ''model_config''))) (\<lambda>model.
     rbind (optionally (truthy (map_get policy ''execution_config''))
              (normalize_subagent_execution_config str_of (map_get policy ''execution_config''))) (\<lambda>execution.
     let domains = (case map_get policy ''allowed_domains'' of PList xs \<Rightarrow> xs | _ \<Rightarrow> []) in
     rbind (case map_get policy ''explore_harness'' of
              PMap harness \<Rightarrow> rbind (compact_explore_harness_policy str_of composition_policy harness) (\<lambda>h. Inr (Some h))
            | _ \<Rightarrow> Inr None) (\<lambda>harness.
     Inr \<lparr>cp_mode = orchestration_mode_from_spawn_policy str_of policy, cp_spawn_allowed = policy_spawn_allowed policy,
          cp_max_children = max 0 (int_number (map_get policy ''max_children'')),
          cp_model_config = model, cp_execution_config = execution,
          cp_allowed_domains = filter (\<lambda>t. strip t \<noteq> []) (map (py_text str_of) domains),
          cp_explore_harness = harness\<rparr>)))"

definition bool_text :: "bool \<Rightarrow> string" where
  "bool_text b = (if b then ''True'' else ''False'')"

definition orchestration_policy_summary ::
    "(pyval \<Rightarrow> string) \<Rightarrow> (pymap \<Rightarrow> pymap res) \<Rightarrow> pymap \<Rightarrow> string res" where
  "orchestration_policy_summary str_of composition_policy policy =
     rbind (compact_orchestration_policy str_of composition_policy policy) (\<lambda>compact.
     Inr (''mode='' @ cp_mode compact @ '' spawn_allowed='' @ bool_text (cp_spawn_allowed compact) @
          '' max_children='' @ decimal (cp_max_children compact) @
          (case cp_explore_harness compact of
             None \<Rightarrow> []
           | Some harness \<Rightarrow> '' explore_harness='' @
               (if \<not> ch_enabled harness then ''off''
                else case ch_profile harness of None \<Rightarrow> ''on'' | Some profile \<Rightarrow> ''on('' @ profile @ '')''))))"

section \<open>Updating a policy\<close>

record execution_options =
  eo_multi_subagent_feature :: "string option"
  eo_orchestration_mode :: "string option"
  eo_spawn_allowed :: "bool option"
  eo_max_children :: "int option"
  eo_subagent_model :: "string option"
  eo_subagent_reasoning_effort :: "string option"
  eo_clear_subagent_model_config :: bool
  eo_subagent_execution_config :: "string option"
  eo_clear_subagent_execution_config :: bool
  eo_allowed_domains :: "string list option"
  eo_clear_allowed_domains :: bool

definition model_config_value :: "model_config \<Rightarrow> pyval" where
  "model_config_value c = PMap ((KStr ''model'', PStr (mc_model c)) #
     (case mc_reasoning_effort c of None \<Rightarrow> [] | Some effort \<Rightarrow> [(KStr ''reasoning_effort'', PStr effort)]))"

definition stored_mapping :: "pyval \<Rightarrow> pymap res" where
  "stored_mapping v = (case v of
     PMap m \<Rightarrow> Inr m
   | _ \<Rightarrow> if truthy v then Inl (TypeError ''cannot convert to a dictionary'') else Inr [])"

definition update_subagent_model_preference :: "execution_options \<Rightarrow> pymap \<Rightarrow> pymap res" where
  "update_subagent_model_preference options policy =
     (if eo_clear_subagent_model_config options then Inr (map_pop ''model_config'' policy)
      else if eo_subagent_model options \<noteq> None \<or> eo_subagent_reasoning_effort options \<noteq> None then
        rbind (stored_mapping (map_get policy ''model_config'')) (\<lambda>stored.
        let with_model = (case eo_subagent_model options of None \<Rightarrow> stored | Some model \<Rightarrow> map_set ''model'' (PStr model) stored);
            with_effort = (case eo_subagent_reasoning_effort options of
                None \<Rightarrow> with_model
              | Some effort \<Rightarrow> if effort \<noteq> [] then map_set ''reasoning_effort'' (PStr effort) with_model
                  else map_pop ''reasoning_effort'' with_model) in
        rbind (validate_subagent_model_config (PMap with_effort)) (\<lambda>config.
        Inr (map_set ''model_config'' (model_config_value config) policy)))
      else Inr policy)"

definition update_execution_config :: "(pyval \<Rightarrow> string) \<Rightarrow> execution_options \<Rightarrow> pymap \<Rightarrow> pymap res" where
  "update_execution_config str_of options policy =
     (if eo_clear_subagent_execution_config options then Inr (map_pop ''execution_config'' policy)
      else case eo_subagent_execution_config options of
        None \<Rightarrow> Inr policy
      | Some path \<Rightarrow> rbind (normalize_subagent_execution_config str_of (PStr path)) (\<lambda>p.
          Inr (map_set ''execution_config'' (PStr p) policy)))"

definition update_feature ::
    "(pyval \<Rightarrow> string) \<Rightarrow> (pymap \<Rightarrow> pymap res) \<Rightarrow> int \<Rightarrow> execution_options \<Rightarrow> pymap \<Rightarrow> pymap res" where
  "update_feature str_of composition_policy default_max_children options policy =
     (if eo_multi_subagent_feature options = Some ''enabled'' then
        let on = map_set ''allowed'' (PBool True) (map_set ''mode'' (PStr MULTI_SUBAGENT_ORCHESTRATION_MODE) policy) in
        if eo_max_children options = None then
          rbind (compact_orchestration_policy str_of composition_policy on) (\<lambda>compact.
          Inr (map_set ''max_children'' (PInt (if 0 < cp_max_children compact then cp_max_children compact else default_max_children)) on))
        else Inr on
      else if eo_multi_subagent_feature options = Some ''off'' then
        Inr (map_set ''allowed_domains'' (PList []) (map_set ''max_children'' (PInt 0)
              (map_set ''allowed'' (PBool False) (map_set ''mode'' (PStr DEFAULT_ORCHESTRATION_MODE) policy))))
      else Inr (case eo_orchestration_mode options of None \<Rightarrow> policy | Some mode \<Rightarrow> map_set ''mode'' (PStr mode) policy))"

definition update_grants :: "execution_options \<Rightarrow> pymap \<Rightarrow> pymap" where
  "update_grants options policy =
     (let p1 = (case eo_spawn_allowed options of None \<Rightarrow> policy | Some b \<Rightarrow> map_set ''allowed'' (PBool b) policy);
          p2 = (case eo_max_children options of None \<Rightarrow> p1 | Some n \<Rightarrow> map_set ''max_children'' (PInt n) p1) in
      if eo_clear_allowed_domains options then map_set ''allowed_domains'' (PList []) p2
      else case eo_allowed_domains options of None \<Rightarrow> p2 | Some ds \<Rightarrow> map_set ''allowed_domains'' (PList (map PStr ds)) p2)"

definition update_spawn_execution_policy ::
    "(pyval \<Rightarrow> string) \<Rightarrow> (pymap \<Rightarrow> pymap res) \<Rightarrow> int \<Rightarrow> execution_options \<Rightarrow> pymap \<Rightarrow> pymap res" where
  "update_spawn_execution_policy str_of composition_policy default_max_children options policy =
     rbind (update_subagent_model_preference options policy) (\<lambda>p1.
     rbind (update_execution_config str_of options p1) (\<lambda>p2.
     rbind (update_feature str_of composition_policy default_max_children options p2) (\<lambda>p3.
     Inr (update_grants options p3))))"

section \<open>The gate\<close>

definition GATE_STATE_DISABLED :: string where
  "GATE_STATE_DISABLED = ''disabled''"

definition GATE_STATE_ANALYSIS_ONLY :: string where
  "GATE_STATE_ANALYSIS_ONLY = ''analysis_only''"

definition GATE_STATE_COMMANDS_SUGGESTED :: string where
  "GATE_STATE_COMMANDS_SUGGESTED = ''commands_suggested''"

record harness_gate =
  hg_boundary_provided :: bool
  hg_enabled :: bool
  hg_spawn_allowed :: bool
  hg_max_children :: int
  hg_requested_width :: int
  hg_goal_pinned_profile :: "string option"
  hg_state :: string
  hg_reason :: string
  hg_effective_width :: int
  hg_width_cap_source :: string

definition cap_priority :: "string \<Rightarrow> string \<Rightarrow> nat" where
  "cap_priority label source = (if source = ''requested'' then 2 else if source = label then 1 else 0)"

text \<open>The first cap with the least width, and on equal widths the least priority.\<close>

definition least_cap :: "string \<Rightarrow> int \<times> string \<Rightarrow> (int \<times> string) list \<Rightarrow> int \<times> string" where
  "least_cap label first caps = fold (\<lambda>cap best.
     if fst cap < fst best \<or> (fst cap = fst best \<and> cap_priority label (snd cap) < cap_priority label (snd best)) then cap else best)
     caps first"

definition resolve_explore_harness_gate ::
    "(pyval \<Rightarrow> string) \<Rightarrow> (pymap \<Rightarrow> pymap res) \<Rightarrow> pyval \<Rightarrow> int \<Rightarrow> int \<Rightarrow> string \<Rightarrow> harness_gate res" where
  "resolve_explore_harness_gate str_of composition_policy orchestration requested_width max_lanes max_lanes_label =
     (let boundary = (case orchestration of PMap m \<Rightarrow> m | _ \<Rightarrow> []) in
      rbind (compact_orchestration_policy str_of composition_policy boundary) (\<lambda>compact.
      let enabled = (case cp_explore_harness compact of None \<Rightarrow> False | Some h \<Rightarrow> ch_enabled h);
          profile = (case cp_explore_harness compact of None \<Rightarrow> None | Some h \<Rightarrow> ch_profile h);
          max_children = max 0 (cp_max_children compact);
          requested = max 1 (if requested_width = 0 then 1 else requested_width);
          gate = \<lparr>hg_boundary_provided = (boundary \<noteq> []), hg_enabled = enabled, hg_spawn_allowed = cp_spawn_allowed compact,
            hg_max_children = max_children, hg_requested_width = requested, hg_goal_pinned_profile = profile,
            hg_state = GATE_STATE_DISABLED, hg_reason = ''explore_harness_opt_in_required'', hg_effective_width = 0,
            hg_width_cap_source = ''gate_disabled''\<rparr> in
      if \<not> enabled then Inr gate
      else
        let (effective_width, source) = least_cap max_lanes_label (requested, ''requested'')
              ((max 1 max_lanes, max_lanes_label) # (if 0 < max_children then [(max_children, ''max_children'')] else []));
            (state, reason) =
              (if \<not> cp_spawn_allowed compact then (GATE_STATE_ANALYSIS_ONLY, ''spawn_not_allowed_by_goal_boundary'')
               else if max_children \<le> 0 then (GATE_STATE_ANALYSIS_ONLY, ''spawn_allowed_without_child_capacity'')
               else (GATE_STATE_COMMANDS_SUGGESTED, ''goal_boundary_opt_in'')) in
        Inr (gate\<lparr>hg_state := state, hg_reason := reason, hg_effective_width := max 1 effective_width, hg_width_cap_source := source\<rparr>)))"

end
