(* ===== verification/Gate_Properties.thy ===== *)
theory Gate_Properties
  imports Orchestration
begin

text \<open>
  The gate opens only for an explicit grant and keeps every width cap; configuration paths stay below
  their directory; and switching spawning off works for one of the two keys a policy may use.
\<close>

section \<open>Configuration paths\<close>

lemma split_slash_parts: "p \<in> set (split_slash s) \<Longrightarrow> CHR ''/'' \<notin> set p"
  by (induction s arbitrary: p rule: split_slash.induct) (auto split: if_splits list.splits)

lemma split_slash_nonempty [simp]: "split_slash s \<noteq> []"
  by (cases s) (auto split: list.splits)

lemma split_slash_no_slash: "CHR ''/'' \<notin> set p \<Longrightarrow> split_slash p = [p]"
  by (induction p) auto

lemma split_slash_append: "CHR ''/'' \<notin> set p \<Longrightarrow> split_slash (p @ ''/'' @ s) = p # split_slash s"
  by (induction p) auto

lemma split_join:
  "ps \<noteq> [] \<Longrightarrow> \<forall>p \<in> set ps. CHR ''/'' \<notin> set p \<Longrightarrow> split_slash (join_slash ps) = ps"
  by (induction ps rule: join_slash.induct) (auto simp: split_slash_no_slash split_slash_append[simplified])

lemma parts_join:
  assumes "ps \<noteq> []" "\<forall>p \<in> set ps. CHR ''/'' \<notin> set p \<and> p \<noteq> [] \<and> p \<noteq> ''.''"
  shows "path_parts (join_slash ps) = ps"
proof -
  have "split_slash (join_slash ps) = ps" using assms by (intro split_join) auto
  then show ?thesis using assms(2) by (simp add: path_parts_def filter_id_conv)
qed

lemma path_parts_ok: "p \<in> set (path_parts s) \<Longrightarrow> CHR ''/'' \<notin> set p \<and> p \<noteq> [] \<and> p \<noteq> ''.''"
  by (auto simp: path_parts_def dest: split_slash_parts)

lemma join_three: "join_slash (p # q # r # ps) = p @ ''/'' @ q @ ''/'' @ join_slash (r # ps)"
  by simp

text \<open>An execution config stays in its directory.  A path the normalisation accepts is
  \<open>.loopx/config/\<close> followed by at least one more part, has no part \<open>..\<close>, \<open>.\<close> or empty, ends in a name with the suffix
  \<open>.json\<close>, and its parts are those of the given text, read with either slash.\<close>

theorem execution_config_confined:
  assumes "normalize_subagent_execution_config str_of v = Inr path"
  shows "\<exists>rest. rest \<noteq> [] \<and> path = ''.loopx/config/'' @ join_slash rest \<and> path_parts path = ''.loopx'' # ''config'' # rest \<and>
    ''..'' \<notin> set rest \<and> json_suffix (last rest) \<and>
    path_parts (map (\<lambda>c. if c = CHR 0x5C then CHR ''/'' else c) (strip (text_or_empty str_of v))) = path_parts path"
proof -
  let ?text = "map (\<lambda>c. if c = CHR 0x5C then CHR ''/'' else c) (strip (text_or_empty str_of v))"
  have path: "path = join_slash (path_parts ?text)" and ok: "config_path (path_parts ?text)"
    using assms by (auto simp: normalize_subagent_execution_config_def Let_def split: if_splits)
  from ok obtain r rest where parts: "path_parts ?text = ''.loopx'' # ''config'' # r # rest"
    by (cases "path_parts ?text" rule: list.exhaust[case_product list.exhaust])
      (auto simp: config_path_def numeral_eq_Suc Suc_le_length_iff)
  have "path_parts path = path_parts ?text"
    unfolding path
  proof (rule parts_join)
    show "path_parts ?text \<noteq> []" by (simp add: parts)
    show "\<forall>p \<in> set (path_parts ?text). CHR ''/'' \<notin> set p \<and> p \<noteq> [] \<and> p \<noteq> ''.''" using path_parts_ok by blast
  qed
  moreover have "path = ''.loopx/config/'' @ join_slash (r # rest)" unfolding path parts join_three by simp
  ultimately show ?thesis
    using ok parts by (intro exI[of _ "r # rest"]) (auto simp: config_path_def)
qed

theorem execution_config_confined_witness:
  "\<exists>path. normalize_subagent_execution_config (\<lambda>_. []) (PStr ''./.loopx//config/sub/x.json'') = Inr path \<and>
     path_parts path = [''.loopx'', ''config'', ''sub'', ''x.json'']"
proof -
  have n: "normalize_subagent_execution_config (\<lambda>_. []) (PStr ''./.loopx//config/sub/x.json'') = Inr ''.loopx/config/sub/x.json''"
    by code_simp
  from execution_config_confined[OF n] n show ?thesis by (auto simp: path_parts_def)
qed

section \<open>The gate\<close>

text \<open>An explicit opt-in: the literal value true in the section of the harness.\<close>

definition opted_in :: "pymap \<Rightarrow> bool" where
  "opted_in policy = (case map_get policy ''explore_harness'' of PMap h \<Rightarrow> map_get h ''enabled'' = PBool True | _ \<Rightarrow> False)"

text \<open>The least cap; among equal ones that of the boundary, then that of the planner.\<close>

definition width_cap :: "int \<Rightarrow> int \<Rightarrow> int \<Rightarrow> string \<Rightarrow> int \<times> string" where
  "width_cap children requested lanes label =
     (if 0 < children \<and> children \<le> min requested lanes then (children, ''max_children'')
      else if lanes \<le> requested then (lanes, label)
      else (requested, ''requested''))"

lemma least_cap_width_cap:
  assumes "label \<noteq> ''requested''" "label \<noteq> ''max_children''"
  shows "least_cap label (requested, ''requested'') ((lanes, label) # (if 0 < children then [(children, ''max_children'')] else [])) =
    width_cap children requested lanes label"
  using assms by (auto simp: least_cap_def width_cap_def cap_priority_def)

lemma compact_fields:
  assumes "compact_orchestration_policy str_of composition_policy policy = Inr c"
  shows "cp_spawn_allowed c = policy_spawn_allowed policy" "cp_max_children c = max 0 (int_number (map_get policy ''max_children''))"
    "(case cp_explore_harness c of None \<Rightarrow> False | Some h \<Rightarrow> ch_enabled h) = opted_in policy"
    "cp_mode c = orchestration_mode_from_spawn_policy str_of policy"
proof -
  from assms show "cp_spawn_allowed c = policy_spawn_allowed policy" "cp_max_children c = max 0 (int_number (map_get policy ''max_children''))"
    "cp_mode c = orchestration_mode_from_spawn_policy str_of policy"
    by (auto simp: compact_orchestration_policy_def res_iff Let_def)
  have h: "ch_enabled x = (map_get m ''enabled'' = PBool True)" if "compact_explore_harness_policy str_of composition_policy m = Inr x" for m x
    using that by (auto simp: compact_explore_harness_policy_def Let_def res_iff split: if_splits)
  show "(case cp_explore_harness c of None \<Rightarrow> False | Some h \<Rightarrow> ch_enabled h) = opted_in policy"
    using assms by (cases "map_get policy ''explore_harness''")
      (auto simp: compact_orchestration_policy_def res_iff Let_def opted_in_def h)
qed

text \<open>C32: the gate opens only for an explicit grant, and never wider than any cap.  Commands are
  suggested exactly for a boundary that opts in with the literal value true, allows spawning with a literal
  true and has a positive number of children; a boundary without opt-in is disabled with width zero;
  otherwise the width is the least of the requested width, the lanes of the planner and, when
  positive, the children, it is at least one, and the audit names the owner of the cap, the boundary
  first.\<close>

theorem gate_opens_for_grants_only:
  assumes "resolve_explore_harness_gate str_of composition_policy orchestration requested lanes label = Inr g"
    and "label \<noteq> ''requested''" "label \<noteq> ''max_children''"
    and "boundary = (case orchestration of PMap m \<Rightarrow> m | _ \<Rightarrow> [])"
    and "children = int_number (map_get boundary ''max_children'')"
  shows "(hg_state g = GATE_STATE_COMMANDS_SUGGESTED \<longleftrightarrow> opted_in boundary \<and> policy_spawn_allowed boundary \<and> 0 < children) \<and>
    (hg_state g = GATE_STATE_DISABLED \<longleftrightarrow> \<not> opted_in boundary) \<and>
    (if opted_in boundary
     then (hg_effective_width g, hg_width_cap_source g) = width_cap children (max 1 requested) (max 1 lanes) label \<and> 1 \<le> hg_effective_width g
     else hg_effective_width g = 0)"
proof -
  obtain c where c: "compact_orchestration_policy str_of composition_policy boundary = Inr c"
    using assms(1,4) by (cases "compact_orchestration_policy str_of composition_policy boundary")
      (auto simp: resolve_explore_harness_gate_def Let_def)
  have states: "GATE_STATE_COMMANDS_SUGGESTED \<noteq> GATE_STATE_DISABLED" "GATE_STATE_ANALYSIS_ONLY \<noteq> GATE_STATE_DISABLED"
    "GATE_STATE_COMMANDS_SUGGESTED \<noteq> GATE_STATE_ANALYSIS_ONLY" by code_simp+
  have req: "max 1 (if requested = 0 then 1 else requested) = max 1 requested" by simp
  have pos: "width_cap (max 0 children) (max 1 requested) (max 1 lanes) label = width_cap children (max 1 requested) (max 1 lanes) label"
    "1 \<le> fst (width_cap children (max 1 requested) (max 1 lanes) label)"
    by (auto simp: width_cap_def)
  show ?thesis
  proof (cases "opted_in boundary")
    case False
    then have "hg_state g = GATE_STATE_DISABLED" "hg_effective_width g = 0"
      using assms(1) compact_fields(3)[OF c] by (auto simp: resolve_explore_harness_gate_def Let_def c simp flip: assms(4))
    with False states show ?thesis by simp
  next
    case True
    let ?w = "width_cap children (max 1 requested) (max 1 lanes) label"
    have "hg_effective_width g = max 1 (fst ?w) \<and> hg_width_cap_source g = snd ?w \<and>
        hg_state g = (if \<not> policy_spawn_allowed boundary \<or> children \<le> 0 then GATE_STATE_ANALYSIS_ONLY else GATE_STATE_COMMANDS_SUGGESTED)"
    proof -
      have n: "max 0 (cp_max_children c) = max 0 children" using compact_fields(2)[OF c] assms(5) by simp
      have "least_cap label (max 1 requested, ''requested'')
          ((max 1 lanes, label) # (if 0 < max 0 children then [(max 0 children, ''max_children'')] else [])) = ?w"
        unfolding least_cap_width_cap[OF assms(2,3)] by (rule pos(1))
      moreover have "(case cp_explore_harness c of None \<Rightarrow> False | Some h \<Rightarrow> ch_enabled h) = True" using compact_fields(3)[OF c] True by simp
      ultimately show ?thesis
        using assms(1) unfolding resolve_explore_harness_gate_def assms(4)[symmetric] Let_def c rbind_simps req n case_prod_beta
          compact_fields(1)[OF c] by (cases "policy_spawn_allowed boundary"; cases "children \<le> 0") (simp_all, auto)
    qed
    with True states pos(2) show ?thesis by (auto simp: prod_eq_iff)
  qed
qed

definition example_boundary :: pymap where
  "example_boundary = [(KStr ''spawn_allowed'', PBool True), (KStr ''max_children'', PInt 3),
     (KStr ''explore_harness'', PMap [(KStr ''enabled'', PBool True)])]"

theorem gate_opens_for_grants_only_witness:
  "\<exists>g. resolve_explore_harness_gate (\<lambda>_. []) (\<lambda>_. Inr []) (PMap example_boundary) 8 3 ''max_worker_lanes'' = Inr g \<and>
     hg_state g = GATE_STATE_COMMANDS_SUGGESTED \<and> hg_effective_width g = 3 \<and> hg_width_cap_source g = ''max_children''"
proof -
  let ?g = "resolve_explore_harness_gate (\<lambda>_. []) (\<lambda>_. Inr []) (PMap example_boundary) 8 3 ''max_worker_lanes''"
  have "case ?g of Inr _ \<Rightarrow> True | Inl _ \<Rightarrow> False" by code_simp
  then obtain g where g: "?g = Inr g" by (auto split: sum.splits)
  have "opted_in example_boundary \<and> policy_spawn_allowed example_boundary \<and> int_number (map_get example_boundary ''max_children'') = 3 \<and>
      width_cap 3 (max 1 8) (max 1 3) ''max_worker_lanes'' = (3, ''max_children'')" by code_simp
  with gate_opens_for_grants_only[OF g _ _ refl refl] g show ?thesis by simp
qed

section \<open>Switching spawning off\<close>

lemma map_get_set: "map_get (map_set k v m) k' = (if k' = k then v else map_get m k')"
  by (simp add: map_get_def map_set_def update_conv')

lemma map_get_pop: "map_get (map_pop k m) k' = (if k' = k then PNone else map_get m k')"
  by (induction m) (auto simp: map_get_def map_pop_def)

text \<open>The options touch the two grants only through \<open>allowed\<close> and \<open>max_children\<close>.\<close>

lemma update_keeps_spawn_allowed_key:
  assumes "update_spawn_execution_policy str_of composition_policy d options policy = Inr policy'"
  shows "map_get policy' ''spawn_allowed'' = map_get policy ''spawn_allowed''"
proof -
  from assms obtain p1 p2 p3 where p: "update_subagent_model_preference options policy = Inr p1"
    "update_execution_config str_of options p1 = Inr p2" "update_feature str_of composition_policy d options p2 = Inr p3"
    "policy' = update_grants options p3"
    by (auto simp: update_spawn_execution_policy_def res_iff)
  have "map_get p1 ''spawn_allowed'' = map_get policy ''spawn_allowed''"
    using p(1) by (auto simp: update_subagent_model_preference_def res_iff Let_def map_get_set map_get_pop split: if_splits)
  moreover have "map_get p2 ''spawn_allowed'' = map_get p1 ''spawn_allowed''"
    using p(2) by (auto simp: update_execution_config_def res_iff map_get_set map_get_pop split: if_splits option.splits)
  moreover have "map_get p3 ''spawn_allowed'' = map_get p2 ''spawn_allowed''"
    using p(3) by (auto simp: update_feature_def res_iff Let_def map_get_set split: if_splits option.splits)
  moreover have "map_get policy' ''spawn_allowed'' = map_get p3 ''spawn_allowed''"
    by (auto simp: p(4) update_grants_def Let_def map_get_set split: option.splits)
  ultimately show ?thesis by simp
qed

text \<open>Denying spawning is not effective for every policy.  After an update with the option that denies
  spawning, a policy allows it exactly when it did so under the key \<open>spawn_allowed\<close>: the update writes
  only \<open>allowed\<close>, and the compact form takes either.\<close>

theorem spawn_denial_keeps_other_key:
  assumes "update_spawn_execution_policy str_of composition_policy d options policy = Inr policy'"
    and "eo_spawn_allowed options = Some False"
    and "compact_orchestration_policy str_of composition_policy policy' = Inr c"
  shows "cp_spawn_allowed c \<longleftrightarrow> map_get policy ''spawn_allowed'' = PBool True"
proof -
  have "map_get policy' ''allowed'' = PBool False"
    using assms(1,2) by (auto simp: update_spawn_execution_policy_def res_iff update_grants_def Let_def map_get_set split: option.splits)
  then show ?thesis
    using update_keeps_spawn_allowed_key[OF assms(1)] compact_fields(1)[OF assms(3)] by (simp add: policy_spawn_allowed_def)
qed

definition deny_spawning :: execution_options where
  "deny_spawning = \<lparr>eo_multi_subagent_feature = None, eo_orchestration_mode = None, eo_spawn_allowed = Some False,
     eo_max_children = None, eo_subagent_model = None, eo_subagent_reasoning_effort = None,
     eo_clear_subagent_model_config = False, eo_subagent_execution_config = None,
     eo_clear_subagent_execution_config = False, eo_allowed_domains = None, eo_clear_allowed_domains = False\<rparr>"

theorem spawn_denial_keeps_other_key_witness:
  "\<exists>policy' c. update_spawn_execution_policy (\<lambda>_. []) (\<lambda>_. Inr []) 3 deny_spawning example_boundary = Inr policy' \<and>
     compact_orchestration_policy (\<lambda>_. []) (\<lambda>_. Inr []) policy' = Inr c \<and> cp_spawn_allowed c"
proof -
  let ?u = "update_spawn_execution_policy (\<lambda>_. []) (\<lambda>_. Inr []) 3 deny_spawning example_boundary"
  have "case ?u of Inr p \<Rightarrow> (case compact_orchestration_policy (\<lambda>_. []) (\<lambda>_. Inr []) p of Inr _ \<Rightarrow> True | Inl _ \<Rightarrow> False) | Inl _ \<Rightarrow> False"
    by code_simp
  then obtain policy' c where u: "?u = Inr policy'" and c: "compact_orchestration_policy (\<lambda>_. []) (\<lambda>_. Inr []) policy' = Inr c"
    by (auto split: sum.splits)
  have "map_get example_boundary ''spawn_allowed'' = PBool True" by code_simp
  with spawn_denial_keeps_other_key[OF u _ c] u c show ?thesis by (auto simp: deny_spawning_def)
qed

end
