(* ===== verification/Result_Log.thy ===== *)
theory Result_Log
  imports Orchestration Harness_Queue
begin

text \<open>
  \<open>src/loopx/capabilities/explore/result_log.py\<close>: public-safe texts, references and identifiers, the builders of
  node, edge and finding events, the validation that rebuilds an event, and appending a batch to
  the log.

  An event is a dictionary.  Parameters (\<open>log_services\<close>): the clock, SHA-256 of a text and of the
  canonical JSON of an event, which sorts the keys and so depends on the dictionary as a map only,
  and the codecs of the TypeScript runtime for observations, measurements and yardsticks.  Paths
  are POSIX paths.  The log is its rows; a row is blank, an object or other JSON, or no JSON, and the file
  ends in a line break, except where the code looks at the tail itself.
\<close>

section \<open>Texts\<close>

definition TITLE_LIMIT :: nat where
  "TITLE_LIMIT = 200"

definition SUMMARY_LIMIT :: nat where
  "SUMMARY_LIMIT = 2000"

definition PERSISTED_TEXT_LIMIT :: nat where
  "PERSISTED_TEXT_LIMIT = 2002"

definition REF_LIMIT :: nat where
  "REF_LIMIT = 240"

definition MAX_EVIDENCE_REFS :: nat where
  "MAX_EVIDENCE_REFS = 16"

definition MAX_TAGS :: nat where
  "MAX_TAGS = 8"

definition FORBIDDEN_TEXT_MARKERS :: "string list" where
  "FORBIDDEN_TEXT_MARKERS =
     [''/Users/'', ''/root/'', ''/home/'', ''/private/'',
      backslash # ''Users'' @ [backslash], backslash # ''root'' @ [backslash], backslash # ''home'' @ [backslash],
      backslash # ''private'' @ [backslash], ''.local/private'', ''.local'' @ [backslash] @ ''private'',
      ''Authorization:'', ''api_key'', ''apikey'', ''password'', ''secret='', ''token='']"

fun contains :: "string \<Rightarrow> string \<Rightarrow> bool" where
  "contains needle [] = (needle = [])"
| "contains needle (c # s) = (starts_with needle (c # s) \<or> contains needle s)"

definition is_slash :: "char \<Rightarrow> bool" where
  "is_slash c \<longleftrightarrow> c = CHR ''/'' \<or> c = backslash"

text \<open>\<open>[A-Za-z]:[\\/](?![\\/])\<close> at the front, and anywhere after a character that is not in \<open>[A-Za-z0-9_.-]\<close>\<close>

definition drive_path :: "string \<Rightarrow> bool" where
  "drive_path s = (case s of
     a # b # c # r \<Rightarrow> is_ascii_letter a \<and> b = CHR '':'' \<and> is_slash c \<and> (case r of [] \<Rightarrow> True | d # _ \<Rightarrow> \<not> is_slash d)
   | _ \<Rightarrow> False)"

fun drive_search :: "bool \<Rightarrow> string \<Rightarrow> bool" where
  "drive_search blocked [] = False"
| "drive_search blocked (c # s) = ((\<not> blocked \<and> drive_path (c # s)) \<or> drive_search (is_alnum c \<or> c \<in> set ''_.-'') s)"

definition rstrip :: "string \<Rightarrow> string" where
  "rstrip s = rev (dropWhile is_space (rev s))"

definition private_text :: "string \<Rightarrow> bool" where
  "private_text text \<longleftrightarrow> contains ''file://'' (lower text) \<or> drive_search False text \<or>
     (\<exists>marker \<in> set FORBIDDEN_TEXT_MARKERS. contains (lower marker) (lower text))"

definition compact_text :: "(pyval \<Rightarrow> string) \<Rightarrow> nat \<Rightarrow> pyval \<Rightarrow> string res" where
  "compact_text str_of limit v =
     (let text = squeeze (text_or_empty str_of v) in
      if private_text text then Inl (ValueError ''contains private or credential-like material'')
      else if length text \<le> limit then Inr text
      else Inr (rstrip (take (limit - 1) text) @ ''...''))"

definition persisted_text :: "(pyval \<Rightarrow> string) \<Rightarrow> pyval \<Rightarrow> string res" where
  "persisted_text str_of v =
     rbind (compact_text str_of PERSISTED_TEXT_LIMIT v) (\<lambda>text.
     if PERSISTED_TEXT_LIMIT < length text \<or> text \<noteq> text_or_empty str_of v
     then Inl (ValueError ''must be canonical text within 2002 characters'')
     else Inr text)"

definition validate_explore_public_ref :: "(pyval \<Rightarrow> string) \<Rightarrow> pyval \<Rightarrow> string res" where
  "validate_explore_public_ref str_of v =
     rbind (compact_text str_of REF_LIMIT v) (\<lambda>text.
     if text = [] then Inl (ValueError ''is empty'')
     else if hd text = CHR ''~'' \<or> is_slash (hd text) \<or> starts_with ''file://'' (lower text) \<or> drive_path text \<or> ''..'' \<in> set (path_parts text)
     then Inl (ValueError ''must be a public relative ref or opaque id, not a local path'')
     else Inr text)"

definition safe_public_refs :: "(pyval \<Rightarrow> string) \<Rightarrow> pyval \<Rightarrow> string list res" where
  "safe_public_refs str_of v =
     rbind (iter_or_empty v) (\<lambda>values.
     rbind (rmap (validate_explore_public_ref str_of) values) (\<lambda>refs. Inr (take MAX_EVIDENCE_REFS refs)))"

definition safe_tags :: "(pyval \<Rightarrow> string) \<Rightarrow> pyval \<Rightarrow> string list res" where
  "safe_tags str_of v =
     rbind (iter_or_empty v) (\<lambda>values.
     rbind (rmap (compact_text str_of 48) values) (\<lambda>tags. Inr (take MAX_TAGS (filter (\<lambda>t. t \<noteq> []) tags))))"

text \<open>\<open>^[A-Za-z][A-Za-z0-9_.:-]{0,95}$\<close>, on a stripped text\<close>

definition RESULT_ID_PATTERN :: "string \<Rightarrow> bool" where
  "RESULT_ID_PATTERN s = (case s of
     [] \<Rightarrow> False
   | c # r \<Rightarrow> is_ascii_letter c \<and> length r \<le> 95 \<and> list_all (\<lambda>d. is_alnum d \<or> d \<in> set ''_.:-'') r)"

definition safe_result_id :: "(pyval \<Rightarrow> string) \<Rightarrow> pyval \<Rightarrow> string res" where
  "safe_result_id str_of v =
     (let text = strip (text_or_empty str_of v) in
      if RESULT_ID_PATTERN text then Inr text else Inl (ValueError ''must match the pattern of a result id''))"

definition path_name :: "string \<Rightarrow> string" where
  "path_name s = (case path_parts s of [] \<Rightarrow> [] | p # ps \<Rightarrow> last (p # ps))"

definition safe_goal_id :: "(pyval \<Rightarrow> string) \<Rightarrow> pyval \<Rightarrow> string res" where
  "safe_goal_id str_of v =
     (let text = strip (text_or_empty str_of v) in
      if text = [] then Inl (ValueError ''goal_id is required'')
      else if text \<noteq> path_name text \<or> text = ''.'' \<or> text = ''..'' then Inl (ValueError ''goal_id must be a single path segment'')
      else Inr text)"

definition safe_confidence :: "pyval \<Rightarrow> pyfloat option res" where
  "safe_confidence v =
     (if v = PNone then Inr None
      else case to_float v of
        Inl _ \<Rightarrow> Inl (ValueError ''confidence must be a number'')
      | Inr number \<Rightarrow>
          if fle (Fin 0) number \<and> fle number (Fin 1) then Inr (Some (round_decimals number 3))
          else Inl (ValueError ''confidence must be between 0 and 1''))"

definition choice :: "(pyval \<Rightarrow> string) \<Rightarrow> string list \<Rightarrow> string \<Rightarrow> pyval \<Rightarrow> string res" where
  "choice str_of choices fallback v =
     (let text = lower (strip (text_or str_of v fallback)) in
      if text \<in> set choices then Inr text else Inl (ValueError ''unsupported choice''))"

section \<open>Building events\<close>

definition EXPLORE_RESULT_EVENT_SCHEMA_VERSION :: string where
  "EXPLORE_RESULT_EVENT_SCHEMA_VERSION = ''loopx_explore_result_event_v0''"

definition EVENT_KIND_NODE :: string where
  "EVENT_KIND_NODE = ''node''"

definition EVENT_KIND_EDGE :: string where
  "EVENT_KIND_EDGE = ''edge''"

definition EVENT_KIND_FINDING :: string where
  "EVENT_KIND_FINDING = ''finding''"

definition EXPLORE_EVENT_KINDS :: "string list" where
  "EXPLORE_EVENT_KINDS = [EVENT_KIND_NODE, EVENT_KIND_EDGE, EVENT_KIND_FINDING]"

definition NODE_KINDS :: "string list" where
  "NODE_KINDS = [''question'', ''area'', ''hypothesis'', ''experiment'', ''artifact'']"

definition NODE_STATUS_OPEN :: string where
  "NODE_STATUS_OPEN = ''open''"

definition NODE_STATUS_BLOCKED :: string where
  "NODE_STATUS_BLOCKED = ''blocked''"

definition NODE_STATUSES :: "string list" where
  "NODE_STATUSES = [NODE_STATUS_OPEN, ''exploring'', NODE_STATUS_BLOCKED, ''resolved'', ''dead_end'']"

definition EDGE_TYPES :: "string list" where
  "EDGE_TYPES = [''subtopic_of'', ''depends_on'', ''answers'', ''supports'', ''refutes'', ''leads_to'']"

definition FINDING_STATUSES :: "string list" where
  "FINDING_STATUSES = [''tentative'', ''confirmed'', ''refuted'']"

definition PUBLIC_BOUNDARY :: pyval where
  "PUBLIC_BOUNDARY = PMap (map (\<lambda>k. (KStr k, PBool False))
     [''raw_task_text_recorded'', ''raw_logs_recorded'', ''raw_trajectory_recorded'', ''raw_session_transcript_recorded'',
      ''credential_values_recorded'', ''absolute_paths_recorded''])"

record log_services =
  sv_now :: string
  sv_digest :: "string \<Rightarrow> string"
  sv_event_digest :: "(string \<rightharpoonup> pyval) \<Rightarrow> string"
  sv_research :: "pyval \<Rightarrow> pyval dict res"
  sv_execution :: "pyval \<Rightarrow> pyval dict res"
  sv_measurements :: "pyval \<Rightarrow> pyval option \<Rightarrow> pyval dict list res"
  sv_yardstick :: "pyval \<Rightarrow> string \<Rightarrow> string \<Rightarrow> string list \<Rightarrow> pyval res"

definition event_id_of :: "log_services \<Rightarrow> pyval dict \<Rightarrow> string" where
  "event_id_of S payload = sv_event_digest S (dict_get (dict_pop ''event_id'' payload))"

fun join_bar :: "string list \<Rightarrow> string" where
  "join_bar [] = []"
| "join_bar [p] = p"
| "join_bar (p # q # ps) = p @ ''|'' @ join_bar (q # ps)"

definition derived_result_id :: "log_services \<Rightarrow> string \<Rightarrow> string list \<Rightarrow> string" where
  "derived_result_id S prefix parts = prefix @ ''_'' @ sv_digest S (join_bar parts)"

text \<open>An entry that is present only sometimes.\<close>

definition entry_if :: "bool \<Rightarrow> string \<Rightarrow> pyval \<Rightarrow> pyval dict" where
  "entry_if b k v = (if b then [(k, v)] else [])"

definition texts_value :: "string list \<Rightarrow> pyval" where
  "texts_value ts = PList (map PStr ts)"

record base_args =
  ba_summary :: pyval
  ba_agent_id :: pyval
  ba_run_id :: pyval
  ba_evidence_refs :: pyval
  ba_tags :: pyval
  ba_supersedes :: pyval
  ba_recorded_at :: pyval

definition base_event :: "log_services \<Rightarrow> (pyval \<Rightarrow> string) \<Rightarrow> string \<Rightarrow> string \<Rightarrow> string \<Rightarrow> base_args \<Rightarrow> pyval dict res" where
  "base_event S str_of goal_id kind title a =
     rbind (compact_text str_of SUMMARY_LIMIT (ba_summary a)) (\<lambda>summary.
     rbind (optionally (truthy (ba_agent_id a)) (compact_text str_of 80 (ba_agent_id a))) (\<lambda>agent_id.
     rbind (optionally (truthy (ba_run_id a)) (validate_explore_public_ref str_of (ba_run_id a))) (\<lambda>run_id.
     rbind (safe_public_refs str_of (ba_evidence_refs a)) (\<lambda>refs.
     rbind (safe_tags str_of (ba_tags a)) (\<lambda>tags.
     rbind (optionally (truthy (ba_supersedes a)) (safe_result_id str_of (ba_supersedes a))) (\<lambda>supersedes.
     Inr ([(''schema_version'', PStr EXPLORE_RESULT_EVENT_SCHEMA_VERSION), (''goal_id'', PStr goal_id), (''event_kind'', PStr kind),
           (''recorded_at'', PStr (text_or str_of (ba_recorded_at a) (sv_now S))), (''title'', PStr title), (''boundary'', PUBLIC_BOUNDARY)] @
          entry_if (summary \<noteq> []) ''summary'' (PStr summary) @
          (case agent_id of None \<Rightarrow> [] | Some t \<Rightarrow> [(''agent_id'', PStr t)]) @
          (case run_id of None \<Rightarrow> [] | Some t \<Rightarrow> [(''run_id'', PStr t)]) @
          entry_if (refs \<noteq> []) ''evidence_refs'' (texts_value refs) @
          entry_if (tags \<noteq> []) ''tags'' (texts_value tags) @
          (case supersedes of None \<Rightarrow> [] | Some t \<Rightarrow> [(''supersedes'', PStr t)]))))))))"

definition with_event_id :: "log_services \<Rightarrow> pyval dict \<Rightarrow> pyval dict" where
  "with_event_id S event = dict_set ''event_id'' (PStr (event_id_of S event)) event"

definition id_or_derived :: "log_services \<Rightarrow> (pyval \<Rightarrow> string) \<Rightarrow> pyval \<Rightarrow> string \<Rightarrow> string \<Rightarrow> string \<Rightarrow> string res" where
  "id_or_derived S str_of v prefix goal_id title =
     (if truthy v then safe_result_id str_of v else Inr (derived_result_id S prefix [goal_id, lower title]))"

record node_args = base_args +
  na_title :: pyval
  na_node_id :: pyval
  na_node_kind :: pyval
  na_status :: pyval
  na_blocked_reason :: pyval
  na_parent_id :: pyval
  na_research_observation :: pyval

definition build_explore_node_event :: "log_services \<Rightarrow> (pyval \<Rightarrow> string) \<Rightarrow> pyval \<Rightarrow> node_args \<Rightarrow> pyval dict res" where
  "build_explore_node_event S str_of goal a =
     rbind (safe_goal_id str_of goal) (\<lambda>goal_id.
     rbind (compact_text str_of TITLE_LIMIT (na_title a)) (\<lambda>title.
     if title = [] then Inl (ValueError ''title is required'') else
     rbind (choice str_of NODE_STATUSES NODE_STATUS_OPEN (na_status a)) (\<lambda>status.
     rbind (compact_text str_of SUMMARY_LIMIT (na_blocked_reason a)) (\<lambda>blocked_reason.
     if status = NODE_STATUS_BLOCKED \<and> blocked_reason = [] then Inl (ValueError ''blocked nodes must state a blocked_reason'') else
     rbind (base_event S str_of goal_id EVENT_KIND_NODE title (base_args.truncate a)) (\<lambda>base.
     rbind (id_or_derived S str_of (na_node_id a) ''node'' goal_id title) (\<lambda>result_id.
     rbind (choice str_of NODE_KINDS ''area'' (na_node_kind a)) (\<lambda>node_kind.
     rbind (optionally (truthy (na_parent_id a)) (safe_result_id str_of (na_parent_id a))) (\<lambda>parent_id.
     rbind (optionally (na_research_observation a \<noteq> PNone)
              (rbind (sv_research S (na_research_observation a)) (\<lambda>observation.
                case dict_get observation ''explore_node_id'' of
                  None \<Rightarrow> Inl (KeyError ''explore_node_id'')
                | Some v \<Rightarrow> if v = PStr result_id then Inr observation
                    else Inl (ValueError ''research observation belongs to a different node'')))) (\<lambda>observation.
     Inr (with_event_id S (base @ [(''result_id'', PStr result_id), (''node_kind'', PStr node_kind), (''status'', PStr status)] @
       entry_if (blocked_reason \<noteq> []) ''blocked_reason'' (PStr blocked_reason) @
       (case parent_id of None \<Rightarrow> [] | Some t \<Rightarrow> [(''parent_id'', PStr t)]) @
       (case observation of None \<Rightarrow> [] | Some m \<Rightarrow> [(''research_observation'', map_value m)]))))))))))))"

definition build_explore_edge_event ::
    "log_services \<Rightarrow> (pyval \<Rightarrow> string) \<Rightarrow> pyval \<Rightarrow> pyval \<Rightarrow> pyval \<Rightarrow> pyval \<Rightarrow> pyval \<Rightarrow> base_args \<Rightarrow> pyval dict res" where
  "build_explore_edge_event S str_of goal from_node to_node edge_type confidence a =
     rbind (safe_goal_id str_of goal) (\<lambda>goal_id.
     rbind (safe_result_id str_of from_node) (\<lambda>from_id.
     rbind (safe_result_id str_of to_node) (\<lambda>to_id.
     if from_id = to_id then Inl (ValueError ''edge must connect two different nodes'') else
     rbind (choice str_of EDGE_TYPES [] edge_type) (\<lambda>resolved_type.
     rbind (base_event S str_of goal_id EVENT_KIND_EDGE (from_id @ '' -'' @ resolved_type @ ''-> '' @ to_id)
              (a\<lparr>ba_evidence_refs := PNone, ba_tags := PNone, ba_supersedes := PNone\<rparr>)) (\<lambda>base.
     rbind (safe_confidence confidence) (\<lambda>confidence.
     Inr (with_event_id S (base @
       [(''result_id'', PStr (derived_result_id S ''edge'' [goal_id, from_id, resolved_type, to_id])),
        (''from_node'', PStr from_id), (''to_node'', PStr to_id), (''edge_type'', PStr resolved_type)] @
       (case confidence of None \<Rightarrow> [] | Some x \<Rightarrow> [(''confidence'', PFloat x)])))))))))"

record finding_args = base_args +
  fa_title :: pyval
  fa_finding_id :: pyval
  fa_node_id :: pyval
  fa_status :: pyval
  fa_confidence :: pyval
  fa_execution_observation :: pyval
  fa_measurements :: pyval
  fa_work_yardstick :: pyval

definition event_refs :: "pyval dict \<Rightarrow> pyval list" where
  "event_refs event = (case get event ''evidence_refs'' of PList xs \<Rightarrow> xs | _ \<Rightarrow> [])"

definition refs_of_texts :: "pyval list \<Rightarrow> string list" where
  "refs_of_texts vs = List.map_filter (\<lambda>v. case v of PStr t \<Rightarrow> Some t | _ \<Rightarrow> None) vs"

definition observed_execution :: "log_services \<Rightarrow> pyval \<Rightarrow> pyval dict \<Rightarrow> pyval dict res" where
  "observed_execution S v event =
     rbind (sv_execution S v) (\<lambda>observed. case dict_get observed ''evidence_refs'' of
       None \<Rightarrow> Inl (KeyError ''evidence_refs'')
     | Some refs \<Rightarrow> rbind (py_iter refs) (\<lambda>rs.
         if \<exists>ref \<in> set rs. ref \<notin> set (event_refs event)
         then Inl (ValueError ''execution evidence must be included in the finding's evidence_refs'')
         else Inr observed))"

definition measured_values ::
    "log_services \<Rightarrow> bool \<Rightarrow> pyval \<Rightarrow> pyval \<Rightarrow> pyval dict \<Rightarrow> pyval dict list res" where
  "measured_values S check_execution node_id v event =
     (if \<not> truthy node_id then Inl (ValueError ''measurements require an explicit node'') else
      rbind (sv_measurements S v (if check_execution then Some (get event ''execution_observation'') else None)) (\<lambda>measured.
      rbind (rmap (\<lambda>item. case dict_get item ''evidence_ref'' of
          None \<Rightarrow> Inl (KeyError ''evidence_ref'')
        | Some ref \<Rightarrow> check (ref \<in> set (event_refs event))
            (ValueError ''measurement evidence must be included in the finding's evidence_refs'')) measured) (\<lambda>_.
      Inr measured)))"

definition build_explore_finding_event ::
    "log_services \<Rightarrow> (pyval \<Rightarrow> string) \<Rightarrow> bool \<Rightarrow> pyval \<Rightarrow> finding_args \<Rightarrow> pyval dict res" where
  "build_explore_finding_event S str_of check_execution goal a =
     rbind (safe_goal_id str_of goal) (\<lambda>goal_id.
     rbind (compact_text str_of TITLE_LIMIT (fa_title a)) (\<lambda>title.
     if title = [] then Inl (ValueError ''title is required'') else
     rbind (base_event S str_of goal_id EVENT_KIND_FINDING title (base_args.truncate a)) (\<lambda>base.
     rbind (id_or_derived S str_of (fa_finding_id a) ''finding'' goal_id title) (\<lambda>result_id.
     rbind (optionally (truthy (fa_node_id a)) (safe_result_id str_of (fa_node_id a))) (\<lambda>node_id.
     rbind (choice str_of FINDING_STATUSES ''tentative'' (fa_status a)) (\<lambda>status.
     rbind (safe_confidence (fa_confidence a)) (\<lambda>confidence.
     let event = base @ [(''result_id'', PStr result_id)] @ (case node_id of None \<Rightarrow> [] | Some t \<Rightarrow> [(''node_id'', PStr t)]) @
           [(''status'', PStr status)] @ (case confidence of None \<Rightarrow> [] | Some x \<Rightarrow> [(''confidence'', PFloat x)]) in
     rbind (optionally (fa_execution_observation a \<noteq> PNone) (observed_execution S (fa_execution_observation a) event)) (\<lambda>observed.
     let event = event @ (case observed of None \<Rightarrow> [] | Some m \<Rightarrow> [(''execution_observation'', map_value m)]) in
     rbind (optionally (fa_measurements a \<noteq> PNone) (measured_values S check_execution (fa_node_id a) (fa_measurements a) event)) (\<lambda>measured.
     let event = event @ (case measured of None \<Rightarrow> [] | Some ms \<Rightarrow> [(''measurements'', PList (map map_value ms))]) in
     rbind (optionally (fa_work_yardstick a \<noteq> PNone)
              (sv_yardstick S (fa_work_yardstick a) goal_id (text_or_empty str_of (ba_agent_id a)) (refs_of_texts (event_refs event)))) (\<lambda>yardstick.
     Inr (with_event_id S (event @ (case yardstick of None \<Rightarrow> [] | Some v \<Rightarrow> [(''work_yardstick'', v)])))))))))))))"

section \<open>Validating events\<close>

text \<open>\<open>==\<close> on dictionaries\<close>

definition dict_eq :: "pyval dict \<Rightarrow> pyval dict \<Rightarrow> bool" where
  "dict_eq d e \<longleftrightarrow> set (map fst d) = set (map fst e) \<and> list_all (\<lambda>k. py_eq (get d k) (get e k)) (map fst d)"

definition common_args :: "pyval dict \<Rightarrow> base_args" where
  "common_args payload = \<lparr>ba_summary = PNone, ba_agent_id = get payload ''agent_id'', ba_run_id = get payload ''run_id'',
     ba_evidence_refs = get payload ''evidence_refs'', ba_tags = get payload ''tags'', ba_supersedes = get payload ''supersedes'',
     ba_recorded_at = get payload ''recorded_at''\<rparr>"

definition rebuild_node :: "log_services \<Rightarrow> (pyval \<Rightarrow> string) \<Rightarrow> string \<Rightarrow> pyval dict \<Rightarrow> pyval dict res" where
  "rebuild_node S str_of goal_id payload =
     rbind (persisted_text str_of (get payload ''blocked_reason'')) (\<lambda>blocked_reason.
     rbind (build_explore_node_event S str_of (PStr goal_id) (base_args.extend (common_args payload)
        (node_args.fields (get payload ''title'') (get payload ''result_id'') (get payload ''node_kind'') (get payload ''status'')
           (PStr (take SUMMARY_LIMIT blocked_reason)) (get payload ''parent_id'') (get payload ''research_observation'')))) (\<lambda>rebuilt.
     Inr (if blocked_reason \<noteq> [] then dict_set ''blocked_reason'' (PStr blocked_reason) rebuilt else rebuilt)))"

definition rebuild_event :: "log_services \<Rightarrow> (pyval \<Rightarrow> string) \<Rightarrow> string \<Rightarrow> string \<Rightarrow> pyval dict \<Rightarrow> pyval dict res" where
  "rebuild_event S str_of kind goal_id payload =
     (if kind = EVENT_KIND_NODE then rebuild_node S str_of goal_id payload
      else if kind = EVENT_KIND_EDGE then
        build_explore_edge_event S str_of (PStr goal_id) (get payload ''from_node'') (get payload ''to_node'') (get payload ''edge_type'')
          (get payload ''confidence'') (common_args payload)
      else build_explore_finding_event S str_of False (PStr goal_id) (base_args.extend (common_args payload)
        (finding_args.fields (get payload ''title'') (get payload ''result_id'') (get payload ''node_id'') (get payload ''status'')
           (get payload ''confidence'') (get payload ''execution_observation'') (get payload ''measurements'') (get payload ''work_yardstick''))))"

definition validate_explore_result_event ::
    "log_services \<Rightarrow> (pyval \<Rightarrow> string) \<Rightarrow> string option \<Rightarrow> pyval dict \<Rightarrow> pyval dict res" where
  "validate_explore_result_event S str_of expected_goal_id payload =
     rbind (check (get payload ''schema_version'' = PStr EXPLORE_RESULT_EVENT_SCHEMA_VERSION)
       (ValueError ''explore result event must use the schema'')) (\<lambda>_.
     let kind = text_or_empty str_of (get payload ''event_kind'') in
     rbind (check (kind \<in> set EXPLORE_EVENT_KINDS) (ValueError ''unsupported explore result event kind'')) (\<lambda>_.
     rbind (safe_goal_id str_of (get payload ''goal_id'')) (\<lambda>goal_id.
     rbind (case expected_goal_id of
              None \<Rightarrow> Inr ()
            | Some g \<Rightarrow> rbind (safe_goal_id str_of (PStr g)) (\<lambda>g'.
                check (goal_id = g') (ValueError ''explore result event belongs to a different goal''))) (\<lambda>_.
     rbind (check (py_eq (get payload ''boundary'') PUBLIC_BOUNDARY)
       (ValueError ''explore result event must declare the public-safe boundary'')) (\<lambda>_.
     rbind (persisted_text str_of (get payload ''summary'')) (\<lambda>summary.
     rbind (rebuild_event S str_of kind goal_id payload) (\<lambda>rebuilt.
     let rebuilt = with_event_id S (if summary \<noteq> [] then dict_set ''summary'' (PStr summary) rebuilt else rebuilt) in
     if dict_eq payload rebuilt then Inr rebuilt
     else Inl (ValueError ''explore result event is not canonical or contains unknown fields''))))))))"

definition validate_explore_result_event_attribution :: "log_services \<Rightarrow> pyval dict \<Rightarrow> unit res" where
  "validate_explore_result_event_attribution S event = (case dict_get event ''measurements'' of
     None \<Rightarrow> Inr ()
   | Some v \<Rightarrow> rbind (sv_measurements S v (Some (get event ''execution_observation''))) (\<lambda>_. Inr ()))"

section \<open>Transport to another goal\<close>

text \<open>\<open>event[key]\<close> of a validated event, concatenated with texts\<close>

definition event_text :: "pyval dict \<Rightarrow> string \<Rightarrow> string res" where
  "event_text event key = (case dict_get event key of
     None \<Rightarrow> Inl (KeyError key) | Some (PStr s) \<Rightarrow> Inr s | Some _ \<Rightarrow> Inl (TypeError key))"

definition moved_edge :: "log_services \<Rightarrow> string \<Rightarrow> pyval dict \<Rightarrow> pyval dict res" where
  "moved_edge S destination event =
     (if get event ''event_kind'' = PStr EVENT_KIND_EDGE then
        rbind (event_text event ''from_node'') (\<lambda>from_node.
        rbind (event_text event ''edge_type'') (\<lambda>edge_type.
        rbind (event_text event ''to_node'') (\<lambda>to_node.
        Inr (dict_set ''result_id'' (PStr (derived_result_id S ''edge'' [destination, from_node, edge_type, to_node])) event))))
      else Inr event)"

definition rebase_event ::
    "log_services \<Rightarrow> (pyval \<Rightarrow> string) \<Rightarrow> string \<Rightarrow> string \<Rightarrow> string \<Rightarrow> pyval dict \<Rightarrow> pyval dict dict \<Rightarrow> pyval dict dict res" where
  "rebase_event S str_of source destination source_ref raw result =
     rbind (validate_explore_result_event S str_of (Some source) raw) (\<lambda>event.
     rbind (event_text event ''event_id'') (\<lambda>event_id.
     rbind (moved_edge S destination (dict_pop ''research_observation''
        (dict_set ''run_id'' (PStr (source_ref @ '':'' @ event_id)) (dict_set ''goal_id'' (PStr destination) event)))) (\<lambda>moved.
     rbind (validate_explore_result_event S str_of (Some destination) (with_event_id S moved)) (\<lambda>event.
     rbind (event_text event ''event_id'') (\<lambda>event_id.
     Inr (dict_set event_id event result))))))"

definition rebase_explore_knowledge_events ::
    "log_services \<Rightarrow> (pyval \<Rightarrow> string) \<Rightarrow> string \<Rightarrow> string \<Rightarrow> string \<Rightarrow> pyval dict list \<Rightarrow> pyval dict list res" where
  "rebase_explore_knowledge_events S str_of source_goal_id destination_goal_id source_ref events =
     rbind (safe_goal_id str_of (PStr source_goal_id)) (\<lambda>source.
     rbind (safe_goal_id str_of (PStr destination_goal_id)) (\<lambda>destination.
     if source = destination then Inl (ValueError ''knowledge replay requires distinct source and destination Goals'')
     else rbind (rfold (rebase_event S str_of source destination source_ref) events []) (\<lambda>result. Inr (map snd result))))"

section \<open>The log\<close>

datatype log_row = BlankRow | BadRow | JsonRow pyval

record log_file =
  lf_rows :: "log_row list"
  lf_terminated :: bool

definition entries_of_object :: "pymap \<Rightarrow> pyval dict" where
  "entries_of_object m = List.map_filter (\<lambda>(k, v). case k of KStr s \<Rightarrow> Some (s, v) | KOther \<Rightarrow> None) m"

definition load_row :: "log_services \<Rightarrow> (pyval \<Rightarrow> string) \<Rightarrow> string \<Rightarrow> log_row \<Rightarrow> pyval dict list \<Rightarrow> pyval dict list res" where
  "load_row S str_of goal_id row events = (case row of
     BlankRow \<Rightarrow> Inr events
   | BadRow \<Rightarrow> Inl (ValueError ''invalid Explore result JSON'')
   | JsonRow v \<Rightarrow> (case v of
       PMap m \<Rightarrow> (case validate_explore_result_event S str_of (Some goal_id) (entries_of_object m) of
           Inl (ValueError _) \<Rightarrow> Inl (ValueError ''invalid Explore result event'')
         | Inl e \<Rightarrow> Inl e
         | Inr event \<Rightarrow> Inr (events @ [event]))
     | _ \<Rightarrow> Inl (ValueError ''Explore result row is not an object'')))"

definition load_explore_result_events_strict ::
    "log_services \<Rightarrow> (pyval \<Rightarrow> string) \<Rightarrow> string \<Rightarrow> log_file \<Rightarrow> pyval dict list res" where
  "load_explore_result_events_strict S str_of goal_id file = rfold (load_row S str_of goal_id) (lf_rows file) []"

definition load_explore_result_events :: "(pyval \<Rightarrow> string) \<Rightarrow> string \<Rightarrow> int option \<Rightarrow> log_file \<Rightarrow> pyval dict list" where
  "load_explore_result_events str_of goal_id limit file =
     (let events = List.map_filter (\<lambda>row. case row of
            JsonRow (PMap m) \<Rightarrow>
              let payload = entries_of_object m in
              if get payload ''schema_version'' = PStr EXPLORE_RESULT_EVENT_SCHEMA_VERSION \<and>
                 (\<exists>kind \<in> set EXPLORE_EVENT_KINDS. get payload ''event_kind'' = PStr kind) \<and>
                 (goal_id = [] \<or> text_or_empty str_of (get payload ''goal_id'') = goal_id)
              then Some payload else None
          | _ \<Rightarrow> None) (lf_rows file) in
      case limit of
        None \<Rightarrow> events
      | Some n \<Rightarrow> if n < 0 then events else drop (length events - nat n) events)"

definition event_id_text :: "(pyval \<Rightarrow> string) \<Rightarrow> pyval dict \<Rightarrow> string" where
  "event_id_text str_of event = py_text str_of (get event ''event_id'')"

definition rows_by_id :: "(pyval \<Rightarrow> string) \<Rightarrow> log_row list \<Rightarrow> pymap dict" where
  "rows_by_id str_of rows = fold (\<lambda>row acc. case row of
      JsonRow (PMap m) \<Rightarrow> if truthy (map_get m ''event_id'') then dict_set (py_text str_of (map_get m ''event_id'')) m acc else acc
    | _ \<Rightarrow> acc) rows []"

definition object_of :: "pyval dict \<Rightarrow> pymap" where
  "object_of event = map (\<lambda>(k, v). (KStr k, v)) event"

definition events_by_id :: "(pyval \<Rightarrow> string) \<Rightarrow> pyval dict list \<Rightarrow> pymap dict" where
  "events_by_id str_of events = fold (\<lambda>event acc. dict_set (event_id_text str_of event) (object_of event) acc) events []"

record append_mode =
  am_create_only :: "string list"
  am_ordered_prefix :: bool
  am_expected_ids :: "string list option"

definition default_mode :: append_mode where
  "default_mode = \<lparr>am_create_only = [], am_ordered_prefix = False, am_expected_ids = None\<rparr>"

fun all_equal :: "pyval dict list \<Rightarrow> pyval dict list \<Rightarrow> bool" where
  "all_equal [] [] = True"
| "all_equal (x # xs) (y # ys) = (dict_eq x y \<and> all_equal xs ys)"
| "all_equal _ _ = False"

text \<open>The rows by event id, as the mode reads them.\<close>

definition existing_rows ::
    "log_services \<Rightarrow> (pyval \<Rightarrow> string) \<Rightarrow> string \<Rightarrow> append_mode \<Rightarrow> log_file \<Rightarrow> pyval dict list \<Rightarrow> pymap dict res" where
  "existing_rows S str_of goal_id mode file validated =
     (if am_ordered_prefix mode then
        rbind (check (lf_terminated file) (ValueError ''Explore result prefix has an incomplete tail'')) (\<lambda>_.
        rbind (load_explore_result_events_strict S str_of goal_id file) (\<lambda>current.
        rbind (check (all_equal (take (length validated) current) (take (length current) validated))
          (ValueError ''Explore result history differs from the required initial prefix'')) (\<lambda>_.
        Inr (events_by_id str_of current))))
      else if am_expected_ids mode \<noteq> None then
        rbind (load_explore_result_events_strict S str_of goal_id file) (\<lambda>current. Inr (events_by_id str_of current))
      else Inr (rows_by_id str_of (lf_rows file)))"

definition nodes_by_id :: "(pyval \<Rightarrow> string) \<Rightarrow> pymap dict \<Rightarrow> pymap dict res" where
  "nodes_by_id str_of existing = rfold (\<lambda>(_, row) acc.
     if map_get row ''event_kind'' = PStr EVENT_KIND_NODE
     then rbind (subscript row ''result_id'') (\<lambda>v. Inr (dict_set (py_text str_of v) row acc))
     else Inr acc) existing []"

definition stored_equals :: "pymap option \<Rightarrow> pyval dict \<Rightarrow> bool" where
  "stored_equals stored event = (case stored of None \<Rightarrow> False | Some m \<Rightarrow> py_eq (PMap m) (PMap (object_of event)))"

definition graph_changed :: "(pyval \<Rightarrow> string) \<Rightarrow> append_mode \<Rightarrow> pymap dict \<Rightarrow> pyval dict list \<Rightarrow> bool" where
  "graph_changed str_of mode existing validated = (case am_expected_ids mode of
     None \<Rightarrow> False
   | Some ids \<Rightarrow> map fst existing \<noteq> ids \<and>
       \<not> list_all (\<lambda>event. stored_equals (dict_get existing (event_id_text str_of event)) event) validated)"

text \<open>One event: reused, to be written, or in conflict.\<close>

definition sort_event ::
    "(pyval \<Rightarrow> string) \<Rightarrow> append_mode \<Rightarrow> pymap dict \<Rightarrow> pymap dict \<Rightarrow> pyval dict \<Rightarrow> pyval dict list \<times> int \<Rightarrow> (pyval dict list \<times> int) res" where
  "sort_event str_of mode existing nodes event = (\<lambda>(pending, reused).
     let by_id = (case dict_get existing (event_id_text str_of event) of
           None \<Rightarrow> Inr (pending @ [event], reused)
         | Some row \<Rightarrow> if stored_equals (Some row) event then Inr (pending, reused + 1)
             else Inl (ValueError ''conflicting Explore result event id'')) in
     case get event ''result_id'' of
       PStr rid \<Rightarrow>
         if get event ''event_kind'' = PStr EVENT_KIND_NODE \<and> rid \<in> set (am_create_only mode)
         then (case dict_get nodes rid of
             Some node \<Rightarrow>
               if list_all (\<lambda>key. py_eq (map_get node key) (get event key)) [''node_kind'', ''title'', ''summary'']
               then Inr (pending, reused + 1)
               else Inl (ValueError ''Explore question identity conflicts with its existing scope'')
           | None \<Rightarrow> by_id)
         else by_id
     | _ \<Rightarrow> by_id)"

text \<open>An unterminated last row runs into the first new one.\<close>

definition append_rows :: "log_file \<Rightarrow> pyval dict list \<Rightarrow> log_file" where
  "append_rows file pending =
     (let new = map (\<lambda>event. JsonRow (PMap (object_of event))) pending in
      if pending = [] then file
      else if lf_terminated file \<or> lf_rows file = [] then \<lparr>lf_rows = lf_rows file @ new, lf_terminated = True\<rparr>
      else \<lparr>lf_rows = butlast (lf_rows file) @ (if last (lf_rows file) = BlankRow then hd new else BadRow) # tl new, lf_terminated = True\<rparr>)"

record append_result =
  ar_file :: log_file
  ar_requested :: int
  ar_appended :: int
  ar_reused :: int

text \<open>\<open>qualify\<close> is the check of typed research evidence against the current log and the batch, which the
  runtime answers.\<close>

definition append_validated_explore_result_events ::
    "log_services \<Rightarrow> (pyval \<Rightarrow> string) \<Rightarrow> (log_file \<Rightarrow> pyval dict list \<Rightarrow> unit res) \<Rightarrow> string \<Rightarrow> append_mode \<Rightarrow> log_file \<Rightarrow>
     pyval dict list \<Rightarrow> append_result res" where
  "append_validated_explore_result_events S str_of qualify goal_id mode file validated =
     (let requested_ids = map (event_id_text str_of) validated in
      rbind (check (distinct requested_ids) (ValueError ''Explore result event batch contains duplicate event ids'')) (\<lambda>_.
      rbind (existing_rows S str_of goal_id mode file validated) (\<lambda>existing.
      rbind (nodes_by_id str_of existing) (\<lambda>nodes.
      rbind (check (\<not> graph_changed str_of mode existing validated)
        (ValueError ''Explore graph changed before question evolution; retry the committed writeback'')) (\<lambda>_.
      rbind (rfold (sort_event str_of mode existing nodes) validated ([], 0)) (\<lambda>(pending, reused).
      rbind (if \<exists>event \<in> set pending. truthy (get event ''research_observation'') then qualify file pending else Inr ()) (\<lambda>_.
      Inr \<lparr>ar_file = append_rows file pending, ar_requested = int (length validated), ar_appended = int (length pending),
           ar_reused = reused\<rparr>)))))))"

definition append_explore_result_events ::
    "log_services \<Rightarrow> (pyval \<Rightarrow> string) \<Rightarrow> (log_file \<Rightarrow> pyval dict list \<Rightarrow> unit res) \<Rightarrow> string \<Rightarrow>
     append_mode \<Rightarrow> log_file \<Rightarrow> pyval dict list \<Rightarrow> append_result res" where
  "append_explore_result_events S str_of qualify goal_id mode file events =
     (if am_ordered_prefix mode \<and> am_create_only mode \<noteq> [] then Inl (ValueError ''ordered prefix replay cannot skip existing node revisions'')
      else rbind (rmap (validate_explore_result_event S str_of (Some goal_id)) events) (\<lambda>validated.
        rbind (if am_ordered_prefix mode then Inr [] else rmap (validate_explore_result_event_attribution S) validated) (\<lambda>_.
        append_validated_explore_result_events S str_of qualify goal_id mode file validated)))"

definition append_explore_result_event ::
    "log_services \<Rightarrow> (pyval \<Rightarrow> string) \<Rightarrow> (log_file \<Rightarrow> pyval dict list \<Rightarrow> unit res) \<Rightarrow> log_file \<Rightarrow>
     pyval dict \<Rightarrow> log_file res" where
  "append_explore_result_event S str_of qualify file event =
     rbind (validate_explore_result_event S str_of None event) (\<lambda>validated.
     rbind (validate_explore_result_event_attribution S validated) (\<lambda>_.
     rbind (if truthy (get validated ''research_observation'') then qualify file [validated] else Inr ()) (\<lambda>_.
     Inr (append_rows file [validated]))))"

end
