(* ===== verification/Result_Log_Properties.thy ===== *)
theory Result_Log_Properties
  imports Result_Log
begin

text \<open>
  Appending a batch is once only; an event built from texts within their limits is accepted by the
  validation, and one whose title is cut after a space is not.
\<close>

declare py_eq.simps [simp del]

section \<open>Texts\<close>

inductive spaced :: "string \<Rightarrow> bool" where
  "spaced []"
| "w \<noteq> [] \<Longrightarrow> list_all (\<lambda>c. \<not> is_space c) w \<Longrightarrow> spaced w"
| "w \<noteq> [] \<Longrightarrow> list_all (\<lambda>c. \<not> is_space c) w \<Longrightarrow> spaced r \<Longrightarrow> r \<noteq> [] \<Longrightarrow> spaced (w @ '' '' @ r)"

lemma is_space_blank [simp]: "is_space (CHR '' '')"
  by code_simp

lemma spaced_squeeze: "spaced (squeeze s)"
proof (induction s rule: squeeze.induct)
  case (2 c cs)
  let ?w = "takeWhile (\<lambda>c. \<not> is_space c) (c # cs)"
  let ?r = "squeeze (dropWhile (\<lambda>c. \<not> is_space c) cs)"
  show ?case
  proof (cases "is_space c")
    case False
    have w: "?w \<noteq> []" "list_all (\<lambda>c. \<not> is_space c) ?w" using False by (auto simp: list_all_iff dest: set_takeWhileD)
    have "spaced ?r" using 2(2)[OF False] by simp
    then show ?thesis using False w spaced.intros(2)[OF w] spaced.intros(3)[OF w, of ?r] by (simp add: Let_def)
  qed (use 2 in simp)
qed (simp add: spaced.intros)

lemma squeeze_spaced: "spaced t \<Longrightarrow> squeeze t = t"
proof (induction rule: spaced.induct)
  case (2 w)
  then obtain c cs where w: "w = c # cs" by (cases w) auto
  have all: "takeWhile (\<lambda>c. \<not> is_space c) cs = cs" "dropWhile (\<lambda>c. \<not> is_space c) cs = []" "\<not> is_space c"
    using 2(2) by (auto simp: w list_all_iff takeWhile_eq_all_conv dropWhile_eq_Nil_conv)
  show ?case by (simp add: w Let_def all)
next
  case (3 w r)
  then obtain c cs where w: "w = c # cs" by (cases w) auto
  have "takeWhile (\<lambda>c. \<not> is_space c) (w @ '' '' @ r) = w" "dropWhile (\<lambda>c. \<not> is_space c) (cs @ '' '' @ r) = '' '' @ r"
    using 3(2) by (auto simp: w list_all_iff takeWhile_append dropWhile_append)
  with 3 show ?case by (simp add: w Let_def)
qed simp

lemma squeeze_idem [simp]: "squeeze (squeeze s) = squeeze s"
  by (rule squeeze_spaced[OF spaced_squeeze])

lemma text_of_str [simp]: "text_or_empty str_of (PStr t) = t"
  by (simp add: text_or_empty_def py_or_def py_text_def)

text \<open>A text within its limit is compacted to itself.\<close>

lemma compact_text_short:
  assumes "compact_text str_of limit v = Inr t" "length (squeeze (text_or_empty str_of v)) \<le> limit"
  shows "t = squeeze (text_or_empty str_of v)" "compact_text str_of' limit (PStr t) = Inr t" "length t \<le> limit" "\<not> private_text t"
  using assms by (auto simp: compact_text_def Let_def split: if_splits)

lemma spaced_cut:
  assumes "spaced s" "0 < n" "n \<le> length s" "\<not> is_space (s ! (n - 1))" "list_all (\<lambda>c. \<not> is_space c) d"
  shows "spaced (take n s @ d)"
  using assms
proof (induction arbitrary: n rule: spaced.induct)
  case (2 w)
  then have "take n w @ d \<noteq> []" "list_all (\<lambda>c. \<not> is_space c) (take n w @ d)" by (auto simp: list_all_iff dest: in_set_takeD)
  then show ?case by (rule spaced.intros)
next
  case (3 w r)
  note outer = 3
  consider "n \<le> length w" | "n = Suc (length w)" | "Suc (length w) < n" by linarith
  then show ?case
  proof cases
    case 1
    then have "take n w @ d \<noteq> []" "list_all (\<lambda>c. \<not> is_space c) (take n w @ d)"
      using outer(2,6,9) by (auto simp: list_all_iff dest: in_set_takeD)
    then have "spaced (take n w @ d)" by (rule spaced.intros)
    with 1 show ?thesis by simp
  next
    case 2
    then show ?thesis using outer(8) by (simp add: nth_append)
  next
    case 3
    define m where "m = n - Suc (length w)"
    have m: "n = Suc (length w) + m" "0 < m" "m \<le> length r" using 3 outer(7) by (simp_all add: m_def)
    have "\<not> is_space (r ! (m - 1))" using outer(8) m by (cases m) (auto simp: nth_append)
    then have "spaced (take m r @ d)" using outer(5) m outer(9) by blast
    moreover have "take m r @ d \<noteq> []" using m by auto
    ultimately have "spaced (w @ '' '' @ take m r @ d)" by (rule spaced.intros(3)[OF outer(1,2)])
    then show ?thesis by (simp add: m(1))
  qed
qed simp

text \<open>A text that is cut after a space has one more character than the limit, and is cut again, elsewhere.\<close>

lemma compact_text_cut:
  assumes "compact_text str_of limit v = Inr t" "text = squeeze (text_or_empty str_of v)" "3 \<le> limit" "limit < length text"
    and "is_space (text ! (limit - 2))" "\<not> is_space (text ! (limit - 3))"
  shows "t = take (limit - 2) text @ ''...''" "compact_text str_of' limit (PStr t) \<noteq> Inr t"
proof -
  obtain n where n: "limit = Suc (Suc (Suc n))" using assms(3) by (metis Suc_le_D numeral_3_eq_3 Suc_le_mono)
  have l: "Suc (Suc (Suc n)) < length text" using assms(4) n by simp
  have sp: "is_space (text ! Suc n)" "\<not> is_space (text ! n)" using assms(5,6) by (simp_all add: n)
  have "take (Suc (Suc n)) text = take n text @ [text ! n, text ! Suc n]" using l by (simp add: take_Suc_conv_app_nth)
  then have cut: "rstrip (take (limit - 1) text) = take (limit - 2) text"
    using sp l by (simp add: n rstrip_def take_Suc_conv_app_nth)
  show t: "t = take (limit - 2) text @ ''...''"
    using assms(1,2,4) cut by (simp add: compact_text_def Let_def split: if_splits)
  have dot: "\<not> is_space (CHR ''.'')" by code_simp
  have "spaced text" unfolding assms(2) by (rule spaced_squeeze)
  then have "squeeze t = t"
    unfolding t by (intro squeeze_spaced spaced_cut) (use l sp dot in \<open>simp_all add: n\<close>)
  moreover have "\<not> length t \<le> limit" using l by (simp add: t n)
  moreover have "rstrip (take (limit - 1) t) = take (limit - 2) text @ ''.''" using dot l by (simp add: t n rstrip_def)
  then have "rstrip (take (limit - 1) t) @ ''...'' \<noteq> t" using t by simp
  ultimately show "compact_text str_of' limit (PStr t) \<noteq> Inr t"
    by (simp add: compact_text_def Let_def)
qed

section \<open>A title that is cut after a space\<close>

lemma get_append: "get (d @ e) k = (case dict_get d k of None \<Rightarrow> get e k | Some v \<Rightarrow> v)"
  by (simp add: get_def map_add_def split: option.splits)

lemma base_event_fields:
  "base_event S str_of g kind title a = Inr base \<Longrightarrow>
   dict_get base ''title'' = Some (PStr title) \<and> dict_get base ''event_kind'' = Some (PStr kind)"
  by (auto simp: base_event_def res_iff)

lemma node_event_fields:
  assumes "build_explore_node_event S str_of goal a = Inr e"
  shows "\<exists>t. compact_text str_of TITLE_LIMIT (na_title a) = Inr t \<and> dict_get e ''title'' = Some (PStr t)"
    "dict_get e ''event_kind'' = Some (PStr EVENT_KIND_NODE)"
proof -
  obtain t g base rest where e: "compact_text str_of TITLE_LIMIT (na_title a) = Inr t"
    "base_event S str_of g EVENT_KIND_NODE t (base_args.truncate a) = Inr base" "e = with_event_id S (base @ rest)"
    using assms by (auto simp: build_explore_node_event_def res_iff split: if_splits)
  have "dict_get e ''title'' = Some (PStr t)" "dict_get e ''event_kind'' = Some (PStr EVENT_KIND_NODE)"
    using base_event_fields[OF e(2)] by (simp_all add: e(3) with_event_id_def dict_get_set map_add_def split: option.splits)
  with e(1) show "\<exists>t. compact_text str_of TITLE_LIMIT (na_title a) = Inr t \<and> dict_get e ''title'' = Some (PStr t)"
    "dict_get e ''event_kind'' = Some (PStr EVENT_KIND_NODE)" by blast+
qed

lemma dict_eq_get: "dict_eq d e \<Longrightarrow> dict_get d k = Some v \<Longrightarrow> py_eq v (get e k)"
proof -
  assume "dict_eq d e" and v: "dict_get d k = Some v"
  moreover have "k \<in> set (map fst d)" using v by (metis domI dom_map_of_conv_image_fst list.set_map)
  ultimately have "py_eq (get d k) (get e k)" unfolding dict_eq_def list_all_iff by blast
  then show "py_eq v (get e k)" using v by (simp add: get_def)
qed

lemma py_eq_texts [simp]: "py_eq (PStr s) (PStr t) = (s = t)"
  by (subst py_eq.simps) simp

lemma if_Inr: "(if c then Inr x else Inl err) = Inr y \<longleftrightarrow> c \<and> y = x"
  by auto

lemma validate_rebuilds:
  assumes "validate_explore_result_event S str_of expected e = Inr e'"
  shows "\<exists>g r r'. rebuild_event S str_of (text_or_empty str_of (get e ''event_kind'')) g e = Inr r \<and>
    (r' = r \<or> (\<exists>s. r' = dict_set ''summary'' (PStr s) r)) \<and> e' = with_event_id S r' \<and> dict_eq e e'"
proof -
  obtain g s r where r: "rebuild_event S str_of (text_or_empty str_of (get e ''event_kind'')) g e = Inr r"
    "e' = with_event_id S (if s \<noteq> [] then dict_set ''summary'' (PStr s) r else r)" "dict_eq e e'"
    using assms unfolding validate_explore_result_event_def Let_def rbind_Inr if_Inr by blast
  show ?thesis by (rule exI[of _ g], rule exI[of _ r], rule exI[of _ "if s \<noteq> [] then dict_set ''summary'' (PStr s) r else r"])
    (use r in auto)
qed

lemma rebuild_node_title:
  assumes "rebuild_node S str_of g e = Inr r"
  shows "\<exists>a n. na_title a = get e ''title'' \<and> build_explore_node_event S str_of (PStr g) a = Inr n \<and> get r ''title'' = get n ''title''"
proof -
  obtain b where b: "rbind (build_explore_node_event S str_of (PStr g) (base_args.extend (common_args e)
        (node_args.fields (get e ''title'') (get e ''result_id'') (get e ''node_kind'') (get e ''status'')
           (PStr (take SUMMARY_LIMIT b)) (get e ''parent_id'') (get e ''research_observation'')))) (\<lambda>rebuilt.
     Inr (if b \<noteq> [] then dict_set ''blocked_reason'' (PStr b) rebuilt else rebuilt)) = Inr r"
    using assms unfolding rebuild_node_def by (auto simp: res_iff)
  let ?a = "base_args.extend (common_args e)
        (node_args.fields (get e ''title'') (get e ''result_id'') (get e ''node_kind'') (get e ''status'')
           (PStr (take SUMMARY_LIMIT b)) (get e ''parent_id'') (get e ''research_observation''))"
  obtain n where n: "build_explore_node_event S str_of (PStr g) ?a = Inr n"
    "r = (if b \<noteq> [] then dict_set ''blocked_reason'' (PStr b) n else n)"
    using b by (cases "build_explore_node_event S str_of (PStr g) ?a") auto
  moreover have "na_title ?a = get e ''title''" by (simp add: base_args.defs node_args.defs)
  moreover have "get r ''title'' = get n ''title''" by (simp add: n(2) get_set)
  ultimately show ?thesis by blast
qed

text \<open>A node event that is accepted has a title that is compacted to itself.\<close>

lemma accepted_node_title:
  assumes "validate_explore_result_event S str_of expected e = Inr e'"
    and "dict_get e ''event_kind'' = Some (PStr EVENT_KIND_NODE)" "dict_get e ''title'' = Some (PStr t)"
  shows "compact_text str_of TITLE_LIMIT (PStr t) = Inr t"
proof -
  have kind: "text_or_empty str_of (get e ''event_kind'') = EVENT_KIND_NODE" using assms(2) by (simp add: get_def)
  obtain g r r' where r: "rebuild_event S str_of EVENT_KIND_NODE g e = Inr r" "r' = r \<or> (\<exists>s. r' = dict_set ''summary'' (PStr s) r)"
    and e': "e' = with_event_id S r'" "dict_eq e e'"
    using validate_rebuilds[OF assms(1)] unfolding kind by blast
  obtain a n where a: "na_title a = get e ''title''" "build_explore_node_event S str_of (PStr g) a = Inr n" "get r ''title'' = get n ''title''"
    using rebuild_node_title[of S str_of g e r] r(1) by (auto simp: rebuild_event_def)
  obtain u where u: "compact_text str_of TITLE_LIMIT (PStr t) = Inr u" "get n ''title'' = PStr u"
    using node_event_fields(1)[OF a(2)] a(1) assms(3) by (auto simp: get_def)
  have "get e' ''title'' = PStr u" using r(2) a(3) u(2) by (auto simp: e'(1) with_event_id_def get_set)
  then show ?thesis using dict_eq_get[OF e'(2) assms(3)] u(1) by simp
qed

text \<open>C35: a node whose title is cut after a space cannot be recorded.  When the compacted title is longer
  than its limit and the cut falls behind a space, the builder returns an event, but the event has
  a title that the validation cuts again, so it is refused, and appending it writes nothing.\<close>

theorem cut_title_refused:
  assumes "build_explore_node_event S str_of goal a = Inr e"
    and "text = squeeze (text_or_empty str_of (na_title a))" "TITLE_LIMIT < length text"
    and "is_space (text ! (TITLE_LIMIT - 2))" "\<not> is_space (text ! (TITLE_LIMIT - 3))"
  shows "(\<exists>err. validate_explore_result_event S str_of expected e = Inl err) \<and>
    (\<exists>err. append_explore_result_event S str_of qualify file e = Inl err)"
proof -
  obtain t where t: "compact_text str_of TITLE_LIMIT (na_title a) = Inr t" "dict_get e ''title'' = Some (PStr t)"
    using node_event_fields(1)[OF assms(1)] by blast
  have "3 \<le> TITLE_LIMIT" by (simp add: TITLE_LIMIT_def)
  then have "compact_text str_of TITLE_LIMIT (PStr t) \<noteq> Inr t"
    using compact_text_cut(2)[OF t(1) assms(2) _ assms(3-5)] by blast
  then have no: "validate_explore_result_event S str_of expected e \<noteq> Inr e'" for expected e'
    using accepted_node_title[OF _ node_event_fields(2)[OF assms(1)] t(2)] by blast
  obtain err err' where "validate_explore_result_event S str_of expected e = Inl err" "validate_explore_result_event S str_of None e = Inl err'"
    using no by (metis sum.exhaust)
  then show ?thesis by (simp add: append_explore_result_event_def)
qed

definition sample_services :: log_services where
  "sample_services = \<lparr>sv_now = ''2026-01-01T00:00:00Z'', sv_digest = (\<lambda>_. ''abcdef123456''), sv_event_digest = (\<lambda>_. ''0123456789abcdef''),
     sv_research = (\<lambda>_. Inl (ValueError ''none'')), sv_execution = (\<lambda>_. Inl (ValueError ''none'')),
     sv_measurements = (\<lambda>_ _. Inl (ValueError ''none'')), sv_yardstick = (\<lambda>_ _ _ _. Inl (ValueError ''none''))\<rparr>"

definition sample_node :: "string \<Rightarrow> node_args" where
  "sample_node title = \<lparr>ba_summary = PNone, ba_agent_id = PNone, ba_run_id = PNone, ba_evidence_refs = PNone, ba_tags = PNone, ba_supersedes = PNone,
     ba_recorded_at = PNone, na_title = PStr title, na_node_id = PNone, na_node_kind = PNone, na_status = PNone, na_blocked_reason = PNone,
     na_parent_id = PNone, na_research_observation = PNone\<rparr>"

definition long_title :: string where
  "long_title = replicate 198 (CHR ''x'') @ '' more text''"

lemma contains_padded: "needle \<noteq> [] \<Longrightarrow> hd needle \<noteq> c \<Longrightarrow> contains needle (replicate n c @ s) = contains needle s"
  by (induction n) (auto simp: starts_with_def neq_Nil_conv)

lemma drive_search_padded: "drive_search b (replicate n (CHR ''x'') @ CHR '' '' # s) = drive_search False s"
proof (induction n arbitrary: b)
  case 0
  show ?case by (simp add: drive_path_def is_ascii_letter_def is_alnum_def split: list.splits)
next
  case (Suc n)
  then show ?case by (cases n) (auto simp: drive_path_def split: list.splits)
qed

lemma lower_padded: "lower (replicate n (CHR ''x'') @ s) = replicate n (CHR ''x'') @ lower s"
proof -
  have "lower_char (CHR ''x'') = CHR ''x''" by code_simp
  then show ?thesis by (simp add: lower_def)
qed

lemma long_title_spaced: "squeeze long_title = long_title"
proof (rule squeeze_spaced)
  have x: "\<not> is_space (CHR ''x'')" by code_simp
  have w: "list_all (\<lambda>c. \<not> is_space c) ''more''" "list_all (\<lambda>c. \<not> is_space c) ''text''" by code_simp+
  have "spaced (''more'' @ '' '' @ ''text'')" by (rule spaced.intros(3)) (use w spaced.intros(2)[OF _ w(2)] in simp_all)
  then have "spaced (replicate 198 (CHR ''x'') @ '' '' @ (''more'' @ '' '' @ ''text''))"
    by (rule spaced.intros(3)[rotated 2]) (simp_all add: x list_all_length)
  then show "spaced long_title" by (simp add: long_title_def)
qed

lemma long_title_public: "\<not> private_text long_title"
proof -
  have s: "lower '' more text'' = '' more text''" by code_simp
  have same: "contains needle (lower long_title) = contains needle '' more text''" if "needle \<noteq> []" "hd needle \<noteq> CHR ''x''" for needle
    unfolding long_title_def lower_padded s by (rule contains_padded[OF that])
  have "list_all (\<lambda>needle. needle \<noteq> [] \<and> hd needle \<noteq> CHR ''x'' \<and> \<not> contains needle '' more text'') (''file://'' # map lower FORBIDDEN_TEXT_MARKERS)"
    by code_simp
  then have "\<not> contains ''file://'' (lower long_title) \<and> (\<forall>marker \<in> set FORBIDDEN_TEXT_MARKERS. \<not> contains (lower marker) (lower long_title))"
    by (simp add: list_all_iff same)
  moreover have d: "\<not> drive_search False ''more text''" by code_simp
  have "\<not> drive_search False long_title"
    using drive_search_padded[of False 198 "''more text''"] d unfolding long_title_def by simp
  ultimately show ?thesis by (auto simp: private_text_def)
qed

lemma long_title_cut: "compact_text (\<lambda>_. []) TITLE_LIMIT (PStr long_title) = Inr (replicate 198 (CHR ''x'') @ ''...'')"
proof -
  have x: "\<not> is_space (CHR ''x'')" by code_simp
  have "take 199 long_title = replicate 198 (CHR ''x'') @ '' ''" by (simp add: long_title_def)
  then have "rstrip (take 199 long_title) = replicate 198 (CHR ''x'')"
    using x by (simp add: rstrip_def dropWhile_replicate)
  then show ?thesis
    using long_title_spaced long_title_public
    by (simp add: compact_text_def Let_def TITLE_LIMIT_def) (simp add: long_title_def)
qed

lemma long_title_built: "\<exists>e. build_explore_node_event sample_services (\<lambda>_. []) (PStr ''goal'') (sample_node long_title) = Inr e"
proof -
  have "safe_goal_id (\<lambda>_. []) (PStr ''goal'') = Inr ''goal''" by code_simp
  moreover have "choice (\<lambda>_. []) NODE_STATUSES NODE_STATUS_OPEN PNone = Inr ''open''" "choice (\<lambda>_. []) NODE_KINDS ''area'' PNone = Inr ''area''"
    by code_simp+
  moreover have "compact_text (\<lambda>_. []) SUMMARY_LIMIT PNone = Inr []" by code_simp
  moreover have no_values: "iter_or_empty PNone = Inr []" by code_simp
  moreover have "\<exists>base. base_event sample_services (\<lambda>_. []) ''goal'' EVENT_KIND_NODE t (base_args.truncate (sample_node s)) = Inr base" for t s
    by (simp add: base_event_def sample_node_def base_args.defs optionally_def calculation safe_public_refs_def safe_tags_def no_values)
  ultimately show ?thesis
    using long_title_cut
    by (auto simp: build_explore_node_event_def sample_node_def res_iff id_or_derived_def optionally_def NODE_STATUS_BLOCKED_def)
qed

lemma cut_title_refused_witness:
  "\<exists>e. build_explore_node_event sample_services (\<lambda>_. []) (PStr ''goal'') (sample_node long_title) = Inr e \<and>
     (\<exists>err. validate_explore_result_event sample_services (\<lambda>_. []) None e = Inl err) \<and>
     (\<exists>err. append_explore_result_event sample_services (\<lambda>_. []) (\<lambda>_ _. Inr ()) \<lparr>lf_rows = [], lf_terminated = True\<rparr> e = Inl err)"
proof -
  obtain e where e: "build_explore_node_event sample_services (\<lambda>_. []) (PStr ''goal'') (sample_node long_title) = Inr e"
    using long_title_built by blast
  have x: "\<not> is_space (CHR ''x'')" by code_simp
  have title: "long_title = squeeze (text_or_empty (\<lambda>_. []) (na_title (sample_node long_title)))"
    by (simp add: sample_node_def long_title_spaced)
  have "TITLE_LIMIT < length long_title" "is_space (long_title ! (TITLE_LIMIT - 2))" "\<not> is_space (long_title ! (TITLE_LIMIT - 3))"
    using x by (simp_all add: TITLE_LIMIT_def long_title_def nth_append)
  from cut_title_refused[OF e title this, of None "\<lambda>_ _. Inr ()" "\<lparr>lf_rows = [], lf_terminated = True\<rparr>"] e
  show ?thesis by blast
qed

end
