(* ===== verification/Append_Properties.thy ===== *)
theory Append_Properties
  imports Result_Log_Properties
begin

text \<open>
  Appending a batch of result events writes every event once: the second append of the same batch
  reuses all of them and leaves the log as it is.
\<close>

section \<open>What a validated event holds\<close>

lemma if_Inl_Inr: "(if c then Inl err else r) = Inr y \<longleftrightarrow> \<not> c \<and> r = Inr y"
  by auto

lemmas built_simps = rbind_Inr if_Inr if_Inl_Inr Let_def

lemma keys_set: "fst ` set (dict_set k v d) = insert k (fst ` set d)"
  by (simp add: dom_map_of_conv_image_fst[symmetric] update_conv')

lemma keep_key: "i \<in> fst ` set d \<Longrightarrow> i \<in> fst ` set (if b then dict_set k v d else d)"
  by (simp add: keys_set)

lemma with_event_id_keys: "fst ` set (with_event_id S d) = insert ''event_id'' (fst ` set d)"
  by (simp add: with_event_id_def keys_set)

lemma node_event_result_id: "build_explore_node_event S str_of goal a = Inr e \<Longrightarrow> ''result_id'' \<in> fst ` set e"
  unfolding build_explore_node_event_def built_simps by (elim exE conjE) (auto simp: with_event_id_keys)

lemma edge_event_result_id: "build_explore_edge_event S str_of goal f t ty c a = Inr e \<Longrightarrow> ''result_id'' \<in> fst ` set e"
  unfolding build_explore_edge_event_def built_simps by (elim exE conjE) (auto simp: with_event_id_keys)

lemma finding_event_result_id: "build_explore_finding_event S str_of b goal a = Inr e \<Longrightarrow> ''result_id'' \<in> fst ` set e"
  unfolding build_explore_finding_event_def built_simps by (elim exE conjE) (auto simp: with_event_id_keys)

lemma rebuild_node_result_id: "rebuild_node S str_of g e = Inr r \<Longrightarrow> ''result_id'' \<in> fst ` set r"
  unfolding rebuild_node_def built_simps by (elim exE conjE) (simp only: sum.inject, hypsubst, rule keep_key, erule node_event_result_id)

lemma rebuilt_result_id: "rebuild_event S str_of kind g e = Inr r \<Longrightarrow> ''result_id'' \<in> fst ` set r"
  unfolding rebuild_event_def
  by (metis rebuild_node_result_id edge_event_result_id finding_event_result_id)

definition identified :: "(pyval \<Rightarrow> string) \<Rightarrow> pyval dict \<Rightarrow> bool" where
  "identified str_of e \<longleftrightarrow> event_id_text str_of e \<noteq> [] \<and> get e ''event_id'' = PStr (event_id_text str_of e) \<and> ''result_id'' \<in> fst ` set e"

lemma validated_identified:
  assumes "validate_explore_result_event S str_of expected e = Inr e'" "\<forall>p. sv_event_digest S p \<noteq> []"
  shows "identified str_of e'"
proof -
  obtain g r r' where r: "rebuild_event S str_of (text_or_empty str_of (get e ''event_kind'')) g e = Inr r"
    "r' = r \<or> (\<exists>s. r' = dict_set ''summary'' (PStr s) r)" and e': "e' = with_event_id S r'"
    using validate_rebuilds[OF assms(1)] by blast
  have "''result_id'' \<in> fst ` set r'" using rebuilt_result_id[OF r(1)] r(2) by (elim disjE exE) (simp_all add: keys_set)
  moreover have "get e' ''event_id'' = PStr (event_id_of S r')" by (simp add: e' with_event_id_def get_set)
  moreover from this have "event_id_text str_of e' = event_id_of S r'" by (simp add: event_id_text_def py_text_def)
  moreover have "event_id_of S r' \<noteq> []" using assms(2) by (simp add: event_id_of_def)
  ultimately show ?thesis by (simp add: identified_def e' with_event_id_keys)
qed

lemma identified_truthy: "identified str_of e \<Longrightarrow> truthy (get e ''event_id'')"
  unfolding identified_def by (metis truthy.simps(5))

section \<open>The rows by event id\<close>

lemma map_get_object [simp]: "map_get (object_of e) k = get e k"
  unfolding map_get_def object_of_def get_def by (induction e) (auto split: if_splits)

lemma subscript_object: "subscript (object_of e) k = (case dict_get e k of None \<Rightarrow> Inl (KeyError k) | Some v \<Rightarrow> Inr v)"
  unfolding subscript_def object_of_def by (induction e) (auto split: if_splits)

abbreviation row_of :: "pyval dict \<Rightarrow> log_row" where
  "row_of event \<equiv> JsonRow (PMap (object_of event))"

definition store_event :: "(pyval \<Rightarrow> string) \<Rightarrow> pyval dict \<Rightarrow> pymap dict \<Rightarrow> pymap dict" where
  "store_event str_of e acc = dict_set (event_id_text str_of e) (object_of e) acc"

lemma dict_get_store: "dict_get (store_event str_of e acc) i = (if i = event_id_text str_of e then Some (object_of e) else dict_get acc i)"
  by (simp add: store_event_def dict_get_set)

lemma rows_by_id_append:
  assumes "list_all (identified str_of) new"
  shows "rows_by_id str_of (rows @ map row_of new) = fold (store_event str_of) new (rows_by_id str_of rows)"
proof -
  have "fold (\<lambda>row acc. case row of
      JsonRow (PMap m) \<Rightarrow> if truthy (map_get m ''event_id'') then dict_set (py_text str_of (map_get m ''event_id'')) m acc else acc
    | _ \<Rightarrow> acc) (map row_of new) acc = fold (store_event str_of) new acc" for acc
    using assms by (induction new arbitrary: acc) (simp_all add: identified_truthy[of str_of] store_event_def event_id_text_def)
  then show ?thesis by (simp add: rows_by_id_def)
qed

lemma stored_other: "i \<notin> event_id_text str_of ` set new \<Longrightarrow> dict_get (fold (store_event str_of) new acc) i = dict_get acc i"
  by (induction new arbitrary: acc) (auto simp: dict_get_store)

lemma stored_event:
  assumes "distinct (map (event_id_text str_of) new)" "e \<in> set new"
  shows "dict_get (fold (store_event str_of) new acc) (event_id_text str_of e) = Some (object_of e)"
  using assms
proof (induction new arbitrary: acc)
  case (Cons x new)
  then show ?case using stored_other[of "event_id_text str_of x" str_of new] by (auto simp: dict_get_store)
qed simp

section \<open>Sorting the events\<close>

lemma sort_event_plain:
  "am_create_only mode = [] \<Longrightarrow> sort_event str_of mode existing nodes event (pending, reused) =
    (case dict_get existing (event_id_text str_of event) of
      None \<Rightarrow> Inr (pending @ [event], reused)
    | Some row \<Rightarrow> if stored_equals (Some row) event then Inr (pending, reused + 1) else Inl (ValueError ''conflicting Explore result event id''))"
  by (simp add: sort_event_def Let_def split: pyval.splits)

abbreviation unstored :: "(pyval \<Rightarrow> string) \<Rightarrow> pymap dict \<Rightarrow> pyval dict \<Rightarrow> bool" where
  "unstored str_of existing event \<equiv> dict_get existing (event_id_text str_of event) = None"

lemma sort_events:
  assumes "am_create_only mode = []"
  shows "rfold (sort_event str_of mode existing nodes) vs (p, r) = Inr (p', r') \<longleftrightarrow>
    p' = p @ filter (unstored str_of existing) vs \<and> r' = r + int (length vs) - int (length (filter (unstored str_of existing) vs)) \<and>
    (\<forall>e \<in> set vs. \<not> unstored str_of existing e \<longrightarrow> stored_equals (dict_get existing (event_id_text str_of e)) e)"
proof (induction vs arbitrary: p r)
  case (Cons v vs)
  show ?case
  proof (cases "dict_get existing (event_id_text str_of v)")
    case None
    then show ?thesis by (auto simp: sort_event_plain[OF assms] Cons)
  next
    case (Some row)
    then show ?thesis by (auto simp: sort_event_plain[OF assms] Cons)
  qed
qed auto

section \<open>The nodes among the rows\<close>

definition node_row_ok :: "pymap \<Rightarrow> bool" where
  "node_row_ok row \<longleftrightarrow> (map_get row ''event_kind'' = PStr EVENT_KIND_NODE \<longrightarrow> map_of row (KStr ''result_id'') \<noteq> None)"

lemma nodes_by_id_total: "(\<exists>nodes. nodes_by_id str_of existing = Inr nodes) \<longleftrightarrow> (\<forall>row \<in> snd ` set existing. node_row_ok row)"
proof -
  have "(\<exists>nodes. rfold (\<lambda>(_, row) acc. if map_get row ''event_kind'' = PStr EVENT_KIND_NODE
     then rbind (subscript row ''result_id'') (\<lambda>v. Inr (dict_set (py_text str_of v) row acc)) else Inr acc) existing acc = Inr nodes) \<longleftrightarrow>
     (\<forall>row \<in> snd ` set existing. node_row_ok row)" for acc
  proof (induction existing arbitrary: acc)
    case (Cons x existing)
    obtain k row where x: "x = (k, row)" by (cases x)
    show ?case using Cons by (auto simp: x node_row_ok_def subscript_def split: option.splits)
  qed simp
  then show ?thesis by (simp add: nodes_by_id_def)
qed

lemma stored_rows_ok:
  assumes "list_all (identified str_of) new" "\<forall>row \<in> snd ` set existing. node_row_ok row"
  shows "\<forall>row \<in> snd ` set (fold (store_event str_of) new existing). node_row_ok row"
  using assms
proof (induction new arbitrary: existing)
  case (Cons e new)
  have "node_row_ok (object_of e)"
    using Cons.prems(1) map_of_eq_None_iff[of e "''result_id''"] subscript_object[of e "''result_id''"]
    by (auto simp: node_row_ok_def identified_def subscript_def split: option.splits)
  moreover have "snd ` set (dict_set k v d) \<subseteq> insert v (snd ` set d)" for k v and d :: "pymap dict"
    by (induction d) auto
  then have "snd ` set (store_event str_of e existing) \<subseteq> insert (object_of e) (snd ` set existing)"
    unfolding store_event_def .
  ultimately have "\<forall>row \<in> snd ` set (store_event str_of e existing). node_row_ok row"
    using Cons.prems(2) by (metis insertE subsetD)
  with Cons show ?case by simp
qed simp

section \<open>Appending twice\<close>

lemma rmap_all:
  assumes "rmap f xs = Inr ys" "\<forall>x y. f x = Inr y \<longrightarrow> P y"
  shows "list_all P ys"
  using assms(1)
proof (induction xs arbitrary: ys)
  case (Cons x xs)
  then show ?case using assms(2) by (auto split: sum.split_asm)
qed simp

lemma append_plain:
  "append_validated_explore_result_events S str_of qualify goal_id default_mode file vs = Inr res \<longleftrightarrow>
     distinct (map (event_id_text str_of) vs) \<and>
     (\<forall>row \<in> snd ` set (rows_by_id str_of (lf_rows file)). node_row_ok row) \<and>
     (\<forall>e \<in> set vs. \<not> unstored str_of (rows_by_id str_of (lf_rows file)) e \<longrightarrow>
        stored_equals (dict_get (rows_by_id str_of (lf_rows file)) (event_id_text str_of e)) e) \<and>
     (let new = filter (unstored str_of (rows_by_id str_of (lf_rows file))) vs in
      ((\<exists>event \<in> set new. truthy (get event ''research_observation'')) \<longrightarrow> qualify file new = Inr ()) \<and>
      res = \<lparr>ar_file = append_rows file new, ar_requested = int (length vs), ar_appended = int (length new),
             ar_reused = int (length vs) - int (length new)\<rparr>)"
proof -
  let ?E = "rows_by_id str_of (lf_rows file)"
  have plain: "am_create_only default_mode = []" "existing_rows S str_of goal_id default_mode file vs = Inr ?E" "\<not> graph_changed str_of default_mode ?E vs"
    by (simp_all add: default_mode_def existing_rows_def graph_changed_def)
  show ?thesis
    unfolding append_validated_explore_result_events_def Let_def plain nodes_by_id_total[of str_of ?E, symmetric]
    using plain(3) by (auto simp: res_iff sort_events[OF plain(1)] split: if_splits)
qed

lemma append_rows_terminated:
  "lf_terminated file \<Longrightarrow> lf_rows (append_rows file new) = lf_rows file @ map row_of new \<and> lf_terminated (append_rows file new)"
  by (simp add: append_rows_def Let_def)

lemma append_validated_again:
  assumes first: "append_validated_explore_result_events S str_of qualify goal_id default_mode file vs = Inr res"
    and "lf_terminated file" "list_all (identified str_of) vs" "list_all (\<lambda>e. py_eq (PMap (object_of e)) (PMap (object_of e))) vs"
  shows "append_validated_explore_result_events S str_of qualify' goal_id default_mode (ar_file res) vs =
    Inr \<lparr>ar_file = ar_file res, ar_requested = int (length vs), ar_appended = 0, ar_reused = int (length vs)\<rparr>"
proof -
  let ?E = "rows_by_id str_of (lf_rows file)"
  define new where "new = filter (unstored str_of ?E) vs"
  have f: "distinct (map (event_id_text str_of) vs)" "\<forall>row \<in> snd ` set ?E. node_row_ok row"
    "\<forall>e \<in> set vs. \<not> unstored str_of ?E e \<longrightarrow> stored_equals (dict_get ?E (event_id_text str_of e)) e" "ar_file res = append_rows file new"
    using first unfolding append_plain Let_def new_def[symmetric] by auto
  have ids: "list_all (identified str_of) new" "distinct (map (event_id_text str_of) new)"
    using assms(3) f(1) by (auto simp: new_def list_all_iff distinct_map_filter)
  have E': "rows_by_id str_of (lf_rows (ar_file res)) = fold (store_event str_of) new ?E" (is "_ = ?E'")
    unfolding f(4) conjunct1[OF append_rows_terminated[OF assms(2)]] by (rule rows_by_id_append[OF ids(1)])
  have stored: "stored_equals (dict_get ?E' (event_id_text str_of e)) e \<and> \<not> unstored str_of ?E' e" if e: "e \<in> set vs" for e
  proof (cases "unstored str_of ?E e")
    case True
    then have "e \<in> set new" using e by (simp add: new_def)
    then show ?thesis using stored_event[OF ids(2)] assms(4) e by (simp add: stored_equals_def list_all_iff)
  next
    case False
    then have "event_id_text str_of e \<notin> event_id_text str_of ` set new" by (auto simp: new_def)
    then show ?thesis using f(3) False e by (simp add: stored_other)
  qed
  then have none: "filter (unstored str_of ?E') vs = []" by (simp add: filter_empty_conv)
  show ?thesis
    unfolding append_plain E' none Let_def
    using f(1) stored_rows_ok[OF ids(1) f(2)] stored by (auto simp: append_rows_def)
qed

text \<open>C34: appending a batch of result events twice writes it once.  With the default arguments, when the
  first append succeeds on a log that ends in a line break, it only adds rows behind the log, at most one for each event, and
  every event is appended or reused.  The same batch appended again to the new log succeeds, adds
  nothing, leaves the file as it is and reports every event as reused.  Assumed: event digests are not
  empty and the events equal their stored copies, as every JSON object without a NaN does.\<close>

theorem batch_append_once:
  assumes "append_explore_result_events S str_of qualify goal_id default_mode file events = Inr res"
    and "rmap (validate_explore_result_event S str_of (Some goal_id)) events = Inr vs"
    and "\<forall>p. sv_event_digest S p \<noteq> []" "lf_terminated file" "list_all (\<lambda>e. py_eq (PMap (object_of e)) (PMap (object_of e))) vs"
  shows "(\<exists>new. lf_rows (ar_file res) = lf_rows file @ map row_of new \<and> set new \<subseteq> set vs \<and>
      distinct (map (event_id_text str_of) new) \<and> int (length new) = ar_appended res) \<and>
    ar_appended res + ar_reused res = int (length events) \<and>
    append_explore_result_events S str_of qualify goal_id default_mode (ar_file res) events =
      Inr \<lparr>ar_file = ar_file res, ar_requested = int (length events), ar_appended = 0, ar_reused = int (length events)\<rparr>"
proof -
  have len: "length vs = length events" using rmap_Inr_length[OF assms(2)] .
  have ids: "list_all (identified str_of) vs" using rmap_all[OF assms(2)] validated_identified assms(3) by blast
  obtain us where us: "rmap (validate_explore_result_event_attribution S) vs = Inr us" and first: "append_validated_explore_result_events S str_of qualify goal_id default_mode file vs = Inr res"
    using assms(1,2) by (auto simp: append_explore_result_events_def default_mode_def res_iff)
  have "append_explore_result_events S str_of qualify goal_id default_mode (ar_file res) events =
      Inr \<lparr>ar_file = ar_file res, ar_requested = int (length events), ar_appended = 0, ar_reused = int (length events)\<rparr>"
    using append_validated_again[OF first assms(4) ids assms(5), of qualify] us assms(2)
    by (simp add: append_explore_result_events_def default_mode_def len)
  moreover have "\<exists>new. lf_rows (ar_file res) = lf_rows file @ map row_of new \<and> set new \<subseteq> set vs \<and>
      distinct (map (event_id_text str_of) new) \<and> int (length new) = ar_appended res"
    using first append_rows_terminated[OF assms(4)] unfolding append_plain Let_def
    by (intro exI[of _ "filter (unstored str_of (rows_by_id str_of (lf_rows file))) vs"]) (auto simp: distinct_map_filter)
  moreover have "ar_appended res + ar_reused res = int (length events)"
    using first unfolding append_plain Let_def by (auto simp: len)
  ultimately show ?thesis by blast
qed

definition sample_event :: "pyval dict" where
  "sample_event =
     [(''schema_version'', PStr ''loopx_explore_result_event_v0''), (''goal_id'', PStr ''goal''), (''event_kind'', PStr ''node''),
      (''recorded_at'', PStr ''2026-01-01T00:00:00Z''), (''title'', PStr ''Log''), (''boundary'', PUBLIC_BOUNDARY),
      (''result_id'', PStr ''node_abcdef123456''), (''node_kind'', PStr ''area''), (''status'', PStr ''open''), (''event_id'', PStr ''0123456789abcdef'')]"

lemma sample_event_valid: "validate_explore_result_event sample_services (\<lambda>_. []) (Some ''goal'') sample_event = Inr sample_event"
  by code_simp

lemma batch_append_once_witness:
  "\<exists>res. append_explore_result_events sample_services (\<lambda>_. []) (\<lambda>_ _. Inr ()) ''goal'' default_mode
       \<lparr>lf_rows = [BadRow], lf_terminated = True\<rparr> [sample_event] = Inr res \<and>
     ar_file res = \<lparr>lf_rows = [BadRow, row_of sample_event], lf_terminated = True\<rparr> \<and>
     append_explore_result_events sample_services (\<lambda>_. []) (\<lambda>_ _. Inr ()) ''goal'' default_mode (ar_file res) [sample_event] =
       Inr \<lparr>ar_file = ar_file res, ar_requested = 1, ar_appended = 0, ar_reused = 1\<rparr>"
proof -
  let ?res = "\<lparr>ar_file = \<lparr>lf_rows = [BadRow, row_of sample_event], lf_terminated = True\<rparr>, ar_requested = 1, ar_appended = 1, ar_reused = 0\<rparr>"
  have v: "rmap (validate_explore_result_event sample_services (\<lambda>_. []) (Some ''goal'')) [sample_event] = Inr [sample_event]"
    by (simp add: sample_event_valid)
  have a: "append_explore_result_events sample_services (\<lambda>_. []) (\<lambda>_ _. Inr ()) ''goal'' default_mode
       \<lparr>lf_rows = [BadRow], lf_terminated = True\<rparr> [sample_event] = Inr ?res" by code_simp
  have "list_all (\<lambda>e. py_eq (PMap (object_of e)) (PMap (object_of e))) [sample_event]" by code_simp
  then show ?thesis
    using batch_append_once[OF a v] a by (simp add: sample_services_def)
qed

end
