(* ===== verification/Result_Projection.thy ===== *)
theory Result_Projection
  imports Result_Log Py_Sort
begin

text \<open>
  \<open>src/loopx/capabilities/explore/result_log.py\<close>: folding the events of a result log into nodes, edges and
  findings, the tree of the nodes, the Mermaid chart, the focused graph view and the projection; the
  order of timestamps is that of \<open>src/loopx/control_plane/runtime/time.py\<close>.

  A view is a record; a key that is present only sometimes is an option.  Parameters
  (\<open>projection_services\<close>): the instant that the date library reads from a timestamp, SHA-1, and the
  research frontier of the TypeScript runtime, which gives the frontier and the node summaries.
\<close>

section \<open>The history\<close>

definition history_fields :: "string list" where
  "history_fields =
     [''schema_version'', ''event_id'', ''goal_id'', ''event_kind'', ''result_id'', ''recorded_at'', ''title'', ''summary'', ''status'',
      ''node_kind'', ''blocked_reason'', ''parent_id'', ''node_id'', ''from_node'', ''to_node'', ''edge_type'', ''agent_id'', ''run_id'',
      ''evidence_refs'', ''supersedes'', ''confidence'', ''execution_observation'', ''measurements'', ''work_yardstick'']"

definition history_row :: "pyval dict \<Rightarrow> pyval dict" where
  "history_row event = List.map_filter (\<lambda>key. map_option (Pair key) (dict_get event key)) history_fields"

definition explore_history_rows :: "log_services \<Rightarrow> (pyval \<Rightarrow> string) \<Rightarrow> string option \<Rightarrow> pyval dict list \<Rightarrow> pyval dict list res" where
  "explore_history_rows S str_of goal_id events =
     rbind (case goal_id of None \<Rightarrow> Inr events | Some g \<Rightarrow> rmap (validate_explore_result_event S str_of (Some g)) events) (\<lambda>events.
     Inr (map history_row events))"

section \<open>The latest state of every result\<close>

record folded =
  fo_event :: "pyval dict"
  fo_recorded_order :: nat
  fo_first_recorded_at :: string
  fo_last_updated_at :: string
  fo_update_count :: int

definition fold_event :: "(pyval \<Rightarrow> string) \<Rightarrow> string \<Rightarrow> nat \<times> pyval dict \<Rightarrow> folded dict \<Rightarrow> folded dict" where
  "fold_event str_of kind = (\<lambda>(recorded_order, event) acc.
     let result_id = text_or_empty str_of (get event ''result_id''); recorded_at = text_or_empty str_of (get event ''recorded_at'') in
     if get event ''event_kind'' \<noteq> PStr kind \<or> result_id = [] then acc
     else dict_set result_id (case dict_get acc result_id of
         None \<Rightarrow> \<lparr>fo_event = event, fo_recorded_order = recorded_order, fo_first_recorded_at = recorded_at,
                  fo_last_updated_at = recorded_at, fo_update_count = 1\<rparr>
       | Some prior \<Rightarrow> \<lparr>fo_event = event, fo_recorded_order = recorded_order, fo_first_recorded_at = fo_first_recorded_at prior,
                  fo_last_updated_at = recorded_at, fo_update_count = fo_update_count prior + 1\<rparr>) acc)"

definition fold_by_result_id :: "(pyval \<Rightarrow> string) \<Rightarrow> string \<Rightarrow> pyval dict list \<Rightarrow> folded list" where
  "fold_by_result_id str_of kind events = map snd (fold (fold_event str_of kind) (List.enumerate 0 events) [])"

section \<open>Views\<close>

record node_view =
  nv_node_id :: string
  nv_title :: string
  nv_node_kind :: string
  nv_status :: string
  nv_summary :: string
  nv_blocked_reason :: string
  nv_parent_id :: string
  nv_agent_id :: string
  nv_evidence_refs :: "pyval list"
  nv_tags :: "pyval list"
  nv_supersedes :: string
  nv_finding_count :: int
  nv_first_recorded_at :: string
  nv_last_updated_at :: string
  nv_update_count :: int
  nv_research_observation :: "pyval option"
  nv_research_summary :: "pyval option"

text \<open>Events with a research observation are validated, so that it is a mapping.\<close>

definition node_view_of :: "(pyval \<Rightarrow> string) \<Rightarrow> int \<Rightarrow> folded \<Rightarrow> node_view res" where
  "node_view_of str_of finding_count f =
     (let event = fo_event f; text = (\<lambda>key. text_or_empty str_of (get event key)) in
      rbind (optionally (truthy (get event ''research_observation'')) (case get event ''research_observation'' of
          PMap m \<Rightarrow> Inr (PMap m) | _ \<Rightarrow> Inl (TypeError ''research_observation''))) (\<lambda>research.
      rbind (iter_or_empty (get event ''evidence_refs'')) (\<lambda>refs.
      rbind (iter_or_empty (get event ''tags'')) (\<lambda>tags.
      Inr \<lparr>nv_node_id = text ''result_id'', nv_title = text ''title'', nv_node_kind = text_or str_of (get event ''node_kind'') ''area'',
           nv_status = text_or str_of (get event ''status'') NODE_STATUS_OPEN, nv_summary = text ''summary'',
           nv_blocked_reason = text ''blocked_reason'', nv_parent_id = text ''parent_id'', nv_agent_id = text ''agent_id'',
           nv_evidence_refs = refs, nv_tags = tags, nv_supersedes = text ''supersedes'', nv_finding_count = finding_count,
           nv_first_recorded_at = fo_first_recorded_at f, nv_last_updated_at = fo_last_updated_at f, nv_update_count = fo_update_count f,
           nv_research_observation = research, nv_research_summary = None\<rparr>))))"

record edge_view =
  ed_edge_id :: string
  ed_from_node :: string
  ed_to_node :: string
  ed_edge_type :: string
  ed_summary :: string
  ed_confidence :: pyval
  ed_last_updated_at :: string
  ed_materialized_from :: "string option"

definition edge_view_of :: "(pyval \<Rightarrow> string) \<Rightarrow> folded \<Rightarrow> edge_view" where
  "edge_view_of str_of f =
     (let event = fo_event f; text = (\<lambda>key. text_or_empty str_of (get event key)) in
      \<lparr>ed_edge_id = text ''result_id'', ed_from_node = text ''from_node'', ed_to_node = text ''to_node'', ed_edge_type = text ''edge_type'',
       ed_summary = text ''summary'', ed_confidence = get event ''confidence'', ed_last_updated_at = fo_last_updated_at f,
       ed_materialized_from = None\<rparr>)"

record projection_services = log_services +
  ps_instant :: "string \<Rightarrow> int option"
  ps_sha1 :: "string \<Rightarrow> string"

definition joins :: "string \<Rightarrow> string \<Rightarrow> edge_view \<Rightarrow> bool" where
  "joins a b edge \<longleftrightarrow> {ed_from_node edge, ed_to_node edge} = {a, b}"

definition parent_edge :: "(string \<Rightarrow> string) \<Rightarrow> node_view \<Rightarrow> edge_view" where
  "parent_edge sha1 node =
     \<lparr>ed_edge_id = ''parent_'' @ sha1 (nv_parent_id node @ ''->'' @ nv_node_id node), ed_from_node = nv_parent_id node,
      ed_to_node = nv_node_id node, ed_edge_type = ''supports'', ed_summary = ''Parent topic contains this exploration node.'',
      ed_confidence = PFloat (Fin 1), ed_last_updated_at = nv_last_updated_at node, ed_materialized_from = Some ''node_parent_id''\<rparr>"

definition materialized_parent_edges :: "(string \<Rightarrow> string) \<Rightarrow> node_view list \<Rightarrow> edge_view list \<Rightarrow> edge_view list" where
  "materialized_parent_edges sha1 nodes edges =
     map (parent_edge sha1) (filter (\<lambda>node.
       let child = nv_node_id node; parent = nv_parent_id node in
       child \<noteq> [] \<and> parent \<noteq> [] \<and> child \<noteq> parent \<and> parent \<in> set (map nv_node_id nodes) \<and>
       \<not> list_ex (joins parent child) edges) nodes)"

record finding_view =
  fi_finding_id :: string
  fi_finding :: string
  fi_summary :: string
  fi_status :: string
  fi_confidence :: pyval
  fi_node_id :: string
  fi_agent_id :: string
  fi_evidence_refs :: "pyval list"
  fi_tags :: "pyval list"
  fi_supersedes :: string
  fi_first_recorded_at :: string
  fi_last_updated_at :: string
  fi_update_count :: int
  fi_work_yardstick :: "pyval option"
  fi_execution_observation :: "pyval option"
  fi_measurements :: "pyval option"
  fi_measurement_error :: "exn option"
  fi_recorded_order :: "nat option"

text \<open>The measurements of a finding: nothing, the error that quarantines them, or the values.\<close>

definition measured_view :: "log_services \<Rightarrow> pyval dict \<Rightarrow> (pyval option \<times> exn option) res" where
  "measured_view S event = (case dict_get event ''measurements'' of
     None \<Rightarrow> Inr (None, None)
   | Some v \<Rightarrow> (case validate_explore_result_event_attribution S event of
       Inl (ValueError m) \<Rightarrow> Inr (None, Some (ValueError m))
     | Inl e \<Rightarrow> Inl e
     | Inr _ \<Rightarrow> Inr (Some v, None)))"

definition finding_view_of :: "log_services \<Rightarrow> (pyval \<Rightarrow> string) \<Rightarrow> folded \<Rightarrow> finding_view res" where
  "finding_view_of S str_of f =
     (let event = fo_event f; text = (\<lambda>key. text_or_empty str_of (get event key)) in
      rbind (measured_view S event) (\<lambda>(measurements, measurement_error).
      rbind (iter_or_empty (get event ''evidence_refs'')) (\<lambda>refs.
      rbind (iter_or_empty (get event ''tags'')) (\<lambda>tags.
      Inr \<lparr>fi_finding_id = text ''result_id'', fi_finding = text ''title'', fi_summary = text ''summary'',
           fi_status = text_or str_of (get event ''status'') ''tentative'', fi_confidence = get event ''confidence'', fi_node_id = text ''node_id'',
           fi_agent_id = text ''agent_id'', fi_evidence_refs = refs, fi_tags = tags, fi_supersedes = text ''supersedes'',
           fi_first_recorded_at = fo_first_recorded_at f, fi_last_updated_at = fo_last_updated_at f, fi_update_count = fo_update_count f,
           fi_work_yardstick = dict_get event ''work_yardstick'', fi_execution_observation = dict_get event ''execution_observation'',
           fi_measurements = measurements, fi_measurement_error = measurement_error,
           fi_recorded_order = (if dict_get event ''work_yardstick'' \<noteq> None \<or> measurements \<noteq> None then Some (fo_recorded_order f) else None)\<rparr>))))"

section \<open>The tree\<close>

definition EDGE_TYPE_SUBTOPIC_OF :: string where
  "EDGE_TYPE_SUBTOPIC_OF = ''subtopic_of''"

definition parent_map :: "node_view list \<Rightarrow> edge_view list \<Rightarrow> string dict" where
  "parent_map nodes edges =
     (let known = map nv_node_id nodes;
          parents = fold (\<lambda>edge acc.
            if ed_edge_type edge = EDGE_TYPE_SUBTOPIC_OF \<and> ed_from_node edge \<in> set known \<and> ed_to_node edge \<in> set known
            then dict_set (ed_from_node edge) (ed_to_node edge) acc else acc) edges [] in
      fold (\<lambda>node acc. if nv_parent_id node \<noteq> [] \<and> nv_parent_id node \<in> set known
        then dict_set (nv_node_id node) (nv_parent_id node) acc else acc) nodes parents)"

datatype tree = Branch (tree_node_id: string) (tree_title: string) (tree_status: string) (tree_children: "tree list")

definition nodes_by_node_id :: "node_view list \<Rightarrow> node_view dict" where
  "nodes_by_node_id nodes = fold (\<lambda>node acc. dict_set (nv_node_id node) node acc) nodes []"

text \<open>The parent under which the tree places a node.\<close>

definition parent_in :: "string dict \<Rightarrow> node_view dict \<Rightarrow> string \<Rightarrow> string option" where
  "parent_in parents by_id node_id = (case dict_get parents node_id of
     None \<Rightarrow> None
   | Some parent \<Rightarrow> if parent \<noteq> [] \<and> parent \<noteq> node_id \<and> parent \<in> set (map fst by_id) then Some parent else None)"

definition children_of :: "string dict \<Rightarrow> node_view dict \<Rightarrow> string \<Rightarrow> string list" where
  "children_of parents by_id node_id = filter (\<lambda>child. parent_in parents by_id child = Some node_id) (map fst by_id)"

text \<open>\<open>rest\<close> is what is left of the depth limit.\<close>

fun branch :: "string dict \<Rightarrow> node_view dict \<Rightarrow> nat \<Rightarrow> string list \<Rightarrow> string \<Rightarrow> tree res" where
  "branch parents by_id rest seen node_id = (case dict_get by_id node_id of
     None \<Rightarrow> Inl (KeyError node_id)
   | Some node \<Rightarrow>
       rbind (case rest of
           0 \<Rightarrow> Inr []
         | Suc rest' \<Rightarrow> rmap (branch parents by_id rest' (node_id # seen))
             (filter (\<lambda>child. child \<notin> set seen) (children_of parents by_id node_id))) (\<lambda>children.
       Inr (Branch node_id (nv_title node) (if nv_status node = [] then NODE_STATUS_OPEN else nv_status node) children)))"

definition DEFAULT_TREE_DEPTH_LIMIT :: int where
  "DEFAULT_TREE_DEPTH_LIMIT = 6"

definition build_tree :: "int \<Rightarrow> node_view list \<Rightarrow> string dict \<Rightarrow> tree list res" where
  "build_tree depth_limit nodes parents =
     (let by_id = nodes_by_node_id nodes; roots = filter (\<lambda>node_id. parent_in parents by_id node_id = None) (map fst by_id) in
      rmap (\<lambda>root. branch parents by_id (nat (depth_limit - 1)) [root] root) roots)"

section \<open>The Mermaid chart\<close>

definition mermaid_class :: "string \<Rightarrow> string" where
  "mermaid_class status = (case map_of [(''open'', ''open''), (''exploring'', ''exploring''), (''blocked'', ''blocked''),
      (''resolved'', ''resolved''), (''dead_end'', ''deadend'')] status of None \<Rightarrow> ''open'' | Some c \<Rightarrow> c)"

definition mermaid_marker :: "string \<Rightarrow> string" where
  "mermaid_marker status = (case map_of [(''blocked'', '' (BLOCKED)''), (''resolved'', '' (done)''), (''dead_end'', '' (dead end)'')] status of
     None \<Rightarrow> [] | Some m \<Rightarrow> m)"

definition chart_special :: "char \<Rightarrow> bool" where
  "chart_special c \<longleftrightarrow> c = CHR 0x22 \<or> c \<in> set ''[]{}<>|'' \<or> c = CHR 0x60"

definition mermaid_label :: "string \<Rightarrow> string" where
  "mermaid_label text =
     (let label = strip (take 60 (map (\<lambda>c. if chart_special c then CHR 0x27 else c) text)) in
      if label = [] then ''untitled'' else label)"

definition mermaid_id :: "string \<Rightarrow> string" where
  "mermaid_id node_id = map (\<lambda>c. if is_alnum c \<or> c = CHR ''_'' then c else CHR ''_'') node_id"

definition mermaid_node :: "node_view \<Rightarrow> string" where
  "mermaid_node node =
     (let status = (if nv_status node = [] then NODE_STATUS_OPEN else nv_status node) in
      ''    '' @ mermaid_id (nv_node_id node) @ ''['' @ [CHR 0x22] @ mermaid_label (nv_title node @ mermaid_marker status) @ [CHR 0x22] @ '']:::'' @
      mermaid_class status)"

definition mermaid_edge :: "edge_view \<Rightarrow> string" where
  "mermaid_edge edge =
     ''    '' @ mermaid_id (ed_from_node edge) @ '' -->|'' @ mermaid_label (ed_edge_type edge) @ ''| '' @ mermaid_id (ed_to_node edge)"

definition mermaid_lines :: "node_view list \<Rightarrow> edge_view list \<Rightarrow> int \<Rightarrow> string list" where
  "mermaid_lines nodes edges node_limit =
     (let shown = (if 0 \<le> node_limit then take (nat node_limit) nodes else take (length nodes - nat (- node_limit)) nodes);
          shown_ids = map nv_node_id shown in
      [''flowchart TD''] @ map mermaid_node shown @
      map mermaid_edge (filter (\<lambda>edge. ed_from_node edge \<in> set shown_ids \<and> ed_to_node edge \<in> set shown_ids) edges) @
      (if node_limit < int (length nodes) then [''    %% '' @ decimal (int (length nodes) - node_limit) @ '' more nodes omitted''] else []) @
      [''    classDef open fill:#f5f5f5,stroke:#9e9e9e'',
       ''    classDef exploring fill:#e3f2fd,stroke:#1e88e5'',
       ''    classDef blocked fill:#ffebee,stroke:#e53935,stroke-width:2px'',
       ''    classDef resolved fill:#e8f5e9,stroke:#43a047'',
       ''    classDef deadend fill:#eeeeee,stroke:#9e9e9e,stroke-dasharray: 4 4''])"

fun join_lines :: "string list \<Rightarrow> string" where
  "join_lines [] = []"
| "join_lines [l] = l"
| "join_lines (l # m # ls) = l @ [CHR 0x0A] @ join_lines (m # ls)"

definition build_explore_mermaid :: "node_view list \<Rightarrow> edge_view list \<Rightarrow> int \<Rightarrow> string" where
  "build_explore_mermaid nodes edges node_limit = join_lines (mermaid_lines nodes edges node_limit)"

section \<open>The focused graph\<close>

text \<open>The \<open>while\<close> loop from a node to its ancestors: it adds known parents that it has not seen.\<close>

function ancestors :: "string dict \<Rightarrow> string list \<Rightarrow> string list \<Rightarrow> string option \<Rightarrow> string list" where
  "ancestors parents known seen parent = (case parent of
     None \<Rightarrow> []
   | Some p \<Rightarrow> if p \<noteq> [] \<and> p \<notin> set seen \<and> p \<in> set known then p # ancestors parents known (p # seen) (dict_get parents p) else [])"
  by pat_completeness auto
termination
proof (relation "measure (\<lambda>(_, known, seen, _). length (filter (\<lambda>k. k \<notin> set seen) known))")
  fix parents :: "string dict" and known seen :: "string list" and parent :: "string option" and p :: string
  assume "parent = Some p" and p: "p \<noteq> [] \<and> p \<notin> set seen \<and> p \<in> set known"
  then have "length (filter (\<lambda>k. k \<noteq> p) (filter (\<lambda>k. k \<notin> set seen) known)) < length (filter (\<lambda>k. k \<notin> set seen) known)"
    by (intro length_filter_less[of p]) auto
  moreover have "filter (\<lambda>k. k \<noteq> p) (filter (\<lambda>k. k \<notin> set seen) known) = filter (\<lambda>k. k \<notin> set (p # seen)) known"
    by (simp add: conj_commute)
  ultimately have "length (filter (\<lambda>k. k \<notin> set (p # seen)) known) < length (filter (\<lambda>k. k \<notin> set seen) known)" by simp
  then show "((parents, known, p # seen, dict_get parents p), parents, known, seen, parent)
      \<in> measure (\<lambda>(_, known, seen, _). length (filter (\<lambda>k. k \<notin> set seen) known))" by simp
qed simp

record graph_view =
  gv_nodes :: "node_view list"
  gv_edges :: "edge_view list"
  gv_mermaid :: string
  gv_matched_node_count :: int
  gv_context_node_count :: int
  gv_active :: bool
  gv_statuses :: "string list"
  gv_tags :: "string list"

definition node_matches :: "(pyval \<Rightarrow> string) \<Rightarrow> string list \<Rightarrow> string list \<Rightarrow> node_view \<Rightarrow> bool" where
  "node_matches str_of statuses tags node \<longleftrightarrow>
     (statuses = [] \<or> nv_status node \<in> set statuses) \<and> (tags = [] \<or> list_ex (\<lambda>t. t \<in> set tags) (map (py_text str_of) (nv_tags node)))"

definition matched_ids :: "(pyval \<Rightarrow> string) \<Rightarrow> string list \<Rightarrow> string list \<Rightarrow> node_view dict \<Rightarrow> string list" where
  "matched_ids str_of statuses tags by_id = map fst (filter (\<lambda>(_, node). node_matches str_of statuses tags node) by_id)"

definition selected_ids :: "bool \<Rightarrow> string dict \<Rightarrow> string list \<Rightarrow> string list \<Rightarrow> string list" where
  "selected_ids with_ancestors parents known matched =
     remdups (matched @ (if with_ancestors then concat (map (\<lambda>i. ancestors parents known [i] (dict_get parents i)) matched) else []))"

definition build_explore_graph_view ::
    "(pyval \<Rightarrow> string) \<Rightarrow> pyval list \<Rightarrow> pyval list \<Rightarrow> bool \<Rightarrow> int \<Rightarrow> node_view list \<Rightarrow> edge_view list \<Rightarrow> graph_view res" where
  "build_explore_graph_view str_of statuses tags include_ancestors node_limit nodes edges =
     rbind (rmap (choice str_of NODE_STATUSES []) statuses) (\<lambda>statuses.
     let tags = filter (\<lambda>t. t \<noteq> []) (map (\<lambda>t. strip (text_or_empty str_of t)) tags);
         by_id = nodes_by_node_id (filter (\<lambda>node. nv_node_id node \<noteq> []) nodes);
         filtering = (statuses \<noteq> [] \<or> tags \<noteq> []);
         matched = (if filtering then matched_ids str_of statuses tags by_id else map fst by_id);
         selected = selected_ids (filtering \<and> include_ancestors) (parent_map nodes edges) (map fst by_id) matched;
         shown_nodes = filter (\<lambda>node. nv_node_id node \<in> set selected) nodes;
         shown_edges = filter (\<lambda>edge. ed_from_node edge \<in> set selected \<and> ed_to_node edge \<in> set selected) edges in
     Inr \<lparr>gv_nodes = shown_nodes, gv_edges = shown_edges, gv_mermaid = build_explore_mermaid shown_nodes shown_edges (max 1 node_limit),
          gv_matched_node_count = int (length matched), gv_context_node_count = int (length selected) - int (length matched),
          gv_active = filtering, gv_statuses = sort (remdups statuses), gv_tags = sort (remdups tags)\<rparr>)"

section \<open>The projection\<close>

definition chronology_less :: "(string \<Rightarrow> int option) \<Rightarrow> string \<Rightarrow> string \<Rightarrow> bool" where
  "chronology_less instant a b = (case (instant a, instant b) of
     (None, None) \<Rightarrow> a < b
   | (None, Some _) \<Rightarrow> True
   | (Some _, None) \<Rightarrow> False
   | (Some i, Some j) \<Rightarrow> i < j \<or> (i = j \<and> a < b))"

definition updated_before :: "(string \<Rightarrow> int option) \<Rightarrow> folded \<Rightarrow> folded \<Rightarrow> bool" where
  "updated_before instant a b \<longleftrightarrow>
     chronology_less instant (fo_last_updated_at a) (fo_last_updated_at b) \<or>
     (\<not> chronology_less instant (fo_last_updated_at b) (fo_last_updated_at a) \<and> fo_recorded_order a < fo_recorded_order b)"

text \<open>\<open>d[k] = d.get(k, 0) + 1\<close>\<close>

definition count_key :: "string \<Rightarrow> int dict \<Rightarrow> int dict" where
  "count_key k d = dict_set k ((case dict_get d k of None \<Rightarrow> 0 | Some n \<Rightarrow> n) + 1) d"

definition status_counts :: "string list \<Rightarrow> string list \<Rightarrow> int dict" where
  "status_counts known statuses = fold count_key statuses (map (\<lambda>s. (s, 0)) (sort known))"

definition scoped_event :: "log_services \<Rightarrow> (pyval \<Rightarrow> string) \<Rightarrow> string \<Rightarrow> pyval dict \<Rightarrow> pyval dict res" where
  "scoped_event S str_of goal_id event =
     (if truthy (get event ''research_observation'') then validate_explore_result_event S str_of (Some goal_id) event else Inr event)"

record projection =
  pr_goal_id :: string
  pr_source_event_count :: int
  pr_nodes_by_status :: "int dict"
  pr_findings_by_status :: "int dict"
  pr_finding_count :: int
  pr_nodes :: "node_view list"
  pr_edges :: "edge_view list"
  pr_findings :: "finding_view list"
  pr_stuck :: "node_view list"
  pr_frontier :: "node_view list"
  pr_tree :: "tree list"
  pr_mermaid :: string
  pr_research_frontier :: "pyval option"

text \<open>The events in the order they are folded, the nodes of the log, and its findings.\<close>

definition scoped_events :: "log_services \<Rightarrow> (pyval \<Rightarrow> string) \<Rightarrow> string \<Rightarrow> pyval dict list \<Rightarrow> pyval dict list res" where
  "scoped_events S str_of goal_id events =
     rmap (scoped_event S str_of goal_id) (filter (\<lambda>e. text_or_empty str_of (get e ''goal_id'') = goal_id) events)"

definition finding_counts :: "(pyval \<Rightarrow> string) \<Rightarrow> folded list \<Rightarrow> int dict" where
  "finding_counts str_of findings = fold count_key (filter (\<lambda>i. i \<noteq> []) (map (\<lambda>f. text_or_empty str_of (get (fo_event f) ''node_id'')) findings)) []"

definition projected_nodes :: "projection_services \<Rightarrow> (pyval \<Rightarrow> string) \<Rightarrow> pyval dict list \<Rightarrow> node_view list res" where
  "projected_nodes S str_of scoped =
     (let counts = finding_counts str_of (fold_by_result_id str_of EVENT_KIND_FINDING scoped) in
      rmap (\<lambda>f. node_view_of str_of (case dict_get counts (py_text str_of (get (fo_event f) ''result_id'')) of None \<Rightarrow> 0 | Some n \<Rightarrow> n) f)
        (stable_sort (\<lambda>a b. chronology_less (ps_instant S) (fo_first_recorded_at a) (fo_first_recorded_at b))
          (fold_by_result_id str_of EVENT_KIND_NODE scoped)))"

definition projected_edges :: "projection_services \<Rightarrow> (pyval \<Rightarrow> string) \<Rightarrow> node_view list \<Rightarrow> pyval dict list \<Rightarrow> edge_view list" where
  "projected_edges S str_of nodes scoped =
     (let edges = map (edge_view_of str_of) (fold_by_result_id str_of EVENT_KIND_EDGE scoped) in
      edges @ materialized_parent_edges (ps_sha1 S) nodes edges)"

definition projected_findings :: "projection_services \<Rightarrow> (pyval \<Rightarrow> string) \<Rightarrow> pyval dict list \<Rightarrow> finding_view list res" where
  "projected_findings S str_of scoped =
     rmap (finding_view_of (log_services.truncate S) str_of)
       (stable_sort (\<lambda>a b. updated_before (ps_instant S) b a) (fold_by_result_id str_of EVENT_KIND_FINDING scoped))"

definition summarised :: "pyval dict \<Rightarrow> node_view \<Rightarrow> node_view" where
  "summarised summaries node = (case dict_get summaries (nv_node_id node) of
     None \<Rightarrow> node | Some s \<Rightarrow> node\<lparr>nv_research_summary := Some s\<rparr>)"

text \<open>\<open>research\<close> answers for the runtime with the frontier and the node summaries.\<close>

definition with_research ::
    "(projection \<Rightarrow> pyval dict list \<Rightarrow> (pyval \<times> pyval dict) res) \<Rightarrow> pyval dict list \<Rightarrow> projection \<Rightarrow> projection res" where
  "with_research research scoped p =
     (let sources = filter (\<lambda>e. truthy (get e ''research_observation'')) scoped in
      if sources = [] then Inr p
      else rbind (research p sources) (\<lambda>(frontier, summaries).
        Inr (p\<lparr>pr_nodes := map (summarised summaries) (pr_nodes p), pr_stuck := map (summarised summaries) (pr_stuck p),
               pr_frontier := map (summarised summaries) (pr_frontier p), pr_research_frontier := Some frontier\<rparr>)))"

definition build_explore_result_projection ::
    "projection_services \<Rightarrow> (pyval \<Rightarrow> string) \<Rightarrow> (projection \<Rightarrow> pyval dict list \<Rightarrow> (pyval \<times> pyval dict) res) \<Rightarrow> pyval \<Rightarrow> int \<Rightarrow> int \<Rightarrow>
     pyval dict list \<Rightarrow> projection res" where
  "build_explore_result_projection S str_of research goal finding_limit mermaid_node_limit events =
     rbind (safe_goal_id str_of goal) (\<lambda>goal_id.
     rbind (scoped_events (log_services.truncate S) str_of goal_id events) (\<lambda>scoped.
     rbind (projected_nodes S str_of scoped) (\<lambda>nodes.
     let edges = projected_edges S str_of nodes scoped in
     rbind (projected_findings S str_of scoped) (\<lambda>findings.
     rbind (build_tree DEFAULT_TREE_DEPTH_LIMIT nodes (parent_map nodes edges)) (\<lambda>tree.
     with_research research scoped
       \<lparr>pr_goal_id = goal_id, pr_source_event_count = int (length scoped), pr_nodes_by_status = status_counts NODE_STATUSES (map nv_status nodes),
        pr_findings_by_status = status_counts FINDING_STATUSES (map fi_status findings), pr_finding_count = int (length findings),
        pr_nodes = nodes, pr_edges = edges, pr_findings = take (nat finding_limit) findings,
        pr_stuck = filter (\<lambda>n. nv_status n = NODE_STATUS_BLOCKED) nodes, pr_frontier = filter (\<lambda>n. nv_status n = ''exploring'') nodes,
        pr_tree = tree, pr_mermaid = build_explore_mermaid nodes edges (max 1 mermaid_node_limit), pr_research_frontier = None\<rparr>)))))"

end
