(* ===== verification/Projection_Properties.thy ===== *)
theory Projection_Properties
  imports Result_Projection
begin

text \<open>
  The tree of a projection shows exactly the nodes that a chain of at most five parents links to a
  root, each once; folding keeps the last event of every result; a focused graph is closed under parents.
\<close>

section \<open>Chains of parents\<close>

primrec climb :: "('a \<Rightarrow> 'a option) \<Rightarrow> nat \<Rightarrow> 'a \<Rightarrow> 'a option" where
  "climb up 0 x = Some x"
| "climb up (Suc k) x = Option.bind (up x) (climb up k)"

lemma climb_add: "climb up (j + k) x = Option.bind (climb up j x) (climb up k)"
  by (induction j arbitrary: x) (auto split: Option.bind_splits)

lemma climb_Suc_end: "climb up (Suc k) x = Some y \<longleftrightarrow> (\<exists>c. climb up k x = Some c \<and> up c = Some y)"
  using climb_add[of up k 1 x] by (auto split: Option.bind_splits)

definition at_depth :: "('a \<Rightarrow> 'a option) \<Rightarrow> nat \<Rightarrow> 'a \<Rightarrow> bool" where
  "at_depth up d x \<longleftrightarrow> (case climb up d x of None \<Rightarrow> False | Some r \<Rightarrow> up r = None)"

lemma at_depth_0: "at_depth up 0 x \<longleftrightarrow> up x = None"
  by (simp add: at_depth_def)

lemma at_depth_climb: "climb up j x = Some y \<Longrightarrow> at_depth up (j + d) x = at_depth up d y"
  by (simp add: at_depth_def climb_add)

lemma no_climb_past_root: "at_depth up d x \<Longrightarrow> d < e \<Longrightarrow> climb up e x = None"
  using climb_add[of up d "Suc (e - Suc d)" x] by (auto simp: at_depth_def split: option.splits)

lemma climb_bounded: "at_depth up d x \<Longrightarrow> climb up e x = Some y \<Longrightarrow> e \<le> d"
  using no_climb_past_root[of up d x e] by (cases "d < e") auto

lemma at_depth_unique: "at_depth up d x \<Longrightarrow> at_depth up e x \<Longrightarrow> d = e"
  by (metis at_depth_def climb_bounded le_antisym option.case_eq_if option.collapse)

lemma climbed_depth: "at_depth up d x \<Longrightarrow> climb up j x = Some y \<Longrightarrow> j \<le> d \<and> at_depth up (d - j) y"
  using climb_bounded[of up d x j y] at_depth_climb[of up j x y "d - j"] by simp

text \<open>A node below itself is at no depth.\<close>

lemma cycle_not_placed: "climb up (Suc k) x = Some x \<Longrightarrow> \<not> at_depth up d x"
  using climbed_depth[of up d x "Suc k" x] at_depth_unique[of up d x "d - Suc k"] by auto

lemma child_deeper: "at_depth up d i \<Longrightarrow> up c = Some i \<Longrightarrow> at_depth up (Suc d) c"
  using at_depth_climb[of up 1 c i d] by simp

lemma child_not_above: "at_depth up d i \<Longrightarrow> up c = Some i \<Longrightarrow> climb up j i \<noteq> Some c"
  using cycle_not_placed[of up j i d] by (auto simp: climb_Suc_end simp del: climb.simps(2))

lemma above_child:
  assumes "up c = Some i" "\<forall>s \<in> set seen. \<exists>j. climb up j i = Some s" "s \<in> set (i # seen)"
  shows "\<exists>j. climb up j c = Some s"
proof (cases "s = i")
  case True
  then show ?thesis using assms(1) by (intro exI[of _ 1]) simp
next
  case False
  then obtain j where "climb up j i = Some s" using assms(2,3) by auto
  then show ?thesis using assms(1) by (intro exI[of _ "Suc j"]) simp
qed

section \<open>Forests\<close>

fun tree_ids :: "tree \<Rightarrow> string list" where
  "tree_ids (Branch i _ _ ts) = i # concat (map tree_ids ts)"

lemma rmap_list_all2:
  assumes "\<forall>x \<in> set xs. \<exists>y. f x = Inr y \<and> P x y"
  shows "\<exists>ys. rmap f xs = Inr ys \<and> list_all2 P xs ys"
  using assms by (induction xs) fastforce+

lemma concat_disjoint:
  assumes "list_all2 (\<lambda>c t. set (g t) = S c \<and> distinct (g t)) cs ts" "distinct cs"
    and "\<forall>c \<in> set cs. \<forall>c' \<in> set cs. c \<noteq> c' \<longrightarrow> S c \<inter> S c' = {}"
  shows "distinct (concat (map g ts)) \<and> set (concat (map g ts)) = (\<Union>c \<in> set cs. S c)"
  using assms
proof (induction rule: list_all2_induct)
  case (Cons c cs t ts)
  have IH: "distinct (concat (map g ts))" "set (concat (map g ts)) = (\<Union>c \<in> set cs. S c)" using Cons by auto
  have "S c \<inter> (\<Union>c \<in> set cs. S c) = {}" using Cons.prems by auto
  then show ?case using IH Cons(1) by auto
qed simp

text \<open>Parents that are among the known nodes.\<close>

locale parent_links =
  fixes up :: "string \<Rightarrow> string option" and known :: "string list"
  assumes up_known: "up x = Some p \<Longrightarrow> p \<in> set known"
begin

definition below :: "nat \<Rightarrow> string \<Rightarrow> string set" where
  "below n i = {x. x \<in> set known \<and> (\<exists>k \<le> n. climb up k x = Some i)}"

lemma climb_known: "x \<in> set known \<Longrightarrow> climb up k x = Some y \<Longrightarrow> y \<in> set known"
  by (cases k) (auto simp: climb_Suc_end simp del: climb.simps(2) intro: up_known)

lemma below_0: "i \<in> set known \<Longrightarrow> below 0 i = {i}"
  by (auto simp: below_def)

lemma below_Suc:
  assumes "i \<in> set known"
  shows "below (Suc n) i = insert i (\<Union>c \<in> set (filter (\<lambda>c. up c = Some i) known). below n c)"
proof -
  have "(\<exists>k \<le> Suc n. climb up k x = Some i) \<longleftrightarrow> x = i \<or> (\<exists>k \<le> n. \<exists>c. climb up k x = Some c \<and> up c = Some i)" for x
  proof -
    have "(\<exists>k \<le> Suc n. P k) \<longleftrightarrow> P 0 \<or> (\<exists>k \<le> n. P (Suc k))" for P :: "nat \<Rightarrow> bool"
      by (metis Suc_le_mono le0 not0_implies_Suc)
    then show ?thesis unfolding climb_Suc_end[symmetric] by simp
  qed
  then show ?thesis using assms by (auto simp: below_def intro: climb_known)
qed

lemma below_disjoint:
  assumes "at_depth up d c" "at_depth up d c'" "c \<noteq> c'"
  shows "below n c \<inter> below n c' = {}"
proof (rule ccontr)
  assume "below n c \<inter> below n c' \<noteq> {}"
  then obtain x j k where x: "climb up j x = Some c" "climb up k x = Some c'" by (auto simp: below_def)
  then have "at_depth up (j + d) x" "at_depth up (k + d) x" using assms(1,2) at_depth_climb[OF x(1), of d] at_depth_climb[OF x(2), of d] by simp_all
  then have "j + d = k + d" by (rule at_depth_unique)
  with x assms(3) show False by simp
qed

lemma not_below_child: "at_depth up d i \<Longrightarrow> up c = Some i \<Longrightarrow> i \<notin> below n c"
  using child_not_above[of up d i c] by (auto simp: below_def)

end

interpretation tree_links: parent_links "parent_in parents by_id" "map fst by_id" for parents by_id
  by unfold_locales (auto simp: parent_in_def split: option.splits if_splits)

section \<open>The tree\<close>

declare branch.simps [simp del]

text \<open>What the branch under a node is, when the node is at a depth and only its ancestors were seen.\<close>

lemma branch_shows:
  assumes "i \<in> set (map fst by_id)" "at_depth (parent_in parents by_id) d i" "distinct (map fst by_id)"
    and "\<forall>s \<in> set seen. \<exists>j. climb (parent_in parents by_id) j i = Some s"
  shows "\<exists>t. branch parents by_id n seen i = Inr t \<and> set (tree_ids t) = tree_links.below parents by_id n i \<and> distinct (tree_ids t)"
  using assms
proof (induction n arbitrary: i seen d)
  case 0
  then obtain node where "dict_get by_id i = Some node" by (auto dest: weak_map_of_SomeI)
  then show ?case using 0(1) by (simp add: branch.simps[of _ _ 0] tree_links.below_0)
next
  case (Suc n)
  let ?up = "parent_in parents by_id" let ?B = "tree_links.below parents by_id n"
  let ?cs = "children_of parents by_id i"
  obtain node where node: "dict_get by_id i = Some node" using Suc.prems(1) by (auto dest: weak_map_of_SomeI)
  have "c \<notin> set seen" if "?up c = Some i" for c
    using child_not_above[OF Suc.prems(2) that] Suc.prems(4) by blast
  then have all: "filter (\<lambda>c. c \<notin> set seen) ?cs = ?cs" unfolding filter_id_conv by (simp add: children_of_def)
  have "\<exists>t. branch parents by_id n (i # seen) c = Inr t \<and> set (tree_ids t) = ?B c \<and> distinct (tree_ids t)" if c: "c \<in> set ?cs" for c
  proof -
    have up: "?up c = Some i" "c \<in> set (map fst by_id)" using c by (auto simp: children_of_def)
    then show ?thesis
      using Suc.IH[OF up(2) child_deeper[OF Suc.prems(2) up(1)] Suc.prems(3)] above_child[OF up(1) Suc.prems(4)] by blast
  qed
  then obtain ts where ts: "rmap (branch parents by_id n (i # seen)) ?cs = Inr ts"
    "list_all2 (\<lambda>c t. set (tree_ids t) = ?B c \<and> distinct (tree_ids t)) ?cs ts"
    using rmap_list_all2[of ?cs "branch parents by_id n (i # seen)" "\<lambda>c t. set (tree_ids t) = ?B c \<and> distinct (tree_ids t)"] by blast
  have cs: "\<forall>c \<in> set ?cs. ?up c = Some i" "distinct ?cs" using Suc.prems(3) by (auto simp: children_of_def)
  have "\<forall>c \<in> set ?cs. \<forall>c' \<in> set ?cs. c \<noteq> c' \<longrightarrow> ?B c \<inter> ?B c' = {}"
    using cs(1) child_deeper[OF Suc.prems(2)] tree_links.below_disjoint by blast
  from concat_disjoint[OF ts(2) cs(2) this]
  have ids: "distinct (concat (map tree_ids ts))" "set (concat (map tree_ids ts)) = (\<Union>c \<in> set ?cs. ?B c)" by auto
  have apart: "i \<notin> ?B c" if "c \<in> set ?cs" for c using tree_links.not_below_child[OF Suc.prems(2)] cs(1) that by blast
  then have "i \<notin> set (concat (map tree_ids ts))" unfolding ids(2) by blast
  moreover have "tree_links.below parents by_id (Suc n) i = insert i (\<Union>c \<in> set ?cs. ?B c)"
    unfolding tree_links.below_Suc[OF Suc.prems(1)] children_of_def ..
  ultimately show ?case using node ts(1) all ids apart by (simp add: branch.simps[of _ _ "Suc n"])
qed

lemma nodes_by_node_id_keys:
  "distinct (map fst (nodes_by_node_id nodes))" "set (map fst (nodes_by_node_id nodes)) = set (map nv_node_id nodes)"
proof -
  have keys: "fst ` set (dict_set k v d) = insert k (fst ` set d)" for k v and d :: "node_view dict"
    by (simp add: dom_map_of_conv_image_fst[symmetric] update_conv')
  have "dict_wf acc \<Longrightarrow> dict_wf (fold (\<lambda>node acc. dict_set (nv_node_id node) node acc) nodes acc)"
    "fst ` set (fold (\<lambda>node acc. dict_set (nv_node_id node) node acc) nodes acc) = fst ` set acc \<union> set (map nv_node_id nodes)" for acc
    by (induction nodes arbitrary: acc) (auto simp: dict_wf_set keys)
  from this[of "[]"] show "distinct (map fst (nodes_by_node_id nodes))" "set (map fst (nodes_by_node_id nodes)) = set (map nv_node_id nodes)"
    by (simp_all add: nodes_by_node_id_def)
qed

text \<open>C36: the tree of a projection shows every node that is linked to a root, once.  Whatever the nodes and
  their parents are, building the tree succeeds; its nodes are exactly the nodes from which at most
  depth limit minus one steps to a parent lead to a node without parent, and none is shown twice.  So the
  guard against nodes that were seen never drops a node, and nodes on a cycle of parents, with all
  below them, are not shown at all.\<close>

theorem tree_shows_linked_nodes:
  "\<exists>forest. build_tree depth_limit nodes parents = Inr forest \<and> distinct (concat (map tree_ids forest)) \<and>
     set (concat (map tree_ids forest)) = {x. x \<in> set (map nv_node_id nodes) \<and>
       (\<exists>k. k \<le> nat (depth_limit - 1) \<and> at_depth (parent_in parents (nodes_by_node_id nodes)) k x)}"
proof -
  let ?by_id = "nodes_by_node_id nodes" let ?up = "parent_in parents ?by_id" let ?n = "nat (depth_limit - 1)"
  let ?B = "tree_links.below parents ?by_id ?n" let ?roots = "filter (\<lambda>i. ?up i = None) (map fst ?by_id)"
  note keys = nodes_by_node_id_keys[of nodes]
  have "\<exists>t. branch parents ?by_id ?n [r] r = Inr t \<and> set (tree_ids t) = ?B r \<and> distinct (tree_ids t)" if "r \<in> set ?roots" for r
  proof (rule branch_shows[OF _ _ keys(1), of r parents 0])
    have "climb ?up 0 r = Some r" by simp
    then show "\<forall>s \<in> set [r]. \<exists>j. climb ?up j r = Some s" by (metis empty_iff list.set(1) set_ConsD)
  qed (use that in \<open>simp_all add: at_depth_0\<close>)
  then obtain ts where ts: "rmap (\<lambda>r. branch parents ?by_id ?n [r] r) ?roots = Inr ts"
    "list_all2 (\<lambda>r t. set (tree_ids t) = ?B r \<and> distinct (tree_ids t)) ?roots ts"
    using rmap_list_all2[of ?roots "\<lambda>r. branch parents ?by_id ?n [r] r" "\<lambda>r t. set (tree_ids t) = ?B r \<and> distinct (tree_ids t)"] by blast
  have "\<forall>r \<in> set ?roots. \<forall>r' \<in> set ?roots. r \<noteq> r' \<longrightarrow> ?B r \<inter> ?B r' = {}"
    using tree_links.below_disjoint[of parents ?by_id 0] by (simp add: at_depth_0)
  from concat_disjoint[OF ts(2) _ this]
  have ids: "distinct (concat (map tree_ids ts))" "set (concat (map tree_ids ts)) = (\<Union>r \<in> set ?roots. ?B r)" using keys(1) by auto
  have root: "(\<exists>r. r \<in> set (map fst ?by_id) \<and> ?up r = None \<and> climb ?up k x = Some r) \<longleftrightarrow> at_depth ?up k x"
    if "x \<in> set (map fst ?by_id)" for x k
    using tree_links.climb_known[OF that, of parents k] by (auto simp: at_depth_def split: option.splits)
  have "x \<in> (\<Union>r \<in> set ?roots. ?B r) \<longleftrightarrow> x \<in> set (map fst ?by_id) \<and> (\<exists>k. k \<le> ?n \<and> at_depth ?up k x)" for x
  proof (cases "x \<in> set (map fst ?by_id)")
    case True
    then show ?thesis unfolding root[OF True, symmetric] tree_links.below_def set_filter UN_iff mem_Collect_eq by blast
  qed (simp add: tree_links.below_def)
  then have "(\<Union>r \<in> set ?roots. ?B r) = {x. x \<in> set (map fst ?by_id) \<and> (\<exists>k. k \<le> ?n \<and> at_depth ?up k x)}" by blast
  then show ?thesis using ts(1) ids unfolding build_tree_def Let_def keys(2) by simp
qed

section \<open>The latest state of a result\<close>

abbreviation result_id_of :: "(pyval \<Rightarrow> string) \<Rightarrow> pyval dict \<Rightarrow> string" where
  "result_id_of str_of event \<equiv> text_or_empty str_of (get event ''result_id'')"

abbreviation recorded_at_of :: "(pyval \<Rightarrow> string) \<Rightarrow> pyval dict \<Rightarrow> string" where
  "recorded_at_of str_of event \<equiv> text_or_empty str_of (get event ''recorded_at'')"

definition versions :: "(pyval \<Rightarrow> string) \<Rightarrow> string \<Rightarrow> pyval dict list \<Rightarrow> string \<Rightarrow> (nat \<times> pyval dict) list" where
  "versions str_of kind events i =
     filter (\<lambda>(_, event). get event ''event_kind'' = PStr kind \<and> result_id_of str_of event = i) (List.enumerate 0 events)"

definition latest :: "(pyval \<Rightarrow> string) \<Rightarrow> string \<Rightarrow> pyval dict list \<Rightarrow> string \<Rightarrow> folded" where
  "latest str_of kind events i =
     (let vs = versions str_of kind events i in
      \<lparr>fo_event = snd (last vs), fo_recorded_order = fst (last vs), fo_first_recorded_at = recorded_at_of str_of (snd (hd vs)),
       fo_last_updated_at = recorded_at_of str_of (snd (last vs)), fo_update_count = int (length vs)\<rparr>)"

definition ids_in_order :: "(pyval \<Rightarrow> string) \<Rightarrow> string \<Rightarrow> pyval dict list \<Rightarrow> string list" where
  "ids_in_order str_of kind events =
     rev (remdups (rev (filter (\<lambda>i. i \<noteq> []) (map (result_id_of str_of) (filter (\<lambda>event. get event ''event_kind'' = PStr kind) events)))))"

lemma dict_set_graph:
  "distinct ks \<Longrightarrow> dict_set i v (map (\<lambda>j. (j, f j)) ks) = map (\<lambda>j. (j, if j = i then v else f j)) (if i \<in> set ks then ks else ks @ [i])"
  by (induction ks) auto

lemma dict_get_graph: "dict_get (map (\<lambda>j. (j, f j)) ks) i = (if i \<in> set ks then Some (f i) else None)"
  by (induction ks) auto

lemma versions_snoc:
  "versions str_of kind (es @ [e]) i = versions str_of kind es i @
     (if get e ''event_kind'' = PStr kind \<and> result_id_of str_of e = i then [(length es, e)] else [])"
  by (simp add: versions_def enumerate_append_eq)

lemma ids_in_order_snoc:
  "ids_in_order str_of kind (es @ [e]) = ids_in_order str_of kind es @
     (if get e ''event_kind'' = PStr kind \<and> result_id_of str_of e \<noteq> [] \<and> result_id_of str_of e \<notin> set (ids_in_order str_of kind es)
      then [result_id_of str_of e] else [])"
  by (auto simp: ids_in_order_def)

lemma versions_nonempty: "i \<noteq> [] \<Longrightarrow> versions str_of kind es i \<noteq> [] \<longleftrightarrow> i \<in> set (ids_in_order str_of kind es)"
proof (induction es rule: rev_induct)
  case Nil
  then show ?case by (simp add: versions_def ids_in_order_def)
next
  case (snoc e es)
  then show ?case by (auto simp: versions_snoc ids_in_order_snoc)
qed

lemma fold_graph:
  "fold (fold_event str_of kind) (List.enumerate 0 es) [] = map (\<lambda>i. (i, latest str_of kind es i)) (ids_in_order str_of kind es)"
proof (induction es rule: rev_induct)
  case Nil
  then show ?case by (simp add: ids_in_order_def)
next
  case (snoc e es)
  let ?i = "result_id_of str_of e"
  have step: "fold (fold_event str_of kind) (List.enumerate 0 (es @ [e])) [] =
      fold_event str_of kind (length es, e) (map (\<lambda>i. (i, latest str_of kind es i)) (ids_in_order str_of kind es))"
    by (simp add: enumerate_append_eq snoc)
  show ?case
  proof (cases "get e ''event_kind'' = PStr kind \<and> ?i \<noteq> []")
    case False
    have "latest str_of kind (es @ [e]) j = latest str_of kind es j" if "j \<in> set (ids_in_order str_of kind es)" for j
      using that False by (auto simp: latest_def versions_snoc ids_in_order_def)
    with False show ?thesis unfolding step by (auto simp: fold_event_def Let_def ids_in_order_snoc)
  next
    case True
    have d: "distinct (ids_in_order str_of kind es)" by (simp add: ids_in_order_def)
    have other: "latest str_of kind (es @ [e]) j = latest str_of kind es j" if "j \<noteq> ?i" for j
      using that by (simp add: latest_def versions_snoc)
    have this_id: "latest str_of kind (es @ [e]) ?i = (case dict_get (map (\<lambda>i. (i, latest str_of kind es i)) (ids_in_order str_of kind es)) ?i of
         None \<Rightarrow> \<lparr>fo_event = e, fo_recorded_order = length es, fo_first_recorded_at = recorded_at_of str_of e,
                  fo_last_updated_at = recorded_at_of str_of e, fo_update_count = 1\<rparr>
       | Some prior \<Rightarrow> \<lparr>fo_event = e, fo_recorded_order = length es, fo_first_recorded_at = fo_first_recorded_at prior,
                  fo_last_updated_at = recorded_at_of str_of e, fo_update_count = fo_update_count prior + 1\<rparr>)"
      using True versions_nonempty[of ?i str_of kind es] by (auto simp: dict_get_graph latest_def versions_snoc Let_def hd_append)
    have "fold (fold_event str_of kind) (List.enumerate 0 (es @ [e])) [] =
        dict_set ?i (latest str_of kind (es @ [e]) ?i) (map (\<lambda>i. (i, latest str_of kind es i)) (ids_in_order str_of kind es))"
      unfolding this_id step using True by (simp add: fold_event_def Let_def)
    then show ?thesis using True by (auto simp: dict_set_graph[OF d] ids_in_order_snoc other)
  qed
qed

text \<open>C37: folding the log keeps the last event of every result.  For the events of a kind, the folded
  results are, in the order in which their ids first occur in the log, the last event with the id, its position, the
  times of the first and of the last event, and the number of its events.\<close>

theorem folding_keeps_latest:
  "fold_by_result_id str_of kind events = map (latest str_of kind events) (ids_in_order str_of kind events)"
  by (simp add: fold_by_result_id_def fold_graph comp_def)

section \<open>The focused graph\<close>

definition known_parent :: "string dict \<Rightarrow> string list \<Rightarrow> string \<Rightarrow> string option" where
  "known_parent parents known i = (case dict_get parents i of
     None \<Rightarrow> None | Some p \<Rightarrow> if p \<noteq> [] \<and> p \<in> set known then Some p else None)"

interpretation graph_links: parent_links "known_parent parents known" known for parents known
  by unfold_locales (auto simp: known_parent_def split: option.splits if_splits)

declare ancestors.simps [simp del]

lemma ancestors_step:
  "ancestors parents known seen (dict_get parents i) = (case known_parent parents known i of
     None \<Rightarrow> [] | Some p \<Rightarrow> if p \<in> set seen then [] else p # ancestors parents known (p # seen) (dict_get parents p))"
  by (subst ancestors.simps) (auto simp: known_parent_def split: option.splits)

lemma ancestors_sound:
  "parent = dict_get parents i \<Longrightarrow> x \<in> set (ancestors parents known seen parent) \<Longrightarrow> \<exists>k. climb (known_parent parents known) (Suc k) i = Some x"
proof (induction parents known seen parent arbitrary: i rule: ancestors.induct)
  case (1 parents known seen parent)
  obtain p where p: "known_parent parents known i = Some p" "p \<notin> set seen" "x = p \<or> x \<in> set (ancestors parents known (p # seen) (dict_get parents p))"
    using 1(3) unfolding 1(2) ancestors_step[of parents known seen i]
    by (cases "known_parent parents known i") (auto split: if_splits)
  have parent: "parent = Some p" "p \<noteq> [] \<and> p \<notin> set seen \<and> p \<in> set known"
    using p(1,2) 1(2) by (auto simp: known_parent_def split: option.splits if_splits)
  from p(3) show ?case
  proof
    assume "x = p"
    then show ?thesis using p(1) by (intro exI[of _ 0]) simp
  next
    assume "x \<in> set (ancestors parents known (p # seen) (dict_get parents p))"
    then obtain k where "climb (known_parent parents known) (Suc k) p = Some x" using 1(1)[OF parent refl] by blast
    then show ?thesis using p(1) by (intro exI[of _ "Suc k"]) simp
  qed
qed

lemma ancestors_closed:
  assumes "parent = dict_get parents i" "i \<in> set seen"
    and "\<forall>s \<in> set seen. s \<noteq> i \<longrightarrow> (\<forall>q. known_parent parents known s = Some q \<longrightarrow> q \<in> set seen)"
  shows "\<forall>s \<in> set seen \<union> set (ancestors parents known seen parent). \<forall>q. known_parent parents known s = Some q \<longrightarrow>
    q \<in> set seen \<union> set (ancestors parents known seen parent)"
  using assms
proof (induction parents known seen parent arbitrary: i rule: ancestors.induct)
  case (1 parents known seen parent)
  let ?up = "known_parent parents known"
  note step = ancestors_step[of parents known seen i, folded 1(2)]
  show ?case
  proof (cases "\<exists>p. ?up i = Some p \<and> p \<notin> set seen")
    case False
    then have "ancestors parents known seen parent = []" unfolding step by (auto split: option.splits)
    then show ?thesis using False 1(4) by auto
  next
    case True
    then obtain p where p: "?up i = Some p" "p \<notin> set seen" by blast
    have parent: "parent = Some p" "p \<noteq> [] \<and> p \<notin> set seen \<and> p \<in> set known"
      using p 1(2) by (auto simp: known_parent_def split: option.splits if_splits)
    have "\<forall>s \<in> set (p # seen). s \<noteq> p \<longrightarrow> (\<forall>q. ?up s = Some q \<longrightarrow> q \<in> set (p # seen))"
      using 1(4) p(1) by auto
    from 1(1)[OF parent refl _ this] show ?thesis using p by (simp add: step)
  qed
qed

lemma ancestors_all:
  "insert i (set (ancestors parents known [i] (dict_get parents i))) = {x. \<exists>k. climb (known_parent parents known) k i = Some x}" (is "?A = ?C")
proof
  show "?A \<subseteq> ?C"
  proof
    fix x assume "x \<in> ?A"
    then consider "x = i" | "x \<in> set (ancestors parents known [i] (dict_get parents i))" by blast
    then show "x \<in> ?C"
    proof cases
      case 1
      then show ?thesis by (auto intro: exI[of _ 0])
    next
      case 2
      then show ?thesis using ancestors_sound[OF refl] by blast
    qed
  qed
  have closed: "q \<in> ?A" if "known_parent parents known s = Some q" "s \<in> ?A" for s q
    using ancestors_closed[OF refl, of i "[i]" parents known] that by auto
  have "climb (known_parent parents known) k i = Some x \<Longrightarrow> x \<in> ?A" for k x
  proof (induction k arbitrary: x)
    case (Suc k)
    then show ?case using closed by (auto simp: climb_Suc_end simp del: climb.simps(2))
  qed simp
  then show "?C \<subseteq> ?A" by blast
qed

lemma matched_ids_cong:
  "set sts = set sts' \<Longrightarrow> set tgs = set tgs' \<Longrightarrow> matched_ids str_of sts tgs by_id = matched_ids str_of sts' tgs' by_id"
proof -
  assume s: "set sts = set sts'" and t: "set tgs = set tgs'"
  then have "sts = [] \<longleftrightarrow> sts' = []" "tgs = [] \<longleftrightarrow> tgs' = []" by (metis set_empty)+
  with s t show ?thesis unfolding matched_ids_def node_matches_def by simp
qed

lemma matched_ids_known: "set (matched_ids str_of sts tgs by_id) \<subseteq> set (map fst by_id)"
  by (auto simp: matched_ids_def)

lemma selected_all: "set (selected_ids True parents known matched) = {x. \<exists>i k. i \<in> set matched \<and> climb (known_parent parents known) k i = Some x}"
proof -
  have "set (selected_ids True parents known matched) = (\<Union>i \<in> set matched. insert i (set (ancestors parents known [i] (dict_get parents i))))"
    by (auto simp: selected_ids_def)
  then show ?thesis unfolding ancestors_all by blast
qed

text \<open>C38: a focused graph shows the nodes that match the filter with all their ancestors, and nothing else.
  When a status or a tag is asked for and ancestors are included, the ids of the shown nodes are exactly those
  reached from a matching node by steps to a known parent, the shown edges are the edges between shown
  nodes, and the two counts of matched and of context nodes add up to the number of shown ids.\<close>

theorem focused_graph_closed:
  assumes "build_explore_graph_view str_of statuses tags True node_limit nodes edges = Inr v" "gv_active v"
    and "by_id = nodes_by_node_id (filter (\<lambda>node. nv_node_id node \<noteq> []) nodes)"
  shows "set (map nv_node_id (gv_nodes v)) = {x. \<exists>i k. i \<in> set (matched_ids str_of (gv_statuses v) (gv_tags v) by_id) \<and>
      climb (known_parent (parent_map nodes edges) (map fst by_id)) k i = Some x} \<and>
    gv_edges v = filter (\<lambda>edge. ed_from_node edge \<in> set (map nv_node_id (gv_nodes v)) \<and> ed_to_node edge \<in> set (map nv_node_id (gv_nodes v))) edges \<and>
    gv_matched_node_count v + gv_context_node_count v = int (card (set (map nv_node_id (gv_nodes v))))"
proof -
  obtain sts where sts: "rmap (choice str_of NODE_STATUSES []) statuses = Inr sts"
    using assms(1) by (auto simp: build_explore_graph_view_def res_iff)
  define tgs where "tgs = filter (\<lambda>t. t \<noteq> []) (map (\<lambda>t. strip (text_or_empty str_of t)) tags)"
  let ?known = "map fst by_id" let ?parents = "parent_map nodes edges" let ?m = "matched_ids str_of sts tgs by_id"
  define sel where "sel = selected_ids True ?parents ?known ?m"
  have active: "sts \<noteq> [] \<or> tgs \<noteq> []"
    and v: "gv_nodes v = filter (\<lambda>node. nv_node_id node \<in> set sel) nodes"
      "gv_edges v = filter (\<lambda>edge. ed_from_node edge \<in> set sel \<and> ed_to_node edge \<in> set sel) edges"
      "gv_matched_node_count v + gv_context_node_count v = int (length sel)" "set (gv_statuses v) = set sts" "set (gv_tags v) = set tgs"
    using assms(1,2) unfolding build_explore_graph_view_def sts Let_def rbind_simps tgs_def[symmetric] assms(3)[symmetric] sel_def
    by (auto split: if_splits)
  have sel: "set sel = {x. \<exists>i k. i \<in> set ?m \<and> climb (known_parent ?parents ?known) k i = Some x}" "distinct sel"
    unfolding sel_def by (rule selected_all) (simp add: selected_ids_def)
  have "set sel \<subseteq> set ?known"
    using matched_ids_known[of str_of sts tgs by_id] graph_links.climb_known[of _ ?known ?parents] unfolding sel(1) by blast
  then have ids: "set (map nv_node_id (gv_nodes v)) = set sel"
    using nodes_by_node_id_keys(2)[of "filter (\<lambda>node. nv_node_id node \<noteq> []) nodes"] unfolding v(1) assms(3) by auto
  show ?thesis
    unfolding ids matched_ids_cong[OF v(4,5)] sel(1)[symmetric] v(3) using v(2) distinct_card[OF sel(2)] by simp
qed

definition sample_view :: "string \<Rightarrow> string \<Rightarrow> string \<Rightarrow> node_view" where
  "sample_view node_id parent_id status = \<lparr>nv_node_id = node_id, nv_title = node_id, nv_node_kind = ''area'', nv_status = status,
     nv_summary = [], nv_blocked_reason = [], nv_parent_id = parent_id, nv_agent_id = [], nv_evidence_refs = [], nv_tags = [],
     nv_supersedes = [], nv_finding_count = 0, nv_first_recorded_at = [], nv_last_updated_at = [], nv_update_count = 1,
     nv_research_observation = None, nv_research_summary = None\<rparr>"

definition sample_views :: "node_view list" where
  "sample_views = [sample_view ''root'' [] ''open'', sample_view ''stuck'' ''root'' ''blocked'', sample_view ''other'' [] ''open'']"

lemma focused_graph_closed_witness:
  "\<exists>v. build_explore_graph_view (\<lambda>_. []) [PStr ''blocked''] [] True 60 sample_views [] = Inr v \<and>
     set (map nv_node_id (gv_nodes v)) = {''root'', ''stuck''} \<and> gv_matched_node_count v + gv_context_node_count v = 2"
proof -
  have "\<not> isl (build_explore_graph_view (\<lambda>_. []) [PStr ''blocked''] [] True 60 sample_views [])" by code_simp
  then obtain v where v: "build_explore_graph_view (\<lambda>_. []) [PStr ''blocked''] [] True 60 sample_views [] = Inr v"
    by (cases "build_explore_graph_view (\<lambda>_. []) [PStr ''blocked''] [] True 60 sample_views []") auto
  have "gv_active (projr (build_explore_graph_view (\<lambda>_. []) [PStr ''blocked''] [] True 60 sample_views []))"
    "map nv_node_id (gv_nodes (projr (build_explore_graph_view (\<lambda>_. []) [PStr ''blocked''] [] True 60 sample_views []))) = [''root'', ''stuck'']"
    by code_simp+
  then have "gv_active v" and ids: "map nv_node_id (gv_nodes v) = [''root'', ''stuck'']" by (simp_all add: v)
  from conjunct2[OF conjunct2[OF focused_graph_closed[OF v this(1) refl]]]
  have "gv_matched_node_count v + gv_context_node_count v = 2" unfolding ids by simp
  with v ids show ?thesis by (intro exI[of _ v]) simp
qed

end
