(* ===== verification/Harness_Arm.thy ===== *)
theory Harness_Arm
  imports Episode_Records Harness_Queue Harness_Frontier
begin

text \<open>
  \<open>src/loopx/capabilities/explore/harness_runtime.py\<close>: the epoch loop of \<open>run_budget_arm\<close>, from its progress
  to the arm payload, and the comparison of arms.

  An epoch meets code that other theories model: planning, frontier work, grouping and the queue.
  Here \<open>arm_world\<close> answers for it with what the loop reads of an epoch (the lanes, sizes and clock
  readings, or an exception) and for the observation and advance of the router state.  The elapsed
  minutes include the offset of a resumed arm.  A progress is that of \<open>Harness_Checkpoint\<close>.
\<close>

section \<open>The value of a record\<close>

fun py_len :: "pyval \<Rightarrow> int res" where
  "py_len (PList xs) = Inr (int (length xs))"
| "py_len (PTuple xs) = Inr (int (length xs))"
| "py_len (PStr s) = Inr (int (length s))"
| "py_len (PMap m) = Inr (int (length m))"
| "py_len _ = Inl (TypeError ''object has no len()'')"

record arm_config =
  cf_str_of :: "pyval \<Rightarrow> string"
  cf_sum :: "pyfloat list \<Rightarrow> pyfloat"
  cf_arm_key :: string
  cf_budget_minutes :: pyfloat
  cf_worker_count :: int
  cf_max_epochs :: int
  cf_use_router :: bool
  cf_duration_guard_factor :: pyfloat
  cf_duration_guard_recent :: int
  cf_episode_mode :: bool

definition raw_value :: "arm_config \<Rightarrow> pyval dict \<Rightarrow> pyfloat res" where
  "raw_value C record =
     rbind (py_len (py_or (get record ''observation_keys'') (PList []))) (\<lambda>n.
     rbind (map_or_empty (get record ''weighted_flags'')) (\<lambda>flags.
     rbind (rmap (\<lambda>(_, weight). to_float weight) flags) (\<lambda>ws.
     Inr (fadd (fmul DEFAULT_OBSERVATION_WEIGHT (of_pyint n)) (if ws = [] then Fin 0 else cf_sum C ws)))))"

section \<open>The tally of an epoch\<close>

record timed_lane = lane +
  tl_wall_minutes :: pyfloat

record tally =
  ty_seen :: "string set"
  ty_raw :: pyfloat
  ty_novel :: pyfloat
  ty_variants :: int
  ty_records :: "pyval dict list"
  ty_lanes :: "timed_lane list"

definition tally_record :: "arm_config \<Rightarrow> pyval dict \<Rightarrow> tally \<Rightarrow> tally res" where
  "tally_record C record t = (case credit (cf_str_of C) record (ty_seen t) of
     (Inl e, _) \<Rightarrow> Inl e
   | (Inr (novel, _), seen) \<Rightarrow>
       rbind (raw_value C record) (\<lambda>raw.
       Inr (t\<lparr>ty_seen := seen, ty_raw := fadd (ty_raw t) raw, ty_novel := fadd (ty_novel t) novel,
              ty_variants := ty_variants t + (if truthy (get record ''is_variant'') then 1 else 0),
              ty_records := ty_records t @ [dict_set ''raw_value'' (PFloat raw) (dict_set ''novel_value'' (PFloat novel) record)]\<rparr>)))"

text \<open>The records are written in place, so that the lane has them too.\<close>

definition tally_lane :: "arm_config \<Rightarrow> timed_lane \<Rightarrow> tally \<Rightarrow> tally res" where
  "tally_lane C lane t =
     rbind (rfold (tally_record C) (ln_results lane) t) (\<lambda>t'.
     Inr (t'\<lparr>ty_lanes := ty_lanes t @ [lane\<lparr>ln_results := drop (length (ty_records t)) (ty_records t')\<rparr>]\<rparr>))"

definition lane_value :: "timed_lane \<Rightarrow> pyval" where
  "lane_value lane = map_value
     [(''branch_id'', PStr (ln_branch_id lane)), (''launch_index'', PInt (int (ln_launch_index lane))),
      (''wall_minutes'', PFloat (tl_wall_minutes lane)), (''item_ids'', PList (ln_item_ids lane)),
      (''families'', PList (ln_families lane)), (''results'', PList (map map_value (ln_results lane)))]"

definition metric_records :: "bool \<Rightarrow> pyval dict list \<Rightarrow> pyval dict list" where
  "metric_records episode_mode records =
     (if episode_mode then records
      else map (\<lambda>record. dict_set ''record_kind'' (PStr RECORD_KIND_STANDALONE) (dict_set ''execution_group_id'' PNone record)) records)"

definition cover_family :: "(pyval \<Rightarrow> string) \<Rightarrow> pyfloat \<Rightarrow> pyval dict \<Rightarrow> pyfloat dict \<Rightarrow> pyfloat dict" where
  "cover_family str_of elapsed record coverage =
     (let family = text_or_empty str_of (get record ''family'') in
      if family = [] \<or> dict_get coverage family \<noteq> None then coverage else dict_set family (round_decimals elapsed 3) coverage)"

section \<open>One epoch\<close>

record epoch_run =
  rn_queue_size :: int
  rn_execution_unit_count :: int
  rn_frontier :: pyval
  rn_lanes :: "timed_lane list"
  rn_epoch_wall :: pyfloat
  rn_elapsed_after :: pyfloat
  rn_consumed :: "string set option"

record arm_world =
  aw_elapsed :: "int \<Rightarrow> pyfloat"
  aw_seed_items :: "int \<Rightarrow> pyval dict list res"
  aw_run :: "int \<Rightarrow> pyval dict list \<Rightarrow> arm_progress \<Rightarrow> epoch_run res"
  aw_route :: "int \<Rightarrow> pyval dict list \<Rightarrow> string list \<Rightarrow> pymap option \<Rightarrow> pymap res"

definition router_probes :: "arm_config \<Rightarrow> pyval dict list \<Rightarrow> pyval dict list res" where
  "router_probes C records =
     (if cf_episode_mode C then build_router_probes (cf_str_of C) (cf_sum C) records else Inr (map (record_probe (cf_str_of C)) records))"

definition eligible_families :: "(pyval \<Rightarrow> string) \<Rightarrow> pyval dict list \<Rightarrow> string list" where
  "eligible_families str_of seed_items =
     sort (remdups (map (\<lambda>item. py_text str_of (get item ''family'')) (filter (\<lambda>item. truthy (get item ''family'')) seed_items)))"

definition load_profile_of :: "arm_config \<Rightarrow> int \<Rightarrow> epoch_run \<Rightarrow> pyval dict" where
  "load_profile_of C epoch run =
     [(''source'', PStr (''observed_epoch_'' @ zero_padded 2 (nat epoch) @ ''_'' @ cf_arm_key C)),
      (''parallel_wall_minutes'', PFloat (rn_epoch_wall run)),
      (''max_branch_minutes'', PFloat (case map tl_wall_minutes (rn_lanes run) of [] \<Rightarrow> Fin 0 | x # xs \<Rightarrow> fold (\<lambda>y m. pymax m y) xs x)),
      (''branch_count'', PInt (int (length (rn_lanes run))))]"

definition route_epoch ::
    "arm_config \<Rightarrow> arm_world \<Rightarrow> int \<Rightarrow> pyval dict list \<Rightarrow> epoch_run \<Rightarrow> pyval dict list \<Rightarrow> arm_progress \<Rightarrow> arm_progress res" where
  "route_epoch C W epoch seed_items run records p =
     (if cf_use_router C then
        rbind (router_probes C records) (\<lambda>probes.
        rbind (aw_route W epoch probes (eligible_families (cf_str_of C) seed_items) (ap_router_state p)) (\<lambda>router_state.
        Inr (p\<lparr>ap_router_state := Some router_state, ap_load_profile := Some (entries_of (map_value (load_profile_of C epoch run)))\<rparr>)))
      else Inr p)"

definition anytime_entry :: "arm_config \<Rightarrow> int \<Rightarrow> pyfloat \<Rightarrow> arm_progress \<Rightarrow> pyval dict \<Rightarrow> pymap" where
  "anytime_entry C epoch elapsed p metrics = entries_of (map_value
     [(''epoch'', PInt epoch), (''elapsed_minutes'', PFloat (round_decimals elapsed 3)),
      (''raw_value_cum'', PFloat (round_decimals (ap_raw_value p) 3)), (''novel_value_cum'', PFloat (round_decimals (ap_novel_value p) 3)),
      (''coverage_count_cum'', PInt (int (length (ap_coverage_first_seen p)))), (''variant_records_cum'', PInt (ap_variant_records p)),
      (''requested_worker_minutes_cum'', PFloat (round_decimals (fmul elapsed (of_pyint (cf_worker_count C))) 3)),
      (''execution_metrics_cum'', map_value metrics)])"

definition HARNESS_ARM_SCHEMA_VERSION :: string where
  "HARNESS_ARM_SCHEMA_VERSION = ''loopx_explore_harness_arm_v0''"

definition epoch_entry :: "int \<Rightarrow> epoch_run \<Rightarrow> pyval dict \<Rightarrow> timed_lane list \<Rightarrow> pymap" where
  "epoch_entry epoch run metrics lanes = entries_of (map_value
     [(''schema_version'', PStr HARNESS_ARM_SCHEMA_VERSION), (''epoch'', PInt epoch),
      (''epoch_wall_minutes'', PFloat (round_decimals (rn_epoch_wall run) 3)), (''queue_size'', PInt (rn_queue_size run)),
      (''execution_unit_count'', PInt (rn_execution_unit_count run)), (''execution_metrics'', map_value metrics),
      (''frontier'', rn_frontier run), (''lanes'', PList (map lane_value lanes))])"

text \<open>From the lanes of an epoch to the progress after it.\<close>

definition account_epoch ::
    "arm_config \<Rightarrow> arm_world \<Rightarrow> pyval dict list \<Rightarrow> epoch_run \<Rightarrow> arm_progress \<times> pyval dict \<Rightarrow> (arm_progress \<times> pyval dict) res" where
  "account_epoch C W seed_items run = (\<lambda>(p, metrics_cum).
     let epoch = ap_next_epoch p in
     rbind (rfold (tally_lane C) (rn_lanes run)
        \<lparr>ty_seen = ap_seen p, ty_raw = Fin 0, ty_novel = Fin 0, ty_variants = ap_variant_records p, ty_records = [], ty_lanes = []\<rparr>) (\<lambda>t.
     rbind (summarize_execution_records (cf_str_of C) (cf_sum C) (metric_records (cf_episode_mode C) (ty_records t))) (\<lambda>metrics.
     rbind (combine_execution_metrics (cf_sum C) [metrics_cum, metrics]) (\<lambda>metrics_cum.
     rbind (route_epoch C W epoch seed_items run (ty_records t)
        (p\<lparr>ap_next_epoch := epoch + 1, ap_elapsed_minutes := rn_elapsed_after run, ap_seen := ty_seen t, ap_consumed := rn_consumed run,
           ap_coverage_first_seen := fold (cover_family (cf_str_of C) (rn_elapsed_after run)) (ty_records t) (ap_coverage_first_seen p),
           ap_raw_value := fadd (ap_raw_value p) (ty_raw t), ap_novel_value := fadd (ap_novel_value p) (ty_novel t),
           ap_variant_records := ty_variants t\<rparr>)) (\<lambda>p.
     Inr (p\<lparr>ap_checkpoints := ap_checkpoints p @ [anytime_entry C epoch (rn_elapsed_after run) p metrics_cum],
            ap_epochs := ap_epochs p @ [epoch_entry epoch run metrics (ty_lanes t)]\<rparr>, metrics_cum))))))"

section \<open>The loop\<close>

definition recent_epochs :: "int \<Rightarrow> pymap list \<Rightarrow> pymap list" where
  "recent_epochs n epochs = drop (length epochs - nat (max 1 n)) epochs"

definition stop_before :: "arm_config \<Rightarrow> pyfloat \<Rightarrow> pymap list \<Rightarrow> string option res" where
  "stop_before C elapsed epochs =
     (let remaining = fsub (cf_budget_minutes C) elapsed in
      if epochs = [] then Inr None
      else if fle remaining (Fin 0) then Inr (Some ''budget_exhausted'')
      else if fless (Fin 0) (cf_duration_guard_factor C) then
        rbind (rmap (\<lambda>entry. float_or_zero (map_get entry ''epoch_wall_minutes'')) (recent_epochs (cf_duration_guard_recent C) epochs)) (\<lambda>ws.
        Inr (if fless remaining (fmul (case ws of [] \<Rightarrow> Fin 0 | x # xs \<Rightarrow> fold (\<lambda>y m. pymax m y) xs x) (cf_duration_guard_factor C))
             then Some ''duration_guard'' else None))
      else Inr None)"

record arm_outcome =
  ao_stop_reason :: string
  ao_progress :: arm_progress
  ao_metrics :: "pyval dict"
  ao_written :: "arm_progress list"

text \<open>\<open>n\<close> epochs are left of the range; \<open>written\<close> are the progresses handed to the checkpoint writer.\<close>

fun run_epochs :: "arm_config \<Rightarrow> arm_world \<Rightarrow> nat \<Rightarrow> arm_progress \<Rightarrow> pyval dict \<Rightarrow> arm_progress list \<Rightarrow> arm_outcome res" where
  "run_epochs C W 0 p metrics written =
     Inr \<lparr>ao_stop_reason = ''max_epochs'', ao_progress = p, ao_metrics = metrics, ao_written = written\<rparr>"
| "run_epochs C W (Suc n) p metrics written =
     rbind (stop_before C (aw_elapsed W (ap_next_epoch p)) (ap_epochs p)) (\<lambda>stop. case stop of
       Some reason \<Rightarrow> Inr \<lparr>ao_stop_reason = reason, ao_progress = p, ao_metrics = metrics, ao_written = written\<rparr>
     | None \<Rightarrow>
         rbind (aw_seed_items W (ap_next_epoch p)) (\<lambda>seed_items.
         if seed_items = []
         then Inr \<lparr>ao_stop_reason = ''seed_queue_empty'', ao_progress = p, ao_metrics = metrics, ao_written = written\<rparr>
         else rbind (aw_run W (ap_next_epoch p) seed_items p) (\<lambda>run.
           rbind (account_epoch C W seed_items run (p, metrics)) (\<lambda>(p', metrics').
           run_epochs C W n p' metrics' (written @ [p'])))))"

text \<open>The metrics of the epochs an arm starts with: stored, or summarised from the records.\<close>

definition stored_records :: "pymap \<Rightarrow> pyval dict list res" where
  "stored_records epoch =
     rbind (iter_or_empty (map_get epoch ''lanes'')) (\<lambda>lanes.
     rbind (rmap (\<lambda>lane. rbind (as_map lane) (\<lambda>l. rbind (iter_or_empty (map_get l ''results'')) (rmap as_map))) lanes) (\<lambda>results.
     Inr (map (List.map_filter (\<lambda>(k, v). case k of KStr s \<Rightarrow> Some (s, v) | KOther \<Rightarrow> None)) (concat results))))"

definition historical_metrics :: "arm_config \<Rightarrow> pymap \<Rightarrow> pyval dict res" where
  "historical_metrics C epoch = (case map_get epoch ''execution_metrics'' of
     PMap m \<Rightarrow>
       if list_all (\<lambda>field. map_of m (KStr field) \<noteq> None) (EXECUTION_MINUTE_FIELDS @ EXECUTION_COUNT_FIELDS)
       then Inr (List.map_filter (\<lambda>(k, v). case k of KStr s \<Rightarrow> Some (s, v) | KOther \<Rightarrow> None) m)
       else rbind (stored_records epoch) (\<lambda>records. summarize_execution_records (cf_str_of C) (cf_sum C) (metric_records (cf_episode_mode C) records))
   | _ \<Rightarrow> rbind (stored_records epoch) (\<lambda>records. summarize_execution_records (cf_str_of C) (cf_sum C) (metric_records (cf_episode_mode C) records)))"

definition run_budget_arm :: "arm_config \<Rightarrow> arm_world \<Rightarrow> arm_progress \<Rightarrow> arm_outcome res" where
  "run_budget_arm C W p =
     rbind (rmap (historical_metrics C) (ap_epochs p)) (\<lambda>metrics.
     rbind (combine_execution_metrics (cf_sum C) metrics) (\<lambda>metrics_cum.
     run_epochs C W (nat (cf_max_epochs C + 1 - ap_next_epoch p)) p metrics_cum []))"

definition fresh_progress :: "pymap option \<Rightarrow> string set option \<Rightarrow> arm_progress" where
  "fresh_progress router_state consumed =
     \<lparr>ap_next_epoch = 1, ap_elapsed_minutes = Fin 0, ap_epochs = [], ap_checkpoints = [], ap_seen = {}, ap_router_state = router_state,
      ap_load_profile = None, ap_consumed = consumed, ap_coverage_first_seen = [], ap_raw_value = Fin 0, ap_novel_value = Fin 0,
      ap_variant_records = 0\<rparr>"

section \<open>Comparing arms\<close>

definition auc_step :: "string \<Rightarrow> pyfloat \<Rightarrow> pymap \<Rightarrow> pyfloat \<times> pyfloat \<times> pyfloat \<Rightarrow> (pyfloat \<times> pyfloat \<times> pyfloat) res" where
  "auc_step value_key horizon entry = (\<lambda>(auc, prev_t, prev_v).
     rbind (float_or_zero (map_get entry ''elapsed_minutes'')) (\<lambda>elapsed.
     let t = pymin elapsed horizon in
     rbind (float_or_zero (map_get entry value_key)) (\<lambda>v.
     Inr (if fless prev_t t then (fadd auc (fmul prev_v (fsub t prev_t)), t, v) else (auc, prev_t, v)))))"

definition step_auc :: "string \<Rightarrow> pyfloat \<Rightarrow> pymap list \<Rightarrow> pyfloat res" where
  "step_auc value_key horizon checkpoints =
     rbind (rfold (auc_step value_key horizon) checkpoints (Fin 0, Fin 0, Fin 0)) (\<lambda>(auc, prev_t, prev_v).
     Inr (round_decimals (if fless prev_t horizon then fadd auc (fmul prev_v (fsub horizon prev_t)) else auc) 3))"

definition arm_score :: "pyfloat \<Rightarrow> int \<Rightarrow> pymap \<Rightarrow> pyval dict res" where
  "arm_score budget worker_count arm =
     rbind (rbind (iter_or_empty (map_get arm ''checkpoints'')) (rmap as_map)) (\<lambda>checkpoints.
     let metrics = (case map_get arm ''execution_metrics'' of PMap m \<Rightarrow> m | _ \<Rightarrow> []) in
     rbind (float_or_zero (map_get metrics ''effective_compute_minutes'')) (\<lambda>effective.
     rbind (step_auc ''novel_value_cum'' budget checkpoints) (\<lambda>auc.
     rbind (float_or_zero (map_get arm ''novel_value_total'')) (\<lambda>novel.
     rbind (fdiv novel (pymax (rnd (1 / 1000)) (fmul budget (of_pyint worker_count)))) (\<lambda>per_requested.
     rbind (if fless (Fin 0) effective then rbind (fdiv novel effective) (\<lambda>x. Inr (Some x)) else Inr None) (\<lambda>per_effective.
     Inr [(''novel_value_endpoint'', map_get arm ''novel_value_total''), (''novel_value_auc'', PFloat auc),
          (''raw_value_total'', map_get arm ''raw_value_total''), (''coverage_count'', map_get arm ''coverage_count''),
          (''variant_records_total'', map_get arm ''variant_records_total''), (''epoch_count'', map_get arm ''epoch_count''),
          (''elapsed_minutes'', map_get arm ''elapsed_minutes''), (''stop_reason'', map_get arm ''stop_reason''),
          (''execution_metrics'', PMap metrics),
          (''novel_value_per_requested_worker_minute'', PFloat (round_decimals per_requested 4)),
          (''novel_value_per_effective_compute_minute'', (case per_effective of None \<Rightarrow> PNone | Some x \<Rightarrow> PFloat (round_decimals x 4))),
          (''anytime_curve'', py_or (map_get arm ''checkpoints'') (PList []))]))))))"

definition aggregate_arms :: "pyfloat \<Rightarrow> int \<Rightarrow> (string \<times> pymap) list \<Rightarrow> (string \<times> pyval dict) list res" where
  "aggregate_arms budget worker_count arms =
     rmap (\<lambda>(arm_key, arm). rbind (arm_score budget worker_count arm) (\<lambda>score. Inr (arm_key, score))) arms"

end
