(* ===== verification/Arm_Properties.thy ===== *)
theory Arm_Properties
  imports Harness_Arm Checkpoint_Properties Records_Properties
begin

text \<open>
  What the epoch loop of an arm guarantees: its history stays contiguous, so that every checkpoint it
  writes can be resumed, no epoch starts against the budget or the duration guard, an epoch is counted
  exactly, and the area under the anytime curve ignores what happens after the horizon.
\<close>

declare py_eq.simps [simp del]

section \<open>The tally\<close>

definition variant_count :: "pyval dict list \<Rightarrow> int" where
  "variant_count records = int (length (filter (\<lambda>r. truthy (get r ''is_variant'')) records))"

definition run_records :: "epoch_run \<Rightarrow> pyval dict list" where
  "run_records run = concat (map ln_results (rn_lanes run))"

text \<open>What a record becomes: the same facts with its two values.\<close>

definition valued :: "pyval dict \<Rightarrow> pyval dict \<Rightarrow> bool" where
  "valued r r' \<longleftrightarrow> (\<exists>raw novel. r' = dict_set ''raw_value'' (PFloat raw) (dict_set ''novel_value'' (PFloat novel) r))"

lemma valued_intro: "valued r (dict_set ''raw_value'' (PFloat raw) (dict_set ''novel_value'' (PFloat novel) r))"
  unfolding valued_def by blast

definition tallied :: "tally \<Rightarrow> pyval dict list \<Rightarrow> tally \<Rightarrow> bool" where
  "tallied t records t' \<longleftrightarrow> ty_variants t' = ty_variants t + variant_count records \<and>
     (\<exists>new. ty_records t' = ty_records t @ new \<and> list_all2 valued records new)"

lemma tallied_nil: "tallied t [] t"
  by (simp add: tallied_def variant_count_def)

lemma tallied_append: "tallied t rs t' \<Longrightarrow> tallied t' rs' t'' \<Longrightarrow> tallied t (rs @ rs') t''"
  unfolding tallied_def variant_count_def by (auto intro: list_all2_appendI)

lemma tally_record_tallied: "tally_record C r t = Inr t' \<Longrightarrow> tallied t [r] t'"
  by (auto simp: tally_record_def tallied_def variant_count_def valued_intro res_iff split: prod.splits sum.splits)

lemma tally_records_tallied: "rfold (tally_record C) rs t = Inr t' \<Longrightarrow> tallied t rs t'"
proof (induction rs arbitrary: t)
  case (Cons r rs)
  then obtain u where "tally_record C r t = Inr u" "rfold (tally_record C) rs u = Inr t'" by (auto simp: res_iff)
  then show ?case using tallied_append[OF tally_record_tallied Cons.IH] by fastforce
qed (simp add: tallied_nil)

lemma tally_lane_tallied: "tally_lane C l t = Inr t' \<Longrightarrow> tallied t (ln_results l) t'"
  by (auto simp: tally_lane_def res_iff tallied_def dest!: tally_records_tallied)

lemma tally_lanes_tallied: "rfold (tally_lane C) ls t = Inr t' \<Longrightarrow> tallied t (concat (map ln_results ls)) t'"
proof (induction ls arbitrary: t)
  case (Cons l ls)
  then obtain u where "tally_lane C l t = Inr u" "rfold (tally_lane C) ls u = Inr t'" by (auto simp: res_iff)
  then show ?case using tallied_append[OF tally_lane_tallied Cons.IH] by fastforce
qed (simp add: tallied_nil)

section \<open>Coverage\<close>

abbreviation family_of :: "(pyval \<Rightarrow> string) \<Rightarrow> pyval dict \<Rightarrow> string" where
  "family_of str_of r \<equiv> text_or_empty str_of (get r ''family'')"

lemma valued_family: "valued r r' \<Longrightarrow> family_of str_of r' = family_of str_of r"
  by (auto simp: valued_def get_set)

lemma covered:
  "dict_get (fold (cover_family str_of elapsed) rs cov) f = (case dict_get cov f of
     Some x \<Rightarrow> Some x
   | None \<Rightarrow> if f \<noteq> [] \<and> f \<in> family_of str_of ` set rs then Some (round_decimals elapsed 3) else None)"
proof (induction rs arbitrary: cov)
  case (Cons r rs)
  show ?case
    by (simp add: Cons) (auto simp: cover_family_def Let_def dict_get_set split: option.splits)
qed (simp split: option.splits)

lemma valued_families: "list_all2 valued rs rs' \<Longrightarrow> family_of str_of ` set rs' = family_of str_of ` set rs"
  by (induction rule: list_all2_induct) (auto simp: valued_family)

section \<open>One epoch\<close>

lemma route_epoch_keeps:
  "route_epoch C W epoch items run rs p = Inr p' \<Longrightarrow>
   ap_next_epoch p' = ap_next_epoch p \<and> ap_epochs p' = ap_epochs p \<and> ap_checkpoints p' = ap_checkpoints p \<and>
   ap_variant_records p' = ap_variant_records p \<and> ap_coverage_first_seen p' = ap_coverage_first_seen p"
  by (auto simp: route_epoch_def res_iff split: if_splits)

lemma account_epoch_parts:
  assumes "account_epoch C W items run (p, m) = Inr (p', m')"
  shows "\<exists>t e c. rfold (tally_lane C) (rn_lanes run)
      \<lparr>ty_seen = ap_seen p, ty_raw = Fin 0, ty_novel = Fin 0, ty_variants = ap_variant_records p, ty_records = [], ty_lanes = []\<rparr> = Inr t \<and>
    ap_next_epoch p' = ap_next_epoch p + 1 \<and> ap_variant_records p' = ty_variants t \<and>
    ap_coverage_first_seen p' = fold (cover_family (cf_str_of C) (rn_elapsed_after run)) (ty_records t) (ap_coverage_first_seen p) \<and>
    ap_epochs p' = ap_epochs p @ [e] \<and> map_get e ''epoch'' = PInt (ap_next_epoch p) \<and>
    ap_checkpoints p' = ap_checkpoints p @ [c] \<and> map_get c ''epoch'' = PInt (ap_next_epoch p)"
proof -
  obtain t ms mc q where t: "rfold (tally_lane C) (rn_lanes run)
      \<lparr>ty_seen = ap_seen p, ty_raw = Fin 0, ty_novel = Fin 0, ty_variants = ap_variant_records p, ty_records = [], ty_lanes = []\<rparr> = Inr t"
    and q: "route_epoch C W (ap_next_epoch p) items run (ty_records t)
        (p\<lparr>ap_next_epoch := ap_next_epoch p + 1, ap_elapsed_minutes := rn_elapsed_after run, ap_seen := ty_seen t, ap_consumed := rn_consumed run,
           ap_coverage_first_seen := fold (cover_family (cf_str_of C) (rn_elapsed_after run)) (ty_records t) (ap_coverage_first_seen p),
           ap_raw_value := fadd (ap_raw_value p) (ty_raw t), ap_novel_value := fadd (ap_novel_value p) (ty_novel t),
           ap_variant_records := ty_variants t\<rparr>) = Inr q"
    and p': "p' = q\<lparr>ap_checkpoints := ap_checkpoints q @ [anytime_entry C (ap_next_epoch p) (rn_elapsed_after run) q mc],
            ap_epochs := ap_epochs q @ [epoch_entry (ap_next_epoch p) run ms (ty_lanes t)]\<rparr>"
    using assms unfolding account_epoch_def Let_def prod.case rbind_Inr by blast
  have "map_get (epoch_entry (ap_next_epoch p) run ms (ty_lanes t)) ''epoch'' = PInt (ap_next_epoch p)"
    "map_get (anytime_entry C (ap_next_epoch p) (rn_elapsed_after run) q mc) ''epoch'' = PInt (ap_next_epoch p)"
    by (simp_all add: epoch_entry_def anytime_entry_def map_value_def map_get_def)
  then show ?thesis using t route_epoch_keeps[OF q] by (simp add: p')
qed

text \<open>C40: an epoch is counted exactly.  When the accounting of an epoch succeeds, the number of variant
  records grows by the variant records among the results of its lanes, a family is covered exactly
  when it was covered before or one of the results names it, and a family keeps the time at which it was
  first covered, a new one getting the rounded time after the epoch.\<close>

theorem epoch_counted_exactly:
  assumes "account_epoch C W items run (p, m) = Inr (p', m')"
  shows "ap_variant_records p' = ap_variant_records p + variant_count (run_records run) \<and>
    dict_get (ap_coverage_first_seen p') f = (case dict_get (ap_coverage_first_seen p) f of
      Some x \<Rightarrow> Some x
    | None \<Rightarrow> if f \<noteq> [] \<and> f \<in> family_of (cf_str_of C) ` set (run_records run)
        then Some (round_decimals (rn_elapsed_after run) 3) else None)"
proof -
  obtain t where t: "rfold (tally_lane C) (rn_lanes run)
      \<lparr>ty_seen = ap_seen p, ty_raw = Fin 0, ty_novel = Fin 0, ty_variants = ap_variant_records p, ty_records = [], ty_lanes = []\<rparr> = Inr t"
    "ap_variant_records p' = ty_variants t"
    "ap_coverage_first_seen p' = fold (cover_family (cf_str_of C) (rn_elapsed_after run)) (ty_records t) (ap_coverage_first_seen p)"
    using account_epoch_parts[OF assms] by blast
  have "ty_variants t = ap_variant_records p + variant_count (run_records run)" "list_all2 valued (run_records run) (ty_records t)"
    using tally_lanes_tallied[OF t(1)] by (simp_all add: tallied_def run_records_def)
  then show ?thesis unfolding t(2,3) covered by (simp add: valued_families)
qed

section \<open>History\<close>

lemma rmap_append: "rmap f (xs @ ys) = rbind (rmap f xs) (\<lambda>as. rbind (rmap f ys) (\<lambda>bs. Inr (as @ bs)))"
  by (induction xs) (auto simp: rbind_def split: sum.splits)

lemma epoch_ids_snoc:
  "epoch_ids (map PMap es) = Inr ns \<Longrightarrow> map_get e ''epoch'' = PInt n \<Longrightarrow> epoch_ids (map PMap (es @ [e])) = Inr (ns @ [n])"
  by (simp add: epoch_ids_def rmap_append int_or_zero_def py_or_def)

lemma account_keeps_history:
  assumes "account_epoch C W items run (p, m) = Inr (p', m')" "history_ok p"
  shows "history_ok p' \<and> ap_next_epoch p' = ap_next_epoch p + 1"
proof -
  obtain e c where p': "ap_next_epoch p' = ap_next_epoch p + 1" "ap_epochs p' = ap_epochs p @ [e]" "map_get e ''epoch'' = PInt (ap_next_epoch p)"
    "ap_checkpoints p' = ap_checkpoints p @ [c]" "map_get c ''epoch'' = PInt (ap_next_epoch p)"
    using account_epoch_parts[OF assms(1)] by blast
  have up: "[1..int (length (ap_epochs p'))] = [1..int (length (ap_epochs p))] @ [ap_next_epoch p]"
    using assms(2) upto_rec2[of 1 "int (length (ap_epochs p)) + 1"] by (simp add: p'(2) history_ok_def add.commute)
  show ?thesis
    using assms(2) epoch_ids_snoc[OF _ p'(3)] epoch_ids_snoc[OF _ p'(5)] unfolding history_ok_def up
    by (simp add: p' del: map_append)
qed

section \<open>The loop\<close>

text \<open>A run of epochs: each starts where neither the budget nor the guard stops it, and is numbered next.\<close>

fun epochs_run :: "arm_config \<Rightarrow> arm_world \<Rightarrow> arm_progress \<Rightarrow> arm_progress list \<Rightarrow> bool" where
  "epochs_run C W p [] = True"
| "epochs_run C W p (q # qs) =
     (stop_before C (aw_elapsed W (ap_next_epoch p)) (ap_epochs p) = Inr None \<and> ap_next_epoch q = ap_next_epoch p + 1 \<and> history_ok q \<and>
      epochs_run C W q qs)"

definition stopped :: "arm_config \<Rightarrow> arm_world \<Rightarrow> string \<Rightarrow> arm_progress \<Rightarrow> bool" where
  "stopped C W reason p \<longleftrightarrow>
     (reason = ''max_epochs'' \<and> cf_max_epochs C < ap_next_epoch p) \<or>
     stop_before C (aw_elapsed W (ap_next_epoch p)) (ap_epochs p) = Inr (Some reason) \<or>
     (reason = ''seed_queue_empty'' \<and> aw_seed_items W (ap_next_epoch p) = Inr [])"

lemma run_epochs_trace:
  assumes "run_epochs C W n p m written = Inr out" "history_ok p" "n = nat (cf_max_epochs C + 1 - ap_next_epoch p)"
  shows "\<exists>qs. ao_written out = written @ qs \<and> epochs_run C W p qs \<and> ao_progress out = last (p # qs) \<and> length qs \<le> n \<and>
    stopped C W (ao_stop_reason out) (ao_progress out)"
  using assms
proof (induction n arbitrary: p m written)
  case 0
  then show ?case by (auto simp: stopped_def)
next
  case (Suc n)
  let ?stop = "stop_before C (aw_elapsed W (ap_next_epoch p)) (ap_epochs p)"
  obtain stop where stop: "?stop = Inr stop" using Suc.prems(1) by (auto simp: res_iff)
  show ?case
  proof (cases stop)
    case (Some reason)
    then show ?thesis using Suc.prems(1) stop by (auto simp: stopped_def intro!: exI[of _ "[]"])
  next
    case None
    obtain items where items: "aw_seed_items W (ap_next_epoch p) = Inr items" using Suc.prems(1) stop None by (auto simp: res_iff)
    show ?thesis
    proof (cases "items = []")
      case True
      then show ?thesis using Suc.prems(1) stop None items by (auto simp: stopped_def intro!: exI[of _ "[]"])
    next
      case False
      obtain run q mq where run: "account_epoch C W items run (p, m) = Inr (q, mq)" "run_epochs C W n q mq (written @ [q]) = Inr out"
        using Suc.prems(1) stop None items False by (auto simp: res_iff)
      have q: "history_ok q" "ap_next_epoch q = ap_next_epoch p + 1" using account_keeps_history[OF run(1) Suc.prems(2)] by auto
      have "n = nat (cf_max_epochs C + 1 - ap_next_epoch q)" using Suc.prems(3) by (simp add: q(2))
      from Suc.IH[OF run(2) q(1) this] obtain qs where qs: "ao_written out = (written @ [q]) @ qs" "epochs_run C W q qs"
        "ao_progress out = last (q # qs)" "length qs \<le> n" "stopped C W (ao_stop_reason out) (ao_progress out)" by blast
      then show ?thesis using stop None q by (intro exI[of _ "q # qs"]) simp
    qed
  qed
qed


section \<open>The area under the anytime curve\<close>

definition auc_end :: "pyfloat \<Rightarrow> pyfloat \<times> pyfloat \<times> pyfloat \<Rightarrow> pyfloat" where
  "auc_end horizon = (\<lambda>(auc, prev_t, prev_v). if fless prev_t horizon then fadd auc (fmul prev_v (fsub horizon prev_t)) else auc)"

definition late_entry :: "string \<Rightarrow> pyfloat \<Rightarrow> pymap \<Rightarrow> bool" where
  "late_entry value_key horizon entry \<longleftrightarrow>
     (case float_or_zero (map_get entry ''elapsed_minutes'') of Inl _ \<Rightarrow> False | Inr x \<Rightarrow> fle horizon x) \<and>
     \<not> isl (float_or_zero (map_get entry value_key))"

lemma pymin_late: "fle h x \<Longrightarrow> pymin x h = h"
  by (cases h; cases x) (auto simp: fle_def pymin_def)

lemma fless_irrefl [simp]: "\<not> fless x x"
  by (cases x) auto

lemma auc_step_late:
  assumes "late_entry value_key horizon entry"
  shows "\<exists>s'. auc_step value_key horizon entry s = Inr s' \<and> auc_end horizon s' = auc_end horizon s"
proof -
  obtain auc t v where s: "s = (auc, t, v)" by (cases s)
  obtain x where x: "float_or_zero (map_get entry ''elapsed_minutes'') = Inr x" "fle horizon x"
    using assms by (auto simp: late_entry_def split: sum.splits)
  obtain w where w: "float_or_zero (map_get entry value_key) = Inr w"
    using assms by (cases "float_or_zero (map_get entry value_key)") (auto simp: late_entry_def)
  show ?thesis by (simp add: s auc_step_def x(1) w pymin_late[OF x(2)] auc_end_def)
qed

lemma auc_late: "list_all (late_entry value_key horizon) late \<Longrightarrow>
    \<exists>s'. rfold (auc_step value_key horizon) late s = Inr s' \<and> auc_end horizon s' = auc_end horizon s"
proof (induction late arbitrary: s)
  case (Cons c late)
  obtain s1 where s1: "auc_step value_key horizon c s = Inr s1" "auc_end horizon s1 = auc_end horizon s"
    using auc_step_late Cons.prems by fastforce
  obtain s2 where "rfold (auc_step value_key horizon) late s1 = Inr s2" "auc_end horizon s2 = auc_end horizon s1"
    using Cons by fastforce
  with s1 show ?case by simp
qed simp

lemma rfold_append: "rfold f (xs @ ys) a = rbind (rfold f xs a) (rfold f ys)"
  by (induction xs arbitrary: a) (auto simp: rbind_def split: sum.splits)

text \<open>C1: the area under an arm's anytime curve counts only what was reached before the horizon.  Entries that
  are recorded at or after the horizon, with numbers in their fields, change nothing, whatever value they have.\<close>

theorem auc_ignores_late_entries:
  assumes "list_all (late_entry value_key horizon) late"
  shows "step_auc value_key horizon (checkpoints @ late) = step_auc value_key horizon checkpoints"
proof (cases "rfold (auc_step value_key horizon) checkpoints (Fin 0, Fin 0, Fin 0)")
  case (Inr s)
  have step_auc: "step_auc value_key horizon cs = rbind (rfold (auc_step value_key horizon) cs (Fin 0, Fin 0, Fin 0)) (\<lambda>s. Inr (round_decimals (auc_end horizon s) 3))" for cs
    by (simp add: step_auc_def auc_end_def case_prod_unfold)
  obtain s' where "rfold (auc_step value_key horizon) late s = Inr s'" "auc_end horizon s' = auc_end horizon s"
    using auc_late[OF assms] by blast
  then show ?thesis using Inr by (simp add: step_auc rfold_append)
qed (simp add: step_auc_def rfold_append)

section \<open>Examples\<close>

definition sample_config :: arm_config where
  "sample_config = \<lparr>cf_str_of = (\<lambda>_. []), cf_sum = (\<lambda>_. Fin 0), cf_arm_key = ''arm'', cf_budget_minutes = Fin 1, cf_worker_count = 1,
     cf_max_epochs = 9, cf_use_router = False, cf_duration_guard_factor = Fin 0, cf_duration_guard_recent = 3, cf_episode_mode = False\<rparr>"

definition sample_record :: "pyval dict" where
  "sample_record = [(''item_id'', PStr ''i''), (''family'', PStr ''f''), (''is_variant'', PBool True), (''duration_minutes'', PInt 0)]"

definition sample_run :: epoch_run where
  "sample_run = \<lparr>rn_queue_size = 1, rn_execution_unit_count = 1, rn_frontier = PNone,
     rn_lanes = [\<lparr>ln_branch_id = ''queue_worker_01'', ln_launch_index = 0, ln_item_ids = [PStr ''i''], ln_families = [PStr ''f''],
       ln_results = [sample_record], tl_wall_minutes = Fin 0\<rparr>],
     rn_epoch_wall = Fin 0, rn_elapsed_after = Fin 2, rn_consumed = None\<rparr>"

definition sample_world :: arm_world where
  "sample_world = \<lparr>aw_elapsed = (\<lambda>epoch. if epoch = 1 then Fin 0 else Fin 2), aw_seed_items = (\<lambda>_. Inr [sample_record]),
     aw_run = (\<lambda>_ _ _. Inr sample_run), aw_route = (\<lambda>_ _ _ _. Inl (ValueError ''no router''))\<rparr>"

definition sample_start :: arm_progress where
  "sample_start = fresh_progress None None"

lemma sample_credit: "credit (\<lambda>_. []) sample_record {} = (Inr (Fin 0, 0), {})"
  by code_simp

lemma sample_raw: "raw_value sample_config sample_record = Inr (fadd (fmul DEFAULT_OBSERVATION_WEIGHT (of_pyint 0)) (Fin 0))"
  by (simp add: raw_value_def sample_record_def get_def py_or_def map_or_empty_def)

definition counted_part :: "pyval dict \<Rightarrow> bool" where
  "counted_part part \<longleftrightarrow> list_all (\<lambda>f. \<exists>x. float_or_zero (get part f) = Inr x) EXECUTION_MINUTE_FIELDS \<and>
     list_all (\<lambda>f. \<exists>i. int_or_zero (get part f) = Inr i) EXECUTION_COUNT_FIELDS"

lemma combine_counted: "list_all counted_part ms \<Longrightarrow> \<exists>m. combine_execution_metrics s ms = Inr m"
  by (rule combine_total) (auto simp: counted_part_def list_all_iff)

lemma float_or_zero_float: "\<exists>y. float_or_zero (PFloat x) = Inr y"
  by (simp add: float_or_zero_def py_or_def)

lemma or_zero_int: "float_or_zero (PInt 0) = Inr (Fin 0)" "\<exists>j. int_or_zero (PInt i) = Inr j"
  by (simp_all add: float_or_zero_def int_or_zero_def py_or_def)

lemma sample_metrics:
  "\<exists>m. summarize_execution_records (\<lambda>_. []) s (metric_records False [dict_set ''raw_value'' (PFloat x) (dict_set ''novel_value'' (PFloat y) sample_record)]) = Inr m \<and>
     counted_part m"
proof -
  have blank: "strip (text_or_empty (\<lambda>_. []) PNone) = []" by code_simp
  obtain t where t: "rfold (add_record (\<lambda>_. [])) (metric_records False [dict_set ''raw_value'' (PFloat x) (dict_set ''novel_value'' (PFloat y) sample_record)]) no_totals = Inr t"
    "et_groups t = []"
    by (simp add: metric_records_def sample_record_def add_record_def duration_of_def float_or_zero_def no_totals_def
      get_def py_or_def Let_def adapter_failed_def record_kind_of_def record_group_def blank)
  show ?thesis
    by (simp add: summarize_execution_records_def t Let_def counted_part_def EXECUTION_MINUTE_FIELDS_def EXECUTION_COUNT_FIELDS_def get_def
        float_or_zero_float or_zero_int py_sum_def)
qed

abbreviation no_metrics :: "pyval dict" where
  "no_metrics \<equiv> map (\<lambda>f. (f, PInt 0)) (EXECUTION_MINUTE_FIELDS @ EXECUTION_COUNT_FIELDS)"

lemma sample_account: "\<exists>p m. account_epoch sample_config sample_world [sample_record] sample_run (sample_start, no_metrics) = Inr (p, m)"
proof -
  let ?r = "dict_set ''raw_value'' (PFloat (fadd (fmul DEFAULT_OBSERVATION_WEIGHT (of_pyint 0)) (Fin 0))) (dict_set ''novel_value'' (PFloat (Fin 0)) sample_record)"
  obtain m where m: "summarize_execution_records (\<lambda>_. []) (\<lambda>_. Fin 0) (metric_records False [?r]) = Inr m" "counted_part m"
    using sample_metrics by blast
  moreover have "counted_part no_metrics"
    by (simp add: counted_part_def EXECUTION_MINUTE_FIELDS_def EXECUTION_COUNT_FIELDS_def get_def or_zero_int)
  then obtain m' where "combine_execution_metrics (\<lambda>_. Fin 0) [no_metrics, m] = Inr m'"
    using combine_counted[of "[no_metrics, m]"] m(2) by auto
  moreover have "truthy (get sample_record ''is_variant'')" by code_simp
  ultimately show ?thesis
    using sample_raw sample_credit
    by (simp add: account_epoch_def Let_def sample_run_def sample_start_def fresh_progress_def tally_lane_def tally_record_def route_epoch_def
        sample_config_def)
qed

lemma epoch_counted_exactly_witness:
  "\<exists>p m. account_epoch sample_config sample_world [sample_record] sample_run (sample_start, no_metrics) = Inr (p, m) \<and>
     ap_variant_records p = 1 \<and> dict_get (ap_coverage_first_seen p) ''f'' = Some (round_decimals (Fin 2) 3)"
proof -
  obtain p m where a: "account_epoch sample_config sample_world [sample_record] sample_run (sample_start, no_metrics) = Inr (p, m)"
    using sample_account by blast
  have "variant_count (run_records sample_run) = 1" "''f'' \<in> family_of (\<lambda>_. []) ` set (run_records sample_run)" by code_simp+
  then show ?thesis
    using epoch_counted_exactly[OF a, of "''f''"] a
    by (simp add: sample_start_def fresh_progress_def) (simp add: sample_config_def sample_run_def)
qed

lemma sample_stop: "epochs \<noteq> [] \<Longrightarrow> stop_before sample_config (Fin 2) epochs = Inr (Some ''budget_exhausted'')"
proof -
  have "fle (fsub (Fin 1) (Fin 2)) (Fin 0)" by code_simp
  then show "epochs \<noteq> [] \<Longrightarrow> stop_before sample_config (Fin 2) epochs = Inr (Some ''budget_exhausted'')"
    by (simp add: stop_before_def sample_config_def)
qed


lemma auc_ignores_late_entries_witness:
  "step_auc ''v'' (Fin 5) ([[(KStr ''elapsed_minutes'', PFloat (Fin 1)), (KStr ''v'', PFloat (Fin 2))]] @
       [[(KStr ''elapsed_minutes'', PFloat (Fin 9)), (KStr ''v'', PFloat (Fin 100))]]) =
     step_auc ''v'' (Fin 5) [[(KStr ''elapsed_minutes'', PFloat (Fin 1)), (KStr ''v'', PFloat (Fin 2))]]"
proof (rule auc_ignores_late_entries)
  show "list_all (late_entry ''v'' (Fin 5)) [[(KStr ''elapsed_minutes'', PFloat (Fin 9)), (KStr ''v'', PFloat (Fin 100))]]" by code_simp
qed

end
