(* ===== verification/Spec2Isabelle.thy ===== *)
theory Spec2Isabelle
  imports Capture_Compensation Counterfactual_Properties Replay_Planner Replay_Summary
    Episode_Properties Episode_Release Queue_Properties Turn_Properties
    Checkpoint_Properties Frontier_Properties Scheduler_Properties Records_Properties
    Portfolio_Properties Gate_Properties Append_Properties Projection_Properties Arm_Properties
begin

text \<open>
  \<^bold>\<open>A verification of the execution core of LoopX.\<close>

  LoopX drives long-running agent work.  Its Explore capability
  (\<open>src/loopx/capabilities/explore/\<close>) executes a queue of work items, records what happened in
  traces, captures points from which a run can be replayed, and replays changed suffixes to judge
  hypotheses, and keeps a log of what was found; its turn driver (\<open>src/loopx/control_plane/turn_driver/\<close>) decides from the receipt of
  a host whether a turn may write back and spend quota.  This library models these parts function
  by function and proves what they promise to their callers.

  \<^bold>\<open>How code becomes definitions.\<close>  A dataclass is a record, its \<open>__post_init__\<close> a function from the
  record as given to the normalised record or an exception; an enum is a datatype.  Fallible pure
  code returns \<open>exn + 'a\<close> (\<open>'a res\<close>); effectful code is an \<open>('s, 'a) act\<close>, a function from a state to a
  result and a state, so that what a \<open>raise\<close> leaves behind is visible.  \<open>try/except\<close>, \<open>try/finally\<close> and
  loops are combinators of that monad (\<open>attempt\<close>, \<open>on_error\<close>, \<open>finally_do\<close>, \<open>mapA\<close>).  Dictionaries are
  association lists in insertion order, floats are binary64 numbers with their rounding, integers
  are unbounded.  Agent stores, adapters, callbacks, clocks and error factories are code outside the
  repository: they are arguments of the definitions, act on an abstract world \<open>'w\<close>, and may do
  anything to it and raise anything, except what a theorem assumes of them by name.  Recursion is
  structural or has a termination proof, so no fuel and no bound is needed anywhere.  Concurrency is
  interleaving: the schedule of a child group is an argument over which the theorems quantify, and
  the workers of the queue are a step relation.

  \<^bold>\<open>Theories, in the order of the code.\<close>

  \<^item> \<open>Py_Prelude\<close>, \<open>Py_Float\<close>, \<open>Py_Sort\<close>, \<open>Py_Object\<close>, \<open>Py_Number\<close>: what the sources use of Python.
    Exceptions, the monad with its weakest preconditions (\<open>wp\<close>) and preservation (\<open>keeps\<close>), text,
    dictionaries; binary64 arithmetic and \<open>round\<close>, with monotonicity; stable sorting by a weak order
    (locale \<open>weak_order_on\<close>); dynamically typed objects; \<open>int()\<close>, \<open>float()\<close> and \<open>==\<close> on them.
  \<^item> \<open>Trace_Runtime\<close> (\<open>trace_runtime.py\<close>): public-safe payloads, cursors, events, \<open>TraceLog\<close>.  The locale
    \<open>append_log\<close> states the contract of an append-only log and is interpreted on the model.
    Freezing accepts exactly the public-safe payloads and round trips; logs built by appends are
    well formed.
  \<^item> \<open>Replay_Metrics\<close>, \<open>Replay_Summary\<close> (\<open>replay_metrics.py\<close>): the ledger of counters and minutes (locale
    \<open>counter_ledger\<close>) and the summary of counterfactual results, with reference counts and bounds.
  \<^item> \<open>Replay_Contract\<close> (\<open>replay_runtime.py\<close>, data): fidelities, requests, leases, receipts, reports,
    and \<open>_validate_equivalence_contract\<close>.
  \<^item> \<open>Replay_Registry\<close> (\<open>replay_runtime.py\<close>, \<open>ReplayPointRegistry\<close>): \<open>capture_at_head\<close> with its
    compensation, \<open>select_before\<close>, \<open>run_from\<close>, \<open>release\<close>.  The state \<open>sys\<close> has the world, the logs by
    address, the entries by point id and the ledger.  \<open>Registry_Lemmas\<close> holds the locales
    \<open>quiet_invariant\<close>, \<open>structural_invariant\<close> and \<open>registry_invariant\<close>, in which every operation is
    shown to keep an invariant once; \<open>Registry_Properties\<close>, \<open>Registry_Runs\<close> and
    \<open>Capture_Compensation\<close> interpret them and hold the properties of capture, selection, replay and
    release: atomicity, no leaks, conservation of the counters, results, refusals, termination with
    a result.
  \<^item> \<open>Child_Replay\<close>, \<open>Child_Properties\<close> (\<open>child_replay_runtime.py\<close> and \<open>run_child_group_from\<close>):
    isolated children of a point, prepared in order, run in parallel under any schedule, risk
    assessed, cleaned up; what a group that returns or raises has done.
  \<^item> \<open>Registry_Reach\<close>: all operations, child groups and nested callbacks as steps of the relation
    \<open>evolves\<close>; every reachable state is consistent, and history only grows (locale
    \<open>client_invariant\<close>, interpreted twice).
  \<^item> \<open>Counterfactual\<close>, \<open>Counterfactual_Properties\<close> (\<open>counterfactual_runtime.py\<close>): hypotheses, the
    promotion contract, counterfactual runs and groups on top of the registry.
  \<^item> \<open>Replay_Planner\<close> (\<open>adaptive_replay_planner.py\<close>): which trace positions are worth a replay point.
  \<^item> \<open>Episode_Runtime\<close> (\<open>episode_runtime.py\<close>): exclusion keys, grouping of seeds and variants into
    execution units, execution of a unit with a shared prefix.  \<open>Episode_Properties\<close>: grouping
    partitions the queue, groups are well formed, the preflight reports the first malformed item.
    \<open>Episode_Release\<close>: handles are released exactly once; the recording policy is total.
  \<^item> \<open>Harness_Queue\<close>, \<open>Queue_Properties\<close> (\<open>harness_runtime.py\<close>, \<open>run_queue_epoch\<close>): the pull queue with
    its workers in any interleaving; exclusion, conservation of the items, no deadlock, and a bound on the
    steps that are not polls.
  \<^item> \<open>Json_Disk\<close>: documents of the \<open>json\<close> module and a disk on which any call may fail and which
    remembers every state it went through, so that a process may be killed in any of them.
  \<^item> \<open>Harness_Checkpoint\<close>, \<open>Checkpoint_Properties\<close> (\<open>harness_checkpoint.py\<close>, resume and checkpoint of
    \<open>run_budget_arm\<close>): a checkpoint is replaced as a whole, is accepted by the same arm and restores
    its progress; an arm resumes only what matches it.
  \<^item> \<open>Harness_Frontier\<close>, \<open>Frontier_Properties\<close> (\<open>harness_runtime.py\<close>, novelty ledger, variant catalog,
    frontier work and planners): keys are credited once, frontier work is admitted within its lanes
    and consumed on disk, a plan only reorders the queue.
  \<^item> \<open>Speculative_Scheduler\<close>, \<open>Scheduler_Properties\<close> (\<open>speculative_scheduler.py\<close>): confidence prefixes,
    bundles and independent lanes.  The locale \<open>argmax_loop\<close> is the search both schedulers make, and is
    interpreted on each.
  \<^item> \<open>Router_State\<close>, \<open>Router_Properties\<close> (\<open>router_state.py\<close>): statistics and bias of families.  Bias
    never reaches the statistics, stays clamped, and the router sees what the ledger sees.
  \<^item> \<open>Episode_Records\<close>, \<open>Records_Properties\<close> (\<open>episode_runtime.py\<close>, records): validation of the records of a
    group, their execution summary and the probes the router observes; the router sees exactly the keys
    the ledger credits.
  \<^item> \<open>Harness_Arm\<close>, \<open>Arm_Properties\<close> (\<open>harness_runtime.py\<close>, \<open>run_budget_arm\<close> and \<open>aggregate_arms\<close>): when an arm
    stops, how an epoch is tallied, the loop, and the comparison of arms.  No epoch starts against the
    budget, the history stays one that \<open>Harness_Checkpoint\<close> accepts, and the area under the anytime
    curve ignores what comes after the horizon.
  \<^item> \<open>Resource_Portfolio\<close>, \<open>Portfolio_Properties\<close> (\<open>resource_portfolio.py\<close>): counts per lane, their texts, and
    the selection of items within the lanes; every slot is accounted for.
  \<^item> \<open>Orchestration\<close>, \<open>Gate_Properties\<close> (\<open>orchestration.py\<close>, \<open>harness_gate.py\<close>): the compact form and the
    update of a spawn policy, confined configuration paths, and the gate of the planners, which opens
    for literal grants only.
  \<^item> \<open>Result_Log\<close> (\<open>result_log.py\<close>, events): public-safe texts, the builders of node, edge and finding events,
    validation by rebuilding, the loaders, the batch append and the transport to another goal.
    \<open>Result_Log_Properties\<close>: which texts survive being compacted, and a title that does not;
    \<open>Append_Properties\<close>: a batch is written once.
  \<^item> \<open>Result_Projection\<close>, \<open>Projection_Properties\<close> (\<open>result_log.py\<close>, projection): folding, views, tree, chart,
    focused graph.  The locale \<open>parent_links\<close> holds the facts on chains of parents and is interpreted
    on the parents of the tree and on those of the focused graph.
  \<^item> \<open>Turn_Transaction\<close>, \<open>Turn_Properties\<close> (\<open>turn_driver/transaction.py\<close> and the identity decoder of
    \<open>effect_program.py\<close>): validation of turn receipts and of completion outcomes.

  The parts meet where the code meets: the counterfactual runtime and the child groups call the
  registry, the registry appends to trace logs and counts in the ledger, episodes use the exclusion
  keys by which the queue serialises units, the records of failed items are those of the harness,
  checkpoints hold the ledger, the catalog and the router state of an arm, the ledger and the router
  credit the same records, the gate reads the compact form of a policy, and the projection reads the
  events that the append has validated.

  \<^bold>\<open>Abstractions.\<close>  An exception keeps its class and the constant part of its message; its cause is not
  kept.  Text has the characters U+0000 to U+00FF.  The sign of zero is not represented.  A lock is
  the atomicity of the step it protects.  \<open>BaseException\<close>s that are no \<open>Exception\<close> (an interrupt) are
  not modelled.  Adapters are taken not to write into dictionaries they are handed.

  \<^bold>\<open>Not modelled.\<close>  In the modelled files: in \<open>harness_runtime.py\<close>
  the constructor of the variant catalog and the rolling progress file; the loop of an arm takes
  planning, queue and router feedback, which other theories model in their own terms, as what they
  return for an epoch; in \<open>speculative_scheduler.py\<close> the report of a comparison; in
  \<open>orchestration.py\<close> the texts and options of the user interface and the selection of a
  peer coordinator; in \<open>result_log.py\<close> the path of the log and the clock; in
  \<open>transaction.py\<close> the plan, which hashes canonical JSON and asks the TypeScript
  settlement runtime, and with it the bridge to that runtime. What that runtime answers about
  observations, measurements, yardsticks and the research frontier is an argument. The rounding of
  the built-in \<open>sum\<close> on floats differs between the Python versions the package allows,
  so \<open>sum\<close> is an argument where records and router use it. A disk survives a killed
  process, not a power loss. Of the rest of the repository: the worker-branch planner and the
  writeback of Explore; the composition and research frontiers, which are transports to the
  TypeScript runtime; the quota and todo state of the control plane; chat, servers, extensions,
  presentation, command line and installation, which are input and output around other processes.

  \<^bold>\<open>Plan.\<close>  Next are the worker-branch planner, the writeback of results, and the quota settlement of the
  control plane.
\<close>

end
